(* ===== verification/Prelude.thy ===== *)
theory Prelude
  imports Main "HOL-Library.Word"
begin

text \<open>
  Shared vocabulary of the development: the machine integers and byte buffers of the C++ code,
  the standard-library conversions it uses (\<open>std::tolower\<close> in the C locale, \<open>std::to_string\<close>
  on unsigned values, \<open>std::stoul\<close> / \<open>std::stoull\<close> on an LP64 target), and generic lemmas on
  lists and words the components share.

  A \<open>std::vector<std::uint8_t>\<close> is a \<open>u8 list\<close>; a \<open>std::string\<close> is a HOL \<open>string\<close>, whose
  256 characters are the byte values; \<open>std::size_t\<close> lengths are \<open>nat\<close>.
\<close>

type_synonym u8 = "8 word"
type_synonym u16 = "16 word"
type_synonym u32 = "32 word"
type_synonym u64 = "64 word"
type_synonym bytes = "u8 list"

named_theorems wire_simps \<open>evaluation rules of the wire format\<close>
named_theorems resolve_simps \<open>facts on 16-bit block numbers and absolute indices\<close>

section \<open>Bytes and characters\<close>

definition char_of_byte :: "u8 \<Rightarrow> char" where
  "char_of_byte b = char_of (unat b)"

definition byte_of_char :: "char \<Rightarrow> u8" where
  "byte_of_char c = word_of_nat (of_char c)"

lemma of_char_less_256 [simp]: "(of_char c :: nat) < 256"
  using of_char_mod_256 [where 'a = nat, of c] by (metis mod_less_divisor zero_less_numeral)

lemma char_of_byte_of_char [simp]: "char_of_byte (byte_of_char c) = c"
  by (simp add: char_of_byte_def byte_of_char_def unat_of_nat)

lemma byte_of_char_of_byte [simp]: "byte_of_char (char_of_byte b) = b"
proof -
  have "unat b < 256" by (rule order_less_le_trans [OF unsigned_less]) simp
  then show ?thesis by (simp add: char_of_byte_def byte_of_char_def)
qed

lemma map_char_of_byte_of_char [simp]: "map char_of_byte (map byte_of_char s) = s"
  by (induction s) auto

lemma map_char_of_byte_comp [simp]: "char_of_byte \<circ> byte_of_char = id"
  by (rule ext) simp

lemma byte_of_char_inject [simp]: "byte_of_char c = byte_of_char d \<longleftrightarrow> c = d"
  by (metis char_of_byte_of_char)

text \<open>The NUL byte of a string: C++ strings may hold it, wire strings may not.\<close>

definition nul_free :: "string \<Rightarrow> bool" where
  "nul_free s \<longleftrightarrow> (\<forall>c \<in> set s. byte_of_char c \<noteq> 0)"

lemma nul_free_Nil [simp]: "nul_free []"
  by (simp add: nul_free_def)

lemma nul_free_Cons [simp]: "nul_free (c # s) \<longleftrightarrow> byte_of_char c \<noteq> 0 \<and> nul_free s"
  by (auto simp: nul_free_def)

lemma nul_free_append [simp]: "nul_free (s @ t) \<longleftrightarrow> nul_free s \<and> nul_free t"
  by (auto simp: nul_free_def)

section \<open>Standard-library conversions\<close>

text \<open>\<open>std::tolower\<close> in the C locale: only the 26 upper-case ASCII letters change.\<close>

definition ascii_tolower :: "char \<Rightarrow> char" where
  "ascii_tolower c =
     (let n = (of_char c :: nat) in if 65 \<le> n \<and> n \<le> 90 then char_of (n + 32) else c)"

text \<open>\<open>std::string::find\<close> with a hit.\<close>

fun contains_text :: "string \<Rightarrow> string \<Rightarrow> bool" where
  "contains_text pat [] \<longleftrightarrow> pat = []"
| "contains_text pat (c # cs) \<longleftrightarrow> take (length pat) (c # cs) = pat \<or> contains_text pat cs"

text \<open>\<open>std::to_string\<close> of an unsigned value: decimal digits, no leading zeros.\<close>

definition digit_char :: "nat \<Rightarrow> char" where
  "digit_char d = char_of (48 + d)"

fun to_string :: "nat \<Rightarrow> string" where
  "to_string n =
     (if n < 10 then [digit_char n] else to_string (n div 10) @ [digit_char (n mod 10)])"

declare to_string.simps [simp del]

text \<open>\<open>std::to_string\<close> of a signed value.\<close>

definition int_to_string :: "int \<Rightarrow> string" where
  "int_to_string n = (if n < 0 then CHR ''-'' # to_string (nat (- n)) else to_string (nat n))"

text \<open>The em dash of the source's string literals, in UTF-8.\<close>

definition em_dash :: string where
  "em_dash = [CHR 0xE2, CHR 0x80, CHR 0x94]"

text \<open>A hexadecimal digit in lower case.\<close>

definition hex_char :: "nat \<Rightarrow> char" where
  "hex_char n = ''0123456789abcdef'' ! n"

text \<open>
  \<open>std::stoul\<close> and \<open>std::stoull\<close> (both 64-bit on LP64): skip white space, take an optional sign,
  read decimal digits up to the first other character. No digit raises \<open>std::invalid_argument\<close>,
  a magnitude of \<open>2 ^ 64\<close> or more raises \<open>std::out_of_range\<close>, a minus sign negates modulo
  \<open>2 ^ 64\<close>.
\<close>

datatype exn = InvalidArgument | OutOfRange | DivisionByZero

definition is_digit_char :: "char \<Rightarrow> bool" where
  "is_digit_char c \<longleftrightarrow> 48 \<le> (of_char c :: nat) \<and> (of_char c :: nat) \<le> 57"

definition is_space_char :: "char \<Rightarrow> bool" where
  "is_space_char c \<longleftrightarrow> (let n = (of_char c :: nat) in n = 32 \<or> (9 \<le> n \<and> n \<le> 13))"

fun digits_value :: "nat \<Rightarrow> string \<Rightarrow> nat" where
  "digits_value acc [] = acc"
| "digits_value acc (c # cs) = digits_value (10 * acc + (of_char c - 48)) cs"

definition stoul :: "string \<Rightarrow> exn + u64" where
  "stoul s =
     (let body = dropWhile is_space_char s;
          negative = (case body of c # _ \<Rightarrow> c = CHR ''-'' | [] \<Rightarrow> False);
          unsigned = (case body of
                        c # cs \<Rightarrow> if c = CHR ''-'' \<or> c = CHR ''+'' then cs else body
                      | [] \<Rightarrow> []);
          digits = takeWhile is_digit_char unsigned;
          v = digits_value 0 digits
      in if digits = [] then Inl InvalidArgument
         else if 2 ^ 64 \<le> v then Inl OutOfRange
         else Inr (if negative then - word_of_nat v else word_of_nat v))"

lemma of_char_digit_char [simp]: "d < 10 \<Longrightarrow> (of_char (digit_char d) :: nat) = 48 + d"
  by (simp add: digit_char_def)

lemma is_digit_digit_char [simp]: "d < 10 \<Longrightarrow> is_digit_char (digit_char d)"
  by (simp add: is_digit_char_def)

lemma to_string_nonempty [simp]: "to_string n \<noteq> []"
  by (subst to_string.simps) simp

lemma to_string_digits: "c \<in> set (to_string n) \<Longrightarrow> is_digit_char c"
proof (induction n rule: to_string.induct)
  case (1 n)
  then show ?case by (subst (asm) (2) to_string.simps) (auto split: if_splits)
qed

lemma digits_value_append:
  "digits_value acc (xs @ ys) = digits_value (digits_value acc xs) ys"
  by (induction xs arbitrary: acc) auto

lemma digits_value_to_string [simp]: "digits_value 0 (to_string n) = n"
proof (induction n rule: to_string.induct)
  case (1 n)
  show ?case
  proof (cases "n < 10")
    case True
    then show ?thesis by (subst to_string.simps) simp
  next
    case False
    then have "digits_value 0 (to_string n) = 10 * (n div 10) + n mod 10"
      using "1.IH" by (subst to_string.simps) (simp add: digits_value_append)
    then show ?thesis by simp
  qed
qed

lemma to_string_inject [simp]: "to_string m = to_string n \<longleftrightarrow> m = n"
  by (metis digits_value_to_string)

lemma to_string_nul_free [simp]: "nul_free (to_string n)"
proof -
  have "byte_of_char c \<noteq> 0" if "is_digit_char c" for c
  proof
    assume "byte_of_char c = 0"
    then have "c = char_of_byte 0" by (metis char_of_byte_of_char)
    with that show False by (simp add: char_of_byte_def is_digit_char_def)
  qed
  then show ?thesis using to_string_digits by (auto simp: nul_free_def)
qed

lemma digit_char_not_special:
  "is_digit_char c \<Longrightarrow> \<not> is_space_char c \<and> c \<noteq> CHR ''-'' \<and> c \<noteq> CHR ''+''"
  by (auto simp: is_digit_char_def is_space_char_def Let_def)

lemma stoul_to_string:
  assumes "n < 2 ^ 64"
  shows "stoul (to_string n) = Inr (word_of_nat n)"
proof -
  obtain c cs where ts: "to_string n = c # cs"
    using to_string_nonempty by (cases "to_string n") auto
  have digits: "\<forall>x \<in> set (to_string n). is_digit_char x"
    using to_string_digits by blast
  then have c: "is_digit_char c" by (simp add: ts)
  have drop: "dropWhile is_space_char (to_string n) = to_string n"
    using digit_char_not_special [OF c] by (simp add: ts)
  have take: "takeWhile is_digit_char (to_string n) = to_string n"
    using digits by (simp add: takeWhile_eq_all_conv)
  show ?thesis
    using assms digit_char_not_special [OF c] take drop digits_value_to_string [of n]
    by (simp add: stoul_def Let_def ts)
qed

section \<open>Lists\<close>

lemma list_update_same_length_take_drop:
  "n \<le> length xs \<Longrightarrow> take n xs @ drop n xs = xs"
  by simp

lemma concat_map_append:
  "concat (map f (xs @ ys)) = concat (map f xs) @ concat (map f ys)"
  by simp

section \<open>Words\<close>

lemma unat_width_less:
  "unat (a :: u8) < 256" "unat (b :: u16) < 65536" "unat (c :: u32) < 4294967296"
  "unat (d :: u64) < 18446744073709551616"
  using unsigned_less [where 'a = nat, of a] unsigned_less [where 'a = nat, of b]
    unsigned_less [where 'a = nat, of c] unsigned_less [where 'a = nat, of d] by simp_all

lemma unat_plus_one_word: "x \<noteq> - 1 \<Longrightarrow> unat (x + 1) = Suc (unat (x :: 'a::len word))"
  by (metis add.commute add_eq_0_iff unatSuc)

lemma word_succ_le_iff:
  assumes "a < - 1"
  shows "a + 1 \<le> i \<longleftrightarrow> a < (i :: 'a::len word)"
proof -
  have "unat (a + 1) = Suc (unat a)" using assms by (intro unat_plus_one_word) auto
  then show ?thesis by (simp add: word_le_nat_alt word_less_nat_alt Suc_le_eq)
qed

lemma unat_add_no_overflow:
  "unat x + unat y < 2 ^ LENGTH('a) \<Longrightarrow> unat (x + y :: 'a::len word) = unat x + unat y"
  by (simp add: unat_word_ariths)

lemma word_pred_less: "(x :: 'a::len word) \<noteq> 0 \<Longrightarrow> unat (x - 1) < unat x"
  by (metis measure_unat)

lemma unat_word_pred: "(x :: 'a::len word) \<noteq> 0 \<Longrightarrow> unat (x - 1) = unat x - 1"
  by (simp add: unat_minus_one)

end
