(* ===== verification/Tftp_Packet.thy ===== *)
theory Tftp_Packet
  imports Prelude
begin

unbundle bit_operations_syntax

text \<open>
  \<open>src/src/net/tftp_packet.hpp\<close> and \<open>.cpp\<close>: the packet structure, the parser and the
  serializers. A cursor \<open>(data, length, offset)\<close> of the C++ parser is the list of bytes that remain
  after the offset. A \<open>ParseResult\<close> is a sum: \<open>Inl\<close> the failure reason, \<open>Inr\<close> the packet. Opcodes
  are a datatype with one more constructor \<open>NoOpcode\<close> for the value-initialised field
  (\<open>TftpOpcode opcode{}\<close>, the value 0); error codes are raw 16-bit values, because the parser casts
  any value it reads.
\<close>

section \<open>Data\<close>

datatype tftp_opcode =
  NoOpcode | ReadRequest | WriteRequest | Data | Acknowledgement | Error | OptionAcknowledgement

fun opcode_value :: "tftp_opcode \<Rightarrow> u16" where
  "opcode_value NoOpcode = 0"
| "opcode_value ReadRequest = 1"
| "opcode_value WriteRequest = 2"
| "opcode_value Data = 3"
| "opcode_value Acknowledgement = 4"
| "opcode_value Error = 5"
| "opcode_value OptionAcknowledgement = 6"

type_synonym tftp_error_code = u16

abbreviation NotDefined :: tftp_error_code where "NotDefined \<equiv> 0"
abbreviation FileNotFound :: tftp_error_code where "FileNotFound \<equiv> 1"
abbreviation AccessViolation :: tftp_error_code where "AccessViolation \<equiv> 2"
abbreviation DiskFull :: tftp_error_code where "DiskFull \<equiv> 3"
abbreviation IllegalOperation :: tftp_error_code where "IllegalOperation \<equiv> 4"
abbreviation UnknownTransferId :: tftp_error_code where "UnknownTransferId \<equiv> 5"
abbreviation FileAlreadyExists :: tftp_error_code where "FileAlreadyExists \<equiv> 6"
abbreviation NoSuchUser :: tftp_error_code where "NoSuchUser \<equiv> 7"
abbreviation OptionNegotiationFailed :: tftp_error_code where "OptionNegotiationFailed \<equiv> 8"

record tftp_option =
  option_name :: string
  option_value :: string

record tftp_packet =
  opcode :: tftp_opcode
  filename :: string
  transfer_mode :: string
  options :: "tftp_option list"
  block_number :: u16
  packet_data :: bytes
  error_code :: tftp_error_code
  error_message :: string

definition empty_packet :: tftp_packet where
  "empty_packet =
     \<lparr>opcode = NoOpcode, filename = [], transfer_mode = [], options = [], block_number = 0,
      packet_data = [], error_code = 0, error_message = []\<rparr>"

type_synonym parse_result = "string + tftp_packet"

section \<open>Helpers of the parser and the serializers\<close>

definition append_u16 :: "bytes \<Rightarrow> u16 \<Rightarrow> bytes" where
  "append_u16 out v = out @ [ucast (drop_bit 8 v AND 0xFF), ucast (v AND 0xFF)]"

definition append_string_with_nul :: "bytes \<Rightarrow> string \<Rightarrow> bytes" where
  "append_string_with_nul out str = out @ map byte_of_char str @ [0]"

definition read_u16 :: "u8 \<Rightarrow> u8 \<Rightarrow> u16" where
  "read_u16 hi lo = push_bit 8 (ucast hi) OR ucast lo"

fun read_c_string :: "bytes \<Rightarrow> (string \<times> bytes) option" where
  "read_c_string [] = None"
| "read_c_string (b # bs) =
     (if b = 0 then Some ([], bs)
      else case read_c_string bs of
             None \<Rightarrow> None
           | Some (s, rest) \<Rightarrow> Some (char_of_byte b # s, rest))"

fun equals_ignore_ascii_case :: "string \<Rightarrow> string \<Rightarrow> bool" where
  "equals_ignore_ascii_case [] [] \<longleftrightarrow> True"
| "equals_ignore_ascii_case (a # as) (b # bs) \<longleftrightarrow>
     ascii_tolower a = ascii_tolower b \<and> equals_ignore_ascii_case as bs"
| "equals_ignore_ascii_case _ _ \<longleftrightarrow> False"

definition find_option :: "tftp_packet \<Rightarrow> string \<Rightarrow> tftp_option option" where
  "find_option p name =
     find (\<lambda>option. equals_ignore_ascii_case (option_name option) name) (options p)"

definition has_option :: "tftp_packet \<Rightarrow> string \<Rightarrow> bool" where
  "has_option p name \<longleftrightarrow> find_option p name \<noteq> None"

fun peek_opcode :: "bytes \<Rightarrow> u16 option" where
  "peek_opcode (a # b # _) = Some (read_u16 a b)"
| "peek_opcode _ = None"

lemma read_c_string_shorter:
  "read_c_string bs = Some (s, rest) \<Longrightarrow> length rest < length bs"
  by (induction bs arbitrary: s rest) (fastforce split: if_splits option.splits)+

section \<open>The parser\<close>

function parse_option_list :: "bytes \<Rightarrow> tftp_option list \<Rightarrow> string + tftp_option list" where
  "parse_option_list bs out =
     (if bs = [] then Inr out
      else case read_c_string bs of
             None \<Rightarrow> Inl ''option name not NUL-terminated''
           | Some (name, bs1) \<Rightarrow>
               (case read_c_string bs1 of
                  None \<Rightarrow> Inl ''option value not NUL-terminated''
                | Some (v, bs2) \<Rightarrow>
                    if name = [] then Inl ''empty option name''
                    else parse_option_list bs2
                           (out @ [\<lparr>option_name = name, option_value = v\<rparr>])))"
  by pat_completeness auto
termination
  by (relation "measure (\<lambda>(bs, out). length bs)") (auto dest!: read_c_string_shorter)

declare parse_option_list.simps [simp del]

definition parse_request :: "tftp_opcode \<Rightarrow> bytes \<Rightarrow> parse_result" where
  "parse_request op body =
     (case read_c_string body of
        None \<Rightarrow> Inl ''RRQ/WRQ filename not NUL-terminated''
      | Some (file, body1) \<Rightarrow>
          (case read_c_string body1 of
             None \<Rightarrow> Inl ''RRQ/WRQ mode not NUL-terminated''
           | Some (md, body2) \<Rightarrow>
               (case parse_option_list body2 [] of
                  Inl reason \<Rightarrow> Inl (''RRQ/WRQ '' @ reason)
                | Inr opts \<Rightarrow>
                    Inr (empty_packet\<lparr>opcode := op, filename := file, transfer_mode := md,
                           options := opts\<rparr>))))"

definition parse_tftp_packet :: "bytes \<Rightarrow> parse_result" where
  "parse_tftp_packet data =
     (case data of
        a # b # body \<Rightarrow>
          let raw_opcode = read_u16 a b in
          if raw_opcode = opcode_value ReadRequest then parse_request ReadRequest body
          else if raw_opcode = opcode_value WriteRequest then parse_request WriteRequest body
          else if raw_opcode = opcode_value Data then
            (case body of
               c # d # payload \<Rightarrow>
                 Inr (empty_packet\<lparr>opcode := Data, block_number := read_u16 c d,
                        packet_data := payload\<rparr>)
             | _ \<Rightarrow> Inl ''DATA shorter than the 4-byte header'')
          else if raw_opcode = opcode_value Acknowledgement then
            (case body of
               c # d # _ \<Rightarrow>
                 Inr (empty_packet\<lparr>opcode := Acknowledgement, block_number := read_u16 c d\<rparr>)
             | _ \<Rightarrow> Inl ''ACK shorter than 4 bytes'')
          else if raw_opcode = opcode_value Error then
            (case body of
               c # d # str \<Rightarrow>
                 (case read_c_string str of
                    None \<Rightarrow> Inl ''ERROR message not NUL-terminated''
                  | Some (msg, _) \<Rightarrow>
                      Inr (empty_packet\<lparr>opcode := Error, error_code := read_u16 c d,
                             error_message := msg\<rparr>))
             | _ \<Rightarrow> Inl ''ERROR shorter than the 4-byte header'')
          else if raw_opcode = opcode_value OptionAcknowledgement then
            (case parse_option_list body [] of
               Inl reason \<Rightarrow> Inl (''OACK '' @ reason)
             | Inr opts \<Rightarrow>
                 Inr (empty_packet\<lparr>opcode := OptionAcknowledgement, options := opts\<rparr>))
          else Inl (''unknown opcode '' @ to_string (unat raw_opcode))
      | _ \<Rightarrow> Inl ''datagram shorter than the 2-byte opcode field'')"

section \<open>The serializers\<close>

fun append_options :: "bytes \<Rightarrow> tftp_option list \<Rightarrow> bytes" where
  "append_options out [] = out"
| "append_options out (option # rest) =
     append_options
       (append_string_with_nul (append_string_with_nul out (option_name option))
          (option_value option)) rest"

definition serialize_read_request :: "string \<Rightarrow> string \<Rightarrow> tftp_option list \<Rightarrow> bytes" where
  "serialize_read_request file md opts =
     (let out = append_u16 [] (opcode_value ReadRequest);
          out = append_string_with_nul out file;
          out = append_string_with_nul out md
      in append_options out opts)"

definition serialize_write_request :: "string \<Rightarrow> string \<Rightarrow> tftp_option list \<Rightarrow> bytes" where
  "serialize_write_request file md opts =
     (let out = append_u16 [] (opcode_value WriteRequest);
          out = append_string_with_nul out file;
          out = append_string_with_nul out md
      in append_options out opts)"

definition serialize_data :: "u16 \<Rightarrow> bytes \<Rightarrow> bytes" where
  "serialize_data n payload =
     (let out = append_u16 [] (opcode_value Data);
          out = append_u16 out n
      in out @ payload)"

definition serialize_acknowledgement :: "u16 \<Rightarrow> bytes" where
  "serialize_acknowledgement n =
     (let out = append_u16 [] (opcode_value Acknowledgement) in append_u16 out n)"

definition serialize_error :: "tftp_error_code \<Rightarrow> string \<Rightarrow> bytes" where
  "serialize_error code msg =
     (let out = append_u16 [] (opcode_value Error);
          out = append_u16 out code
      in append_string_with_nul out msg)"

definition serialize_option_acknowledgement :: "tftp_option list \<Rightarrow> bytes" where
  "serialize_option_acknowledgement opts =
     (let out = append_u16 [] (opcode_value OptionAcknowledgement) in append_options out opts)"

section \<open>Names and one-line summaries\<close>

fun opcode_name :: "tftp_opcode \<Rightarrow> string" where
  "opcode_name ReadRequest = ''RRQ''"
| "opcode_name WriteRequest = ''WRQ''"
| "opcode_name Data = ''DATA''"
| "opcode_name Acknowledgement = ''ACK''"
| "opcode_name Error = ''ERROR''"
| "opcode_name OptionAcknowledgement = ''OACK''"
| "opcode_name NoOpcode = ''UNKNOWN''"

definition error_code_name :: "tftp_error_code \<Rightarrow> string" where
  "error_code_name code =
     (if code = NotDefined then ''not defined''
      else if code = FileNotFound then ''file not found''
      else if code = AccessViolation then ''access violation''
      else if code = DiskFull then ''disk full / allocation exceeded''
      else if code = IllegalOperation then ''illegal TFTP operation''
      else if code = UnknownTransferId then ''unknown transfer ID''
      else if code = FileAlreadyExists then ''file already exists''
      else if code = NoSuchUser then ''no such user''
      else if code = OptionNegotiationFailed then ''option negotiation failed''
      else ''unknown error code'')"

fun describe_options :: "tftp_option list \<Rightarrow> string" where
  "describe_options [] = []"
| "describe_options [opt] = option_name opt @ ''='' @ option_value opt"
| "describe_options (opt # rest) =
     option_name opt @ ''='' @ option_value opt @ '','' @ describe_options rest"

definition quote_char :: string where
  "quote_char = [char_of (39 :: nat)]"

definition describe_packet :: "tftp_packet \<Rightarrow> string" where
  "describe_packet p =
     opcode_name (opcode p) @
     (case opcode p of
        NoOpcode \<Rightarrow> []
      | Data \<Rightarrow>
          '' block='' @ to_string (unat (block_number p)) @
          '' len='' @ to_string (length (packet_data p))
      | Acknowledgement \<Rightarrow> '' block='' @ to_string (unat (block_number p))
      | Error \<Rightarrow>
          '' code='' @ to_string (unat (error_code p)) @ '' '' @ quote_char @ error_message p @ quote_char
      | OptionAcknowledgement \<Rightarrow> '' opts=['' @ describe_options (options p) @ '']''
      | _ \<Rightarrow>
          '' file='' @ quote_char @ filename p @ quote_char @ '' mode='' @ transfer_mode p @
          (if options p = [] then [] else '' opts=['' @ describe_options (options p) @ '']''))"

section \<open>Field round trips\<close>

lemma mask8: "(0xFF :: 'a::len word) = mask 8"
  by (simp add: mask_eq_exp_minus_1)

lemma read_append_u16 [simp]:
  "read_u16 (ucast (drop_bit 8 v AND 0xFF)) (ucast (v AND 0xFF)) = v"
  unfolding mask8 read_u16_def by (rule bit_word_eqI) (auto simp: bit_simps)

lemma read_u16_high [simp]: "ucast (drop_bit 8 (read_u16 a b) AND 0xFF) = a"
  unfolding mask8 read_u16_def
  by (rule bit_word_eqI) (auto simp: bit_simps dest: bit_imp_le_length)

lemma read_u16_low [simp]: "ucast (read_u16 a b AND 0xFF) = b"
  unfolding mask8 read_u16_def by (rule bit_word_eqI) (simp add: bit_simps)

lemma append_read_u16 [simp]: "append_u16 out (read_u16 a b) = out @ [a, b]"
  by (simp add: append_u16_def)

lemma append_string_nul_eq [simp]:
  "append_string_with_nul out str = out @ map byte_of_char str @ [0]"
  by (simp add: append_string_with_nul_def)

lemma append_options_eq:
  "append_options out opts =
     out @ concat (map (\<lambda>opt. map byte_of_char (option_name opt) @ [0] @
                              map byte_of_char (option_value opt) @ [0]) opts)"
  by (induction out opts rule: append_options.induct) auto

lemma read_c_string_encoded [simp]:
  "nul_free str \<Longrightarrow> read_c_string (map byte_of_char str @ 0 # rest) = Some (str, rest)"
  by (induction str) auto

lemma read_c_string_decoded:
  "read_c_string bs = Some (str, rest) \<Longrightarrow> nul_free str \<and> bs = map byte_of_char str @ 0 # rest"
  by (induction bs arbitrary: str rest) (fastforce split: if_splits option.splits)+

definition option_wf :: "tftp_option \<Rightarrow> bool" where
  "option_wf opt \<longleftrightarrow>
     option_name opt \<noteq> [] \<and> nul_free (option_name opt) \<and> nul_free (option_value opt)"

abbreviation option_bytes :: "tftp_option list \<Rightarrow> bytes" where
  "option_bytes opts \<equiv> append_options [] opts"

lemma option_bytes_Cons:
  "option_bytes (opt # opts) =
     map byte_of_char (option_name opt) @ 0 # map byte_of_char (option_value opt) @ 0 # option_bytes opts"
  by (simp add: append_options_eq)

lemma parse_option_bytes:
  "list_all option_wf opts \<Longrightarrow> parse_option_list (option_bytes opts) out = Inr (out @ opts)"
proof (induction opts arbitrary: out)
  case Nil
  then show ?case by (simp add: parse_option_list.simps)
next
  case (Cons opt opts)
  then show ?case
    by (subst parse_option_list.simps) (simp add: option_bytes_Cons option_wf_def del: append_options.simps)
qed

lemma parse_option_list_decoded:
  "parse_option_list bs out = Inr res \<Longrightarrow>
     \<exists>opts. res = out @ opts \<and> list_all option_wf opts \<and> bs = option_bytes opts"
proof (induction bs out rule: parse_option_list.induct)
  case (1 bs out)
  show ?case
  proof (cases "bs = []")
    case True
    then show ?thesis using "1.prems" by (auto simp: parse_option_list.simps intro: exI [of _ "[]"])
  next
    case False
    then obtain name bs1 v bs2 where
      r: "read_c_string bs = Some (name, bs1)" "read_c_string bs1 = Some (v, bs2)" "name \<noteq> []"
      and rec: "parse_option_list bs2 (out @ [\<lparr>option_name = name, option_value = v\<rparr>]) = Inr res"
      using "1.prems" by (subst (asm) parse_option_list.simps) (auto split: option.splits if_splits)
    from "1.IH" [OF False r(1) refl r(2) refl r(3) rec] obtain opts where
      "res = out @ [\<lparr>option_name = name, option_value = v\<rparr>] @ opts"
      "list_all option_wf opts" "bs2 = option_bytes opts" by auto
    with r read_c_string_decoded [OF r(1)] read_c_string_decoded [OF r(2)]
    have "res = out @ (\<lparr>option_name = name, option_value = v\<rparr> # opts) \<and>
        list_all option_wf (\<lparr>option_name = name, option_value = v\<rparr> # opts) \<and>
        bs = option_bytes (\<lparr>option_name = name, option_value = v\<rparr> # opts)"
      by (simp add: option_wf_def option_bytes_Cons del: append_options.simps)
    then show ?thesis by blast
  qed
qed

section \<open>The codec\<close>

text \<open>
  Each kind of packet has one shape: the fields its opcode does not use keep their default values.
  \<open>packet_wf\<close> says so, and that strings can be carried on the wire (no NUL inside, no empty option
  name). \<open>serialize_packet\<close> dispatches to the serializer of the opcode.
\<close>

definition request_packet :: "tftp_opcode \<Rightarrow> string \<Rightarrow> string \<Rightarrow> tftp_option list \<Rightarrow> tftp_packet" where
  "request_packet op file md opts =
     empty_packet\<lparr>opcode := op, filename := file, transfer_mode := md, options := opts\<rparr>"

definition data_packet :: "u16 \<Rightarrow> bytes \<Rightarrow> tftp_packet" where
  "data_packet n payload = empty_packet\<lparr>opcode := Data, block_number := n, packet_data := payload\<rparr>"

definition ack_packet :: "u16 \<Rightarrow> tftp_packet" where
  "ack_packet n = empty_packet\<lparr>opcode := Acknowledgement, block_number := n\<rparr>"

definition error_packet :: "tftp_error_code \<Rightarrow> string \<Rightarrow> tftp_packet" where
  "error_packet code msg = empty_packet\<lparr>opcode := Error, error_code := code, error_message := msg\<rparr>"

definition oack_packet :: "tftp_option list \<Rightarrow> tftp_packet" where
  "oack_packet opts = empty_packet\<lparr>opcode := OptionAcknowledgement, options := opts\<rparr>"

lemmas packet_shapes =
  request_packet_def data_packet_def ack_packet_def error_packet_def oack_packet_def empty_packet_def

definition packet_wf :: "tftp_packet \<Rightarrow> bool" where
  "packet_wf p \<longleftrightarrow>
     (case opcode p of
        NoOpcode \<Rightarrow> False
      | Data \<Rightarrow> p = data_packet (block_number p) (packet_data p)
      | Acknowledgement \<Rightarrow> p = ack_packet (block_number p)
      | Error \<Rightarrow> p = error_packet (error_code p) (error_message p) \<and> nul_free (error_message p)
      | OptionAcknowledgement \<Rightarrow> p = oack_packet (options p) \<and> list_all option_wf (options p)
      | op \<Rightarrow> p = request_packet op (filename p) (transfer_mode p) (options p) \<and>
          nul_free (filename p) \<and> nul_free (transfer_mode p) \<and> list_all option_wf (options p))"

definition serialize_packet :: "tftp_packet \<Rightarrow> bytes" where
  "serialize_packet p =
     (case opcode p of
        NoOpcode \<Rightarrow> []
      | ReadRequest \<Rightarrow> serialize_read_request (filename p) (transfer_mode p) (options p)
      | WriteRequest \<Rightarrow> serialize_write_request (filename p) (transfer_mode p) (options p)
      | Data \<Rightarrow> serialize_data (block_number p) (packet_data p)
      | Acknowledgement \<Rightarrow> serialize_acknowledgement (block_number p)
      | Error \<Rightarrow> serialize_error (error_code p) (error_message p)
      | OptionAcknowledgement \<Rightarrow> serialize_option_acknowledgement (options p))"

lemma packet_fields [simp]:
  "opcode (request_packet op f m os) = op" "filename (request_packet op f m os) = f"
  "transfer_mode (request_packet op f m os) = m" "options (request_packet op f m os) = os"
  "opcode (data_packet n d) = Data" "block_number (data_packet n d) = n" "packet_data (data_packet n d) = d"
  "opcode (ack_packet n) = Acknowledgement" "block_number (ack_packet n) = n"
  "opcode (error_packet c e) = Error" "error_code (error_packet c e) = c"
  "error_message (error_packet c e) = e"
  "opcode (oack_packet os) = OptionAcknowledgement" "options (oack_packet os) = os"
  by (simp_all add: packet_shapes)

lemma packet_inject [simp]:
  "data_packet n d = data_packet n' d' \<longleftrightarrow> n = n' \<and> d = d'"
  "ack_packet n = ack_packet n' \<longleftrightarrow> n = n'"
  "error_packet c e = error_packet c' e' \<longleftrightarrow> c = c' \<and> e = e'"
  by (auto simp: packet_shapes)

lemma append_u16_opcode [simp]:
  "append_u16 [] (opcode_value op) = [0, ucast (opcode_value op)]"
  by (cases op) (simp_all add: append_u16_def)

lemma append_u16_eq: "append_u16 out v = out @ append_u16 [] v"
  by (simp add: append_u16_def)

lemma read_opcode [simp]: "read_u16 0 (ucast (opcode_value op)) = opcode_value op"
  by (cases op) (simp_all add: read_u16_def)

lemma opcode_value_inject [simp]: "opcode_value op = opcode_value op' \<longleftrightarrow> op = op'"
  by (cases op; cases op') simp_all

declare opcode_value.simps [simp del]

lemma append_options_prefix: "append_options out opts = out @ option_bytes opts"
  by (simp add: append_options_eq)

lemmas serialize_defs =
  serialize_read_request_def serialize_write_request_def serialize_data_def
  serialize_acknowledgement_def serialize_error_def serialize_option_acknowledgement_def

lemma serialize_shapes:
  "serialize_read_request f m opts =
     0 # ucast (opcode_value ReadRequest) # map byte_of_char f @ 0 # map byte_of_char m @ 0 # option_bytes opts"
  "serialize_write_request f m opts =
     0 # ucast (opcode_value WriteRequest) # map byte_of_char f @ 0 # map byte_of_char m @ 0 # option_bytes opts"
  "serialize_data n d = 0 # ucast (opcode_value Data) # append_u16 [] n @ d"
  "serialize_acknowledgement n = 0 # ucast (opcode_value Acknowledgement) # append_u16 [] n"
  "serialize_error c e = 0 # ucast (opcode_value Error) # append_u16 [] c @ map byte_of_char e @ [0]"
  "serialize_option_acknowledgement opts = 0 # ucast (opcode_value OptionAcknowledgement) # option_bytes opts"
  unfolding serialize_defs Let_def
  by (simp_all add: append_options_prefix [of "_ # _"] append_u16_eq [of "_ # _"]
      del: append_options.simps)

lemma parse_serialized [simp, wire_simps]:
  "parse_tftp_packet (serialize_data n d) = Inr (data_packet n d)"
  "parse_tftp_packet (serialize_acknowledgement n) = Inr (ack_packet n)"
  "nul_free e \<Longrightarrow> parse_tftp_packet (serialize_error c e) = Inr (error_packet c e)"
  "list_all option_wf opts \<Longrightarrow>
     parse_tftp_packet (serialize_option_acknowledgement opts) = Inr (oack_packet opts)"
  "nul_free f \<Longrightarrow> nul_free m \<Longrightarrow> list_all option_wf opts \<Longrightarrow>
     parse_tftp_packet (serialize_read_request f m opts) = Inr (request_packet ReadRequest f m opts)"
  "nul_free f \<Longrightarrow> nul_free m \<Longrightarrow> list_all option_wf opts \<Longrightarrow>
     parse_tftp_packet (serialize_write_request f m opts) = Inr (request_packet WriteRequest f m opts)"
  by (simp_all add: serialize_shapes parse_tftp_packet_def parse_request_def parse_option_bytes
      append_u16_def request_packet_def data_packet_def ack_packet_def error_packet_def oack_packet_def
      del: append_options.simps)

lemma parse_serialize_packet: "packet_wf p \<Longrightarrow> parse_tftp_packet (serialize_packet p) = Inr p"
  by (cases "opcode p") (auto simp: packet_wf_def serialize_packet_def)

text \<open>The other direction: what a successful parse says of the datagram.\<close>

lemma parse_request_decoded:
  assumes "parse_request op body = Inr p"
  shows "\<exists>f m opts. p = request_packet op f m opts \<and> nul_free f \<and> nul_free m \<and>
    list_all option_wf opts \<and>
    body = map byte_of_char f @ 0 # map byte_of_char m @ 0 # option_bytes opts"
proof -
  obtain f b1 m b2 opts where
    r: "read_c_string body = Some (f, b1)" "read_c_string b1 = Some (m, b2)"
      "parse_option_list b2 [] = Inr opts" and p: "p = request_packet op f m opts"
    using assms by (auto simp: parse_request_def request_packet_def split: option.splits sum.splits)
  from parse_option_list_decoded [OF r(3)] have "list_all option_wf opts" "b2 = option_bytes opts"
    by auto
  with read_c_string_decoded [OF r(1)] read_c_string_decoded [OF r(2)] p show ?thesis by blast
qed

lemma append_u16_read [simp]: "append_u16 [] (read_u16 a b) = [a, b]"
  by simp

definition decodes_as :: "bytes \<Rightarrow> tftp_packet \<Rightarrow> bool" where
  "decodes_as d p \<longleftrightarrow>
     packet_wf p \<and>
     (if opcode p \<in> {Acknowledgement, Error}
      then take (length (serialize_packet p)) d = serialize_packet p
      else d = serialize_packet p)"

lemma decodes_asI:
  "packet_wf p \<Longrightarrow> d = serialize_packet p @ t \<Longrightarrow>
   (opcode p \<notin> {Acknowledgement, Error} \<Longrightarrow> t = []) \<Longrightarrow> decodes_as d p"
  by (auto simp: decodes_as_def)

lemma opcode_bytes:
  assumes "read_u16 a b = opcode_value op"
  shows "a = 0 \<and> b = ucast (opcode_value op)"
proof -
  have "[a, b] = append_u16 [] (read_u16 a b)" by simp
  then show ?thesis by (simp add: assms del: append_u16_read append_read_u16)
qed

lemma packet_wf_shapes:
  "packet_wf (data_packet n d)" "packet_wf (ack_packet n)"
  "packet_wf (error_packet c e) \<longleftrightarrow> nul_free e"
  "packet_wf (oack_packet opts) \<longleftrightarrow> list_all option_wf opts"
  "op \<in> {ReadRequest, WriteRequest} \<Longrightarrow>
     packet_wf (request_packet op f m opts) \<longleftrightarrow> nul_free f \<and> nul_free m \<and> list_all option_wf opts"
  by (auto simp: packet_wf_def)

lemma serialize_packet_shapes:
  "serialize_packet (data_packet n d) = serialize_data n d"
  "serialize_packet (ack_packet n) = serialize_acknowledgement n"
  "serialize_packet (error_packet c e) = serialize_error c e"
  "serialize_packet (oack_packet opts) = serialize_option_acknowledgement opts"
  "serialize_packet (request_packet ReadRequest f m opts) = serialize_read_request f m opts"
  "serialize_packet (request_packet WriteRequest f m opts) = serialize_write_request f m opts"
  by (simp_all add: serialize_packet_def)

lemma parse_decodes_request:
  assumes "read_u16 a b = opcode_value op" and "op \<in> {ReadRequest, WriteRequest}"
    and "parse_request op body = Inr p"
  shows "decodes_as (a # b # body) p"
proof -
  obtain f m opts where p: "p = request_packet op f m opts" "nul_free f" "nul_free m"
      "list_all option_wf opts"
    and body: "body = map byte_of_char f @ 0 # map byte_of_char m @ 0 # option_bytes opts"
    using parse_request_decoded [OF assms(3)] by blast
  have "a # b # body = serialize_packet p"
    using opcode_bytes [OF assms(1)] assms(2) body p(1)
    by (auto simp: serialize_packet_shapes serialize_shapes)
  then show ?thesis using p assms(2) by (auto simp: decodes_as_def packet_wf_shapes)
qed

lemma parse_decodes:
  assumes "parse_tftp_packet d = Inr p"
  shows "decodes_as d p"
proof -
  obtain a b body where d: "d = a # b # body"
    using assms by (auto simp: parse_tftp_packet_def split: list.splits)
  let ?op = "read_u16 a b"
  consider (req) op where "?op = opcode_value op" "op \<in> {ReadRequest, WriteRequest}"
      "parse_request op body = Inr p"
    | (data) c e payload where "?op = opcode_value Data" "body = c # e # payload"
      "p = data_packet (read_u16 c e) payload"
    | (ack) c e t where "?op = opcode_value Acknowledgement" "body = c # e # t"
      "p = ack_packet (read_u16 c e)"
    | (err) c e str msg t where "?op = opcode_value Error" "body = c # e # str"
      "read_c_string str = Some (msg, t)" "p = error_packet (read_u16 c e) msg"
    | (oack) opts where "?op = opcode_value OptionAcknowledgement"
      "parse_option_list body [] = Inr opts" "p = oack_packet opts"
    using assms unfolding d parse_tftp_packet_def Let_def
    by (auto simp: data_packet_def ack_packet_def error_packet_def oack_packet_def
        split: if_splits list.splits option.splits sum.splits)
  then show ?thesis
  proof cases
    case req
    then show ?thesis unfolding d by (rule parse_decodes_request)
  next
    case data
    then show ?thesis
      using opcode_bytes [OF data(1)]
      by (intro decodes_asI [where t = "[]"])
        (simp_all add: d packet_wf_shapes serialize_packet_shapes serialize_shapes)
  next
    case (ack c e t)
    then show ?thesis
      using opcode_bytes [OF ack(1)]
      by (intro decodes_asI [where t = t])
        (simp_all add: d packet_wf_shapes serialize_packet_shapes serialize_shapes)
  next
    case (err c e str msg t)
    then show ?thesis
      using opcode_bytes [OF err(1)] read_c_string_decoded [OF err(3)]
      by (intro decodes_asI [where t = t])
        (simp_all add: d packet_wf_shapes serialize_packet_shapes serialize_shapes)
  next
    case oack
    then show ?thesis
      using opcode_bytes [OF oack(1)] parse_option_list_decoded [OF oack(2)]
      by (intro decodes_asI [where t = "[]"])
        (auto simp: d packet_wf_shapes serialize_packet_shapes serialize_shapes)
  qed
qed

section \<open>The interface of the codec\<close>

text \<open>
  What the engine, the proxy and the observer rely on: a packet that is sent is read back as it
  was, and what is read was well formed.
\<close>

locale datagram_codec =
  fixes ser :: "'p \<Rightarrow> bytes"
    and par :: "bytes \<Rightarrow> string + 'p"
    and wf :: "'p \<Rightarrow> bool"
  assumes par_ser: "wf p \<Longrightarrow> par (ser p) = Inr p"
    and par_wf: "par d = Inr p \<Longrightarrow> wf p"
begin

lemma ser_inject: "wf p \<Longrightarrow> wf q \<Longrightarrow> ser p = ser q \<longleftrightarrow> p = q"
  by (metis par_ser sum.inject(2))

lemma par_reencode: "par d = Inr p \<Longrightarrow> par (ser p) = Inr p"
  by (simp add: par_ser par_wf)

lemma par_map_ser: "list_all wf ps \<Longrightarrow> map par (map ser ps) = map Inr ps"
  by (induction ps) (auto simp: par_ser)

end

interpretation codec: datagram_codec serialize_packet parse_tftp_packet packet_wf
  by unfold_locales (auto simp: parse_serialize_packet decodes_as_def dest: parse_decodes)

section \<open>Option lookup\<close>

lemma equals_ignore_case_iff:
  "equals_ignore_ascii_case s t \<longleftrightarrow> map ascii_tolower s = map ascii_tolower t"
  by (induction s t rule: equals_ignore_ascii_case.induct) auto

lemma find_option_Some:
  "find_option p name = Some opt \<Longrightarrow>
     opt \<in> set (options p) \<and> map ascii_tolower (option_name opt) = map ascii_tolower name"
  by (auto simp: find_option_def find_Some_iff equals_ignore_case_iff)

lemma find_option_case_insensitive:
  "map ascii_tolower s = map ascii_tolower t \<Longrightarrow> find_option p s = find_option p t"
  by (simp add: find_option_def equals_ignore_case_iff)

section \<open>The codec as a whole\<close>

text \<open>C15. Every well-formed packet is read back exactly as it was serialized.\<close>
theorem packet_round_trip:
  assumes "packet_wf p"
  shows "parse_tftp_packet (serialize_packet p) = Inr p"
  using assms by (rule codec.par_ser)

theorem packet_round_trip_witness:
  "parse_tftp_packet (serialize_packet (request_packet ReadRequest ''f'' ''octet''
     [\<lparr>option_name = ''blksize'', option_value = ''1024''\<rparr>])) =
   Inr (request_packet ReadRequest ''f'' ''octet'' [\<lparr>option_name = ''blksize'', option_value = ''1024''\<rparr>])"
  by (rule packet_round_trip) code_simp

text \<open>
  C16. What parses is canonical: the packet is well formed and the datagram is its serialization,
  except that bytes after an ACK's block number or after an ERROR's message are ignored.
\<close>
theorem parsed_datagram_canonical:
  assumes "parse_tftp_packet d = Inr p"
  shows "packet_wf p \<and>
    (if opcode p \<in> {Acknowledgement, Error}
     then take (length (serialize_packet p)) d = serialize_packet p else d = serialize_packet p)"
  using parse_decodes [OF assms] by (simp add: decodes_as_def)

theorem parsed_datagram_canonical_witness:
  "take 4 [0, 4, 0, 7, 99] = serialize_packet (ack_packet 7)"
proof -
  have "parse_tftp_packet [0, 4, 0, 7, 99] = Inr (ack_packet 7)" by code_simp
  from parsed_datagram_canonical [OF this] show ?thesis
    by (simp add: serialize_packet_shapes serialize_acknowledgement_def append_u16_def)
qed

end
