(* ===== verification/Udp_Socket.thy ===== *)
theory Udp_Socket
  imports Tftp_Packet
begin

text \<open>
  \<open>src/src/net/endpoint.cpp\<close> and \<open>src/src/net/udp_socket.cpp\<close> as the engine sees them. An endpoint is
  an address family, an address and a port (the TID). A socket is modelled by what the program can
  observe of it: \<open>inbox\<close>, the results its successive \<open>recvfrom\<close> calls will have (the environment's
  script: a datagram and its sender, a time-out, an error), and \<open>outbox\<close>, the datagrams sent so far
  with their destinations. A run of engine code ends in \<open>Returned\<close>, in \<open>Raised\<close> (an exception
  leaves the function; division by zero is reported the same way), or in \<open>Waiting\<close>: it is still
  blocked in \<open>recvfrom\<close> when the script ends. \<open>recvfrom\<close>'s buffer of 70000 bytes is larger than any
  UDP datagram, so its truncation is not modelled. The socket objects over the handles of the system are
  in \<open>Native_Sockets\<close>.
\<close>

section \<open>Endpoints\<close>

datatype endpoint =
    Unbound
  | IPv4 "u8 list" u16
  | IPv6 "u8 list" u16

fun endpoint_port :: "endpoint \<Rightarrow> u16" where
  "endpoint_port (IPv4 _ p) = p"
| "endpoint_port (IPv6 _ p) = p"
| "endpoint_port Unbound = 0"

text \<open>The equality operator: an unbound endpoint equals nothing, itself included.\<close>

fun endpoint_eq :: "endpoint \<Rightarrow> endpoint \<Rightarrow> bool" where
  "endpoint_eq (IPv4 a p) (IPv4 b q) \<longleftrightarrow> p = q \<and> a = b"
| "endpoint_eq (IPv6 a p) (IPv6 b q) \<longleftrightarrow> p = q \<and> a = b"
| "endpoint_eq _ _ \<longleftrightarrow> False"

definition endpoint_valid :: "endpoint \<Rightarrow> bool" where
  "endpoint_valid e \<longleftrightarrow> e \<noteq> Unbound"

lemma endpoint_eq_iff: "endpoint_eq e f \<longleftrightarrow> endpoint_valid e \<and> e = f"
  by (cases e; cases f) (auto simp: endpoint_valid_def)

section \<open>Sockets\<close>

datatype socket_event =
    Datagram bytes endpoint
  | WouldBlock
  | SocketFailure

record udp_socket =
  inbox :: "socket_event list"
  outbox :: "(bytes \<times> endpoint) list"
  receive_timeout :: nat

definition fresh_socket :: "socket_event list \<Rightarrow> udp_socket" where
  "fresh_socket evs = \<lparr>inbox = evs, outbox = [], receive_timeout = 0\<rparr>"

definition send_to :: "udp_socket \<Rightarrow> bytes \<Rightarrow> endpoint \<Rightarrow> udp_socket" where
  "send_to sk datagram peer = sk\<lparr>outbox := outbox sk @ [(datagram, peer)]\<rparr>"

fun send_all :: "udp_socket \<Rightarrow> endpoint \<Rightarrow> bytes list \<Rightarrow> udp_socket" where
  "send_all sk peer [] = sk"
| "send_all sk peer (d # ds) = send_all (send_to sk d peer) peer ds"

definition set_receive_timeout :: "udp_socket \<Rightarrow> nat \<Rightarrow> udp_socket" where
  "set_receive_timeout sk ms = sk\<lparr>receive_timeout := ms\<rparr>"

datatype 'a result =
    Returned 'a udp_socket
  | Raised exn udp_socket
  | Waiting udp_socket

fun bind_result :: "'a result \<Rightarrow> ('a \<Rightarrow> udp_socket \<Rightarrow> 'b result) \<Rightarrow> 'b result" where
  "bind_result (Returned a sk) f = f a sk"
| "bind_result (Raised e sk) f = Raised e sk"
| "bind_result (Waiting sk) f = Waiting sk"

text \<open>
  One \<open>receive_from\<close>: the return value (length, 0 for a time-out, -1 for an error), the buffer and
  the sender. A datagram of length 0 also gives 0: callers cannot tell it from a time-out.
\<close>

definition receive_from :: "udp_socket \<Rightarrow> (int \<times> bytes \<times> endpoint) result" where
  "receive_from sk =
     (case inbox sk of
        [] \<Rightarrow> Waiting sk
      | Datagram d sender # evs \<Rightarrow> Returned (int (length d), d, sender) (sk\<lparr>inbox := evs\<rparr>)
      | WouldBlock # evs \<Rightarrow> Returned (0, [], Unbound) (sk\<lparr>inbox := evs\<rparr>)
      | SocketFailure # evs \<Rightarrow> Returned (-1, [], Unbound) (sk\<lparr>inbox := evs\<rparr>))"

lemma send_all_eq: "send_all sk peer ds = sk\<lparr>outbox := outbox sk @ map (\<lambda>d. (d, peer)) ds\<rparr>"
  by (induction ds arbitrary: sk) (simp_all add: send_to_def)

lemma socket_fields [simp]:
  "inbox (send_to sk d p) = inbox sk" "outbox (send_to sk d p) = outbox sk @ [(d, p)]"
  "inbox (send_all sk p ds) = inbox sk"
  "outbox (send_all sk p ds) = outbox sk @ map (\<lambda>d. (d, p)) ds"
  "inbox (set_receive_timeout sk t) = inbox sk" "outbox (set_receive_timeout sk t) = outbox sk"
  "inbox (fresh_socket evs) = evs" "outbox (fresh_socket evs) = []"
  by (simp_all add: send_to_def send_all_eq set_receive_timeout_def fresh_socket_def)

lemma receive_from_shorter:
  "receive_from sk = Returned r sk' \<Longrightarrow> length (inbox sk') < length (inbox sk)"
  by (auto simp: receive_from_def split: list.splits socket_event.splits)

lemma receive_from_not_raised [simp]: "receive_from sk \<noteq> Raised e sk'"
  by (auto simp: receive_from_def split: list.splits socket_event.splits)

section \<open>Receiving from the locked peer\<close>

text \<open>
  \<open>receive_from_locked_peer\<close> of \<open>tftp_reference_engine.cpp\<close>: strays are answered with ERROR 5 and
  skipped, malformed datagrams of the peer are dropped.
\<close>

datatype receive_result =
    GotPacket tftp_packet
  | TimedOut
  | SocketError

definition unknown_tid_error :: bytes where
  "unknown_tid_error = serialize_error UnknownTransferId ''unknown transfer ID''"

function receive_from_locked_peer :: "udp_socket \<Rightarrow> endpoint \<Rightarrow> receive_result result" where
  "receive_from_locked_peer sk locked_peer =
     (case receive_from sk of
        Waiting sk1 \<Rightarrow> Waiting sk1
      | Raised e sk1 \<Rightarrow> Raised e sk1
      | Returned (received, buffer, sender) sk1 \<Rightarrow>
          if received = 0 then Returned TimedOut sk1
          else if received < 0 then Returned SocketError sk1
          else if \<not> endpoint_eq sender locked_peer then
            receive_from_locked_peer (send_to sk1 unknown_tid_error sender) locked_peer
          else case parse_tftp_packet buffer of
                 Inl _ \<Rightarrow> receive_from_locked_peer sk1 locked_peer
               | Inr packet \<Rightarrow> Returned (GotPacket packet) sk1)"
  by pat_completeness auto
termination
  by (relation "measure (\<lambda>(sk, peer). length (inbox sk))") (auto dest!: receive_from_shorter)

declare receive_from_locked_peer.simps [simp del]

text \<open>The behaviour by the next event of the script.\<close>

lemma receive_locked_Nil:
  "inbox sk = [] \<Longrightarrow> receive_from_locked_peer sk peer = Waiting sk"
  by (subst receive_from_locked_peer.simps) (simp add: receive_from_def)

lemma receive_locked_timeout:
  "inbox sk = WouldBlock # evs \<Longrightarrow>
     receive_from_locked_peer sk peer = Returned TimedOut (sk\<lparr>inbox := evs\<rparr>)"
  by (subst receive_from_locked_peer.simps) (simp add: receive_from_def)

lemma receive_locked_failure:
  "inbox sk = SocketFailure # evs \<Longrightarrow>
     receive_from_locked_peer sk peer = Returned SocketError (sk\<lparr>inbox := evs\<rparr>)"
  by (subst receive_from_locked_peer.simps) (simp add: receive_from_def)

lemma receive_locked_empty:
  "inbox sk = Datagram [] sender # evs \<Longrightarrow>
     receive_from_locked_peer sk peer = Returned TimedOut (sk\<lparr>inbox := evs\<rparr>)"
  by (subst receive_from_locked_peer.simps) (simp add: receive_from_def)

lemma receive_locked_stray:
  "inbox sk = Datagram d sender # evs \<Longrightarrow> d \<noteq> [] \<Longrightarrow> \<not> endpoint_eq sender peer \<Longrightarrow>
     receive_from_locked_peer sk peer =
     receive_from_locked_peer (send_to (sk\<lparr>inbox := evs\<rparr>) unknown_tid_error sender) peer"
  by (subst receive_from_locked_peer.simps) (simp add: receive_from_def)

lemma receive_locked_malformed:
  "inbox sk = Datagram d peer # evs \<Longrightarrow> d \<noteq> [] \<Longrightarrow> endpoint_valid peer \<Longrightarrow>
     parse_tftp_packet d = Inl reason \<Longrightarrow>
     receive_from_locked_peer sk peer = receive_from_locked_peer (sk\<lparr>inbox := evs\<rparr>) peer"
  by (subst receive_from_locked_peer.simps) (simp add: receive_from_def endpoint_eq_iff)

lemma receive_locked_packet:
  "inbox sk = Datagram d peer # evs \<Longrightarrow> endpoint_valid peer \<Longrightarrow>
     parse_tftp_packet d = Inr p \<Longrightarrow>
     receive_from_locked_peer sk peer = Returned (GotPacket p) (sk\<lparr>inbox := evs\<rparr>)"
  by (subst receive_from_locked_peer.simps)
    (auto simp: receive_from_def endpoint_eq_iff parse_tftp_packet_def)

text \<open>Induction on the script, by the seven kinds of next event.\<close>

lemma receive_locked_induct [case_names Nil timeout failure empty stray malformed packet]:
  assumes Nil: "\<And>sk. inbox sk = [] \<Longrightarrow> P sk"
    and timeout: "\<And>sk evs. inbox sk = WouldBlock # evs \<Longrightarrow> P sk"
    and failure: "\<And>sk evs. inbox sk = SocketFailure # evs \<Longrightarrow> P sk"
    and empty: "\<And>sk sender evs. inbox sk = Datagram [] sender # evs \<Longrightarrow> P sk"
    and stray: "\<And>sk d sender evs. inbox sk = Datagram d sender # evs \<Longrightarrow> d \<noteq> [] \<Longrightarrow>
      \<not> endpoint_eq sender peer \<Longrightarrow> P (send_to (sk\<lparr>inbox := evs\<rparr>) unknown_tid_error sender) \<Longrightarrow> P sk"
    and malformed: "\<And>sk d evs reason. inbox sk = Datagram d peer # evs \<Longrightarrow> d \<noteq> [] \<Longrightarrow>
      endpoint_valid peer \<Longrightarrow> parse_tftp_packet d = Inl reason \<Longrightarrow> P (sk\<lparr>inbox := evs\<rparr>) \<Longrightarrow> P sk"
    and packet: "\<And>sk d evs p. inbox sk = Datagram d peer # evs \<Longrightarrow> endpoint_valid peer \<Longrightarrow>
      parse_tftp_packet d = Inr p \<Longrightarrow> P sk"
  shows "P sk"
proof (induction "length (inbox sk)" arbitrary: sk rule: less_induct)
  case less
  show ?case
  proof (cases "inbox sk")
    case Nil
    then show ?thesis by (rule assms(1))
  next
    case (Cons ev evs)
    show ?thesis
    proof (cases ev)
      case (Datagram d sender)
      note ib = Cons [unfolded Datagram]
      consider "d = []" | "d \<noteq> []" "\<not> endpoint_eq sender peer"
        | "d \<noteq> []" "sender = peer" "endpoint_valid peer"
        by (auto simp: endpoint_eq_iff)
      then show ?thesis
      proof cases
        case 1
        then show ?thesis using ib empty by blast
      next
        case 2
        then show ?thesis using ib by (intro stray [OF ib] less) simp_all
      next
        case 3
        then show ?thesis
          using ib packet [of sk d evs] malformed [of sk d evs] less [of "sk\<lparr>inbox := evs\<rparr>"]
          by (cases "parse_tftp_packet d") simp_all
      qed
    qed (use Cons timeout failure in blast)+
  qed
qed

lemmas receive_locked_rules =
  receive_locked_Nil receive_locked_timeout receive_locked_failure receive_locked_empty
  receive_locked_stray receive_locked_malformed receive_locked_packet

lemma receive_locked_not_raised [simp]: "receive_from_locked_peer sk peer \<noteq> Raised e sk'"
  by (induction sk rule: receive_locked_induct [of _ peer]) (simp_all add: receive_locked_rules)

lemma receive_locked_shorter:
  "receive_from_locked_peer sk peer = Returned r sk' \<Longrightarrow> length (inbox sk') < length (inbox sk)"
  by (induction sk rule: receive_locked_induct [of _ peer]) (auto simp: receive_locked_rules)

text \<open>A run of stray datagrams costs one ERROR 5 each and nothing else.\<close>

lemma receive_locked_strays:
  "\<forall>(d, e) \<in> set strays. d \<noteq> [] \<and> \<not> endpoint_eq e peer \<Longrightarrow>
   receive_from_locked_peer
     (sk\<lparr>inbox := map (\<lambda>(d, e). Datagram d e) strays @ rest\<rparr>) peer =
   receive_from_locked_peer
     (sk\<lparr>inbox := rest, outbox := outbox sk @ map (\<lambda>(d, e). (unknown_tid_error, e)) strays\<rparr>) peer"
proof (induction strays arbitrary: sk)
  case Nil
  then show ?case by simp
next
  case (Cons s strays)
  obtain d e where s: "s = (d, e)" by (cases s)
  let ?evs = "map (\<lambda>(d, e). Datagram d e) strays @ rest"
  have "receive_from_locked_peer
      (sk\<lparr>inbox := Datagram d e # ?evs\<rparr>) peer =
      receive_from_locked_peer (sk\<lparr>inbox := ?evs, outbox := outbox sk @ [(unknown_tid_error, e)]\<rparr>) peer"
    using Cons.prems by (subst receive_locked_stray) (auto simp: s send_to_def)
  also have "\<dots> = receive_from_locked_peer
      ((sk\<lparr>outbox := outbox sk @ [(unknown_tid_error, e)]\<rparr>)\<lparr>inbox := ?evs\<rparr>) peer"
    by (cases sk) simp
  also have "\<dots> = receive_from_locked_peer
      (sk\<lparr>inbox := rest, outbox := outbox sk @
         map (\<lambda>(d, e). (unknown_tid_error, e)) (s # strays)\<rparr>) peer"
    using Cons.prems by (subst Cons.IH) (cases sk, auto simp: s)
  finally show ?case by (simp add: s)
qed

section \<open>Facts about the socket after a receive\<close>

fun result_socket :: "'a result \<Rightarrow> udp_socket" where
  "result_socket (Returned a sk) = sk"
| "result_socket (Raised e sk) = sk"
| "result_socket (Waiting sk) = sk"

text \<open>What was sent to one endpoint, in order.\<close>

definition sent_to :: "endpoint \<Rightarrow> udp_socket \<Rightarrow> bytes list" where
  "sent_to peer sk = map fst (filter (\<lambda>(d, e). e = peer) (outbox sk))"

lemma sent_to_simps [simp]:
  "sent_to peer (send_to sk d e) = sent_to peer sk @ (if e = peer then [d] else [])"
  "sent_to peer (send_all sk peer ds) = sent_to peer sk @ ds"
  "sent_to peer (sk\<lparr>inbox := evs\<rparr>) = sent_to peer sk"
  "sent_to peer (sk\<lparr>receive_timeout := t\<rparr>) = sent_to peer sk"
  "sent_to peer (set_receive_timeout sk t) = sent_to peer sk"
  "sent_to peer (fresh_socket evs) = []"
  by (simp_all add: sent_to_def send_to_def send_all_eq set_receive_timeout_def fresh_socket_def
      filter_map comp_def)

lemma receive_locked_sent_to:
  "endpoint_valid peer \<Longrightarrow> sent_to peer (result_socket (receive_from_locked_peer sk peer)) = sent_to peer sk"
  by (induction sk rule: receive_locked_induct [of _ peer])
    (auto simp: receive_locked_rules endpoint_eq_iff split: if_splits)

text \<open>Time-outs left in the script; a script is quiet when no receive can report a time-out.\<close>

definition timeouts_left :: "socket_event list \<Rightarrow> nat" where
  "timeouts_left evs = count_list evs WouldBlock"

definition quiet :: "socket_event list \<Rightarrow> bool" where
  "quiet evs \<longleftrightarrow> (\<forall>ev \<in> set evs. ev \<noteq> WouldBlock \<and> (\<forall>e. ev \<noteq> Datagram [] e))"

definition datagrams_left :: "socket_event list \<Rightarrow> nat" where
  "datagrams_left evs = length (filter (\<lambda>ev. ev \<noteq> WouldBlock) evs)"

lemma datagrams_left_simps [simp]:
  "datagrams_left [] = 0" "datagrams_left (WouldBlock # evs) = datagrams_left evs"
  "datagrams_left (Datagram d e # evs) = Suc (datagrams_left evs)"
  "datagrams_left (SocketFailure # evs) = Suc (datagrams_left evs)"
  by (simp_all add: datagrams_left_def)

lemma timeouts_left_simps [simp]:
  "timeouts_left [] = 0" "timeouts_left (WouldBlock # evs) = Suc (timeouts_left evs)"
  "timeouts_left (Datagram d e # evs) = timeouts_left evs"
  "timeouts_left (SocketFailure # evs) = timeouts_left evs"
  "timeouts_left (evs @ evs') = timeouts_left evs + timeouts_left evs'"
  "timeouts_left (replicate n WouldBlock) = n"
  by (auto simp: timeouts_left_def count_list_append) (induction n, auto)

lemma quiet_simps [simp]:
  "quiet []" "quiet (ev # evs) \<longleftrightarrow> ev \<noteq> WouldBlock \<and> (\<forall>e. ev \<noteq> Datagram [] e) \<and> quiet evs"
  by (auto simp: quiet_def)

lemma receive_locked_quiet:
  "quiet (inbox sk) \<Longrightarrow> receive_from_locked_peer sk peer = Returned r sk' \<Longrightarrow>
     r \<noteq> TimedOut \<and> quiet (inbox sk')"
  by (induction sk rule: receive_locked_induct [of _ peer]) (auto simp: receive_locked_rules)

lemma receive_locked_timeouts_left:
  "receive_from_locked_peer sk peer = Returned r sk' \<Longrightarrow>
     timeouts_left (inbox sk) \<le> timeouts_left (inbox sk') + (if r = TimedOut then 1 else 0)"
  by (induction sk rule: receive_locked_induct [of _ peer]) (auto simp: receive_locked_rules)

lemma receive_locked_datagrams_left:
  "receive_from_locked_peer sk peer = Returned r sk' \<Longrightarrow>
     datagrams_left (inbox sk') + (if r = TimedOut then 0 else 1) \<le> datagrams_left (inbox sk)"
  by (induction sk rule: receive_locked_induct [of _ peer]) (auto simp: receive_locked_rules)

lemma receive_locked_waiting:
  "receive_from_locked_peer sk peer = Waiting sk' \<Longrightarrow> timeouts_left (inbox sk) = 0"
  by (induction sk rule: receive_locked_induct [of _ peer]) (auto simp: receive_locked_rules)

section \<open>Loops that poll the locked peer\<close>

text \<open>
  What every retransmission loop of the engine promises: from a state it admits, a run either
  returns at once, or it sends something, receives from the locked peer and goes on from a state it
  admits whose potential a time-out has lowered and no other event has raised. Such a loop returns
  on every script that holds more time-outs than the potential, whatever else the script holds.
\<close>

definition returns :: "'a result \<Rightarrow> bool" where
  "returns res \<longleftrightarrow> (\<exists>a sk. res = Returned a sk)"

lemma returns_simps [simp]: "returns (Returned a sk)" "\<not> returns (Raised e sk)" "\<not> returns (Waiting sk)"
  by (simp_all add: returns_def)

definition goes_on ::
  "('s \<Rightarrow> udp_socket \<Rightarrow> 'r result) \<Rightarrow> ('s \<Rightarrow> bool) \<Rightarrow> ('s \<Rightarrow> nat \<Rightarrow> nat) \<Rightarrow> 's \<Rightarrow> udp_socket \<Rightarrow>
   receive_result \<Rightarrow> udp_socket \<Rightarrow> bool" where
  "goes_on run admits potential s sk r sk2 \<longleftrightarrow>
     (\<exists>s' sk3. inbox sk3 = inbox sk2 \<and> run s sk = run s' sk3 \<and> admits s' \<and>
        potential s' (datagrams_left (inbox sk2)) + (if r = TimedOut then 1 else 0)
          \<le> potential s (datagrams_left (inbox sk)))"

definition polls ::
  "('s \<Rightarrow> udp_socket \<Rightarrow> 'r result) \<Rightarrow> endpoint \<Rightarrow> ('s \<Rightarrow> bool) \<Rightarrow> ('s \<Rightarrow> nat \<Rightarrow> nat) \<Rightarrow> 's \<Rightarrow>
   udp_socket \<Rightarrow> bool" where
  "polls run peer admits potential s sk \<longleftrightarrow>
     (\<exists>sk1. inbox sk1 = inbox sk \<and>
        (\<forall>r sk2. receive_from_locked_peer sk1 peer = Returned r sk2 \<longrightarrow>
           (timeouts_left (inbox sk2) > 0 \<or> r = TimedOut \<longrightarrow> returns (run s sk)) \<or>
           goes_on run admits potential s sk r sk2))"

lemma pollsI:
  assumes "inbox sk1 = inbox sk"
    and "\<And>r sk2. receive_from_locked_peer sk1 peer = Returned r sk2 \<Longrightarrow>
      (timeouts_left (inbox sk2) > 0 \<or> r = TimedOut \<longrightarrow> returns (run s sk)) \<or>
      goes_on run admits potential s sk r sk2"
  shows "polls run peer admits potential s sk"
  using assms unfolding polls_def by blast

lemma goes_onI:
  "run s sk = run s' sk3 \<Longrightarrow> inbox sk3 = inbox sk2 \<Longrightarrow> admits s' \<Longrightarrow>
     potential s' (datagrams_left (inbox sk2)) + (if r = TimedOut then 1 else 0)
       \<le> potential s (datagrams_left (inbox sk)) \<Longrightarrow>
     goes_on run admits potential s sk r sk2"
  unfolding goes_on_def by blast

locale polling_loop =
  fixes run :: "'s \<Rightarrow> udp_socket \<Rightarrow> 'r result"
    and peer :: endpoint
    and admits :: "'s \<Rightarrow> bool"
    and potential :: "'s \<Rightarrow> nat \<Rightarrow> nat"
  assumes iterates: "admits s \<Longrightarrow>
    returns (run s sk) \<or> polls run peer admits potential s sk"
begin

theorem returns_if_timeouts_left:
  assumes "admits s" "potential s (datagrams_left (inbox sk)) < timeouts_left (inbox sk)"
  shows "returns (run s sk)"
  using assms
proof (induction "length (inbox sk)" arbitrary: s sk rule: less_induct)
  case less
  from iterates [OF less.prems(1), of sk] show ?case
  proof
    assume "polls run peer admits potential s sk"
    then obtain sk1 where sk1: "inbox sk1 = inbox sk"
      and step: "\<And>r sk2. receive_from_locked_peer sk1 peer = Returned r sk2 \<Longrightarrow>
           (timeouts_left (inbox sk2) > 0 \<or> r = TimedOut \<longrightarrow> returns (run s sk)) \<or>
           goes_on run admits potential s sk r sk2"
      unfolding polls_def by blast
    show ?case
    proof (cases "receive_from_locked_peer sk1 peer")
      case (Waiting sk2)
      then show ?thesis using receive_locked_waiting [OF Waiting] less.prems(2) sk1 by simp
    next
      case (Raised e sk2)
      then show ?thesis by simp
    next
      case (Returned r sk2)
      have left: "timeouts_left (inbox sk) \<le> timeouts_left (inbox sk2) + (if r = TimedOut then 1 else 0)"
        using receive_locked_timeouts_left [OF Returned] sk1 by simp
      from step [OF Returned] consider
          "timeouts_left (inbox sk2) > 0 \<or> r = TimedOut \<longrightarrow> returns (run s sk)"
        | s' sk3 where "inbox sk3 = inbox sk2" "run s sk = run s' sk3" "admits s'"
            "potential s' (datagrams_left (inbox sk2)) + (if r = TimedOut then 1 else 0)
              \<le> potential s (datagrams_left (inbox sk))"
        unfolding goes_on_def by blast
      then show ?thesis
      proof cases
        case 1
        then show ?thesis using left less.prems(2) by (cases "r = TimedOut") auto
      next
        case 2
        have "length (inbox sk3) < length (inbox sk)"
          using receive_locked_shorter [OF Returned] sk1 2(1) by simp
        moreover have "potential s' (datagrams_left (inbox sk3)) < timeouts_left (inbox sk3)"
          using left less.prems(2) 2(1,4) by (auto split: if_splits)
        ultimately show ?thesis using less.hyps 2(2,3) by simp
      qed
    qed
  qed simp
qed

end

section \<open>Transfer identifiers\<close>



end
