(* ===== verification/Engine_Types.thy ===== *)
theory Engine_Types
  imports Udp_Socket
begin

unbundle bit_operations_syntax

text \<open>
  The configuration and result structures of \<open>adapters/reference/tftp_reference_engine.hpp\<close>, the
  block arithmetic of \<open>tftp_reference_engine.cpp\<close> that sender and receiver share, and the facts on
  16-bit wire block numbers and 32-bit absolute indices behind their correctness.

  Time values are milliseconds. \<open>maximum_retransmissions\<close> and the time-out counters are C++ \<open>int\<close>s;
  the counters never pass \<open>maximum_retransmissions + 1\<close>, so they are HOL \<open>int\<close>s.
\<close>

section \<open>Structures\<close>

record engine_quirks =
  retransmit_on_duplicate_ack :: bool
  omit_terminating_empty_block :: bool
  accept_out_of_sequence_data :: bool

record engine_config =
  default_block_size :: u32
  retransmission_timeout :: nat
  maximum_retransmissions :: int
  reject_overwrite_on_write_request :: bool
  support_option_negotiation :: bool
  support_block_size_option :: bool
  support_timeout_option :: bool
  support_transfer_size_option :: bool
  support_window_size_option :: bool
  support_netascii :: bool
  quirks :: engine_quirks

definition correct_quirks :: engine_quirks where
  "correct_quirks =
     \<lparr>retransmit_on_duplicate_ack = False, omit_terminating_empty_block = False,
      accept_out_of_sequence_data = False\<rparr>"

definition default_engine_config :: engine_config where
  "default_engine_config =
     \<lparr>default_block_size = 512, retransmission_timeout = 800, maximum_retransmissions = 6,
      reject_overwrite_on_write_request = True, support_option_negotiation = True,
      support_block_size_option = True, support_timeout_option = True,
      support_transfer_size_option = True, support_window_size_option = True,
      support_netascii = True, quirks = correct_quirks\<rparr>"

record negotiated_parameters =
  block_size :: u32
  window_size :: u16
  timeout_seconds :: "u32 option"
  transfer_size :: "u64 option"

definition default_parameters :: negotiated_parameters where
  "default_parameters =
     \<lparr>block_size = 512, window_size = 1, timeout_seconds = None, transfer_size = None\<rparr>"

record transfer_outcome =
  completed_successfully :: bool
  outcome_error_code :: "tftp_error_code option"
  outcome_error_message :: string
  negotiated :: negotiated_parameters
  bytes_transferred :: u64
  data_packets_sent :: u32
  data_packets_received :: u32
  retransmissions :: u32
  timed_out :: bool

definition empty_outcome :: transfer_outcome where
  "empty_outcome =
     \<lparr>completed_successfully = False, outcome_error_code = None, outcome_error_message = [],
      negotiated = default_parameters, bytes_transferred = 0, data_packets_sent = 0,
      data_packets_received = 0, retransmissions = 0, timed_out = False\<rparr>"

record client_requested_options =
  requested_block_size :: "u32 option"
  requested_timeout_seconds :: "u32 option"
  requested_transfer_size :: "u64 option"
  requested_window_size :: "u16 option"

definition no_requested_options :: client_requested_options where
  "no_requested_options =
     \<lparr>requested_block_size = None, requested_timeout_seconds = None,
      requested_transfer_size = None, requested_window_size = None\<rparr>"

section \<open>Block arithmetic\<close>

definition kMinimumBlockSize :: u32 where "kMinimumBlockSize = 8"
definition kMaximumBlockSize :: u32 where "kMaximumBlockSize = 65464"

definition wire_block_number :: "u32 \<Rightarrow> u16" where
  "wire_block_number absolute_index = ucast (absolute_index AND 0xFFFF)"

definition total_block_count :: "nat \<Rightarrow> u32 \<Rightarrow> exn + u32" where
  "total_block_count payload_size bs =
     (if bs = 0 then Inl DivisionByZero
      else Inr (word_of_nat (payload_size div unat bs) + 1))"

definition block_payload :: "bytes \<Rightarrow> u32 \<Rightarrow> u32 \<Rightarrow> bytes" where
  "block_payload payload absolute_index bs =
     (let start = unat (absolute_index - 1) * unat bs
      in if start \<ge> length payload then []
         else let len = min (unat bs) (length payload - start)
              in take len (drop start payload))"

function resolve_ack_from :: "u16 \<Rightarrow> u32 \<Rightarrow> u32 \<Rightarrow> u32" where
  "resolve_ack_from wire_ack last_acked candidate =
     (if candidate > last_acked then
        if wire_block_number candidate = wire_ack then candidate
        else resolve_ack_from wire_ack last_acked (candidate - 1)
      else last_acked)"
  by pat_completeness auto
termination
  by (relation "measure (\<lambda>(w, l, c). unat c)") (auto intro!: word_pred_less simp: word_less_nat_alt)

declare resolve_ack_from.simps [simp del]

definition resolve_ack_to_absolute :: "u16 \<Rightarrow> u32 \<Rightarrow> u32 \<Rightarrow> u32" where
  "resolve_ack_to_absolute wire_ack last_acked highest_sent =
     resolve_ack_from wire_ack last_acked highest_sent"

text \<open>The two search loops of \<open>resolve_data_to_absolute\<close>, over the values of \<open>offset\<close>.\<close>

definition search_offsets :: "(u32 \<Rightarrow> u32) \<Rightarrow> u16 \<Rightarrow> nat list \<Rightarrow> u32 option" where
  "search_offsets candidate wire_block offsets =
     map_option (\<lambda>offset. candidate (word_of_nat offset))
       (find (\<lambda>offset. wire_block_number (candidate (word_of_nat offset)) = wire_block) offsets)"

definition resolve_data_to_absolute :: "u16 \<Rightarrow> u32 \<Rightarrow> u32 \<Rightarrow> u32" where
  "resolve_data_to_absolute wire_block last_in_sequence window =
     (let forward_span = max window 1
      in case search_offsets (\<lambda>offset. last_in_sequence + offset) wire_block
                [1..<Suc (unat forward_span)] of
           Some candidate \<Rightarrow> candidate
         | None \<Rightarrow>
             let backward_span = min last_in_sequence forward_span
             in case search_offsets (\<lambda>offset. last_in_sequence - offset) wire_block
                       [0..<Suc (unat backward_span)] of
                  Some candidate \<Rightarrow> candidate
                | None \<Rightarrow> 0)"

definition clamp_block_size :: "u32 \<Rightarrow> u32" where
  "clamp_block_size requested = min (max requested kMinimumBlockSize) kMaximumBlockSize"

section \<open>Wire numbers and absolute indices\<close>

lemma mask16: "(0xFFFF :: u32) = mask 16"
  by (simp add: mask_eq_exp_minus_1)

lemma unat_wire_block_number: "unat (wire_block_number k) = unat k mod 65536"
  unfolding wire_block_number_def mask16 take_bit_eq_mask [symmetric]
  by (simp add: unsigned_ucast_eq unsigned_take_bit_eq take_bit_eq_mod unat_mod_distrib)

lemma wire_block_number_eq_iff [resolve_simps]:
  "wire_block_number j = wire_block_number k \<longleftrightarrow> unat j mod 65536 = unat k mod 65536"
  by (simp add: word_unat_eq_iff unat_wire_block_number)

lemma wire_block_number_small:
  "unat j < 65536 \<Longrightarrow> unat k < 65536 \<Longrightarrow> wire_block_number j = wire_block_number k \<longleftrightarrow> j = k"
  unfolding wire_block_number_eq_iff by (simp add: word_unat_eq_iff)

lemma mod_window_unique:
  fixes a b l m :: nat
  assumes "l < a" "a \<le> l + m" "l < b" "b \<le> l + m" and "a mod m = b mod m"
  shows "a = b"
proof (rule ccontr)
  assume "a \<noteq> b"
  then consider "a < b" | "b < a" by linarith
  then show False
  proof cases
    case 1
    then have "m dvd b - a" using mod_eq_dvd_iff_nat [of a b m] assms(5) by simp
    then have "m \<le> b - a" using 1 by (simp add: dvd_imp_le)
    then show False using assms by linarith
  next
    case 2
    then have "m dvd a - b" using mod_eq_dvd_iff_nat [of b a m] assms(5) by simp
    then have "m \<le> a - b" using 2 by (simp add: dvd_imp_le)
    then show False using assms by linarith
  qed
qed

text \<open>The ACK search: a hit is in flight and has the number asked for; no hit leaves \<open>last_acked\<close>.\<close>

lemma resolve_ack_from_cases:
  "let r = resolve_ack_from w l c in
     (l < r \<and> r \<le> c \<and> wire_block_number r = w) \<or>
     (r = l \<and> (\<forall>k. l < k \<and> k \<le> c \<longrightarrow> wire_block_number k \<noteq> w))"
proof (induction w l c rule: resolve_ack_from.induct)
  case (1 w l c)
  show ?case
  proof (cases "l < c \<and> wire_block_number c \<noteq> w")
    case True
    then have "c \<noteq> 0" by auto
    then have pred: "unat (c - 1) = unat c - 1" "0 < unat c"
      by (simp_all add: unat_word_pred unat_gt_0)
    have le: "k \<le> c \<longleftrightarrow> k \<le> c - 1 \<or> k = c" for k
      using pred by (auto simp: word_le_nat_alt word_unat_eq_iff)
    show ?thesis
      using "1.IH" True
      by (subst resolve_ack_from.simps) (auto simp: Let_def le split: if_splits)
  next
    case False
    then show ?thesis
      by (subst resolve_ack_from.simps) (auto simp: Let_def)
  qed
qed

lemma resolve_ack_bounds:
  "l \<le> h \<Longrightarrow> l \<le> resolve_ack_to_absolute w l h \<and> resolve_ack_to_absolute w l h \<le> h"
  using resolve_ack_from_cases [of w l h] by (auto simp: resolve_ack_to_absolute_def Let_def)

lemma resolve_ack_advance:
  "l < resolve_ack_to_absolute w l h \<Longrightarrow>
     resolve_ack_to_absolute w l h \<le> h \<and> wire_block_number (resolve_ack_to_absolute w l h) = w"
  using resolve_ack_from_cases [of w l h] by (auto simp: resolve_ack_to_absolute_def Let_def)

lemma resolve_ack_hit:
  assumes "l < k" "k \<le> h" and near: "unat h - unat l \<le> 65536"
  shows "resolve_ack_to_absolute (wire_block_number k) l h = k"
proof -
  let ?r = "resolve_ack_to_absolute (wire_block_number k) l h"
  have r: "l < ?r \<and> ?r \<le> h \<and> wire_block_number ?r = wire_block_number k"
    using resolve_ack_from_cases [of "wire_block_number k" l h] assms(1,2)
    by (auto simp: resolve_ack_to_absolute_def Let_def)
  have "unat l < unat ?r" "unat ?r \<le> unat h" "unat ?r mod 65536 = unat k mod 65536"
    using r unfolding word_le_nat_alt word_less_nat_alt wire_block_number_eq_iff by blast+
  moreover have "unat l < unat k" "unat k \<le> unat h"
    using assms(1,2) unfolding word_le_nat_alt word_less_nat_alt by blast+
  ultimately have "unat ?r = unat k"
    using near by (rule_tac mod_window_unique [of "unat l" _ 65536]) linarith+
  then show ?thesis by (simp only: word_unat_eq_iff)
qed

lemma resolve_ack_miss:
  "(\<And>k. l < k \<Longrightarrow> k \<le> h \<Longrightarrow> wire_block_number k \<noteq> w) \<Longrightarrow> resolve_ack_to_absolute w l h = l"
  using resolve_ack_from_cases [of w l h] by (auto simp: resolve_ack_to_absolute_def Let_def)

text \<open>The DATA search.\<close>

lemma search_offsets_Some:
  "search_offsets cand w offs = Some c \<Longrightarrow>
     wire_block_number c = w \<and> (\<exists>off \<in> set offs. c = cand (word_of_nat off))"
  by (auto simp: search_offsets_def find_Some_iff)

lemma search_offsets_None:
  "search_offsets cand w offs = None \<longleftrightarrow> (\<forall>off \<in> set offs. wire_block_number (cand (word_of_nat off)) \<noteq> w)"
  by (auto simp: search_offsets_def find_None_iff)

lemma search_offsets_unique:
  assumes "off \<in> set offs" and "wire_block_number (cand (word_of_nat off)) = w"
    and "\<And>o'. o' \<in> set offs \<Longrightarrow> wire_block_number (cand (word_of_nat o')) = w \<Longrightarrow> o' = off"
  shows "search_offsets cand w offs = Some (cand (word_of_nat off))"
proof -
  have "search_offsets cand w offs \<noteq> None"
    using assms(1,2) unfolding search_offsets_None by blast
  then obtain c where c: "search_offsets cand w offs = Some c" by blast
  then show ?thesis using search_offsets_Some [OF c] assms(3) by blast
qed

lemma resolve_data_number:
  "resolve_data_to_absolute w l win \<noteq> 0 \<Longrightarrow>
     wire_block_number (resolve_data_to_absolute w l win) = w"
  by (auto simp: resolve_data_to_absolute_def Let_def split: option.splits
      dest: search_offsets_Some simp del: upt_Suc)

lemma forward_span_pos: "0 < unat (max win (1 :: u32))"
  by (auto simp: max_def unat_gt_0 word_le_nat_alt)

lemma resolve_data_in_sequence:
  assumes "l \<noteq> - 1"
  shows "resolve_data_to_absolute w l win = l + 1 \<longleftrightarrow> w = wire_block_number (l + 1)"
proof
  assume eq: "resolve_data_to_absolute w l win = l + 1"
  have "l + 1 \<noteq> 0" using assms by (metis add.commute add_eq_0_iff)
  then show "w = wire_block_number (l + 1)" using resolve_data_number [of w l win] eq by simp
next
  assume w: "w = wire_block_number (l + 1)"
  have "[1..<Suc (unat (max win 1))] = 1 # [Suc 1..<Suc (unat (max win 1))]"
    using forward_span_pos [of win] by (intro upt_conv_Cons) simp
  then show "resolve_data_to_absolute w l win = l + 1"
    by (simp add: resolve_data_to_absolute_def search_offsets_def w)
qed

text \<open>Indices near the receiver's position are recovered, across the wrap of the 16-bit numbers.\<close>

lemma unat_word_offset:
  "unat (l :: u32) + off < 2 ^ 32 \<Longrightarrow> unat (l + word_of_nat off) = unat l + off"
  by (subst unat_add_no_overflow) (simp_all add: unat_of_nat)

lemma unat_word_offset_back:
  assumes "off \<le> unat (l :: u32)"
  shows "unat (l - word_of_nat off) = unat l - off"
proof -
  have "off < 2 ^ 32"
    using assms unat_width_less(3) [of l] by simp
  then have o: "unat (word_of_nat off :: u32) = off" by (simp add: unat_of_nat)
  then have "word_of_nat off \<le> l" using assms by (simp add: word_le_nat_alt)
  then show ?thesis using o by (simp add: unat_sub)
qed

lemma resolve_data_ahead:
  assumes off: "0 < off" "off \<le> unat (max win 1)" and win: "unat win < 65536"
    and room: "unat l + unat (max win 1) < 2 ^ 32"
  shows "resolve_data_to_absolute (wire_block_number (l + word_of_nat off)) l win
    = l + word_of_nat off"
proof -
  let ?w = "wire_block_number (l + word_of_nat off)"
  have span: "unat (max win 1) < 65536" using win by (simp add: max_def)
  have "search_offsets ((+) l) ?w [1..<Suc (unat (max win 1))] = Some (l + word_of_nat off)"
  proof (rule search_offsets_unique)
    show "off \<in> set [1..<Suc (unat (max win 1))]" using off by auto
    fix o' assume o': "o' \<in> set [1..<Suc (unat (max win 1))]"
      "wire_block_number (l + word_of_nat o') = ?w"
    then have "unat (l + word_of_nat o') = unat l + o'" "unat (l + word_of_nat off) = unat l + off"
      using off room by (auto intro!: unat_word_offset)
    then have "(unat l + o') mod 65536 = (unat l + off) mod 65536"
      using o'(2) by (simp add: wire_block_number_eq_iff)
    then have "unat l + o' = unat l + off"
      using o'(1) off span by (rule_tac mod_window_unique [of "unat l" _ 65536]) auto
    then show "o' = off" by simp
  qed simp
  then show ?thesis by (simp add: resolve_data_to_absolute_def del: upt_Suc)
qed

lemma resolve_data_behind:
  assumes off: "off \<le> unat l" "off \<le> unat (max win 1)"
    and win: "2 * unat (max win 1) < 65536" and room: "unat l + unat (max win 1) < 2 ^ 32"
  shows "resolve_data_to_absolute (wire_block_number (l - word_of_nat off)) l win
    = l - word_of_nat off"
proof -
  let ?w = "wire_block_number (l - word_of_nat off)" and ?f = "unat (max win 1)"
  have b: "unat (l - word_of_nat off) = unat l - off" using off(1) by (rule unat_word_offset_back)
  have "search_offsets ((+) l) ?w [1..<Suc ?f] = None"
    unfolding search_offsets_None
  proof
    fix o' assume o': "o' \<in> set [1..<Suc ?f]"
    then have u: "unat (l + word_of_nat o') = unat l + o'"
      using room by (auto intro!: unat_word_offset)
    show "wire_block_number (l + word_of_nat o') \<noteq> ?w"
    proof
      assume "wire_block_number (l + word_of_nat o') = ?w"
      then have "(unat l + o') mod 65536 = (unat l - off) mod 65536"
        by (simp add: wire_block_number_eq_iff u b)
      then have "(unat l + o' + 1) mod 65536 = (unat l - off + 1) mod 65536"
        by (metis mod_add_left_eq)
      moreover have "1 \<le> o'" "o' \<le> ?f" using o' by auto
      ultimately have "unat l + o' + 1 = unat l - off + 1"
        using off win by (rule_tac mod_window_unique [of "unat l - off" _ 65536]) linarith+
      then show False using \<open>1 \<le> o'\<close> off by linarith
    qed
  qed
  moreover have "search_offsets ((-) l) ?w [0..<Suc (unat (min l (max win 1)))]
    = Some (l - word_of_nat off)"
  proof (rule search_offsets_unique)
    have min: "unat (min l (max win 1)) = min (unat l) ?f"
      by (simp add: min_def word_le_nat_alt)
    then show "off \<in> set [0..<Suc (unat (min l (max win 1)))]" using off by (simp del: upt_Suc)
    fix o' assume "o' \<in> set [0..<Suc (unat (min l (max win 1)))]"
      and w: "wire_block_number (l - word_of_nat o') = ?w"
    then have o': "o' \<le> unat l" "o' \<le> ?f" using min by auto
    have "unat (l - word_of_nat o') = unat l - o'" using o'(1) by (rule unat_word_offset_back)
    then have "(unat l - o') mod 65536 = (unat l - off) mod 65536"
      using w by (simp add: wire_block_number_eq_iff b)
    then have "(unat l - o' + 1) mod 65536 = (unat l - off + 1) mod 65536"
      by (metis mod_add_left_eq)
    then have "unat l - o' + 1 = unat l - off + 1"
      using o' off win by (rule_tac mod_window_unique [of "unat l - ?f" _ 65536]) linarith+
    then show "o' = off" using o' off by simp
  qed simp
  ultimately show ?thesis by (simp add: resolve_data_to_absolute_def Let_def del: upt_Suc)
qed

section \<open>Blocks of a payload\<close>

definition nat_block :: "bytes \<Rightarrow> nat \<Rightarrow> nat \<Rightarrow> bytes" where
  "nat_block payload bs i = take bs (drop ((i - 1) * bs) payload)"

lemma block_payload_nat:
  assumes "0 < unat i"
  shows "block_payload payload i bs = nat_block payload (unat bs) (unat i)"
  using assms
  by (auto simp: block_payload_def nat_block_def Let_def unat_word_pred unat_gt_0 min_def)

lemma length_nat_block: "length (nat_block payload bs i) = min bs (length payload - (i - 1) * bs)"
  by (simp add: nat_block_def min.commute)

lemma take_next_block: "take (k * bs) payload @ nat_block payload bs (k + 1) = take ((k + 1) * bs) payload"
  by (simp add: nat_block_def take_add flip: add.commute [of "k * bs"])

lemma concat_nat_blocks: "concat (map (nat_block payload bs) [1..<Suc k]) = take (k * bs) payload"
proof (induction k)
  case (Suc k)
  have "concat (map (nat_block payload bs) [1..<Suc (Suc k)]) =
      concat (map (nat_block payload bs) [1..<Suc k]) @ nat_block payload bs (Suc k)"
    by simp
  also have "\<dots> = take (Suc k * bs) payload" unfolding Suc using take_next_block [of k bs payload] by simp
  finally show ?case .
qed simp

lemma nat_block_short_iff:
  assumes "0 < bs" "0 < i"
  shows "length (nat_block payload bs i) < bs \<longleftrightarrow> length payload div bs + 1 \<le> i"
proof -
  have "length (nat_block payload bs i) < bs \<longleftrightarrow> length payload < (i - 1) * bs + bs"
    using assms(1) by (auto simp: length_nat_block min_def)
  also have "\<dots> \<longleftrightarrow> length payload < i * bs"
    using assms(2) by (cases i) (simp_all add: add.commute)
  also have "\<dots> \<longleftrightarrow> length payload div bs < i"
    using assms(1) by (simp add: div_less_iff_less_mult)
  also have "\<dots> \<longleftrightarrow> length payload div bs + 1 \<le> i" by linarith
  finally show ?thesis .
qed

lemma all_blocks_payload:
  "0 < bs \<Longrightarrow> length payload div bs + 1 \<le> k \<Longrightarrow> take (k * bs) payload = payload"
  by (meson div_less_iff_less_mult le_eq_less_or_eq less_le_trans less_add_one take_all_iff)

section \<open>Resolution as a whole\<close>

text \<open>
  C17. ACK numbers are unambiguous across the 16-bit wrap: while at most 65536 blocks are in flight,
  the number of a block in flight resolves to that block, and any other number to no progress.
\<close>
theorem ack_resolution_exact:
  assumes "unat highest - unat acked \<le> 65536"
  shows "(\<forall>k. acked < k \<longrightarrow> k \<le> highest \<longrightarrow>
      resolve_ack_to_absolute (wire_block_number k) acked highest = k) \<and>
    (\<forall>w. (\<forall>k. acked < k \<longrightarrow> k \<le> highest \<longrightarrow> wire_block_number k \<noteq> w) \<longrightarrow>
      resolve_ack_to_absolute w acked highest = acked)"
  using resolve_ack_hit [OF _ _ assms] resolve_ack_miss by metis

theorem ack_resolution_exact_witness:
  "resolve_ack_to_absolute 1 65534 65540 = 65537"
proof -
  have w: "wire_block_number 65537 = 1" by code_simp
  have "resolve_ack_to_absolute (wire_block_number 65537) 65534 65540 = 65537"
    using ack_resolution_exact [of 65540 65534] by simp
  then show ?thesis by (simp add: w)
qed

text \<open>
  DATA numbers within a window of the receiver's position, ahead of it or behind it, resolve to
  the block they name, also across the 16-bit wrap.
\<close>
lemma data_resolution_exact:
  assumes "1 \<le> win" "unat win < 32768" "unat pos + unat win < 2 ^ 32"
  shows "(\<forall>off. 0 < off \<longrightarrow> off \<le> unat win \<longrightarrow>
      resolve_data_to_absolute (wire_block_number (pos + word_of_nat off)) pos win
        = pos + word_of_nat off) \<and>
    (\<forall>off. off \<le> unat pos \<longrightarrow> off \<le> unat win \<longrightarrow>
      resolve_data_to_absolute (wire_block_number (pos - word_of_nat off)) pos win
        = pos - word_of_nat off)"
proof -
  have m: "max win 1 = win" using assms(1) by (simp add: max_def)
  show ?thesis
    using resolve_data_ahead [of _ win pos] resolve_data_behind [of _ pos win] assms
    by (simp add: m)
qed

lemma data_resolution_exact_witness:
  "resolve_data_to_absolute (wire_block_number (65535 + word_of_nat 2)) 65535 8 = 65537"
proof -
  have "(1 :: u32) \<le> 8" "unat (8 :: u32) < 32768" "unat (65535 :: u32) + unat (8 :: u32) < 2 ^ 32"
    by simp_all
  from conjunct1 [OF data_resolution_exact [OF this], rule_format, of 2] show ?thesis by simp
qed

end
