(* ===== verification/Sender.thy ===== *)
theory Sender
  imports Engine_Types
begin

text \<open>
  \<open>run_data_sender\<close> of \<open>adapters/reference/tftp_reference_engine.cpp\<close> (lines 165-267), the windowed
  DATA sender. One iteration of its loop is \<open>sender_transmit\<close> (the datagrams the current action
  sends), a receive, and \<open>sender_handle\<close> (what the result of the receive changes). The loop over
  block indices \<open>for (index = lo; index <= hi; ++index)\<close> is \<open>index_range lo hi\<close>; it describes the
  C++ loop for \<open>hi < 2 ^ 32 - 1\<close> (at the last value the C++ loop would not stop), which every
  theorem below guarantees by its bound on the number of blocks.
\<close>

datatype sender_act = SendNew | Rollback | WaitOnly

record sender_env =
  snd_payload :: bytes
  snd_block_size :: u32
  snd_window :: u32
  snd_total_blocks :: u32
  snd_config :: engine_config

record sender_state =
  last_acked :: u32
  highest_sent :: u32
  snd_timeouts :: int
  snd_action :: sender_act
  snd_outcome :: transfer_outcome

definition index_range :: "u32 \<Rightarrow> u32 \<Rightarrow> u32 list" where
  "index_range lo hi = map word_of_nat [unat lo..<Suc (unat hi)]"

definition data_datagram :: "sender_env \<Rightarrow> u32 \<Rightarrow> bytes" where
  "data_datagram env index =
     serialize_data (wire_block_number index)
       (block_payload (snd_payload env) index (snd_block_size env))"

definition sender_transmit :: "sender_env \<Rightarrow> sender_state \<Rightarrow> sender_state \<times> bytes list" where
  "sender_transmit env st =
     (case snd_action st of
        SendNew \<Rightarrow>
          let window_edge = min (last_acked st + snd_window env) (snd_total_blocks env);
              sends = map (data_datagram env) (index_range (highest_sent st + 1) window_edge);
              outcome = snd_outcome st
          in (st\<lparr>highest_sent := max (highest_sent st) window_edge,
                 snd_outcome := outcome\<lparr>data_packets_sent :=
                    data_packets_sent outcome + word_of_nat (length sends)\<rparr>\<rparr>, sends)
      | Rollback \<Rightarrow>
          let sends = map (data_datagram env) (index_range (last_acked st + 1) (highest_sent st));
              outcome = snd_outcome st
          in (st\<lparr>snd_outcome := outcome\<lparr>retransmissions :=
                    retransmissions outcome + word_of_nat (length sends)\<rparr>\<rparr>, sends)
      | WaitOnly \<Rightarrow> (st, []))"

text \<open>\<open>Inl\<close>: the loop goes on with this state; \<open>Inr\<close>: the function returns this outcome.\<close>

definition sender_handle ::
  "sender_env \<Rightarrow> sender_state \<Rightarrow> receive_result \<Rightarrow> sender_state + transfer_outcome" where
  "sender_handle env st received =
     (case received of
        SocketError \<Rightarrow>
          Inr ((snd_outcome st)\<lparr>outcome_error_message := ''socket error while sending''\<rparr>)
      | TimedOut \<Rightarrow>
          if snd_timeouts st + 1 > maximum_retransmissions (snd_config env) then
            Inr ((snd_outcome st)\<lparr>timed_out := True,
                   outcome_error_message := ''gave up after maximum retransmissions (sender)''\<rparr>)
          else Inl (st\<lparr>snd_timeouts := snd_timeouts st + 1, snd_action := Rollback\<rparr>)
      | GotPacket packet \<Rightarrow>
          if opcode packet = Error then
            Inr ((snd_outcome st)\<lparr>outcome_error_code := Some (error_code packet),
                   outcome_error_message := error_message packet\<rparr>)
          else if opcode packet \<noteq> Acknowledgement then Inl (st\<lparr>snd_action := WaitOnly\<rparr>)
          else let acked = resolve_ack_to_absolute (block_number packet)
                             (last_acked st) (highest_sent st)
               in if acked > last_acked st then
                    Inl (st\<lparr>last_acked := acked, snd_timeouts := 0, snd_action := SendNew\<rparr>)
                  else Inl (st\<lparr>snd_action :=
                    (if retransmit_on_duplicate_ack (quirks (snd_config env))
                     then Rollback else WaitOnly)\<rparr>))"

definition sender_success :: "sender_env \<Rightarrow> sender_state \<Rightarrow> transfer_outcome" where
  "sender_success env st =
     (snd_outcome st)\<lparr>completed_successfully := True,
       bytes_transferred := word_of_nat (length (snd_payload env))\<rparr>"

function sender_loop ::
  "sender_env \<Rightarrow> endpoint \<Rightarrow> sender_state \<Rightarrow> udp_socket \<Rightarrow> transfer_outcome result" where
  "sender_loop env peer st sk =
     (if last_acked st < snd_total_blocks env then
        let (st1, sends) = sender_transmit env st;
            sk1 = send_all sk peer sends
        in case receive_from_locked_peer sk1 peer of
             Waiting sk2 \<Rightarrow> Waiting sk2
           | Raised e sk2 \<Rightarrow> Raised e sk2
           | Returned received sk2 \<Rightarrow>
               (case sender_handle env st1 received of
                  Inr outcome \<Rightarrow> Returned outcome sk2
                | Inl st2 \<Rightarrow> sender_loop env peer st2 sk2)
      else Returned (sender_success env st) sk)"
  by pat_completeness auto
termination
  by (relation "measure (\<lambda>(env, peer, st, sk). length (inbox sk))")
    (auto dest!: receive_locked_shorter)

declare sender_loop.simps [simp del]

definition effective_total_blocks :: "engine_config \<Rightarrow> bytes \<Rightarrow> u32 \<Rightarrow> exn + u32" where
  "effective_total_blocks config payload bs =
     (case total_block_count (length payload) bs of
        Inl e \<Rightarrow> Inl e
      | Inr blocks \<Rightarrow>
          Inr (if omit_terminating_empty_block (quirks config) \<and> payload \<noteq> [] \<and>
                  length payload mod unat bs = 0
               then blocks - 1 else blocks))"

definition make_sender_env ::
  "bytes \<Rightarrow> negotiated_parameters \<Rightarrow> engine_config \<Rightarrow> u32 \<Rightarrow> sender_env" where
  "make_sender_env payload params config blocks =
     \<lparr>snd_payload = payload, snd_block_size = block_size params,
      snd_window = ucast (max (window_size params) 1), snd_total_blocks = blocks,
      snd_config = config\<rparr>"

definition initial_sender_state :: "negotiated_parameters \<Rightarrow> u32 \<Rightarrow> sender_state" where
  "initial_sender_state params starting_data_packets_sent =
     \<lparr>last_acked = 0, highest_sent = 0, snd_timeouts = 0, snd_action = SendNew,
      snd_outcome = empty_outcome\<lparr>negotiated := params,
        data_packets_sent := starting_data_packets_sent\<rparr>\<rparr>"

definition run_data_sender ::
  "udp_socket \<Rightarrow> endpoint \<Rightarrow> bytes \<Rightarrow> negotiated_parameters \<Rightarrow> engine_config \<Rightarrow> u32 \<Rightarrow>
   transfer_outcome result" where
  "run_data_sender sk peer payload params config starting_data_packets_sent =
     (case effective_total_blocks config payload (block_size params) of
        Inl e \<Rightarrow> Raised e sk
      | Inr blocks \<Rightarrow>
          sender_loop (make_sender_env payload params config blocks) peer
            (initial_sender_state params starting_data_packets_sent) sk)"

section \<open>The window invariant\<close>

text \<open>
  The environment of a transfer that stays within 32-bit indices, and the invariant of the loop:
  acknowledged blocks were sent, no block beyond the last one is sent, and at most a window of
  blocks is outstanding.
\<close>

definition sender_env_ok :: "sender_env \<Rightarrow> bool" where
  "sender_env_ok env \<longleftrightarrow>
     0 < unat (snd_window env) \<and> unat (snd_window env) < 65536 \<and>
     unat (snd_total_blocks env) + 65536 < 2 ^ 32"

definition sender_inv :: "sender_env \<Rightarrow> sender_state \<Rightarrow> bool" where
  "sender_inv env st \<longleftrightarrow>
     last_acked st \<le> highest_sent st \<and> highest_sent st \<le> snd_total_blocks env \<and>
     unat (highest_sent st) \<le> unat (last_acked st) + unat (snd_window env)"

definition window_edge :: "sender_env \<Rightarrow> sender_state \<Rightarrow> u32" where
  "window_edge env st = min (last_acked st + snd_window env) (snd_total_blocks env)"

lemma unat_window_edge:
  assumes "sender_env_ok env" "sender_inv env st"
  shows "unat (window_edge env st) =
    min (unat (last_acked st) + unat (snd_window env)) (unat (snd_total_blocks env))"
proof -
  have "unat (last_acked st + snd_window env) = unat (last_acked st) + unat (snd_window env)"
    using assms unfolding sender_env_ok_def sender_inv_def word_le_nat_alt
    by (intro unat_add_no_overflow) simp
  then show ?thesis by (auto simp: window_edge_def min_def word_le_nat_alt)
qed

lemma index_range_empty: "b < a \<Longrightarrow> index_range a b = []"
  by (simp add: index_range_def word_less_nat_alt)

lemma index_range_append:
  assumes "a \<le> b" "b \<le> c" "c < - 1"
  shows "index_range (a + 1) b @ index_range (b + 1) c = index_range (a + 1) c"
proof -
  have nz: "a \<noteq> - 1" "b \<noteq> - 1" using assms by auto
  have le: "unat a \<le> unat b" "unat b \<le> unat c" using assms by (simp_all add: word_le_nat_alt)
  then have "[Suc (unat a)..<Suc (unat b)] @ [Suc (unat b)..<Suc (unat c)] = [Suc (unat a)..<Suc (unat c)]"
    by (metis Suc_le_mono le_Suc_ex upt_add_eq_append)
  then show ?thesis
    unfolding index_range_def unat_plus_one_word [OF nz(1)] unat_plus_one_word [OF nz(2)]
    by (metis map_append)
qed

lemma set_index_range: "set (index_range a b) = {i. a \<le> i \<and> i \<le> b}"
proof (intro set_eqI iffI)
  fix i assume "i \<in> set (index_range a b)"
  then obtain n where n: "unat a \<le> n" "n < Suc (unat b)" "i = word_of_nat n"
    unfolding index_range_def by auto
  then have "unat i = n" using unat_width_less(3) [of b] by (simp add: unat_of_nat)
  with n show "i \<in> {i. a \<le> i \<and> i \<le> b}" by (simp add: word_le_nat_alt)
next
  fix i assume "i \<in> {i. a \<le> i \<and> i \<le> b}"
  then have "unat i \<in> set [unat a..<Suc (unat b)]" by (auto simp: word_le_nat_alt)
  then have "word_of_nat (unat i) \<in> set (index_range a b)" unfolding index_range_def by (metis imageI list.set_map)
  then show "i \<in> set (index_range a b)" by simp
qed

lemma length_index_range: "length (index_range a b) = Suc (unat b) - unat a"
  by (simp add: index_range_def del: upt_Suc)

lemma sender_transmit_new:
  "snd_action st = SendNew \<Longrightarrow>
     highest_sent (fst (sender_transmit env st)) = max (highest_sent st) (window_edge env st) \<and>
     snd (sender_transmit env st) =
       map (data_datagram env) (index_range (highest_sent st + 1) (window_edge env st))"
  by (simp add: sender_transmit_def window_edge_def Let_def)

lemma sender_transmit_keeps [simp]:
  "last_acked (fst (sender_transmit env st)) = last_acked st"
  "snd_timeouts (fst (sender_transmit env st)) = snd_timeouts st"
  "snd_action st \<noteq> SendNew \<Longrightarrow> highest_sent (fst (sender_transmit env st)) = highest_sent st"
  by (auto simp: sender_transmit_def Let_def split: sender_act.splits)

lemma sender_transmit_inv:
  assumes "sender_env_ok env" "sender_inv env st"
  shows "sender_inv env (fst (sender_transmit env st))"
proof (cases "snd_action st = SendNew")
  case True
  have "unat (window_edge env st) \<le> unat (last_acked st) + unat (snd_window env)"
    and "window_edge env st \<le> snd_total_blocks env"
    using unat_window_edge [OF assms] by (simp_all add: window_edge_def)
  then show ?thesis
    using assms(2) sender_transmit_new [OF True, of env]
    by (auto simp: sender_inv_def max_def word_le_nat_alt)
next
  case False
  then show ?thesis using assms(2) by (simp add: sender_inv_def)
qed

text \<open>Every datagram of a transmission carries a block that is outstanding afterwards.\<close>

lemma sender_transmit_blocks:
  assumes "sender_env_ok env" "sender_inv env st" "d \<in> set (snd (sender_transmit env st))"
  shows "\<exists>i. last_acked st < i \<and> i \<le> highest_sent (fst (sender_transmit env st)) \<and>
    d = data_datagram env i"
proof (cases "snd_action st")
  case SendNew
  have lt: "highest_sent st < - 1"
    using assms(1,2) by (auto simp: sender_inv_def sender_env_ok_def word_less_nat_alt
        word_le_nat_alt unsigned_minus_1_eq_mask mask_eq_exp_minus_1)
  from assms(3) SendNew obtain i where i: "highest_sent st + 1 \<le> i" "i \<le> window_edge env st"
    "d = data_datagram env i"
    by (auto simp: sender_transmit_def window_edge_def Let_def set_index_range)
  have "highest_sent st < i" using i(1) word_succ_le_iff [OF lt] by simp
  then show ?thesis
    using i assms(2) sender_transmit_new [OF SendNew, of env]
    by (intro exI [of _ i]) (auto simp: sender_inv_def max_def intro: order_le_less_trans order_trans)
next
  case Rollback
  then obtain i where i: "last_acked st + 1 \<le> i" "i \<le> highest_sent st" "d = data_datagram env i"
    using assms(3) by (auto simp: sender_transmit_def Let_def set_index_range)
  have "last_acked st < - 1"
    using assms(1,2) by (auto simp: sender_inv_def sender_env_ok_def word_less_nat_alt
        word_le_nat_alt unsigned_minus_1_eq_mask mask_eq_exp_minus_1)
  then have "last_acked st < i" using i(1) word_succ_le_iff by blast
  then show ?thesis using i Rollback by (intro exI [of _ i]) (simp add: sender_transmit_def Let_def)
next
  case WaitOnly
  then show ?thesis using assms(3) by (simp add: sender_transmit_def)
qed

lemma sender_handle_cases:
  "sender_handle env st r = Inl st' \<Longrightarrow>
     highest_sent st' = highest_sent st \<and> snd_outcome st' = snd_outcome st \<and>
     (last_acked st' = last_acked st \<or>
      (\<exists>p. r = GotPacket p \<and> opcode p = Acknowledgement \<and> snd_action st' = SendNew \<and>
        snd_timeouts st' = 0 \<and> last_acked st < last_acked st' \<and>
        last_acked st' = resolve_ack_to_absolute (block_number p) (last_acked st) (highest_sent st)))"
  by (auto simp: sender_handle_def Let_def split: receive_result.splits if_splits)

lemma sender_handle_inv:
  assumes "sender_inv env st" "sender_handle env st r = Inl st'"
  shows "sender_inv env st' \<and> last_acked st \<le> last_acked st'"
  using sender_handle_cases [OF assms(2)] assms(1)
    resolve_ack_bounds [of "last_acked st" "highest_sent st"]
  by (auto simp: sender_inv_def word_le_nat_alt word_less_nat_alt)

section \<open>Bounded termination\<close>

text \<open>
  A potential that every time-out lowers, that no other event raises, and that an advancing ACK
  cannot raise: the time-outs still allowed before the next give-up, plus a full allowance for
  every block not yet acknowledged.
\<close>

definition sender_potential :: "sender_env \<Rightarrow> sender_state \<Rightarrow> nat" where
  "sender_potential env st =
     nat (maximum_retransmissions (snd_config env) - snd_timeouts st) +
     Suc (nat (maximum_retransmissions (snd_config env))) *
       (unat (snd_total_blocks env) - unat (last_acked st))"

definition sender_timeouts_ok :: "sender_env \<Rightarrow> sender_state \<Rightarrow> bool" where
  "sender_timeouts_ok env st \<longleftrightarrow>
     0 \<le> snd_timeouts st \<and> snd_timeouts st \<le> max 0 (maximum_retransmissions (snd_config env))"

lemma sender_potential_transmit [simp]:
  "sender_potential env (fst (sender_transmit env st)) = sender_potential env st"
  "sender_timeouts_ok env (fst (sender_transmit env st)) = sender_timeouts_ok env st"
  by (simp_all add: sender_potential_def sender_timeouts_ok_def)

lemma sender_handle_potential:
  assumes ok: "sender_timeouts_ok env st" and inv: "sender_inv env st"
    and h: "sender_handle env st r = Inl st'"
  shows "sender_timeouts_ok env st' \<and>
    sender_potential env st' + (if r = TimedOut then 1 else 0) \<le> sender_potential env st"
proof (cases r)
  case TimedOut
  then show ?thesis
    using ok h by (auto simp: sender_handle_def sender_timeouts_ok_def sender_potential_def split: if_splits)
next
  case SocketError
  then show ?thesis using h by (simp add: sender_handle_def)
next
  case (GotPacket p)
  show ?thesis
  proof (cases "last_acked st' = last_acked st")
    case True
    then have "snd_timeouts st' = snd_timeouts st"
      using h GotPacket by (auto simp: sender_handle_def Let_def split: if_splits)
    then show ?thesis
      using True ok GotPacket by (simp add: sender_potential_def sender_timeouts_ok_def)
  next
    case False
    then have adv: "snd_timeouts st' = 0" "last_acked st < last_acked st'"
      using sender_handle_cases [OF h] by auto
    have "last_acked st' \<le> snd_total_blocks env"
      using sender_handle_inv [OF inv h] sender_handle_cases [OF h] inv by (auto simp: sender_inv_def)
    then have "Suc (unat (snd_total_blocks env) - unat (last_acked st'))
        \<le> unat (snd_total_blocks env) - unat (last_acked st)"
      using adv(2) by (simp add: word_le_nat_alt word_less_nat_alt)
    then have "Suc m * Suc (unat (snd_total_blocks env) - unat (last_acked st'))
        \<le> Suc m * (unat (snd_total_blocks env) - unat (last_acked st))" for m
      by (rule mult_le_mono2)
    then have "m + Suc m * (unat (snd_total_blocks env) - unat (last_acked st'))
        \<le> Suc m * (unat (snd_total_blocks env) - unat (last_acked st))" for m
      by (metis Suc_leD add_Suc mult_Suc_right)
    from trans_le_add2 [OF this]
    have "sender_potential env st' \<le> sender_potential env st"
      unfolding sender_potential_def adv(1) diff_0_right .
    then show ?thesis
      using adv(1) GotPacket by (simp add: sender_timeouts_ok_def)
  qed
qed

definition sender_admits :: "sender_env \<Rightarrow> sender_state \<Rightarrow> bool" where
  "sender_admits env st \<longleftrightarrow>
     sender_env_ok env \<and> sender_inv env st \<and> sender_timeouts_ok env st"

lemma sender_loop_step:
  assumes "last_acked st < snd_total_blocks env" "sender_transmit env st = (st1, sends)"
  shows "sender_loop env peer st sk =
    (case receive_from_locked_peer (send_all sk peer sends) peer of
       Waiting sk2 \<Rightarrow> Waiting sk2
     | Raised e sk2 \<Rightarrow> Raised e sk2
     | Returned received sk2 \<Rightarrow>
         (case sender_handle env st1 received of
            Inr outcome \<Rightarrow> Returned outcome sk2
          | Inl st2 \<Rightarrow> sender_loop env peer st2 sk2))"
  using assms by (subst sender_loop.simps) (simp split: result.splits sum.splits)

lemma sender_loop_polls:
  assumes adm: "sender_admits env st"
  shows "returns (sender_loop env peer st sk) \<or>
    polls (sender_loop env peer) peer (sender_admits env) (\<lambda>st _. sender_potential env st) st sk"
proof (cases "last_acked st < snd_total_blocks env")
  case True
  obtain st1 sends where tx: "sender_transmit env st = (st1, sends)" by fastforce
  note step = sender_loop_step [OF True tx, of peer sk]
  have inv1: "sender_inv env st1" "sender_timeouts_ok env st1"
    "sender_potential env st1 = sender_potential env st"
    using sender_transmit_inv [of env st] sender_potential_transmit [of env st] adm tx
    by (simp_all add: sender_admits_def)
  show ?thesis
  proof (rule disjI2, rule pollsI [of "send_all sk peer sends"])
    fix r sk2
    assume rec: "receive_from_locked_peer (send_all sk peer sends) peer = Returned r sk2"
    show "(timeouts_left (inbox sk2) > 0 \<or> r = TimedOut \<longrightarrow> returns (sender_loop env peer st sk)) \<or>
      goes_on (sender_loop env peer) (sender_admits env) (\<lambda>st _. sender_potential env st) st sk r sk2"
    proof (cases "sender_handle env st1 r")
      case (Inl st2)
      show ?thesis
        by (rule disjI2, rule goes_onI [of _ _ _ st2 sk2])
          (use sender_handle_potential [OF inv1(2,1) Inl] sender_handle_inv [OF inv1(1) Inl] inv1(3)
            Inl rec step adm in \<open>simp_all add: sender_admits_def\<close>)
    qed (simp add: step rec)
  qed simp
next
  case False
  then show ?thesis by (subst sender_loop.simps) simp
qed

interpretation sender_poll: polling_loop "sender_loop env peer" peer "sender_admits env"
    "\<lambda>st _. sender_potential env st"
  for env peer
  by unfold_locales (rule sender_loop_polls)

section \<open>Without time-outs every block is sent once, in order\<close>

lemma sender_transmit_fresh:
  assumes "sender_env_ok env" "sender_inv env st" "snd_action st \<noteq> Rollback"
  shows "snd (sender_transmit env st) = map (data_datagram env)
      (index_range (highest_sent st + 1) (highest_sent (fst (sender_transmit env st))))"
    and "highest_sent st \<le> highest_sent (fst (sender_transmit env st))"
    and "retransmissions (snd_outcome (fst (sender_transmit env st))) = retransmissions (snd_outcome st)"
proof -
  have lt: "highest_sent st < - 1"
    using assms(1,2) by (auto simp: sender_inv_def sender_env_ok_def word_less_nat_alt
        word_le_nat_alt unsigned_minus_1_eq_mask mask_eq_exp_minus_1)
  have e1: "index_range (highest_sent st + 1) e = []" if "e \<le> highest_sent st" for e
    using that lt by (intro index_range_empty) (meson linorder_not_le order_trans word_succ_le_iff)
  show "snd (sender_transmit env st) = map (data_datagram env)
      (index_range (highest_sent st + 1) (highest_sent (fst (sender_transmit env st))))"
  proof (cases "snd_action st = SendNew")
    case True
    then show ?thesis
      using sender_transmit_new [OF True, of env] e1 [of "window_edge env st"] e1 [of "highest_sent st"]
      by (cases "highest_sent st \<le> window_edge env st") (simp_all add: max_def)
  next
    case False
    then show ?thesis
      using assms(3) e1 [of "highest_sent st"]
      by (cases "snd_action st") (simp_all add: sender_transmit_def)
  qed
  show "highest_sent st \<le> highest_sent (fst (sender_transmit env st))"
    using assms(3) by (cases "snd_action st") (auto simp: sender_transmit_def Let_def)
  show "retransmissions (snd_outcome (fst (sender_transmit env st))) = retransmissions (snd_outcome st)"
    using assms(3) by (cases "snd_action st") (auto simp: sender_transmit_def Let_def)
qed

lemma sender_handle_quiet:
  assumes "\<not> retransmit_on_duplicate_ack (quirks (snd_config env))" "r \<noteq> TimedOut"
    and "sender_handle env st r = Inl st'"
  shows "snd_action st' \<noteq> Rollback"
  using assms by (auto simp: sender_handle_def Let_def split: receive_result.splits if_splits)

text \<open>What one run from state \<open>st\<close> on socket \<open>sk\<close> has sent by the time it ends in \<open>res\<close>.\<close>

definition sent_once ::
  "sender_env \<Rightarrow> endpoint \<Rightarrow> sender_state \<Rightarrow> udp_socket \<Rightarrow> transfer_outcome result \<Rightarrow> bool" where
  "sent_once env peer st sk res \<longleftrightarrow>
     (\<exists>h. highest_sent st \<le> h \<and> h \<le> snd_total_blocks env \<and>
        sent_to peer (result_socket res) =
          sent_to peer sk @ map (data_datagram env) (index_range (highest_sent st + 1) h))"

lemma sent_once_step:
  assumes "sender_env_ok env" "sender_inv env st" "snd_action st \<noteq> Rollback" "endpoint_valid peer"
    and tx: "sender_transmit env st = (st1, sends)"
    and rest: "sent_once env peer st2 (result_socket (receive_from_locked_peer (send_all sk peer sends) peer)) res"
    and same: "highest_sent st2 = highest_sent st1"
  shows "sent_once env peer st sk res"
proof -
  let ?sk2 = "result_socket (receive_from_locked_peer (send_all sk peer sends) peer)"
  from rest same obtain h where h: "highest_sent st1 \<le> h" "h \<le> snd_total_blocks env"
    "sent_to peer (result_socket res) =
       sent_to peer ?sk2 @ map (data_datagram env) (index_range (highest_sent st1 + 1) h)"
    by (auto simp: sent_once_def)
  have f: "sends = map (data_datagram env) (index_range (highest_sent st + 1) (highest_sent st1))"
    "highest_sent st \<le> highest_sent st1"
    using sender_transmit_fresh(1,2) [OF assms(1-3)] tx by simp_all
  have "h < - 1"
    using h(2) assms(1) by (auto simp: sender_env_ok_def word_less_nat_alt word_le_nat_alt
        unsigned_minus_1_eq_mask mask_eq_exp_minus_1)
  then have "sent_to peer (result_socket res) =
      sent_to peer sk @ map (data_datagram env) (index_range (highest_sent st + 1) h)"
    using receive_locked_sent_to [OF assms(4), of "send_all sk peer sends"]
      index_range_append [OF f(2) h(1)] h(3) f(1) by (simp flip: map_append)
  then show ?thesis
    unfolding sent_once_def using h(1,2) f(2) by (intro exI [of _ h]) (simp add: order_trans [OF f(2) h(1)])
qed

lemma sent_once_refl:
  assumes "sender_env_ok env" "sender_inv env st" "result_socket res = sk"
  shows "sent_once env peer st sk res"
proof -
  have "highest_sent st < - 1"
    using assms(1,2) by (auto simp: sender_inv_def sender_env_ok_def word_less_nat_alt
        word_le_nat_alt unsigned_minus_1_eq_mask mask_eq_exp_minus_1)
  then have "highest_sent st < highest_sent st + 1" by (metis order_refl word_succ_le_iff)
  then have "index_range (highest_sent st + 1) (highest_sent st) = []" by (rule index_range_empty)
  then show ?thesis
    unfolding sent_once_def using assms(2,3)
    by (intro exI [of _ "highest_sent st"]) (simp add: sender_inv_def)
qed

lemma sender_loop_quiet:
  assumes "sender_env_ok env" "sender_inv env st" "snd_action st \<noteq> Rollback" "endpoint_valid peer"
    and "\<not> retransmit_on_duplicate_ack (quirks (snd_config env))" and "quiet (inbox sk)"
  shows "sent_once env peer st sk (sender_loop env peer st sk) \<and>
    (\<forall>outcome sk'. sender_loop env peer st sk = Returned outcome sk' \<longrightarrow>
       retransmissions outcome = retransmissions (snd_outcome st))"
  using assms
proof (induction env peer st sk rule: sender_loop.induct)
  case (1 env peer st sk)
  show ?case
  proof (cases "last_acked st < snd_total_blocks env")
    case True
    obtain st1 sends where tx: "sender_transmit env st = (st1, sends)" by fastforce
    define sk1 where "sk1 = send_all sk peer sends"
    have inv1: "sender_inv env st1"
      using sender_transmit_inv [OF "1.prems"(1,2)] tx by simp
    have rt: "retransmissions (snd_outcome st1) = retransmissions (snd_outcome st)"
      using sender_transmit_fresh(3) [OF "1.prems"(1-3)] tx by simp
    note step = sent_once_step [OF "1.prems"(1-4) tx, of _ sk, folded sk1_def]
    have q: "quiet (inbox sk1)" using "1.prems"(6) by (simp add: sk1_def)
    show ?thesis
    proof (cases "receive_from_locked_peer sk1 peer")
      case (Waiting sk2)
      then have "sender_loop env peer st sk = Waiting sk2"
        using True tx by (subst sender_loop.simps) (simp add: sk1_def [symmetric])
      then show ?thesis
        using step [of st1] sent_once_refl [OF "1.prems"(1) inv1] Waiting by simp
    next
      case (Raised e sk2)
      then show ?thesis by simp
    next
      case (Returned r sk2)
      show ?thesis
      proof (cases "sender_handle env st1 r")
        case (Inr out)
        then have "sender_loop env peer st sk = Returned out sk2"
          using True tx Returned by (subst sender_loop.simps) (simp add: sk1_def [symmetric])
        moreover have "retransmissions out = retransmissions (snd_outcome st1)"
          using Inr by (auto simp: sender_handle_def Let_def split: receive_result.splits if_splits)
        ultimately show ?thesis
          using step [of st1] sent_once_refl [OF "1.prems"(1) inv1] Returned rt by simp
      next
        case (Inl st2)
        have loop: "sender_loop env peer st sk = sender_loop env peer st2 sk2"
          using True tx Returned Inl by (subst sender_loop.simps) (simp add: sk1_def [symmetric])
        note c = sender_handle_cases [OF Inl]
        have "sent_once env peer st2 sk2 (sender_loop env peer st2 sk2) \<and>
          (\<forall>outcome sk'. sender_loop env peer st2 sk2 = Returned outcome sk' \<longrightarrow>
            retransmissions outcome = retransmissions (snd_outcome st2))"
          using "1.IH" [OF True tx [symmetric] refl sk1_def] Returned Inl sk1_def
            sender_handle_inv [OF inv1 Inl] "1.prems"
            sender_handle_quiet [OF "1.prems"(5) _ Inl] receive_locked_quiet [OF q Returned]
          by blast
        then show ?thesis
          unfolding loop using step [of st2] c Returned rt by simp
      qed
    qed
  next
    case False
    then have "sender_loop env peer st sk = Returned (sender_success env st) sk"
      by (subst sender_loop.simps) simp
    then show ?thesis
      using sent_once_refl [OF "1.prems"(1,2)] by (simp add: sender_success_def)
  qed
qed

section \<open>The sender as a whole\<close>

lemma effective_total_blocks_bound:
  assumes "effective_total_blocks config payload bs = Inr blocks"
    and "length payload div unat bs + 1 < 2 ^ 32"
  shows "bs \<noteq> 0 \<and> unat blocks \<le> length payload div unat bs + 1"
proof -
  have t: "unat (word_of_nat (length payload div unat bs) + 1 :: u32) = length payload div unat bs + 1"
    using assms(2) by (subst unat_add_no_overflow) (simp_all add: unat_of_nat)
  then have "unat (word_of_nat (length payload div unat bs) + 1 - 1 :: u32) \<le> length payload div unat bs + 1"
    using assms(2) by (simp add: unat_of_nat)
  then show ?thesis
    using assms(1) t by (auto simp: effective_total_blocks_def total_block_count_def
        split: if_splits sum.splits)
qed

lemma run_data_sender_start:
  assumes "effective_total_blocks config payload (block_size params) = Inr blocks"
    and "length payload div unat (block_size params) + 1 + 65536 < 2 ^ 32"
  shows "sender_env_ok (make_sender_env payload params config blocks)"
    and "sender_inv (make_sender_env payload params config blocks) (initial_sender_state params k)"
    and "sender_timeouts_ok (make_sender_env payload params config blocks) (initial_sender_state params k)"
proof -
  have "unat (ucast (max (window_size params) 1) :: u32) = unat (max (window_size params) 1)"
    using unat_width_less(2) [of "max (window_size params) 1"]
    by (simp add: unsigned_ucast_eq take_bit_nat_eq_self)
  moreover have "0 < unat (max (window_size params) 1)"
    by (auto simp: max_def unat_gt_0 word_le_nat_alt)
  ultimately show "sender_env_ok (make_sender_env payload params config blocks)"
    using effective_total_blocks_bound [OF assms(1)] assms(2) unat_width_less(2) [of "max (window_size params) 1"]
    by (simp add: sender_env_ok_def make_sender_env_def)
qed (simp_all add: sender_inv_def sender_timeouts_ok_def initial_sender_state_def make_sender_env_def)

text \<open>
  The sender always gives up: whatever arrives, it returns on every script that holds more
  time-outs than a full allowance of retransmissions for each block and one more. An allowance is
  renewed only when a block is acknowledged for the first time.
\<close>
lemma run_data_sender_returns:
  assumes "block_size params \<noteq> 0"
    and "length payload div unat (block_size params) + 1 + 65536 < 2 ^ 32"
    and "Suc (nat (maximum_retransmissions config)) *
      (length payload div unat (block_size params) + 2) \<le> timeouts_left (inbox sk)"
  shows "\<exists>outcome sk'. run_data_sender sk peer payload params config k = Returned outcome sk'"
proof -
  obtain blocks where b: "effective_total_blocks config payload (block_size params) = Inr blocks"
    using assms(1) by (auto simp: effective_total_blocks_def total_block_count_def)
  let ?env = "make_sender_env payload params config blocks" and ?st = "initial_sender_state params k"
  let ?m = "nat (maximum_retransmissions config)" and ?n = "length payload div unat (block_size params)"
  have "Suc ?m * unat blocks \<le> Suc ?m * (?n + 1)"
    using effective_total_blocks_bound [OF b] assms(2) by (intro mult_le_mono2) simp
  then have "sender_potential ?env ?st < timeouts_left (inbox sk)"
    using assms(3) by (simp add: sender_potential_def make_sender_env_def initial_sender_state_def)
  then have "returns (sender_loop ?env peer ?st sk)"
    using sender_poll.returns_if_timeouts_left [of ?env ?st sk peer] run_data_sender_start [OF b assms(2)]
    by (simp add: sender_admits_def)
  then show ?thesis by (auto simp: returns_def run_data_sender_def b)
qed

lemma run_data_sender_returns_witness:
  "\<exists>outcome sk'. run_data_sender (fresh_socket (replicate 14 WouldBlock)) (IPv4 [127, 0, 0, 1] 69)
     [1, 2, 3] default_parameters default_engine_config 0 = Returned outcome sk'"
  by (rule run_data_sender_returns)
    (simp_all add: default_parameters_def default_engine_config_def)

text \<open>
  C6. No Sorcerer's Apprentice: a sender without the quirk, on any script without a time-out, however
  many duplicate, stale or foreign ACKs it holds, has sent the blocks 1, 2, ... up to some block, in
  order and each exactly once, and counts no retransmission.
\<close>
theorem duplicate_acks_cause_no_data:
  assumes "\<not> retransmit_on_duplicate_ack (quirks config)" and "quiet (inbox sk)"
    and "endpoint_valid peer" and "block_size params \<noteq> 0"
    and "length payload div unat (block_size params) + 1 + 65536 < 2 ^ 32"
    and "run_data_sender sk peer payload params config k = res"
  shows "\<exists>h blocks. effective_total_blocks config payload (block_size params) = Inr blocks \<and>
    h \<le> blocks \<and>
    sent_to peer (result_socket res) = sent_to peer sk @
      map (data_datagram (make_sender_env payload params config blocks)) (index_range 1 h) \<and>
    (\<forall>outcome sk'. res = Returned outcome sk' \<longrightarrow> retransmissions outcome = 0)"
proof -
  obtain blocks where b: "effective_total_blocks config payload (block_size params) = Inr blocks"
    using assms(4) by (auto simp: effective_total_blocks_def total_block_count_def)
  let ?env = "make_sender_env payload params config blocks" and ?st = "initial_sender_state params k"
  have "sent_once ?env peer ?st sk res \<and>
      (\<forall>outcome sk'. res = Returned outcome sk' \<longrightarrow> retransmissions outcome = 0)"
    using sender_loop_quiet [of ?env ?st peer sk] run_data_sender_start [OF b assms(5)] assms b
    by (auto simp: run_data_sender_def initial_sender_state_def make_sender_env_def empty_outcome_def)
  then show ?thesis
    using b by (auto simp: sent_once_def initial_sender_state_def make_sender_env_def)
qed

theorem duplicate_acks_cause_no_data_witness:
  "\<exists>h. h \<le> (2 :: u32) \<and>
     sent_to (IPv4 [127, 0, 0, 1] 69) (result_socket
       (run_data_sender
         (fresh_socket (replicate 2 (Datagram (serialize_acknowledgement 1) (IPv4 [127, 0, 0, 1] 69))))
         (IPv4 [127, 0, 0, 1] 69) [1, 2, 3] (default_parameters\<lparr>block_size := 2\<rparr>)
         default_engine_config 0)) =
     map (data_datagram (make_sender_env [1, 2, 3] (default_parameters\<lparr>block_size := 2\<rparr>)
         default_engine_config 2)) (index_range 1 h)"
proof -
  let ?p = "default_parameters\<lparr>block_size := 2\<rparr>"
  have b: "effective_total_blocks default_engine_config [1, 2, 3] (block_size ?p) = Inr 2"
    by (simp add: effective_total_blocks_def total_block_count_def default_engine_config_def
        correct_quirks_def)
  have q: "quiet (inbox (fresh_socket
      (replicate 2 (Datagram (serialize_acknowledgement 1) (IPv4 [127, 0, 0, 1] 69)))))"
    by (simp add: quiet_def serialize_acknowledgement_def append_u16_def)
  have "\<not> retransmit_on_duplicate_ack (quirks default_engine_config)" "block_size ?p \<noteq> 0"
    "length [1 :: u8, 2, 3] div unat (block_size ?p) + 1 + 65536 < 2 ^ 32"
    "endpoint_valid (IPv4 [127, 0, 0, 1] 69)"
    by (simp_all add: default_engine_config_def correct_quirks_def endpoint_valid_def)
  from duplicate_acks_cause_no_data [OF this(1) q this(4,2,3) refl, of 0] b show ?thesis by auto
qed

end
