(* ===== verification/Receiver.thy ===== *)
theory Receiver
  imports Engine_Types
begin

text \<open>
  \<open>run_data_receiver\<close> of \<open>adapters/reference/tftp_reference_engine.cpp\<close> (lines 276-404), the
  windowed DATA receiver. The vector \<open>sink\<close> the C++ function appends to is a field of the state and
  part of the result. \<open>receiver_handle\<close> is one iteration of the loop after the packet of the
  iteration is known; \<open>receiver_loop\<close> takes that packet from \<open>primed\<close> first and from the socket
  afterwards; \<open>receiver_dally\<close> is the bounded tail that answers retransmissions of the final block.
\<close>

record receiver_env =
  rcv_block_size :: u32
  rcv_window :: u32
  rcv_config :: engine_config

record receiver_state =
  last_in_sequence :: u32
  blocks_since_ack :: u32
  rcv_timeouts :: int
  sink :: bytes
  rcv_outcome :: transfer_outcome

datatype receiver_next =
    Continue receiver_state
  | Complete receiver_state
  | Abort receiver_state

definition ack_datagram :: "u32 \<Rightarrow> bytes" where
  "ack_datagram index = serialize_acknowledgement (wire_block_number index)"

definition count_received :: "transfer_outcome \<Rightarrow> transfer_outcome" where
  "count_received outcome =
     outcome\<lparr>data_packets_received := data_packets_received outcome + 1\<rparr>"

text \<open>A DATA packet; the second component is what the iteration sends.\<close>

definition receiver_handle_data ::
  "receiver_env \<Rightarrow> receiver_state \<Rightarrow> tftp_packet \<Rightarrow> receiver_next \<times> bytes list" where
  "receiver_handle_data env st packet =
     (let data = packet_data packet;
          absolute = resolve_data_to_absolute (block_number packet) (last_in_sequence st)
                       (rcv_window env);
          final_block = length data < unat (rcv_block_size env)
      in if absolute = last_in_sequence st + 1 then
           let st1 = st\<lparr>sink := sink st @ data, last_in_sequence := last_in_sequence st + 1,
                        rcv_outcome := count_received (rcv_outcome st),
                        blocks_since_ack := blocks_since_ack st + 1\<rparr>
           in if final_block then (Complete st1, [ack_datagram (last_in_sequence st1)])
              else if blocks_since_ack st1 \<ge> rcv_window env then
                (Continue (st1\<lparr>blocks_since_ack := 0\<rparr>), [ack_datagram (last_in_sequence st1)])
              else (Continue st1, [])
         else if absolute \<noteq> 0 \<and> absolute \<le> last_in_sequence st then
           (Continue (st\<lparr>blocks_since_ack := 0\<rparr>), [ack_datagram (last_in_sequence st)])
         else if accept_out_of_sequence_data (quirks (rcv_config env)) \<and> absolute \<noteq> 0 then
           let st1 = st\<lparr>sink := sink st @ data, last_in_sequence := absolute,
                        rcv_outcome := count_received (rcv_outcome st)\<rparr>
           in if final_block then (Complete st1, [ack_datagram absolute])
              else (Continue st1, [ack_datagram absolute])
         else (Continue (st\<lparr>blocks_since_ack := 0\<rparr>), [ack_datagram (last_in_sequence st)]))"

definition receiver_handle ::
  "receiver_env \<Rightarrow> receiver_state \<Rightarrow> receive_result \<Rightarrow> receiver_next \<times> bytes list" where
  "receiver_handle env st received =
     (case received of
        SocketError \<Rightarrow>
          (Abort (st\<lparr>rcv_outcome := (rcv_outcome st)
             \<lparr>outcome_error_message := ''socket error while receiving''\<rparr>\<rparr>), [])
      | TimedOut \<Rightarrow>
          if rcv_timeouts st + 1 > maximum_retransmissions (rcv_config env) then
            (Abort (st\<lparr>rcv_timeouts := rcv_timeouts st + 1, rcv_outcome := (rcv_outcome st)
               \<lparr>timed_out := True,
                outcome_error_message := ''gave up after maximum retransmissions (receiver)''\<rparr>\<rparr>), [])
          else (Continue (st\<lparr>rcv_timeouts := rcv_timeouts st + 1\<rparr>),
                [ack_datagram (last_in_sequence st)])
      | GotPacket packet \<Rightarrow>
          if opcode packet = Error then
            (Abort (st\<lparr>rcv_outcome := (rcv_outcome st)
               \<lparr>outcome_error_code := Some (error_code packet),
                outcome_error_message := error_message packet\<rparr>\<rparr>), [])
          else if opcode packet \<noteq> Data then (Continue st, [])
          else receiver_handle_data env (st\<lparr>rcv_timeouts := 0\<rparr>) packet)"

fun receiver_dally :: "nat \<Rightarrow> u32 \<Rightarrow> endpoint \<Rightarrow> udp_socket \<Rightarrow> unit result" where
  "receiver_dally 0 last_index peer sk = Returned () sk"
| "receiver_dally (Suc n) last_index peer sk =
     (case receive_from_locked_peer sk peer of
        Waiting sk1 \<Rightarrow> Waiting sk1
      | Raised e sk1 \<Rightarrow> Raised e sk1
      | Returned received sk1 \<Rightarrow>
          (case received of
             GotPacket packet \<Rightarrow>
               receiver_dally n last_index peer
                 (if opcode packet = Data then send_to sk1 (ack_datagram last_index) peer else sk1)
           | _ \<Rightarrow> Returned () sk1))"

definition receiver_success :: "receiver_state \<Rightarrow> transfer_outcome \<times> bytes" where
  "receiver_success st =
     ((rcv_outcome st)\<lparr>completed_successfully := True,
        bytes_transferred := word_of_nat (length (sink st))\<rparr>, sink st)"

function receiver_loop ::
  "receiver_env \<Rightarrow> endpoint \<Rightarrow> receiver_state \<Rightarrow> tftp_packet option \<Rightarrow> udp_socket \<Rightarrow>
   (transfer_outcome \<times> bytes) result" where
  "receiver_loop env peer st pending sk =
     (case (case pending of
              Some packet \<Rightarrow> Returned (GotPacket packet) sk
            | None \<Rightarrow> receive_from_locked_peer sk peer) of
        Waiting sk1 \<Rightarrow> Waiting sk1
      | Raised e sk1 \<Rightarrow> Raised e sk1
      | Returned received sk1 \<Rightarrow>
          let (next_step, sends) = receiver_handle env st received;
              sk2 = send_all sk1 peer sends
          in (case next_step of
                Abort st1 \<Rightarrow> Returned (rcv_outcome st1, sink st1) sk2
              | Continue st1 \<Rightarrow> receiver_loop env peer st1 None sk2
              | Complete st1 \<Rightarrow>
                  bind_result
                    (receiver_dally 4 (last_in_sequence st1) peer (set_receive_timeout sk2 150))
                    (\<lambda>_ sk3. Returned (receiver_success st1) sk3)))"
  by pat_completeness auto
termination
  by (relation "measure (\<lambda>(env, peer, st, pending, sk).
        length (inbox sk) + (if pending = None then 0 else 1))")
    (auto dest!: receive_locked_shorter split: option.splits)

declare receiver_loop.simps [simp del]

definition make_receiver_env :: "negotiated_parameters \<Rightarrow> engine_config \<Rightarrow> receiver_env" where
  "make_receiver_env params config =
     \<lparr>rcv_block_size = block_size params, rcv_window = ucast (max (window_size params) 1),
      rcv_config = config\<rparr>"

definition initial_receiver_state ::
  "negotiated_parameters \<Rightarrow> bytes \<Rightarrow> u32 \<Rightarrow> receiver_state" where
  "initial_receiver_state params sink0 first_expected_block =
     \<lparr>last_in_sequence = first_expected_block - 1, blocks_since_ack = 0, rcv_timeouts = 0,
      sink = sink0, rcv_outcome = empty_outcome\<lparr>negotiated := params\<rparr>\<rparr>"

definition run_data_receiver ::
  "udp_socket \<Rightarrow> endpoint \<Rightarrow> negotiated_parameters \<Rightarrow> engine_config \<Rightarrow> bytes \<Rightarrow> u32 \<Rightarrow>
   tftp_packet option \<Rightarrow> (transfer_outcome \<times> bytes) result" where
  "run_data_receiver sk peer params config sink0 first_expected_block primed =
     receiver_loop (make_receiver_env params config) peer
       (initial_receiver_state params sink0 first_expected_block) primed sk"

section \<open>One iteration\<close>

text \<open>Without quirks: the sink grows only by the block that is next in sequence.\<close>

definition receiver_quirk_free :: "receiver_env \<Rightarrow> bool" where
  "receiver_quirk_free env \<longleftrightarrow> \<not> accept_out_of_sequence_data (quirks (rcv_config env))"

lemma receiver_data_in_sequence:
  assumes "last_in_sequence st \<noteq> - 1"
    and "block_number p = wire_block_number (last_in_sequence st + 1)"
  shows "receiver_handle_data env st p =
    (let st1 = st\<lparr>sink := sink st @ packet_data p, last_in_sequence := last_in_sequence st + 1,
                  rcv_outcome := count_received (rcv_outcome st),
                  blocks_since_ack := blocks_since_ack st + 1\<rparr>
     in if length (packet_data p) < unat (rcv_block_size env)
        then (Complete st1, [ack_datagram (last_in_sequence st1)])
        else if blocks_since_ack st1 \<ge> rcv_window env
        then (Continue (st1\<lparr>blocks_since_ack := 0\<rparr>), [ack_datagram (last_in_sequence st1)])
        else (Continue st1, []))"
  using assms resolve_data_in_sequence [of "last_in_sequence st" "block_number p" "rcv_window env"]
  by (simp add: receiver_handle_data_def Let_def)

lemma receiver_data_other:
  assumes "last_in_sequence st \<noteq> - 1" "receiver_quirk_free env"
    and "block_number p \<noteq> wire_block_number (last_in_sequence st + 1)"
  shows "receiver_handle_data env st p =
    (Continue (st\<lparr>blocks_since_ack := 0\<rparr>), [ack_datagram (last_in_sequence st)])"
  using assms resolve_data_in_sequence [of "last_in_sequence st" "block_number p" "rcv_window env"]
  by (simp add: receiver_handle_data_def receiver_quirk_free_def Let_def)

text \<open>
  The state reached by an iteration that goes on or completes: either nothing was accepted, or the
  packet was the DATA block that follows and its payload went to the end of the sink.
\<close>

fun next_state :: "receiver_next \<Rightarrow> receiver_state" where
  "next_state (Continue st) = st"
| "next_state (Complete st) = st"
| "next_state (Abort st) = st"

lemma receiver_handle_cases:
  assumes "last_in_sequence st \<noteq> - 1" "receiver_quirk_free env"
    and "receiver_handle env st r = (nxt, sends)"
  obtains (keep) "last_in_sequence (next_state nxt) = last_in_sequence st"
      "sink (next_state nxt) = sink st" "\<And>st'. nxt \<noteq> Complete st'"
      "set sends \<subseteq> {ack_datagram (last_in_sequence st)}"
    | (accept) p st' where "r = GotPacket p" "opcode p = Data"
      "block_number p = wire_block_number (last_in_sequence st + 1)"
      "next_state nxt = st'" "last_in_sequence st' = last_in_sequence st + 1"
      "sink st' = sink st @ packet_data p"
      "(nxt = Complete st' \<and> length (packet_data p) < unat (rcv_block_size env)) \<or>
       (nxt = Continue st' \<and> unat (rcv_block_size env) \<le> length (packet_data p))"
      "set sends \<subseteq> {ack_datagram (last_in_sequence st')}"
proof (cases "\<exists>p. r = GotPacket p \<and> opcode p = Data \<and>
    block_number p = wire_block_number (last_in_sequence st + 1)")
  case True
  then obtain p where p: "r = GotPacket p" "opcode p = Data"
    "block_number p = wire_block_number (last_in_sequence st + 1)" by blast
  show ?thesis
    by (rule accept [OF p, of "next_state nxt"])
      (use assms(1,3) p in \<open>auto simp: receiver_handle_def receiver_data_in_sequence Let_def
         split: if_splits\<close>)
next
  case False
  show ?thesis
    by (rule keep)
      (use assms False in \<open>auto simp: receiver_handle_def receiver_data_other
         split: receive_result.splits if_splits\<close>)
qed

section \<open>Bounded termination\<close>

lemma receiver_dally_silence:
  "inbox sk = WouldBlock # evs \<Longrightarrow>
     receiver_dally 4 last_index peer sk = Returned () (sk\<lparr>inbox := evs\<rparr>)"
  by (simp add: eval_nat_numeral receive_locked_timeout)

lemma receiver_dally_returns:
  "0 < timeouts_left (inbox sk) \<Longrightarrow> returns (receiver_dally n last_index peer sk)"
proof (induction n arbitrary: sk)
  case (Suc n)
  show ?case
  proof (cases "receive_from_locked_peer sk peer")
    case (Returned r sk1)
    have "0 < timeouts_left (inbox sk1)" if "r \<noteq> TimedOut"
      using receive_locked_timeouts_left [OF Returned] Suc.prems that by simp
    then show ?thesis using Suc.IH Returned by (auto split: receive_result.splits)
  next
    case (Waiting sk1)
    then show ?thesis using receive_locked_waiting [OF Waiting] Suc.prems by simp
  qed simp
qed simp

text \<open>
  Time-outs still allowed before the next give-up, plus a full allowance for every event of the
  script that is not a time-out, since any DATA packet of the peer clears the count.
\<close>

definition receiver_potential :: "receiver_env \<Rightarrow> receiver_state \<Rightarrow> nat \<Rightarrow> nat" where
  "receiver_potential env st events =
     nat (maximum_retransmissions (rcv_config env) - rcv_timeouts st) +
     Suc (nat (maximum_retransmissions (rcv_config env))) * events"

definition receiver_admits :: "receiver_env \<Rightarrow> receiver_state \<Rightarrow> bool" where
  "receiver_admits env st \<longleftrightarrow>
     0 \<le> rcv_timeouts st \<and> rcv_timeouts st \<le> max 0 (maximum_retransmissions (rcv_config env))"

lemma receiver_handle_data_timeouts:
  "receiver_handle_data env st p = (Continue st', sends) \<Longrightarrow> rcv_timeouts st' = rcv_timeouts st"
  by (auto simp: receiver_handle_data_def Let_def split: if_splits)

lemma receiver_handle_potential:
  assumes "receiver_admits env st" "receiver_handle env st r = (Continue st', sends)"
    and "n' + (if r = TimedOut then 0 else 1) \<le> n"
  shows "receiver_admits env st' \<and>
    receiver_potential env st' n' + (if r = TimedOut then 1 else 0) \<le> receiver_potential env st n"
proof -
  let ?m = "nat (maximum_retransmissions (rcv_config env))"
  have step: "?m + Suc ?m * n' \<le> Suc ?m * n" if "r \<noteq> TimedOut"
  proof -
    have "Suc ?m * Suc n' \<le> Suc ?m * n" using assms(3) that by (intro mult_le_mono2) simp
    then show ?thesis by simp
  qed
  have late: "Suc ?m * n' \<le> Suc ?m * n" using assms(3) by (intro mult_le_mono2) (simp split: if_splits)
  have "r = TimedOut \<and> rcv_timeouts st' = rcv_timeouts st + 1 \<and>
        rcv_timeouts st + 1 \<le> maximum_retransmissions (rcv_config env) \<or>
      r \<noteq> TimedOut \<and> (rcv_timeouts st' = 0 \<or> rcv_timeouts st' = rcv_timeouts st)"
    using assms(2) by (auto simp: receiver_handle_def split: receive_result.splits if_splits
        dest: receiver_handle_data_timeouts)
  moreover have "nat (maximum_retransmissions (rcv_config env) - rcv_timeouts st') \<le> ?m"
    if "0 \<le> rcv_timeouts st'" using that by simp
  ultimately show ?thesis
    using step late assms(1) by (auto simp: receiver_admits_def receiver_potential_def)
qed

lemma receiver_loop_step:
  "receiver_loop env peer st None sk =
     (case receive_from_locked_peer sk peer of
        Waiting sk1 \<Rightarrow> Waiting sk1
      | Raised e sk1 \<Rightarrow> Raised e sk1
      | Returned received sk1 \<Rightarrow>
          (case receiver_handle env st received of
             (Abort st1, sends) \<Rightarrow> Returned (rcv_outcome st1, sink st1) (send_all sk1 peer sends)
           | (Continue st1, sends) \<Rightarrow> receiver_loop env peer st1 None (send_all sk1 peer sends)
           | (Complete st1, sends) \<Rightarrow>
               bind_result
                 (receiver_dally 4 (last_in_sequence st1) peer
                   (set_receive_timeout (send_all sk1 peer sends) 150))
                 (\<lambda>_ sk3. Returned (receiver_success st1) sk3)))"
  by (subst receiver_loop.simps) (simp split: result.splits prod.splits receiver_next.splits)

lemma returns_bind: "returns res \<Longrightarrow> (\<And>a sk. returns (f a sk)) \<Longrightarrow> returns (bind_result res f)"
  by (cases res) auto

lemma receiver_loop_polls:
  assumes adm: "receiver_admits env st"
  shows "polls (\<lambda>st. receiver_loop env peer st None) peer (receiver_admits env)
    (receiver_potential env) st sk"
proof (rule pollsI [of sk])
  fix r sk2
  assume rec: "receive_from_locked_peer sk peer = Returned r sk2"
  obtain nxt sends where h: "receiver_handle env st r = (nxt, sends)" by fastforce
  show "(timeouts_left (inbox sk2) > 0 \<or> r = TimedOut \<longrightarrow>
      returns (receiver_loop env peer st None sk)) \<or>
    goes_on (\<lambda>st. receiver_loop env peer st None) (receiver_admits env)
      (receiver_potential env) st sk r sk2"
  proof (cases nxt)
    case (Continue st')
    show ?thesis
      by (rule disjI2, rule goes_onI [of _ _ _ st' "send_all sk2 peer sends"])
        (use receiver_handle_potential [OF adm h [unfolded Continue] receive_locked_datagrams_left [OF rec]]
          rec h Continue in \<open>simp_all add: receiver_loop_step [of env peer st sk]\<close>)
  next
    case (Complete st')
    have "r \<noteq> TimedOut"
      using h Complete by (auto simp: receiver_handle_def split: if_splits)
    then show ?thesis
      using rec h Complete
      by (auto simp: receiver_loop_step [of env peer st sk] intro!: returns_bind receiver_dally_returns)
  next
    case (Abort st')
    then show ?thesis using rec h by (simp add: receiver_loop_step [of env peer st sk])
  qed
qed simp

interpretation receiver_poll: polling_loop "\<lambda>st. receiver_loop env peer st None" peer
    "receiver_admits env" "receiver_potential env"
  for env peer
  by unfold_locales (rule disjI2 [OF receiver_loop_polls])

text \<open>
  The receiver always gives up: on every script with more time-outs than an allowance of
  retransmissions for each other event and one more, it returns.
\<close>
lemma run_data_receiver_returns:
  assumes "Suc (nat (maximum_retransmissions config)) * Suc (datagrams_left (inbox sk))
    \<le> timeouts_left (inbox sk)"
  shows "\<exists>outcome content sk'. run_data_receiver sk peer params config sink0 first None =
    Returned (outcome, content) sk'"
proof -
  let ?env = "make_receiver_env params config" and ?st = "initial_receiver_state params sink0 first"
  have "receiver_admits ?env ?st"
    by (simp add: receiver_admits_def initial_receiver_state_def)
  moreover have "receiver_potential ?env ?st (datagrams_left (inbox sk)) < timeouts_left (inbox sk)"
    using assms by (simp add: receiver_potential_def initial_receiver_state_def make_receiver_env_def)
  ultimately have "returns (receiver_loop ?env peer ?st None sk)"
    by (rule receiver_poll.returns_if_timeouts_left)
  then show ?thesis by (auto simp: returns_def run_data_receiver_def)
qed

lemma run_data_receiver_returns_witness:
  "\<exists>outcome content sk'. run_data_receiver
     (fresh_socket (Datagram (serialize_data 9 []) (IPv4 [127, 0, 0, 1] 69) # replicate 14 WouldBlock))
     (IPv4 [127, 0, 0, 1] 69) default_parameters default_engine_config [] 1 None =
   Returned (outcome, content) sk'"
  by (rule run_data_receiver_returns)
    (simp add: default_engine_config_def datagrams_left_def)

end
