(* ===== verification/Lossy_Network.thy ===== *)
theory Lossy_Network
  imports Sender Receiver
begin

text \<open>
  One sender and one receiver of the reference engine joined by a network that loses, duplicates,
  delays and reorders datagrams: a state machine whose transitions are the iterations of the two
  loops (\<open>Sender\<close>, \<open>Receiver\<close>) and whose network part is the history of everything either side ever
  sent. A receive may return any datagram of the history, as often as it likes, report a time-out
  or a socket error at any moment, or return an ERROR packet of the peer.

  The wire carries 16-bit block numbers, so a datagram delayed by 65536 blocks cannot be told from a
  fresh one. The parameter \<open>horizon\<close> bounds how many blocks late a datagram may arrive; a transfer
  of fewer than 65536 blocks needs no bound (any \<open>horizon\<close> will do).
\<close>

record net_state =
  net_sender :: sender_state
  sender_waiting :: bool
  sender_result :: "transfer_outcome option"
  net_receiver :: receiver_state
  receiver_result :: "(transfer_outcome \<times> bytes) option"
  data_history :: "bytes set"
  ack_history :: "bytes set"

definition sender_hears :: "nat \<Rightarrow> net_state \<Rightarrow> receive_result \<Rightarrow> bool" where
  "sender_hears horizon s r \<longleftrightarrow>
     r = TimedOut \<or> r = SocketError \<or> (\<exists>c m. r = GotPacket (error_packet c m)) \<or>
     (\<exists>d j p. d \<in> ack_history s \<and> d = ack_datagram j \<and>
        j \<le> last_in_sequence (net_receiver s) \<and>
        unat (highest_sent (net_sender s)) < unat j + horizon \<and>
        parse_tftp_packet d = Inr p \<and> r = GotPacket p)"

definition receiver_hears :: "sender_env \<Rightarrow> nat \<Rightarrow> net_state \<Rightarrow> receive_result \<Rightarrow> bool" where
  "receiver_hears env horizon s r \<longleftrightarrow>
     r = TimedOut \<or> r = SocketError \<or> (\<exists>c m. r = GotPacket (error_packet c m)) \<or>
     (\<exists>d i p. d \<in> data_history s \<and> d = data_datagram env i \<and>
        0 < i \<and> i \<le> highest_sent (net_sender s) \<and>
        unat (last_in_sequence (net_receiver s)) + 1 < unat i + horizon \<and>
        parse_tftp_packet d = Inr p \<and> r = GotPacket p)"

fun receiver_finished :: "receiver_next \<Rightarrow> (transfer_outcome \<times> bytes) option" where
  "receiver_finished (Continue st) = None"
| "receiver_finished (Complete st) = Some (receiver_success st)"
| "receiver_finished (Abort st) = Some (rcv_outcome st, sink st)"

inductive net_step :: "sender_env \<Rightarrow> receiver_env \<Rightarrow> nat \<Rightarrow> net_state \<Rightarrow> net_state \<Rightarrow> bool"
  for env renv horizon where
  sender_sends:
    "sender_result s = None \<Longrightarrow> \<not> sender_waiting s \<Longrightarrow>
     last_acked (net_sender s) < snd_total_blocks env \<Longrightarrow>
     sender_transmit env (net_sender s) = (st, sends) \<Longrightarrow>
     net_step env renv horizon s
       (s\<lparr>net_sender := st, sender_waiting := True, data_history := data_history s \<union> set sends\<rparr>)"
| sender_goes_on:
    "sender_result s = None \<Longrightarrow> sender_waiting s \<Longrightarrow> sender_hears horizon s r \<Longrightarrow>
     sender_handle env (net_sender s) r = Inl st \<Longrightarrow>
     net_step env renv horizon s (s\<lparr>net_sender := st, sender_waiting := False\<rparr>)"
| sender_gives_up:
    "sender_result s = None \<Longrightarrow> sender_waiting s \<Longrightarrow> sender_hears horizon s r \<Longrightarrow>
     sender_handle env (net_sender s) r = Inr outcome \<Longrightarrow>
     net_step env renv horizon s (s\<lparr>sender_result := Some outcome\<rparr>)"
| sender_succeeds:
    "sender_result s = None \<Longrightarrow> \<not> sender_waiting s \<Longrightarrow>
     \<not> last_acked (net_sender s) < snd_total_blocks env \<Longrightarrow>
     net_step env renv horizon s
       (s\<lparr>sender_result := Some (sender_success env (net_sender s))\<rparr>)"
| receiver_iterates:
    "receiver_result s = None \<Longrightarrow> receiver_hears env horizon s r \<Longrightarrow>
     receiver_handle renv (net_receiver s) r = (nxt, sends) \<Longrightarrow>
     net_step env renv horizon s
       (s\<lparr>net_receiver := next_state nxt, receiver_result := receiver_finished nxt,
          ack_history := ack_history s \<union> set sends\<rparr>)"
| receiver_dallies:
    "receiver_result s = Some (outcome, content) \<Longrightarrow> completed_successfully outcome \<Longrightarrow>
     net_step env renv horizon s
       (s\<lparr>ack_history := insert (ack_datagram (last_in_sequence (net_receiver s))) (ack_history s)\<rparr>)"

text \<open>
  The engine's own start: both ends share the negotiated parameters, the receiver expects block 1
  into an empty sink. An ACK of block 0 (the answer to an OACK or a WRQ) may be in flight.
\<close>

definition block_total :: "bytes \<Rightarrow> negotiated_parameters \<Rightarrow> nat" where
  "block_total payload params = length payload div unat (block_size params) + 1"

definition net_sender_env ::
  "bytes \<Rightarrow> negotiated_parameters \<Rightarrow> engine_config \<Rightarrow> sender_env" where
  "net_sender_env payload params config =
     make_sender_env payload params config (word_of_nat (block_total payload params))"

definition net_start :: "negotiated_parameters \<Rightarrow> net_state" where
  "net_start params =
     \<lparr>net_sender = initial_sender_state params 0, sender_waiting = False, sender_result = None,
      net_receiver = initial_receiver_state params [] 1, receiver_result = None,
      data_history = {}, ack_history = {ack_datagram 0}\<rparr>"

inductive net_reachable ::
  "bytes \<Rightarrow> negotiated_parameters \<Rightarrow> engine_config \<Rightarrow> nat \<Rightarrow> net_state \<Rightarrow> bool"
  for payload params config horizon where
  start: "net_reachable payload params config horizon (net_start params)"
| step: "net_reachable payload params config horizon s \<Longrightarrow>
    net_step (net_sender_env payload params config) (make_receiver_env params config) horizon s s' \<Longrightarrow>
    net_reachable payload params config horizon s'"

definition net_setup ::
  "bytes \<Rightarrow> negotiated_parameters \<Rightarrow> engine_config \<Rightarrow> nat \<Rightarrow> bool" where
  "net_setup payload params config horizon \<longleftrightarrow>
     0 < block_size params \<and>
     \<not> omit_terminating_empty_block (quirks config) \<and>
     \<not> accept_out_of_sequence_data (quirks config) \<and>
     block_total payload params + 65536 < 2 ^ 32 \<and>
     (horizon \<le> 65536 \<or> block_total payload params < 65536)"

section \<open>The invariant\<close>

definition net_inv :: "bytes \<Rightarrow> negotiated_parameters \<Rightarrow> sender_env \<Rightarrow> net_state \<Rightarrow> bool" where
  "net_inv payload params env s \<longleftrightarrow>
     sender_inv env (net_sender s) \<and>
     last_acked (net_sender s) \<le> last_in_sequence (net_receiver s) \<and>
     last_in_sequence (net_receiver s) \<le> highest_sent (net_sender s) \<and>
     data_history s \<subseteq> {data_datagram env i | i. 0 < i \<and> i \<le> highest_sent (net_sender s)} \<and>
     ack_history s \<subseteq> {ack_datagram j | j. j \<le> last_in_sequence (net_receiver s)} \<and>
     sink (net_receiver s) =
       take (unat (last_in_sequence (net_receiver s)) * unat (block_size params)) payload \<and>
     (receiver_result s = None \<longrightarrow>
        unat (last_in_sequence (net_receiver s)) < block_total payload params) \<and>
     (\<forall>outcome content. receiver_result s = Some (outcome, content) \<longrightarrow>
        content = sink (net_receiver s) \<and>
        (completed_successfully outcome \<longleftrightarrow>
           unat (last_in_sequence (net_receiver s)) = block_total payload params)) \<and>
     (\<forall>outcome. sender_result s = Some outcome \<and> completed_successfully outcome \<longrightarrow>
        last_acked (net_sender s) = snd_total_blocks env) \<and>
     \<not> completed_successfully (snd_outcome (net_sender s)) \<and>
     \<not> completed_successfully (rcv_outcome (net_receiver s))"

lemma setup_env_ok:
  assumes "net_setup payload params config horizon"
  shows "sender_env_ok (net_sender_env payload params config)"
    and "unat (snd_total_blocks (net_sender_env payload params config)) = block_total payload params"
    and "receiver_quirk_free (make_receiver_env params config)"
proof -
  have t: "unat (word_of_nat (block_total payload params) :: u32) = block_total payload params"
    using assms by (simp add: net_setup_def unat_of_nat)
  have w: "unat (ucast (max (window_size params) 1) :: u32) = unat (max (window_size params) 1)"
    using unat_width_less(2) [of "max (window_size params) 1"]
    by (simp add: unsigned_ucast_eq take_bit_nat_eq_self)
  have "0 < unat (max (window_size params) 1)" "unat (max (window_size params) 1) < 65536"
    by (auto simp: max_def unat_gt_0 word_le_nat_alt intro: unat_width_less)
  then show "sender_env_ok (net_sender_env payload params config)"
    "unat (snd_total_blocks (net_sender_env payload params config)) = block_total payload params"
    "receiver_quirk_free (make_receiver_env params config)"
    using assms t w by (simp_all add: sender_env_ok_def net_sender_env_def make_sender_env_def
        net_setup_def receiver_quirk_free_def make_receiver_env_def)
qed

lemma net_env_fields [simp]:
  "snd_payload (net_sender_env payload params config) = payload"
  "snd_block_size (net_sender_env payload params config) = block_size params"
  "rcv_block_size (make_receiver_env params config) = block_size params"
  by (simp_all add: net_sender_env_def make_sender_env_def make_receiver_env_def)

text \<open>An ACK that advances the sender names a block the receiver has.\<close>

lemma ack_resolves_to_received:
  assumes "l \<le> h" "l \<le> pos" "pos \<le> h" "j \<le> pos" "unat h \<le> blocks"
    and fresh: "unat h < unat j + horizon"
    and near: "horizon \<le> 65536 \<or> blocks < 65536"
  shows "resolve_ack_to_absolute (wire_block_number j) l h \<le> pos"
proof (cases "l < resolve_ack_to_absolute (wire_block_number j) l h")
  case True
  let ?a = "resolve_ack_to_absolute (wire_block_number j) l h"
  have a: "?a \<le> h" "unat ?a mod 65536 = unat j mod 65536"
    using resolve_ack_advance [OF True] by (simp_all add: wire_block_number_eq_iff)
  have le: "unat ?a \<le> unat h" "unat j \<le> unat pos" "unat pos \<le> unat h"
    using a(1) assms unfolding word_le_nat_alt by blast+
  show ?thesis
  proof (rule ccontr)
    assume "\<not> ?a \<le> pos"
    then have gt: "unat pos < unat ?a" by (simp add: word_le_nat_alt)
    have "unat ?a = unat j"
      using near
    proof
      assume "blocks < 65536"
      then show ?thesis using a(2) le assms(5) by simp
    next
      assume "horizon \<le> 65536"
      then have "unat ?a + 1 = unat j + 1"
        using a(2) le gt fresh mod_add_cong [OF a(2) refl, of 1]
        by (rule_tac mod_window_unique [of "unat j" _ 65536]) linarith+
      then show ?thesis by simp
    qed
    then show False using gt le by simp
  qed
next
  case False
  then show ?thesis
    using resolve_ack_bounds [OF assms(1), of "wire_block_number j"] assms(2) by simp
qed

text \<open>A DATA packet the receiver takes as next in sequence is the block it waits for.\<close>

lemma data_is_next_block:
  assumes "pos \<le> h" "i \<le> h" "unat h \<le> unat pos + w" "w < 65536" "unat h \<le> blocks"
    and lt: "unat pos < blocks"
    and fresh: "unat pos + 1 < unat i + horizon"
    and near: "horizon \<le> 65536 \<or> blocks < 65536"
    and wire: "unat i mod 65536 = (unat pos + 1) mod 65536"
  shows "unat i = unat (pos :: u32) + 1"
proof -
  have le: "unat i \<le> unat h" using assms(2) by (simp add: word_le_nat_alt)
  show ?thesis
    using near
  proof
    assume "blocks < 65536"
    then show ?thesis using wire le assms(5) lt by simp
  next
    assume h: "horizon \<le> 65536"
    show ?thesis
    proof (cases "unat i \<le> unat pos + 1")
      case True
      have "(unat i + 1) mod 65536 = (unat pos + 1 + 1) mod 65536"
        using mod_add_cong [OF wire refl, of 1] by simp
      then have "unat pos + 1 + 1 = unat i + 1"
        using True fresh h
        by (rule_tac mod_window_unique [of "unat i" _ 65536]) linarith+
      then show ?thesis by simp
    next
      case False
      then show ?thesis
        using wire le assms(3,4) by (rule_tac mod_window_unique [of "unat pos" _ 65536]) linarith+
    qed
  qed
qed

section \<open>Every step keeps the invariant\<close>

lemma sender_outcome_uncompleted:
  "completed_successfully (snd_outcome (fst (sender_transmit env st))) =
     completed_successfully (snd_outcome st)"
  "sender_handle env st r = Inr outcome \<Longrightarrow>
     completed_successfully outcome = completed_successfully (snd_outcome st)"
  by (auto simp: sender_transmit_def sender_handle_def Let_def
      split: sender_act.splits receive_result.splits if_splits)

lemma receiver_outcome_uncompleted:
  "receiver_handle env st r = (nxt, sends) \<Longrightarrow>
     completed_successfully (rcv_outcome (next_state nxt)) = completed_successfully (rcv_outcome st)"
  by (auto simp: receiver_handle_def receiver_handle_data_def count_received_def Let_def
      split: receive_result.splits if_splits)

lemma net_inv_start:
  "net_setup payload params config horizon \<Longrightarrow>
     net_inv payload params (net_sender_env payload params config) (net_start params)"
  by (auto simp: net_inv_def net_start_def initial_sender_state_def initial_receiver_state_def
      sender_inv_def empty_outcome_def block_total_def)

lemma net_inv_sends:
  assumes good: "net_setup payload params config horizon"
    and env: "env = net_sender_env payload params config"
    and inv: "net_inv payload params env s"
    and tx: "sender_transmit env (net_sender s) = (st, sends)"
  shows "net_inv payload params env
    (s\<lparr>net_sender := st, sender_waiting := True, data_history := data_history s \<union> set sends\<rparr>)"
proof -
  have ok: "sender_env_ok env" and si: "sender_inv env (net_sender s)"
    using setup_env_ok [OF good] env inv by (simp_all add: net_inv_def)
  have st: "st = fst (sender_transmit env (net_sender s))" "sends = snd (sender_transmit env (net_sender s))"
    using tx by simp_all
  have grows: "highest_sent (net_sender s) \<le> highest_sent st"
    by (cases "snd_action (net_sender s)") (simp_all add: st sender_transmit_def Let_def)
  have "sender_inv env st" unfolding st by (rule sender_transmit_inv [OF ok si])
  moreover have "data_history s \<union> set sends \<subseteq> {data_datagram env i | i. 0 < i \<and> i \<le> highest_sent st}"
  proof -
    have "\<exists>i. d = data_datagram env i \<and> 0 < i \<and> i \<le> highest_sent st" if "d \<in> set sends" for d
      using sender_transmit_blocks [OF ok si, of d] that
      by (metis st le_less_trans word_zero_le)
    then show ?thesis using inv grows by (fastforce simp: net_inv_def)
  qed
  ultimately show ?thesis
    using inv grows by (auto simp: net_inv_def st sender_outcome_uncompleted)
qed

lemma sender_hears_ack:
  assumes "sender_hears horizon s (GotPacket p)" "opcode p = Acknowledgement"
  obtains j where "block_number p = wire_block_number j"
    "j \<le> last_in_sequence (net_receiver s)" "unat (highest_sent (net_sender s)) < unat j + horizon"
  using assms by (auto simp: sender_hears_def ack_datagram_def)

lemma net_inv_goes_on:
  assumes good: "net_setup payload params config horizon"
    and env: "env = net_sender_env payload params config"
    and inv: "net_inv payload params env s"
    and hears: "sender_hears horizon s r" and h: "sender_handle env (net_sender s) r = Inl st"
  shows "net_inv payload params env (s\<lparr>net_sender := st, sender_waiting := False\<rparr>)"
proof -
  note c = sender_handle_cases [OF h]
  have si: "sender_inv env (net_sender s)" using inv by (simp add: net_inv_def)
  note hi = sender_handle_inv [OF si h]
  have "last_acked st \<le> last_in_sequence (net_receiver s)"
  proof (cases "last_acked st = last_acked (net_sender s)")
    case True
    then show ?thesis using inv by (simp add: net_inv_def)
  next
    case False
    with c obtain p where p: "r = GotPacket p" "opcode p = Acknowledgement"
      "last_acked st = resolve_ack_to_absolute (block_number p) (last_acked (net_sender s))
         (highest_sent (net_sender s))" by blast
    from sender_hears_ack [OF hears [unfolded p(1)] p(2)] obtain j where j:
      "block_number p = wire_block_number j" "j \<le> last_in_sequence (net_receiver s)"
      "unat (highest_sent (net_sender s)) < unat j + horizon" by blast
    have "unat (highest_sent (net_sender s)) \<le> block_total payload params"
      using si setup_env_ok(2) [OF good] env by (auto simp: sender_inv_def word_le_nat_alt)
    then show ?thesis
      unfolding p(3) j(1) using inv j good
      by (intro ack_resolves_to_received) (auto simp: net_inv_def sender_inv_def net_setup_def)
  qed
  moreover have "last_acked st = snd_total_blocks env"
    if "last_acked (net_sender s) = snd_total_blocks env"
    using hi that by (auto simp: sender_inv_def)
  ultimately show ?thesis
    using inv c hi by (auto simp: net_inv_def)
qed

lemma receiver_hears_data:
  assumes "receiver_hears env horizon s (GotPacket p)" "opcode p = Data"
  obtains i where "block_number p = wire_block_number i" "packet_data p =
      block_payload (snd_payload env) i (snd_block_size env)" "0 < i"
    "i \<le> highest_sent (net_sender s)"
    "unat (last_in_sequence (net_receiver s)) + 1 < unat i + horizon"
  using assms by (auto simp: receiver_hears_def data_datagram_def)

lemma net_inv_receives:
  assumes good: "net_setup payload params config horizon"
    and env: "env = net_sender_env payload params config"
    and inv: "net_inv payload params env s" and running: "receiver_result s = None"
    and hears: "receiver_hears env horizon s r"
    and h: "receiver_handle (make_receiver_env params config) (net_receiver s) r = (nxt, sends)"
  shows "net_inv payload params env
    (s\<lparr>net_receiver := next_state nxt, receiver_result := receiver_finished nxt,
       ack_history := ack_history s \<union> set sends\<rparr>)"
proof -
  let ?pos = "last_in_sequence (net_receiver s)"
  let ?total = "block_total payload params"
  let ?bs = "unat (block_size params)"
  have lt: "unat ?pos < ?total" using inv running by (simp add: net_inv_def)
  then have max: "?pos \<noteq> - 1"
    using good by (auto simp: net_setup_def unsigned_minus_1_eq_mask mask_eq_exp_minus_1)
  have unc: "\<not> completed_successfully (rcv_outcome (next_state nxt))"
    using inv receiver_outcome_uncompleted [OF h] by (simp add: net_inv_def)
  from max setup_env_ok(3) [OF good] h show ?thesis
  proof (cases rule: receiver_handle_cases)
    case keep
    then show ?thesis
      using inv lt unc by (cases nxt) (auto simp: net_inv_def)
  next
    case (accept p st')
    from receiver_hears_data [OF hears [unfolded accept(1)] accept(2)] obtain i where i:
      "block_number p = wire_block_number i"
      "packet_data p = block_payload payload i (block_size params)"
      "0 < i" "i \<le> highest_sent (net_sender s)" "unat ?pos + 1 < unat i + horizon"
      by (auto simp: env)
    have succ: "unat (?pos + 1) = unat ?pos + 1" using unat_plus_one_word [OF max] by simp
    have total: "unat (highest_sent (net_sender s)) \<le> ?total"
      "unat (snd_window env) < 65536"
      "unat (highest_sent (net_sender s)) \<le> unat ?pos + unat (snd_window env)"
      using inv setup_env_ok(1,2) [OF good] env
      by (auto simp: net_inv_def sender_inv_def sender_env_ok_def word_le_nat_alt)
    have "unat i = unat ?pos + 1"
      using inv i total lt good accept(3) succ
      by (intro data_is_next_block [where w = "unat (snd_window env)"])
        (auto simp: net_inv_def net_setup_def wire_block_number_eq_iff)
    then have ip: "i = ?pos + 1" using succ by (simp add: word_unat_eq_iff)
    then have data: "packet_data p = nat_block payload ?bs (unat ?pos + 1)"
      using i(2,3) succ by (simp add: block_payload_nat unat_gt_0)
    have sink: "sink st' = take (unat (?pos + 1) * ?bs) payload"
      using accept(6) inv take_next_block [of "unat ?pos" ?bs payload]
      unfolding net_inv_def succ data by (simp only:)
    have short: "length (packet_data p) < ?bs \<longleftrightarrow> ?total \<le> unat ?pos + 1"
      unfolding data using good
      by (subst nat_block_short_iff) (auto simp: net_setup_def block_total_def unat_gt_0)
    have le: "?pos + 1 \<le> highest_sent (net_sender s)" using i(4) ip by simp
    have mono: "?pos \<le> ?pos + 1" using succ by (simp add: word_le_nat_alt)
    have "last_acked (net_sender s) \<le> ?pos + 1" using inv mono by (auto simp: net_inv_def)
    moreover have "ack_history s \<union> set sends \<subseteq> {ack_datagram j |j. j \<le> ?pos + 1}"
      using inv accept(5,8) mono by (fastforce simp: net_inv_def)
    moreover have "unat (?pos + 1) < ?total" if "receiver_finished nxt = None"
      using that accept(4,7) short succ by (cases nxt) auto
    moreover have "completed_successfully outcome \<longleftrightarrow> unat (?pos + 1) = ?total" "content = sink st'"
      if "receiver_finished nxt = Some (outcome, content)" for outcome content
      using that accept(4,7) short succ lt unc by (cases nxt; auto simp: receiver_success_def)+
    ultimately show ?thesis
      using inv accept(4,5) sink le unc unfolding net_inv_def by simp
  qed
qed

lemma net_reachable_inv:
  assumes good: "net_setup payload params config horizon"
    and "net_reachable payload params config horizon s"
  shows "net_inv payload params (net_sender_env payload params config) s"
  using assms(2)
proof (induction rule: net_reachable.induct)
  case start
  then show ?case by (rule net_inv_start [OF good])
next
  case (step s s')
  from step(2) show ?case
  proof (cases rule: net_step.cases)
    case sender_sends
    then show ?thesis using net_inv_sends [OF good refl step(3)] by simp
  next
    case sender_goes_on
    then show ?thesis using net_inv_goes_on [OF good refl step(3)] by simp
  next
    case (sender_gives_up r outcome)
    then show ?thesis
      using step(3) sender_outcome_uncompleted(2) by (auto simp: net_inv_def)
  next
    case sender_succeeds
    then show ?thesis
      using step(3) by (auto simp: net_inv_def sender_inv_def sender_success_def)
  next
    case receiver_iterates
    then show ?thesis using net_inv_receives [OF good refl step(3)] by simp
  next
    case receiver_dallies
    then show ?thesis using step(3) by (auto simp: net_inv_def)
  qed
qed

section \<open>Runs as schedules\<close>

text \<open>
  A schedule drives the network: which side moves, and which block's datagram (or a time-out,
  \<open>None\<close>) it hears. \<open>run_schedule\<close> executes one; what it returns is reachable.
\<close>

datatype net_move = SenderSends | SenderHears "u32 option" | SenderEnds | ReceiverHears "u32 option"

definition heard_from :: "bytes option \<Rightarrow> receive_result option" where
  "heard_from datagram =
     (case datagram of
        None \<Rightarrow> Some TimedOut
      | Some d \<Rightarrow> (case parse_tftp_packet d of Inl _ \<Rightarrow> None | Inr p \<Rightarrow> Some (GotPacket p)))"

definition sender_moves :: "sender_env \<Rightarrow> net_state \<Rightarrow> receive_result \<Rightarrow> net_state" where
  "sender_moves env s r =
     (case sender_handle env (net_sender s) r of
        Inl st \<Rightarrow> s\<lparr>net_sender := st, sender_waiting := False\<rparr>
      | Inr outcome \<Rightarrow> s\<lparr>sender_result := Some outcome\<rparr>)"

definition receiver_moves :: "receiver_env \<Rightarrow> net_state \<Rightarrow> receive_result \<Rightarrow> net_state" where
  "receiver_moves renv s r =
     (let (nxt, sends) = receiver_handle renv (net_receiver s) r
      in s\<lparr>net_receiver := next_state nxt, receiver_result := receiver_finished nxt,
           ack_history := ack_history s \<union> set sends\<rparr>)"

fun move_net :: "sender_env \<Rightarrow> receiver_env \<Rightarrow> nat \<Rightarrow> net_state \<Rightarrow> net_move \<Rightarrow> net_state option" where
  "move_net env renv horizon s SenderSends =
     (if sender_result s = None \<and> \<not> sender_waiting s \<and>
         last_acked (net_sender s) < snd_total_blocks env
      then let (st, sends) = sender_transmit env (net_sender s)
           in Some (s\<lparr>net_sender := st, sender_waiting := True,
                     data_history := data_history s \<union> set sends\<rparr>)
      else None)"
| "move_net env renv horizon s (SenderHears block) =
     (if sender_result s = None \<and> sender_waiting s \<and>
         (\<forall>j \<in> set_option block. ack_datagram j \<in> ack_history s \<and>
            j \<le> last_in_sequence (net_receiver s) \<and>
            unat (highest_sent (net_sender s)) < unat j + horizon)
      then map_option (sender_moves env s) (heard_from (map_option ack_datagram block))
      else None)"
| "move_net env renv horizon s SenderEnds =
     (if sender_result s = None \<and> \<not> sender_waiting s \<and>
         \<not> last_acked (net_sender s) < snd_total_blocks env
      then Some (s\<lparr>sender_result := Some (sender_success env (net_sender s))\<rparr>)
      else None)"
| "move_net env renv horizon s (ReceiverHears block) =
     (if receiver_result s = None \<and>
         (\<forall>i \<in> set_option block. data_datagram env i \<in> data_history s \<and>
            0 < i \<and> i \<le> highest_sent (net_sender s) \<and>
            unat (last_in_sequence (net_receiver s)) + 1 < unat i + horizon)
      then map_option (receiver_moves renv s) (heard_from (map_option (data_datagram env) block))
      else None)"

fun run_schedule ::
  "sender_env \<Rightarrow> receiver_env \<Rightarrow> nat \<Rightarrow> net_state \<Rightarrow> net_move list \<Rightarrow> net_state option" where
  "run_schedule env renv horizon s [] = Some s"
| "run_schedule env renv horizon s (m # ms) =
     (case move_net env renv horizon s m of
        None \<Rightarrow> None
      | Some s' \<Rightarrow> run_schedule env renv horizon s' ms)"

lemma heard_from_Some:
  "heard_from d = Some r \<Longrightarrow> (d = None \<and> r = TimedOut) \<or>
     (\<exists>b p. d = Some b \<and> parse_tftp_packet b = Inr p \<and> r = GotPacket p)"
  by (auto simp: heard_from_def split: option.splits sum.splits)

lemma sender_moves_step:
  "sender_result s = None \<Longrightarrow> sender_waiting s \<Longrightarrow> sender_hears horizon s r \<Longrightarrow>
     net_step env renv horizon s (sender_moves env s r)"
  unfolding sender_moves_def
  by (cases "sender_handle env (net_sender s) r") (auto intro: sender_goes_on sender_gives_up)

lemma receiver_moves_step:
  "receiver_result s = None \<Longrightarrow> receiver_hears env horizon s r \<Longrightarrow>
     net_step env renv horizon s (receiver_moves renv s r)"
  unfolding receiver_moves_def
  by (cases "receiver_handle renv (net_receiver s) r") (auto intro: receiver_iterates)

lemma move_net_step:
  assumes "move_net env renv horizon s m = Some s'"
  shows "net_step env renv horizon s s'"
proof (cases m)
  case SenderSends
  then show ?thesis using assms by (auto intro: sender_sends split: if_splits prod.splits)
next
  case (SenderHears block)
  then obtain r where "heard_from (map_option ack_datagram block) = Some r" "s' = sender_moves env s r"
    using assms by (auto split: if_splits)
  moreover from this have "sender_hears horizon s r"
    using assms SenderHears heard_from_Some by (fastforce simp: sender_hears_def split: if_splits)
  ultimately show ?thesis
    using assms SenderHears by (auto intro: sender_moves_step split: if_splits)
next
  case SenderEnds
  then show ?thesis using assms by (auto intro: sender_succeeds split: if_splits)
next
  case (ReceiverHears block)
  then obtain r where "heard_from (map_option (data_datagram env) block) = Some r"
    "s' = receiver_moves renv s r"
    using assms by (auto split: if_splits)
  moreover from this have "receiver_hears env horizon s r"
    using assms ReceiverHears heard_from_Some by (fastforce simp: receiver_hears_def split: if_splits)
  ultimately show ?thesis
    using assms ReceiverHears by (auto intro: receiver_moves_step split: if_splits)
qed

lemma run_schedule_reachable:
  "run_schedule (net_sender_env payload params config) (make_receiver_env params config) horizon s ms
     = Some s' \<Longrightarrow> net_reachable payload params config horizon s \<Longrightarrow>
   net_reachable payload params config horizon s'"
proof (induction ms arbitrary: s)
  case (Cons m ms)
  then show ?case
    by (auto split: option.splits dest!: move_net_step intro: net_reachable.step)
qed simp

text \<open>
  A sample: three bytes in blocks of two, a window of two. Block 1 is lost, the receiver answers
  block 2 with an ACK of 0, the sender times out, rolls back, and both blocks get through.
\<close>

definition sample_params :: negotiated_parameters where
  "sample_params = default_parameters\<lparr>block_size := 2, window_size := 2\<rparr>"

definition sample_payload :: bytes where
  "sample_payload = [7, 8, 9]"

definition sample_schedule :: "net_move list" where
  "sample_schedule =
     [SenderSends, ReceiverHears (Some 2), SenderHears (Some 0), SenderSends, SenderHears None,
      SenderSends, ReceiverHears (Some 1), ReceiverHears (Some 2), SenderHears (Some 2), SenderEnds]"

definition sample_end :: net_state where
  "sample_end = the (run_schedule
     (net_sender_env sample_payload sample_params default_engine_config)
     (make_receiver_env sample_params default_engine_config) 100 (net_start sample_params)
     sample_schedule)"

lemma sample_setup: "net_setup sample_payload sample_params default_engine_config 100"
  by (simp add: net_setup_def sample_params_def default_parameters_def default_engine_config_def
      correct_quirks_def block_total_def sample_payload_def)

lemma sample_runs:
  "(case run_schedule (net_sender_env sample_payload sample_params default_engine_config)
     (make_receiver_env sample_params default_engine_config) 100 (net_start sample_params)
     sample_schedule of None \<Rightarrow> False
   | Some s \<Rightarrow>
       map_option completed_successfully (sender_result s) = Some True \<and>
       map_option (\<lambda>(outcome, content). completed_successfully outcome) (receiver_result s) = Some True)"
  by code_simp

lemma sample_end_reached:
  "net_reachable sample_payload sample_params default_engine_config 100 sample_end"
  "\<exists>outcome. sender_result sample_end = Some outcome \<and> completed_successfully outcome"
  "\<exists>outcome content. receiver_result sample_end = Some (outcome, content) \<and>
     completed_successfully outcome"
proof -
  obtain s where s: "run_schedule (net_sender_env sample_payload sample_params default_engine_config)
     (make_receiver_env sample_params default_engine_config) 100 (net_start sample_params)
     sample_schedule = Some s"
    using sample_runs by (auto split: option.splits)
  then have e: "sample_end = s" by (simp add: sample_end_def)
  show "net_reachable sample_payload sample_params default_engine_config 100 sample_end"
    unfolding e by (rule run_schedule_reachable [OF s net_reachable.start])
  show "\<exists>outcome. sender_result sample_end = Some outcome \<and> completed_successfully outcome"
    "\<exists>outcome content. receiver_result sample_end = Some (outcome, content) \<and>
       completed_successfully outcome"
    using sample_runs by (auto simp: s e)
qed

section \<open>What the two ends can rely on\<close>

text \<open>
  C1. The receiver's file is at every moment a prefix of the sender's payload, whatever the network
  loses, duplicates, delays or reorders, and a receiver that reports success holds exactly the
  payload.
\<close>
theorem receiver_content_correct:
  assumes "net_setup payload params config horizon"
    and "net_reachable payload params config horizon s"
  shows "(\<exists>n. sink (net_receiver s) = take n payload) \<and>
    (\<forall>outcome content. receiver_result s = Some (outcome, content) \<longrightarrow>
       completed_successfully outcome \<longrightarrow> content = payload)"
proof -
  have "take (block_total payload params * unat (block_size params)) payload = payload"
    using assms(1) by (intro all_blocks_payload) (auto simp: net_setup_def block_total_def unat_gt_0)
  then show ?thesis
    using net_reachable_inv [OF assms] unfolding net_inv_def by metis
qed

theorem receiver_content_correct_witness:
  "(\<exists>n. sink (net_receiver sample_end) = take n sample_payload) \<and>
   (\<exists>outcome. receiver_result sample_end = Some (outcome, sample_payload))"
  using receiver_content_correct [OF sample_setup sample_end_reached(1)] sample_end_reached(3) by blast

text \<open>
  C2. A sender that reports success is right: the receiver has completed, and with the whole payload.
\<close>
theorem sender_success_delivered:
  assumes "net_setup payload params config horizon"
    and "net_reachable payload params config horizon s"
    and "sender_result s = Some outcome" and "completed_successfully outcome"
  shows "\<exists>outcome'. receiver_result s = Some (outcome', payload) \<and> completed_successfully outcome'"
proof -
  note inv = net_reachable_inv [OF assms(1,2)]
  have pos: "unat (last_in_sequence (net_receiver s)) = block_total payload params"
  proof -
    have "last_acked (net_sender s) = snd_total_blocks (net_sender_env payload params config)"
      using inv assms(3,4) unfolding net_inv_def by blast
    moreover have "last_acked (net_sender s) \<le> last_in_sequence (net_receiver s)"
      "last_in_sequence (net_receiver s) \<le> snd_total_blocks (net_sender_env payload params config)"
      using inv unfolding net_inv_def sender_inv_def by auto
    ultimately show ?thesis using setup_env_ok(2) [OF assms(1)] by (metis order_antisym)
  qed
  then obtain outcome' content where r: "receiver_result s = Some (outcome', content)"
    using inv unfolding net_inv_def by (cases "receiver_result s") auto
  then have "completed_successfully outcome'" using inv pos unfolding net_inv_def by simp
  then show ?thesis using receiver_content_correct [OF assms(1,2)] r by blast
qed

theorem sender_success_delivered_witness:
  "\<exists>outcome. receiver_result sample_end = Some (outcome, sample_payload) \<and>
     completed_successfully outcome"
  using sender_success_delivered [OF sample_setup sample_end_reached(1)] sample_end_reached(2) by blast

text \<open>
  C5. Flow control: the blocks in flight never exceed the negotiated window, the receiver is never
  behind what the sender believes acknowledged nor ahead of what was sent, and every DATA datagram
  ever sent is one of the blocks sent so far.
\<close>
theorem window_respected:
  assumes "net_setup payload params config horizon"
    and "net_reachable payload params config horizon s"
  shows "unat (highest_sent (net_sender s)) - unat (last_acked (net_sender s))
      \<le> max 1 (unat (window_size params)) \<and>
    last_acked (net_sender s) \<le> last_in_sequence (net_receiver s) \<and>
    last_in_sequence (net_receiver s) \<le> highest_sent (net_sender s) \<and>
    unat (highest_sent (net_sender s)) \<le> block_total payload params \<and>
    data_history s \<subseteq> {data_datagram (net_sender_env payload params config) i | i.
      0 < i \<and> i \<le> highest_sent (net_sender s)}"
proof -
  have "unat (snd_window (net_sender_env payload params config)) = max 1 (unat (window_size params))"
    using unat_width_less(2) [of "max (window_size params) 1"]
    by (auto simp: net_sender_env_def make_sender_env_def unsigned_ucast_eq take_bit_nat_eq_self
        max_def word_le_nat_alt)
  then show ?thesis
    using net_reachable_inv [OF assms] setup_env_ok(2) [OF assms(1)]
    unfolding net_inv_def sender_inv_def word_le_nat_alt by (intro conjI) (elim conjE, linarith | blast)+
qed

theorem window_respected_witness:
  "unat (highest_sent (net_sender sample_end)) - unat (last_acked (net_sender sample_end))
     \<le> max 1 (unat (window_size sample_params))"
  using window_respected [OF sample_setup sample_end_reached(1)] by blast

end
