(* ===== verification/Lossless.thy ===== *)
theory Lossless
  imports Lossy_Network
begin

text \<open>
  Progress when nothing is lost: the sender, fed the ACKs of its windows, sends every block once and
  succeeds; the receiver, fed the blocks in order, sends one ACK per window and completes with the
  payload; and the two scripts are each other's output, so the pair of runs is a run of the whole
  transfer. \<open>End_To_End\<close> puts the request, the options and the files around it.
\<close>

text \<open>The ends of the windows: \<open>w\<close>, \<open>2 * w\<close>, ..., the last block.\<close>

function window_points :: "nat \<Rightarrow> nat \<Rightarrow> nat \<Rightarrow> nat list" where
  "window_points w m blocks =
     (if m < blocks \<and> 0 < w then min (m + w) blocks # window_points w (min (m + w) blocks) blocks
      else [])"
  by pat_completeness auto
termination by (relation "measure (\<lambda>(w, m, blocks). blocks - m)") auto

declare window_points.simps [simp del]

definition window_acks :: "nat \<Rightarrow> nat \<Rightarrow> nat \<Rightarrow> bytes list" where
  "window_acks w m blocks = map (\<lambda>i. ack_datagram (word_of_nat i)) (window_points w m blocks)"

definition block_datagrams :: "bytes \<Rightarrow> u32 \<Rightarrow> nat \<Rightarrow> nat \<Rightarrow> bytes list" where
  "block_datagrams payload bs m e =
     map (\<lambda>i. serialize_data (wire_block_number (word_of_nat i)) (nat_block payload (unat bs) i))
       [Suc m..<Suc e]"

abbreviation addressed :: "endpoint \<Rightarrow> bytes list \<Rightarrow> (bytes \<times> endpoint) list" where
  "addressed peer ds \<equiv> map (\<lambda>d. (d, peer)) ds"

section \<open>The sender\<close>

lemma sender_loop_ack:
  assumes ok: "sender_env_ok env" and peer: "endpoint_valid peer"
    and st: "unat (last_acked st) = m" "highest_sent st = last_acked st" "snd_action st = SendNew"
    and m: "m < unat (snd_total_blocks env)"
    and e: "e = min (m + unat (snd_window env)) (unat (snd_total_blocks env))"
    and inbox: "inbox sk = Datagram (ack_datagram (word_of_nat e)) peer # evs"
  shows "\<exists>st' sk'. sender_loop env peer st sk = sender_loop env peer st' sk' \<and>
    unat (last_acked st') = e \<and> highest_sent st' = last_acked st' \<and> snd_action st' = SendNew \<and>
    snd_outcome st' = (snd_outcome st)\<lparr>data_packets_sent :=
      data_packets_sent (snd_outcome st) + word_of_nat (e - m)\<rparr> \<and>
    inbox sk' = evs \<and>
    outbox sk' = outbox sk @ addressed peer (block_datagrams (snd_payload env) (snd_block_size env) m e)"
proof -
  have inv: "sender_inv env st"
    using st m by (simp add: sender_inv_def word_le_nat_alt)
  have edge: "unat (window_edge env st) = e"
    using unat_window_edge [OF ok inv] st e by simp
  have lt: "m < e" "e < 2 ^ 32" "e - m < 65536"
    using ok m e by (auto simp: sender_env_ok_def)
  have ew: "word_of_nat e = window_edge env st" by (simp flip: edge)
  define st1 where "st1 = fst (sender_transmit env st)"
  define sends where "sends = snd (sender_transmit env st)"
  have tx: "sender_transmit env st = (st1, sends)" by (simp add: st1_def sends_def)
  have la: "last_acked st1 = last_acked st" by (simp add: st1_def)
  have hs: "highest_sent st1 = window_edge env st"
    using sender_transmit_new [OF st(3), of env] edge st(1,2) lt(1)
    by (auto simp: st1_def max_def word_le_nat_alt)
  have sends: "sends = map (data_datagram env) (index_range (highest_sent st + 1) (window_edge env st))"
    using sender_transmit_new [OF st(3), of env] by (simp add: sends_def)
  have "unat (highest_sent st + 1) = Suc m"
    using st(1,2) lt by (subst unat_plus_one_word) (auto simp: unsigned_minus_1_eq_mask mask_eq_exp_minus_1)
  then have sends': "sends = block_datagrams (snd_payload env) (snd_block_size env) m e"
    using lt(2) unfolding sends block_datagrams_def index_range_def edge map_map
    by (intro map_cong) (auto simp: data_datagram_def block_payload_nat unat_of_nat)
  define sk2 where "sk2 = (send_all sk peer sends)\<lparr>inbox := evs\<rparr>"
  have rec: "receive_from_locked_peer (send_all sk peer sends) peer =
      Returned (GotPacket (ack_packet (wire_block_number (word_of_nat e)))) sk2"
    unfolding sk2_def using inbox peer by (intro receive_locked_packet [where d = "ack_datagram (word_of_nat e)"])
      (simp_all add: ack_datagram_def)
  have acked: "resolve_ack_to_absolute (wire_block_number (word_of_nat e)) (last_acked st1) (highest_sent st1)
      = window_edge env st"
    unfolding ew hs using edge st(1) lt by (intro resolve_ack_hit)
      (auto simp: st1_def word_less_nat_alt)
  have "sender_handle env st1 (GotPacket (ack_packet (wire_block_number (word_of_nat e)))) =
      Inl (st1\<lparr>last_acked := window_edge env st, snd_timeouts := 0, snd_action := SendNew\<rparr>)"
    using edge st(1) lt(1) by (simp add: sender_handle_def Let_def acked [unfolded la] word_less_nat_alt la)
  moreover have "last_acked st < snd_total_blocks env" using st(1) m by (simp add: word_less_nat_alt)
  ultimately have "sender_loop env peer st sk = sender_loop env peer
      (st1\<lparr>last_acked := window_edge env st, snd_timeouts := 0, snd_action := SendNew\<rparr>) sk2"
    using sender_loop_step [OF _ tx, of peer sk] rec by simp
  moreover have "snd_outcome st1 = (snd_outcome st)\<lparr>data_packets_sent :=
      data_packets_sent (snd_outcome st) + word_of_nat (e - m)\<rparr>"
  proof -
    have "length sends = e - m" by (simp add: sends' block_datagrams_def del: upt_Suc)
    then show ?thesis
      using st(3) by (simp add: st1_def sends_def sender_transmit_def Let_def)
  qed
  ultimately show ?thesis
    using hs edge sends' by (intro exI [of _ sk2] exI [of _ "st1\<lparr>last_acked := window_edge env st,
      snd_timeouts := 0, snd_action := SendNew\<rparr>"]) (simp add: sk2_def)
qed

lemma upt_Suc_append: "m \<le> e \<Longrightarrow> e \<le> f \<Longrightarrow> [Suc m..<Suc e] @ [Suc e..<Suc f] = [Suc m..<Suc f]"
  by (metis Suc_le_mono le_Suc_ex upt_add_eq_append)

lemma block_datagrams_append:
  "m \<le> e \<Longrightarrow> e \<le> f \<Longrightarrow>
     block_datagrams payload bs m e @ block_datagrams payload bs e f = block_datagrams payload bs m f"
  by (simp only: block_datagrams_def map_append [symmetric] upt_Suc_append)

lemma sender_loop_acks:
  assumes "sender_env_ok env" "endpoint_valid peer" "blocks = unat (snd_total_blocks env)"
    and "unat (last_acked st) = m" "highest_sent st = last_acked st" "snd_action st = SendNew"
    and "m \<le> blocks"
    and "inbox sk = map (\<lambda>d. Datagram d peer) (window_acks (unat (snd_window env)) m blocks) @ evs"
  shows "\<exists>outcome sk'. sender_loop env peer st sk = Returned outcome sk' \<and>
    outcome = (snd_outcome st)\<lparr>completed_successfully := True,
      bytes_transferred := word_of_nat (length (snd_payload env)),
      data_packets_sent := data_packets_sent (snd_outcome st) + word_of_nat (blocks - m)\<rparr> \<and>
    inbox sk' = evs \<and>
    outbox sk' = outbox sk @ addressed peer (block_datagrams (snd_payload env) (snd_block_size env) m blocks)"
  using assms
proof (induction "blocks - m" arbitrary: m st sk rule: less_induct)
  case less
  show ?case
  proof (cases "m < blocks")
    case False
    then have "sender_loop env peer st sk = Returned (sender_success env st) sk"
      using less.prems by (subst sender_loop.simps) (simp add: word_less_nat_alt)
    moreover have "window_acks (unat (snd_window env)) m blocks = []"
      using False by (simp add: window_acks_def window_points.simps)
    ultimately show ?thesis
      using False less.prems(7,8) by (simp add: sender_success_def block_datagrams_def)
  next
    case True
    define e where "e = min (m + unat (snd_window env)) blocks"
    have w: "0 < unat (snd_window env)" using less.prems(1) by (simp add: sender_env_ok_def)
    have e: "m < e" "e \<le> blocks" using True w by (auto simp: e_def)
    have acks: "inbox sk = Datagram (ack_datagram (word_of_nat e)) peer #
        map (\<lambda>d. Datagram d peer) (window_acks (unat (snd_window env)) e blocks) @ evs"
      using less.prems(8) True w
      by (simp add: window_acks_def window_points.simps [of _ m] flip: e_def)
    obtain st' sk' where s: "sender_loop env peer st sk = sender_loop env peer st' sk'"
      "unat (last_acked st') = e" "highest_sent st' = last_acked st'" "snd_action st' = SendNew"
      "snd_outcome st' = (snd_outcome st)\<lparr>data_packets_sent :=
         data_packets_sent (snd_outcome st) + word_of_nat (e - m)\<rparr>"
      "inbox sk' = map (\<lambda>d. Datagram d peer) (window_acks (unat (snd_window env)) e blocks) @ evs"
      "outbox sk' = outbox sk @ addressed peer (block_datagrams (snd_payload env) (snd_block_size env) m e)"
      using sender_loop_ack [OF less.prems(1,2,4,5,6) _ _ acks] True less.prems(3) e_def by blast
    have "word_of_nat (e - m) + word_of_nat (blocks - e) = (word_of_nat (blocks - m) :: u32)"
      using e by (simp flip: of_nat_add)
    moreover have "addressed peer (block_datagrams (snd_payload env) (snd_block_size env) m e) @
        addressed peer (block_datagrams (snd_payload env) (snd_block_size env) e blocks) =
      addressed peer (block_datagrams (snd_payload env) (snd_block_size env) m blocks)"
      using e by (simp add: block_datagrams_append flip: map_append)
    ultimately show ?thesis
      using less.hyps [OF _ less.prems(1-3) s(2-4) e(2) s(6)] e True s(1,5,7)
      by (auto simp: add.assoc)
  qed
qed

section \<open>The receiver\<close>

lemma nat_block_full:
  "0 < bs \<Longrightarrow> 0 < i \<Longrightarrow> i < length payload div bs + 1 \<Longrightarrow> \<not> length (nat_block payload bs i) < bs"
  by (subst nat_block_short_iff) auto

lemma receiver_hears_next:
  assumes peer: "endpoint_valid peer" and lt: "Suc m < 2 ^ 32" and st: "unat (last_in_sequence st) = m"
    and inbox: "inbox sk = Datagram (serialize_data (wire_block_number (word_of_nat (Suc m))) d) peer # evs"
  shows "receiver_loop env peer st None sk =
    (case receiver_handle_data env (st\<lparr>rcv_timeouts := 0\<rparr>)
            (data_packet (wire_block_number (last_in_sequence st + 1)) d) of
       (Abort st1, sends) \<Rightarrow> Returned (rcv_outcome st1, sink st1) (send_all (sk\<lparr>inbox := evs\<rparr>) peer sends)
     | (Continue st1, sends) \<Rightarrow> receiver_loop env peer st1 None (send_all (sk\<lparr>inbox := evs\<rparr>) peer sends)
     | (Complete st1, sends) \<Rightarrow>
         bind_result
           (receiver_dally 4 (last_in_sequence st1) peer
             (set_receive_timeout (send_all (sk\<lparr>inbox := evs\<rparr>) peer sends) 150))
           (\<lambda>_ sk3. Returned (receiver_success st1) sk3))"
    and "last_in_sequence st \<noteq> - 1" and "last_in_sequence st + 1 = word_of_nat (Suc m)"
proof -
  have w: "word_of_nat (Suc m) = last_in_sequence st + 1" using st by auto
  have "receive_from_locked_peer sk peer =
      Returned (GotPacket (data_packet (wire_block_number (last_in_sequence st + 1)) d)) (sk\<lparr>inbox := evs\<rparr>)"
    using inbox peer unfolding w
    by (rule receive_locked_packet) simp
  then show "receiver_loop env peer st None sk =
    (case receiver_handle_data env (st\<lparr>rcv_timeouts := 0\<rparr>)
            (data_packet (wire_block_number (last_in_sequence st + 1)) d) of
       (Abort st1, sends) \<Rightarrow> Returned (rcv_outcome st1, sink st1) (send_all (sk\<lparr>inbox := evs\<rparr>) peer sends)
     | (Continue st1, sends) \<Rightarrow> receiver_loop env peer st1 None (send_all (sk\<lparr>inbox := evs\<rparr>) peer sends)
     | (Complete st1, sends) \<Rightarrow>
         bind_result
           (receiver_dally 4 (last_in_sequence st1) peer
             (set_receive_timeout (send_all (sk\<lparr>inbox := evs\<rparr>) peer sends) 150))
           (\<lambda>_ sk3. Returned (receiver_success st1) sk3))"
    by (subst receiver_loop_step) (simp add: receiver_handle_def)
  show "last_in_sequence st \<noteq> - 1"
    using st lt by (auto simp: unsigned_minus_1_eq_mask mask_eq_exp_minus_1)
  show "last_in_sequence st + 1 = word_of_nat (Suc m)" using w by simp
qed

lemma receiver_loop_block:
  assumes "endpoint_valid peer" and lt: "Suc m < 2 ^ 32" and st: "unat (last_in_sequence st) = m"
    and "inbox sk = Datagram (serialize_data (wire_block_number (word_of_nat (Suc m))) d) peer # evs"
    and full: "unat (rcv_block_size env) \<le> length d"
    and since: "unat (blocks_since_ack st) + 1 < 2 ^ 32"
  shows "\<exists>st' sk'. receiver_loop env peer st None sk = receiver_loop env peer st' None sk' \<and>
    unat (last_in_sequence st') = Suc m \<and> sink st' = sink st @ d \<and>
    unat (blocks_since_ack st') =
      (if unat (rcv_window env) \<le> unat (blocks_since_ack st) + 1 then 0
       else unat (blocks_since_ack st) + 1) \<and>
    inbox sk' = evs \<and>
    outbox sk' = outbox sk @ addressed peer (if unat (rcv_window env) \<le> unat (blocks_since_ack st) + 1
       then [ack_datagram (word_of_nat (Suc m))] else [])"
proof -
  note next_one = receiver_hears_next [OF assms(1-4)]
  let ?st1 = "st\<lparr>rcv_timeouts := 0, sink := sink st @ d, last_in_sequence := last_in_sequence st + 1,
                rcv_outcome := count_received (rcv_outcome st),
                blocks_since_ack := blocks_since_ack st + 1\<rparr>"
  have m1: "unat (last_in_sequence st + 1) = Suc m"
    using next_one(3) lt by (simp add: unat_of_nat del: of_nat_Suc)
  have s1: "unat (blocks_since_ack st + 1) = unat (blocks_since_ack st) + 1"
    using since by (subst unat_add_no_overflow) simp_all
  have "receiver_handle_data env (st\<lparr>rcv_timeouts := 0\<rparr>)
      (data_packet (wire_block_number (last_in_sequence st + 1)) d) =
    (if unat (rcv_window env) \<le> unat (blocks_since_ack st) + 1
     then (Continue (?st1\<lparr>blocks_since_ack := 0\<rparr>), [ack_datagram (last_in_sequence st + 1)])
     else (Continue ?st1, []))"
    using next_one(2) full s1
    by (subst receiver_data_in_sequence) (auto simp: Let_def word_le_nat_alt)
  then show ?thesis
    unfolding next_one(1) using m1 s1 next_one(3)
    by (cases "unat (rcv_window env) \<le> unat (blocks_since_ack st) + 1")
      (auto simp del: of_nat_Suc intro!: exI)
qed

text \<open>The last block ends the run; the silence after it ends the dally.\<close>

lemma receiver_loop_last_block:
  assumes "endpoint_valid peer" and lt: "Suc m < 2 ^ 32" and st: "unat (last_in_sequence st) = m"
    and "inbox sk = Datagram (serialize_data (wire_block_number (word_of_nat (Suc m))) d) peer #
      WouldBlock # evs"
    and short: "length d < unat (rcv_block_size env)"
  shows "\<exists>outcome sk'. receiver_loop env peer st None sk = Returned (outcome, sink st @ d) sk' \<and>
    completed_successfully outcome \<and> inbox sk' = evs \<and>
    outbox sk' = outbox sk @ addressed peer [ack_datagram (word_of_nat (Suc m))]"
proof -
  note next_one = receiver_hears_next [OF assms(1-4)]
  let ?st1 = "st\<lparr>rcv_timeouts := 0, sink := sink st @ d, last_in_sequence := last_in_sequence st + 1,
                rcv_outcome := count_received (rcv_outcome st),
                blocks_since_ack := blocks_since_ack st + 1\<rparr>"
  have "receiver_handle_data env (st\<lparr>rcv_timeouts := 0\<rparr>)
      (data_packet (wire_block_number (last_in_sequence st + 1)) d) =
    (Complete ?st1, [ack_datagram (last_in_sequence st + 1)])"
    using next_one(2) short by (subst receiver_data_in_sequence) (auto simp: Let_def)
  moreover have "receiver_dally 4 a peer
      (set_receive_timeout (send_to (sk\<lparr>inbox := WouldBlock # evs\<rparr>) b peer) 150) =
    Returned () (set_receive_timeout (send_to (sk\<lparr>inbox := WouldBlock # evs\<rparr>) b peer) 150\<lparr>inbox := evs\<rparr>)"
    for a b
    by (rule receiver_dally_silence) simp
  ultimately show ?thesis
    unfolding next_one(1) using next_one(3) by (simp add: receiver_success_def del: of_nat_Suc)
qed

lemma receiver_loop_blocks:
  assumes "endpoint_valid peer" "0 < unat (rcv_window env)" "unat (rcv_window env) < 65536"
    and "0 < unat (rcv_block_size env)"
    and "blocks = length payload div unat (rcv_block_size env) + 1" "blocks < 2 ^ 32"
    and "unat (last_in_sequence st) = m" "m < blocks"
    and "unat (blocks_since_ack st) = s" "s < unat (rcv_window env)"
    and "inbox sk = map (\<lambda>d. Datagram d peer) (block_datagrams payload (rcv_block_size env) m blocks)
      @ WouldBlock # evs"
  shows "\<exists>outcome sk'. receiver_loop env peer st None sk =
      Returned (outcome, sink st @ drop (m * unat (rcv_block_size env)) payload) sk' \<and>
    completed_successfully outcome \<and> inbox sk' = evs \<and>
    outbox sk' = outbox sk @ addressed peer (ack_datagram (word_of_nat (min (m + (unat (rcv_window env) - s)) blocks)) #
      window_acks (unat (rcv_window env)) (min (m + (unat (rcv_window env) - s)) blocks) blocks)"
  using assms
proof (induction "blocks - m" arbitrary: m s st sk rule: less_induct)
  case less
  let ?bs = "unat (rcv_block_size env)" and ?w = "unat (rcv_window env)"
  let ?d = "nat_block payload ?bs (Suc m)"
  let ?wire = "wire_block_number (word_of_nat (Suc m))"
  note prems = less.prems
  have lt: "Suc m < 2 ^ 32" using prems(6,8) by simp
  have upt: "[Suc m..<Suc blocks] = Suc m # [Suc (Suc m)..<Suc blocks]"
    using prems(8) by (intro upt_conv_Cons) simp
  have inbox: "inbox sk = Datagram (serialize_data ?wire ?d) peer #
      map (\<lambda>d. Datagram d peer) (block_datagrams payload (rcv_block_size env) (Suc m) blocks)
      @ WouldBlock # evs"
    using prems(11) by (simp add: block_datagrams_def upt del: upt_Suc)
  have rest: "drop (m * ?bs) payload = ?d @ drop (Suc m * ?bs) payload"
    by (metis append_take_drop_id diff_Suc_1 drop_drop mult_Suc nat_block_def)
  show ?case
  proof (cases "Suc m < blocks")
    case False
    then have "Suc m = blocks" using prems(8) by simp
    moreover have "length ?d < ?bs"
      using prems(4,5) \<open>Suc m = blocks\<close> by (subst nat_block_short_iff) simp_all
    moreover have "min (m + (?w - s)) blocks = blocks" using \<open>Suc m = blocks\<close> prems(10) by simp
    moreover have "drop (Suc m * ?bs) payload = []"
      using all_blocks_payload [of ?bs payload "Suc m"] \<open>Suc m = blocks\<close> prems(4,5) by simp
    moreover have "block_datagrams payload (rcv_block_size env) blocks blocks = []"
      by (simp add: block_datagrams_def)
    ultimately show ?thesis
      using receiver_loop_last_block [OF prems(1) lt prems(7), of sk ?d evs env] inbox rest
      by (simp add: window_acks_def window_points.simps [of _ blocks] del: of_nat_Suc)
  next
    case True
    have full: "?bs \<le> length ?d"
      using nat_block_full [of ?bs "Suc m" payload] True prems(4,5) by simp
    have since: "unat (blocks_since_ack st) + 1 < 2 ^ 32" using prems(3,9,10) by simp
    obtain st' sk' where s: "receiver_loop env peer st None sk = receiver_loop env peer st' None sk'"
      "unat (last_in_sequence st') = Suc m" "sink st' = sink st @ ?d"
      "unat (blocks_since_ack st') = (if ?w \<le> s + 1 then 0 else s + 1)"
      "inbox sk' = map (\<lambda>d. Datagram d peer)
         (block_datagrams payload (rcv_block_size env) (Suc m) blocks) @ WouldBlock # evs"
      "outbox sk' = outbox sk @ addressed peer (if ?w \<le> s + 1 then [ack_datagram (word_of_nat (Suc m))] else [])"
      using receiver_loop_block [OF prems(1) lt prems(7) inbox full since]
      unfolding prems(9) by blast
    let ?s' = "if ?w \<le> s + 1 then 0 else s + 1"
    have s': "?s' < ?w" using prems(2) by simp
    have smaller: "blocks - Suc m < blocks - m" using prems(8) by simp
    from less.hyps [OF smaller prems(1-6) s(2) True s(4) s' s(5)]
    obtain outcome sk2 where r: "receiver_loop env peer st' None sk' =
        Returned (outcome, sink st' @ drop (Suc m * ?bs) payload) sk2"
      "completed_successfully outcome" "inbox sk2 = evs"
      "outbox sk2 = outbox sk' @ addressed peer (ack_datagram (word_of_nat (min (Suc m + (?w - ?s')) blocks)) #
        window_acks ?w (min (Suc m + (?w - ?s')) blocks) blocks)" by blast
    have acks: "(if ?w \<le> s + 1 then [ack_datagram (word_of_nat (Suc m))] else []) @
        ack_datagram (word_of_nat (min (Suc m + (?w - ?s')) blocks)) #
        window_acks ?w (min (Suc m + (?w - ?s')) blocks) blocks =
      ack_datagram (word_of_nat (min (m + (?w - s)) blocks)) #
        window_acks ?w (min (m + (?w - s)) blocks) blocks"
    proof (cases "?w \<le> s + 1")
      case True
      then have "min (m + (?w - s)) blocks = Suc m"
        using prems(10) \<open>Suc m < blocks\<close> by simp
      then show ?thesis
        using True \<open>Suc m < blocks\<close> prems(2)
        by (simp add: window_acks_def window_points.simps [of _ "Suc m"] del: of_nat_Suc)
    next
      case False
      then have "Suc m + (?w - ?s') = m + (?w - s)" by simp
      then show ?thesis using False by simp
    qed
    show ?thesis
      using r s(1,3,6) arg_cong [OF acks, of "addressed peer"] rest by (intro exI [of _ outcome] exI [of _ sk2]) simp
  qed
qed

section \<open>The whole transfer\<close>

definition transfer_data :: "bytes \<Rightarrow> negotiated_parameters \<Rightarrow> bytes list" where
  "transfer_data payload params =
     block_datagrams payload (block_size params) 0 (block_total payload params)"

definition transfer_acks :: "bytes \<Rightarrow> negotiated_parameters \<Rightarrow> bytes list" where
  "transfer_acks payload params =
     window_acks (max 1 (unat (window_size params))) 0 (block_total payload params)"

definition script :: "endpoint \<Rightarrow> bytes list \<Rightarrow> socket_event list" where
  "script peer ds = map (\<lambda>d. Datagram d peer) ds"

lemma engine_window:
  "unat (snd_window (net_sender_env payload params config)) = max 1 (unat (window_size params))"
  "unat (rcv_window (make_receiver_env params config)) = max 1 (unat (window_size params))"
  "max 1 (unat (window_size params)) < 65536"
  using unat_width_less(2) [of "max (window_size params) 1"] unat_width_less(2) [of "window_size params"]
  by (auto simp: net_sender_env_def make_sender_env_def make_receiver_env_def unsigned_ucast_eq
      take_bit_nat_eq_self max_def word_le_nat_alt)

lemma engine_run_data_sender:
  assumes "net_setup payload params config horizon"
  shows "run_data_sender sk peer payload params config k =
    sender_loop (net_sender_env payload params config) peer (initial_sender_state params k) sk"
proof -
  have "block_size params \<noteq> 0" "\<not> omit_terminating_empty_block (quirks config)"
    using assms by (auto simp: net_setup_def)
  then show ?thesis
    by (simp add: run_data_sender_def effective_total_blocks_def total_block_count_def
      net_sender_env_def block_total_def add.commute)
qed

lemma lossless_sender:
  assumes "net_setup payload params config horizon" "endpoint_valid peer"
    and "inbox sk = script peer (transfer_acks payload params) @ evs"
  shows "\<exists>outcome sk'. run_data_sender sk peer payload params config 0 = Returned outcome sk' \<and>
    completed_successfully outcome \<and> retransmissions outcome = 0 \<and>
    data_packets_sent outcome = word_of_nat (block_total payload params) \<and>
    inbox sk' = evs \<and> outbox sk' = outbox sk @ addressed peer (transfer_data payload params)"
proof -
  note env = setup_env_ok [OF assms(1)]
  show ?thesis
    unfolding engine_run_data_sender [OF assms(1)]
    using sender_loop_acks [OF env(1) assms(2) env(2) [symmetric], of "initial_sender_state params 0" 0 sk evs] assms(3)
    by (auto simp: initial_sender_state_def engine_window transfer_acks_def script_def transfer_data_def
        empty_outcome_def)
qed

lemma lossless_receiver:
  assumes "0 < block_size params" "block_total payload params < 2 ^ 32" "endpoint_valid peer"
    and "inbox sk = script peer (transfer_data payload params) @ WouldBlock # evs"
  shows "\<exists>outcome sk'. run_data_receiver sk peer params config [] 1 None = Returned (outcome, payload) sk' \<and>
    completed_successfully outcome \<and> inbox sk' = evs \<and>
    outbox sk' = outbox sk @ addressed peer (transfer_acks payload params)"
proof -
  let ?renv = "make_receiver_env params config"
  let ?w = "max 1 (unat (window_size params))" and ?blocks = "block_total payload params"
  have "unat (window_size params) < 65536" using unat_width_less(2) [of "window_size params"] by simp
  then have "\<exists>outcome sk'. receiver_loop ?renv peer (initial_receiver_state params [] 1) None sk =
      Returned (outcome, payload) sk' \<and> completed_successfully outcome \<and> inbox sk' = evs \<and>
    outbox sk' = outbox sk @ addressed peer (ack_datagram (word_of_nat (min ?w ?blocks)) # window_acks ?w (min ?w ?blocks) ?blocks)"
    using receiver_loop_blocks [OF assms(3), of ?renv ?blocks payload "initial_receiver_state params [] 1" 0 0 sk evs] assms
    by (auto simp: engine_window unat_gt_0 initial_receiver_state_def block_total_def
        script_def transfer_data_def less_max_iff_disj)
  moreover have "ack_datagram (word_of_nat (min w blocks)) # window_acks w (min w blocks) blocks
      = window_acks w 0 blocks" if "0 < w" "0 < blocks" for w blocks
    using that by (simp add: window_acks_def window_points.simps [of _ 0])
  ultimately show ?thesis
    by (simp add: run_data_receiver_def transfer_acks_def block_total_def)
qed

text \<open>
  On a network that loses nothing a transfer completes. The sender, given the
  receiver's ACKs, succeeds after sending every block exactly once without a retransmission; the
  receiver, given the sender's DATA, completes with the payload, sending one ACK per window.
\<close>
lemma lossless_transfer_completes:
  assumes "net_setup payload params config horizon" and "endpoint_valid a" "endpoint_valid b"
  shows "(\<exists>outcome sk.
      run_data_sender (fresh_socket (script b (transfer_acks payload params))) b payload params config 0
        = Returned outcome sk \<and>
      completed_successfully outcome \<and> retransmissions outcome = 0 \<and>
      data_packets_sent outcome = word_of_nat (block_total payload params) \<and>
      outbox sk = addressed b (transfer_data payload params)) \<and>
    (\<exists>outcome sk.
      run_data_receiver (fresh_socket (script a (transfer_data payload params) @ [WouldBlock])) a
        params config [] 1 None = Returned (outcome, payload) sk \<and>
      completed_successfully outcome \<and> outbox sk = addressed a (transfer_acks payload params))"
proof
  show "\<exists>outcome sk.
      run_data_sender (fresh_socket (script b (transfer_acks payload params))) b payload params config 0
        = Returned outcome sk \<and>
      completed_successfully outcome \<and> retransmissions outcome = 0 \<and>
      data_packets_sent outcome = word_of_nat (block_total payload params) \<and>
      outbox sk = addressed b (transfer_data payload params)"
    using lossless_sender [OF assms(1,3), of "fresh_socket (script b (transfer_acks payload params))" "[]"] by auto
  have "0 < block_size params" "block_total payload params < 2 ^ 32" using assms(1) by (auto simp: net_setup_def)
  then show "\<exists>outcome sk.
      run_data_receiver (fresh_socket (script a (transfer_data payload params) @ [WouldBlock])) a
        params config [] 1 None = Returned (outcome, payload) sk \<and>
      completed_successfully outcome \<and> outbox sk = addressed a (transfer_acks payload params)"
    using lossless_receiver [of params payload a "fresh_socket (script a (transfer_data payload params) @ [WouldBlock])" "[]" config]
      assms(2) by auto
qed

lemma lossless_transfer_completes_witness:
  "\<exists>outcome sk.
      run_data_receiver (fresh_socket (script (IPv4 [127, 0, 0, 1] 1069)
        (transfer_data sample_payload sample_params) @ [WouldBlock])) (IPv4 [127, 0, 0, 1] 1069)
        sample_params default_engine_config [] 1 None = Returned (outcome, sample_payload) sk"
  using lossless_transfer_completes [OF sample_setup, of "IPv4 [127, 0, 0, 1] 1069" "IPv4 [127, 0, 0, 1] 69"]
  by (auto simp: endpoint_valid_def)

end
