(* ===== verification/Netascii.thy ===== *)
theory Netascii
  imports Prelude
begin

text \<open>
  \<open>src/src/net/netascii.cpp\<close>: translation between local (LF-separated) bytes and the netascii
  wire form. Each C++ function is one left-to-right loop with one byte of look-ahead, modelled by
  recursion on the remaining bytes. The reference notions are \<open>normalize_eol\<close> (every CR LF pair
  becomes LF, nothing else changes) and \<open>netascii_wf\<close> (on the wire every LF follows a CR and
  every CR is followed by LF or NUL). The locale \<open>transfer_encoding\<close> is what the content oracle
  and the transfer engine rely on; it is interpreted on netascii and on octet mode.
\<close>

definition carriage_return :: u8 where "carriage_return = 13"
definition line_feed :: u8 where "line_feed = 10"
definition nul :: u8 where "nul = 0"

lemmas netascii_bytes = carriage_return_def line_feed_def nul_def

fun encode_local_to_netascii :: "bytes \<Rightarrow> bytes" where
  "encode_local_to_netascii [] = []"
| "encode_local_to_netascii (byte # rest) =
     (if byte = line_feed then
        carriage_return # line_feed # encode_local_to_netascii rest
      else if byte = carriage_return then
        (case rest of
           next_byte # rest' \<Rightarrow>
             if next_byte = line_feed then
               carriage_return # line_feed # encode_local_to_netascii rest'
             else carriage_return # nul # encode_local_to_netascii rest
         | [] \<Rightarrow> carriage_return # nul # encode_local_to_netascii rest)
      else byte # encode_local_to_netascii rest)"

fun decode_netascii_to_local :: "bytes \<Rightarrow> bytes" where
  "decode_netascii_to_local [] = []"
| "decode_netascii_to_local (byte # rest) =
     (case rest of
        following # rest' \<Rightarrow>
          if byte = carriage_return then
            (if following = line_feed then line_feed # decode_netascii_to_local rest'
             else if following = nul then carriage_return # decode_netascii_to_local rest'
             else carriage_return # decode_netascii_to_local rest)
          else byte # decode_netascii_to_local rest
      | [] \<Rightarrow> byte # decode_netascii_to_local rest)"

section \<open>Reference notions\<close>

fun normalize_eol :: "bytes \<Rightarrow> bytes" where
  "normalize_eol [] = []"
| "normalize_eol [b] = [b]"
| "normalize_eol (b # c # rest) =
     (if b = carriage_return \<and> c = line_feed then line_feed # normalize_eol rest
      else b # normalize_eol (c # rest))"

fun has_crlf :: "bytes \<Rightarrow> bool" where
  "has_crlf [] \<longleftrightarrow> False"
| "has_crlf [b] \<longleftrightarrow> False"
| "has_crlf (b # c # rest) \<longleftrightarrow> (b = carriage_return \<and> c = line_feed) \<or> has_crlf (c # rest)"

fun netascii_wf :: "bytes \<Rightarrow> bool" where
  "netascii_wf [] \<longleftrightarrow> True"
| "netascii_wf (b # rest) \<longleftrightarrow>
     (if b = carriage_return then
        (case rest of
           c # rest' \<Rightarrow> (c = line_feed \<or> c = nul) \<and> netascii_wf rest'
         | [] \<Rightarrow> False)
      else b \<noteq> line_feed \<and> netascii_wf rest)"

lemma netascii_bytes_distinct [simp]:
  "carriage_return \<noteq> line_feed" "line_feed \<noteq> carriage_return"
  "carriage_return \<noteq> nul" "nul \<noteq> carriage_return"
  "line_feed \<noteq> nul" "nul \<noteq> line_feed"
  by (simp_all add: netascii_bytes)

text \<open>The decoder steps over what one round of the encoder emits.\<close>

lemma decode_eol [simp]:
  "decode_netascii_to_local (carriage_return # line_feed # w) = line_feed # decode_netascii_to_local w"
  "decode_netascii_to_local (carriage_return # nul # w) = carriage_return # decode_netascii_to_local w"
  by simp_all

lemma decode_plain [simp]:
  "b \<noteq> carriage_return \<Longrightarrow> decode_netascii_to_local (b # w) = b # decode_netascii_to_local w"
  by (cases w) simp_all

lemma normalize_eol_plain [simp]:
  "b \<noteq> carriage_return \<Longrightarrow> normalize_eol (b # w) = b # normalize_eol w"
  by (cases w) simp_all

text \<open>One round of the encoder, case by case; the recursive equation itself is kept out of simp.\<close>

lemma encode_rounds [simp]:
  "encode_local_to_netascii (line_feed # xs) = carriage_return # line_feed # encode_local_to_netascii xs"
  "encode_local_to_netascii (carriage_return # line_feed # xs) =
     carriage_return # line_feed # encode_local_to_netascii xs"
  "encode_local_to_netascii [carriage_return] = [carriage_return, nul]"
  "c \<noteq> line_feed \<Longrightarrow> encode_local_to_netascii (carriage_return # c # xs) =
     carriage_return # nul # encode_local_to_netascii (c # xs)"
  "b \<noteq> carriage_return \<Longrightarrow> b \<noteq> line_feed \<Longrightarrow>
     encode_local_to_netascii (b # xs) = b # encode_local_to_netascii xs"
  by simp_all

declare encode_local_to_netascii.simps(2) [simp del]
declare decode_netascii_to_local.simps(2) [simp del]

lemma netascii_cases [case_names Nil LF CRLF CR_end CR_other plain]:
  assumes "xs = [] \<Longrightarrow> P" and "\<And>r. xs = line_feed # r \<Longrightarrow> P"
    and "\<And>r. xs = carriage_return # line_feed # r \<Longrightarrow> P" and "xs = [carriage_return] \<Longrightarrow> P"
    and "\<And>c r. xs = carriage_return # c # r \<Longrightarrow> c \<noteq> line_feed \<Longrightarrow> P"
    and "\<And>b r. xs = b # r \<Longrightarrow> b \<noteq> carriage_return \<Longrightarrow> b \<noteq> line_feed \<Longrightarrow> P"
  shows P
  by (metis assms list.exhaust)

lemma netascii_induct [case_names Nil LF CRLF CR_end CR_other plain]:
  assumes "P []" and "\<And>r. P r \<Longrightarrow> P (line_feed # r)"
    and "\<And>r. P r \<Longrightarrow> P (carriage_return # line_feed # r)" and "P [carriage_return]"
    and "\<And>c r. c \<noteq> line_feed \<Longrightarrow> P (c # r) \<Longrightarrow> P (carriage_return # c # r)"
    and "\<And>b r. b \<noteq> carriage_return \<Longrightarrow> b \<noteq> line_feed \<Longrightarrow> P r \<Longrightarrow> P (b # r)"
  shows "P xs"
proof (induction xs rule: length_induct)
  case (1 xs)
  then have IH: "length ys < length xs \<Longrightarrow> P ys" for ys by blast
  show ?case
  proof (cases xs rule: netascii_cases)
    case Nil then show ?thesis by (simp add: assms(1))
  next
    case (LF r) then show ?thesis using IH [of r] by (simp add: assms(2))
  next
    case (CRLF r) then show ?thesis using IH [of r] by (simp add: assms(3))
  next
    case CR_end then show ?thesis by (simp add: assms(4))
  next
    case (CR_other c r) then show ?thesis using IH [of "c # r"] by (simp add: assms(5))
  next
    case (plain b r) then show ?thesis using IH [of r] by (simp add: assms(6))
  qed
qed

lemma decode_encode_normalizes:
  "decode_netascii_to_local (encode_local_to_netascii xs) = normalize_eol xs"
  by (induction xs rule: netascii_induct) simp_all

lemma normalize_eol_length: "length (normalize_eol xs) \<le> length xs"
  by (induction xs rule: normalize_eol.induct) auto

lemma normalize_eol_id_iff: "normalize_eol xs = xs \<longleftrightarrow> \<not> has_crlf xs"
proof (induction xs rule: normalize_eol.induct)
  case (3 b c rest)
  have "line_feed # normalize_eol rest \<noteq> b # c # rest" if "b = carriage_return"
    using that by simp
  with 3 show ?case by auto
qed auto

lemma encode_wf: "netascii_wf (encode_local_to_netascii xs)"
  by (induction xs rule: netascii_induct) simp_all

lemma encode_length_bounds:
  "length xs \<le> length (encode_local_to_netascii xs) \<and>
   length (encode_local_to_netascii xs) \<le> 2 * length xs"
  by (induction xs rule: netascii_induct) simp_all

lemma decode_length: "length (decode_netascii_to_local ws) \<le> length ws"
  by (induction ws rule: decode_netascii_to_local.induct)
    (auto simp: decode_netascii_to_local.simps(2) split: list.splits)

text \<open>A wire image in which no bare CR precedes an end of line is restored by re-encoding.\<close>

lemma encode_no_eol_id:
  "carriage_return \<notin> set xs \<Longrightarrow> line_feed \<notin> set xs \<Longrightarrow> encode_local_to_netascii xs = xs"
  by (induction xs) auto

section \<open>The interface the engine and the oracle use\<close>

locale transfer_encoding =
  fixes to_wire :: "bytes \<Rightarrow> bytes"
    and from_wire :: "bytes \<Rightarrow> bytes"
    and canonical :: "bytes \<Rightarrow> bytes"
  assumes from_to_wire: "from_wire (to_wire xs) = canonical xs"
    and canonical_length: "length (canonical xs) \<le> length xs"
begin

lemma delivered_canonical: "w = to_wire xs \<Longrightarrow> from_wire w = canonical xs"
  by (simp add: from_to_wire)

lemma delivered_not_longer: "w = to_wire xs \<Longrightarrow> length (from_wire w) \<le> length xs"
  by (simp add: from_to_wire canonical_length)

lemma wire_equal_canonical_equal: "to_wire xs = to_wire ys \<Longrightarrow> canonical xs = canonical ys"
  by (metis from_to_wire)

end

interpretation netascii_enc:
  transfer_encoding encode_local_to_netascii decode_netascii_to_local normalize_eol
  by unfold_locales (simp_all add: decode_encode_normalizes normalize_eol_length)

interpretation octet_enc: transfer_encoding "\<lambda>xs. xs" "\<lambda>xs. xs" "\<lambda>xs. xs"
  by unfold_locales simp_all

section \<open>The translation as a whole\<close>

text \<open>
  C18. Netascii over the wire: what is sent is well formed (every CR is followed by LF or NUL), at
  most twice as long, and decoding it gives the file with every CR LF collapsed to LF, so exactly
  the files without CR LF come back unchanged.
\<close>
theorem netascii_transfer:
  "netascii_wf (encode_local_to_netascii xs) \<and>
   length xs \<le> length (encode_local_to_netascii xs) \<and>
   length (encode_local_to_netascii xs) \<le> 2 * length xs \<and>
   decode_netascii_to_local (encode_local_to_netascii xs) = normalize_eol xs \<and>
   (decode_netascii_to_local (encode_local_to_netascii xs) = xs \<longleftrightarrow> \<not> has_crlf xs)"
  using encode_wf [of xs] encode_length_bounds [of xs] netascii_enc.delivered_canonical [OF refl, of xs]
    normalize_eol_id_iff [of xs]
  by simp

end
