(* ===== verification/Negotiation.thy ===== *)
theory Negotiation
  imports Engine_Types Netascii
begin

text \<open>
  Option negotiation of \<open>adapters/reference/tftp_reference_engine.cpp\<close>: the options a client requests
  (\<open>build_requested_option_list\<close>), what it does with an OACK (\<open>apply_oack_to_client\<close>), and the OACK a
  server builds (\<open>negotiate_server_options\<close>). \<open>std::stoul\<close> raises exceptions: the server catches
  them per option, the client does not, so \<open>apply_oack_to_client\<close> has three kinds of end.
\<close>

definition mode_is_netascii :: "string \<Rightarrow> bool" where
  "mode_is_netascii md = equals_ignore_ascii_case md ''netascii''"

definition make_option :: "string \<Rightarrow> string \<Rightarrow> tftp_option" where
  "make_option name v = \<lparr>option_name = name, option_value = v\<rparr>"

lemma make_option_fields [simp]:
  "option_name (make_option n v) = n" "option_value (make_option n v) = v"
  by (simp_all add: make_option_def)

section \<open>Client\<close>

definition build_requested_option_list ::
  "client_requested_options \<Rightarrow> engine_config \<Rightarrow> tftp_option list" where
  "build_requested_option_list opts config =
     (if \<not> support_option_negotiation config then []
      else
        (case requested_block_size opts of
           Some v \<Rightarrow> if support_block_size_option config
                     then [make_option ''blksize'' (to_string (unat v))] else []
         | None \<Rightarrow> []) @
        (case requested_timeout_seconds opts of
           Some v \<Rightarrow> if support_timeout_option config
                     then [make_option ''timeout'' (to_string (unat v))] else []
         | None \<Rightarrow> []) @
        (case requested_transfer_size opts of
           Some v \<Rightarrow> if support_transfer_size_option config
                     then [make_option ''tsize'' (to_string (unat v))] else []
         | None \<Rightarrow> []) @
        (case requested_window_size opts of
           Some v \<Rightarrow> if support_window_size_option config
                     then [make_option ''windowsize'' (to_string (unat v))] else []
         | None \<Rightarrow> []))"

datatype oack_result =
    OackApplied negotiated_parameters
  | OackRejected string
  | OackRaised exn

fun apply_oack_options ::
  "tftp_option list \<Rightarrow> client_requested_options \<Rightarrow> negotiated_parameters \<Rightarrow> oack_result" where
  "apply_oack_options [] requested params = OackApplied params"
| "apply_oack_options (opt # rest) requested params =
     (if equals_ignore_ascii_case (option_name opt) ''blksize'' then
        if requested_block_size requested = None
        then OackRejected ''server OACKed unrequested blksize''
        else case stoul (option_value opt) of
               Inl e \<Rightarrow> OackRaised e
             | Inr v \<Rightarrow> apply_oack_options rest requested (params\<lparr>block_size := ucast v\<rparr>)
      else if equals_ignore_ascii_case (option_name opt) ''timeout'' then
        if requested_timeout_seconds requested = None
        then OackRejected ''server OACKed unrequested timeout''
        else case stoul (option_value opt) of
               Inl e \<Rightarrow> OackRaised e
             | Inr v \<Rightarrow> apply_oack_options rest requested (params\<lparr>timeout_seconds := Some (ucast v)\<rparr>)
      else if equals_ignore_ascii_case (option_name opt) ''tsize'' then
        if requested_transfer_size requested = None
        then OackRejected ''server OACKed unrequested tsize''
        else case stoul (option_value opt) of
               Inl e \<Rightarrow> OackRaised e
             | Inr v \<Rightarrow> apply_oack_options rest requested (params\<lparr>transfer_size := Some v\<rparr>)
      else if equals_ignore_ascii_case (option_name opt) ''windowsize'' then
        if requested_window_size requested = None
        then OackRejected ''server OACKed unrequested windowsize''
        else case stoul (option_value opt) of
               Inl e \<Rightarrow> OackRaised e
             | Inr v \<Rightarrow> apply_oack_options rest requested (params\<lparr>window_size := ucast v\<rparr>)
      else OackRejected (''server OACKed unknown option '' @ option_name opt))"

definition apply_oack_to_client ::
  "tftp_packet \<Rightarrow> client_requested_options \<Rightarrow> negotiated_parameters \<Rightarrow> oack_result" where
  "apply_oack_to_client oack requested params = apply_oack_options (options oack) requested params"

section \<open>Server\<close>

text \<open>One option of the request: the parameters after it and what it adds to the OACK.\<close>

definition negotiate_option ::
  "engine_config \<Rightarrow> u64 option \<Rightarrow> tftp_option \<Rightarrow> negotiated_parameters \<Rightarrow>
   negotiated_parameters \<times> tftp_option list" where
  "negotiate_option config actual_file_size opt params =
     (if equals_ignore_ascii_case (option_name opt) ''blksize'' \<and> support_block_size_option config then
        (case stoul (option_value opt) of
           Inl _ \<Rightarrow> (params, [])
         | Inr v \<Rightarrow>
             let accepted = clamp_block_size (ucast v)
             in (params\<lparr>block_size := accepted\<rparr>,
                 [make_option ''blksize'' (to_string (unat accepted))]))
      else if equals_ignore_ascii_case (option_name opt) ''timeout'' \<and> support_timeout_option config then
        (case stoul (option_value opt) of
           Inl _ \<Rightarrow> (params, [])
         | Inr v \<Rightarrow>
             let requested = (ucast v :: u32)
             in if requested < 1 \<or> requested > 255 then (params, [])
                else (params\<lparr>timeout_seconds := Some requested\<rparr>,
                      [make_option ''timeout'' (to_string (unat requested))]))
      else if equals_ignore_ascii_case (option_name opt) ''tsize'' \<and>
          support_transfer_size_option config then
        (case actual_file_size of
           Some fsize \<Rightarrow> (params\<lparr>transfer_size := Some fsize\<rparr>,
                         [make_option ''tsize'' (to_string (unat fsize))])
         | None \<Rightarrow>
             (case stoul (option_value opt) of
                Inl _ \<Rightarrow> (params, [])
              | Inr v \<Rightarrow> (params\<lparr>transfer_size := Some v\<rparr>,
                          [make_option ''tsize'' (option_value opt)])))
      else if equals_ignore_ascii_case (option_name opt) ''windowsize'' \<and>
          support_window_size_option config then
        (case stoul (option_value opt) of
           Inl _ \<Rightarrow> (params, [])
         | Inr v \<Rightarrow>
             let requested = (ucast v :: u32)
             in if requested < 1 then (params, [])
                else let accepted = (ucast (min requested 65535) :: u16)
                     in (params\<lparr>window_size := accepted\<rparr>,
                         [make_option ''windowsize'' (to_string (unat accepted))]))
      else (params, []))"

fun negotiate_options ::
  "engine_config \<Rightarrow> u64 option \<Rightarrow> tftp_option list \<Rightarrow> negotiated_parameters \<Rightarrow>
   negotiated_parameters \<times> tftp_option list" where
  "negotiate_options config fsize [] params = (params, [])"
| "negotiate_options config fsize (opt # rest) params =
     (let (params1, oack1) = negotiate_option config fsize opt params;
          (params2, oack2) = negotiate_options config fsize rest params1
      in (params2, oack1 @ oack2))"

definition negotiate_server_options ::
  "tftp_packet \<Rightarrow> engine_config \<Rightarrow> u64 option \<Rightarrow> negotiated_parameters \<Rightarrow>
   negotiated_parameters \<times> tftp_option list" where
  "negotiate_server_options request config actual_file_size params =
     (if \<not> support_option_negotiation config then (params, [])
      else negotiate_options config actual_file_size (options request) params)"

text \<open>The parameters both sides start from.\<close>

definition engine_default_parameters :: "engine_config \<Rightarrow> negotiated_parameters" where
  "engine_default_parameters config =
     default_parameters\<lparr>block_size := default_block_size config, window_size := 1\<rparr>"

section \<open>What the server negotiates\<close>

text \<open>Parameters a transfer may run with: a legal block size and a window of at least one.\<close>

definition parameters_legal :: "engine_config \<Rightarrow> negotiated_parameters \<Rightarrow> bool" where
  "parameters_legal config params \<longleftrightarrow>
     (block_size params = default_block_size config \<or>
      (8 \<le> block_size params \<and> block_size params \<le> 65464)) \<and>
     1 \<le> window_size params \<and>
     (\<forall>t. timeout_seconds params = Some t \<longrightarrow> 1 \<le> t \<and> t \<le> 255)"

lemma clamp_block_size_bounds: "8 \<le> clamp_block_size n \<and> clamp_block_size n \<le> 65464"
  by (auto simp: clamp_block_size_def kMinimumBlockSize_def kMaximumBlockSize_def min_def max_def)

lemma clamp_block_size_id: "8 \<le> n \<Longrightarrow> n \<le> 65464 \<Longrightarrow> clamp_block_size n = n"
  by (simp add: clamp_block_size_def kMinimumBlockSize_def kMaximumBlockSize_def min_def max_def)

lemma window_clamp_pos: "\<not> (r :: u32) < 1 \<Longrightarrow> (ucast (min r 65535) :: u16) \<noteq> 0"
proof -
  assume "\<not> r < 1"
  then have "1 \<le> unat (min r 65535)" "unat (min r 65535) \<le> 65535"
    by (auto simp: min_def word_le_nat_alt word_less_nat_alt)
  then show ?thesis
    by (simp add: unat_eq_zero [symmetric] unsigned_ucast_eq take_bit_nat_eq_self
        del: unat_eq_zero unsigned_eq_0_iff)
qed

lemma negotiate_option_cases [consumes 1, case_names declined blksize timeout tsize windowsize]:
  assumes "negotiate_option config fsize opt params = (params', oack)"
    and "params' = params \<Longrightarrow> oack = [] \<Longrightarrow> P"
    and "\<And>v. equals_ignore_ascii_case (option_name opt) ''blksize'' \<Longrightarrow>
      params' = params\<lparr>block_size := clamp_block_size v\<rparr> \<Longrightarrow>
      oack = [make_option ''blksize'' (to_string (unat (clamp_block_size v)))] \<Longrightarrow> P"
    and "\<And>v. equals_ignore_ascii_case (option_name opt) ''timeout'' \<Longrightarrow> v \<noteq> 0 \<Longrightarrow> v \<le> 255 \<Longrightarrow>
      params' = params\<lparr>timeout_seconds := Some v\<rparr> \<Longrightarrow>
      oack = [make_option ''timeout'' (to_string (unat v))] \<Longrightarrow> P"
    and "\<And>v text. equals_ignore_ascii_case (option_name opt) ''tsize'' \<Longrightarrow>
      params' = params\<lparr>transfer_size := Some v\<rparr> \<Longrightarrow> oack = [make_option ''tsize'' text] \<Longrightarrow>
      stoul text = Inr v \<Longrightarrow> text = option_value opt \<or> text = to_string (unat v) \<Longrightarrow> P"
    and "\<And>v. equals_ignore_ascii_case (option_name opt) ''windowsize'' \<Longrightarrow> v \<noteq> 0 \<Longrightarrow>
      params' = params\<lparr>window_size := v\<rparr> \<Longrightarrow>
      oack = [make_option ''windowsize'' (to_string (unat v))] \<Longrightarrow> P"
  shows P
proof -
  let ?eq = "equals_ignore_ascii_case (option_name opt)"
  have size: "stoul (to_string (unat (n :: u64))) = Inr n" for n
    using unat_width_less(4) [of n] by (simp add: stoul_to_string)
  note n = assms(1) [unfolded negotiate_option_def Let_def]
  consider "?eq ''blksize'' \<and> support_block_size_option config"
    | "\<not> (?eq ''blksize'' \<and> support_block_size_option config)"
      "?eq ''timeout'' \<and> support_timeout_option config"
    | "\<not> (?eq ''blksize'' \<and> support_block_size_option config)"
      "\<not> (?eq ''timeout'' \<and> support_timeout_option config)"
      "?eq ''tsize'' \<and> support_transfer_size_option config"
    | "\<not> (?eq ''blksize'' \<and> support_block_size_option config)"
      "\<not> (?eq ''timeout'' \<and> support_timeout_option config)"
      "\<not> (?eq ''tsize'' \<and> support_transfer_size_option config)"
    by blast
  then show P
  proof cases
    case 1
    then show P using n assms(2,3) by (auto split: sum.splits)
  next
    case 2
    then show P using n assms(2) assms(4) [of "ucast (projr (stoul (option_value opt)))"]
      by (auto simp: not_less split: sum.splits if_splits)
  next
    case 3
    then show P using n assms(2,5) size by (auto split: sum.splits option.splits)
  next
    case 4
    then show P using n assms(2) window_clamp_pos
        assms(6) [of "ucast (min (ucast (projr (stoul (option_value opt)))) (65535 :: u32)) :: u16"]
      by (simp only: if_False) (auto split: sum.splits if_splits)
  qed
qed

lemma word_one_le: "v \<noteq> 0 \<Longrightarrow> 1 \<le> (v :: 'a::len word)"
  by (simp add: word_le_nat_alt Suc_le_eq unat_gt_0)

lemma negotiate_option_legal:
  assumes "negotiate_option config fsize opt params = (params', oack)" "parameters_legal config params"
  shows "parameters_legal config params'"
  using assms
  by (cases rule: negotiate_option_cases)
    (simp_all add: parameters_legal_def clamp_block_size_bounds word_one_le)

lemma negotiate_options_legal:
  "negotiate_options config fsize opts params = (params', oack) \<Longrightarrow> parameters_legal config params \<Longrightarrow>
     parameters_legal config params'"
proof (induction opts arbitrary: params oack)
  case (Cons opt opts)
  then show ?case
    by (auto simp: Let_def split: prod.splits dest: negotiate_option_legal)
qed simp

text \<open>The OACK names only options of the request, in their order, and only supported ones.\<close>

definition known_option :: "string \<Rightarrow> bool" where
  "known_option name \<longleftrightarrow> name \<in> {''blksize'', ''timeout'', ''tsize'', ''windowsize''}"

lemma negotiate_option_requested:
  assumes "negotiate_option config fsize opt params = (params', oack)"
  shows "length oack \<le> 1 \<and>
    (\<forall>o' \<in> set oack. known_option (option_name o') \<and>
       equals_ignore_ascii_case (option_name opt) (option_name o'))"
  using assms by (cases rule: negotiate_option_cases) (simp_all add: known_option_def)

lemma negotiate_options_requested:
  "negotiate_options config fsize opts params = (params', oack) \<Longrightarrow>
     length oack \<le> length opts \<and>
     (\<forall>o' \<in> set oack. known_option (option_name o') \<and>
       (\<exists>opt \<in> set opts. equals_ignore_ascii_case (option_name opt) (option_name o')))"
proof (induction opts arbitrary: params oack)
  case (Cons opt opts)
  obtain p1 o1 where n1: "negotiate_option config fsize opt params = (p1, o1)" by fastforce
  obtain p2 o2 where n2: "negotiate_options config fsize opts p1 = (p2, o2)" by fastforce
  have "oack = o1 @ o2" using Cons.prems n1 n2 by simp
  then show ?case
    using negotiate_option_requested [OF n1] Cons.IH [of p1 o2] n2 Cons.prems n1
    by (fastforce simp: Let_def)
qed simp

section \<open>Client and server agree\<close>

text \<open>An option the client may accept in an OACK: one of the four it knows and asked for.\<close>

definition option_requested :: "client_requested_options \<Rightarrow> string \<Rightarrow> bool" where
  "option_requested requested name \<longleftrightarrow>
     (equals_ignore_ascii_case name ''blksize'' \<longrightarrow> requested_block_size requested \<noteq> None) \<and>
     (equals_ignore_ascii_case name ''timeout'' \<longrightarrow> requested_timeout_seconds requested \<noteq> None) \<and>
     (equals_ignore_ascii_case name ''tsize'' \<longrightarrow> requested_transfer_size requested \<noteq> None) \<and>
     (equals_ignore_ascii_case name ''windowsize'' \<longrightarrow> requested_window_size requested \<noteq> None)"

lemma option_names_distinct [simp]:
  "equals_ignore_ascii_case ''blksize'' ''blksize''"
  "\<not> equals_ignore_ascii_case ''timeout'' ''blksize''"
  "equals_ignore_ascii_case ''timeout'' ''timeout''"
  "\<not> equals_ignore_ascii_case ''tsize'' ''blksize''"
  "\<not> equals_ignore_ascii_case ''tsize'' ''timeout''"
  "equals_ignore_ascii_case ''tsize'' ''tsize''"
  "\<not> equals_ignore_ascii_case ''windowsize'' ''blksize''"
  "\<not> equals_ignore_ascii_case ''windowsize'' ''timeout''"
  "\<not> equals_ignore_ascii_case ''windowsize'' ''tsize''"
  "equals_ignore_ascii_case ''windowsize'' ''windowsize''"
  "\<not> equals_ignore_ascii_case ''blksize'' ''timeout''"
  "\<not> equals_ignore_ascii_case ''blksize'' ''tsize''"
  "\<not> equals_ignore_ascii_case ''blksize'' ''windowsize''"
  "\<not> equals_ignore_ascii_case ''timeout'' ''tsize''"
  "\<not> equals_ignore_ascii_case ''timeout'' ''windowsize''"
  "\<not> equals_ignore_ascii_case ''tsize'' ''windowsize''"
  by code_simp+

lemma option_names_nul_free [simp]:
  "nul_free ''blksize''" "nul_free ''timeout''" "nul_free ''tsize''" "nul_free ''windowsize''"
  by code_simp+

lemma equals_ignore_case_join:
  "equals_ignore_ascii_case n m \<Longrightarrow> equals_ignore_ascii_case n m' \<Longrightarrow> equals_ignore_ascii_case m m'"
  by (simp add: equals_ignore_case_iff)

lemmas option_name_clash =
  equals_ignore_case_join [of _ "''blksize''" "''timeout''"]
  equals_ignore_case_join [of _ "''blksize''" "''tsize''"]
  equals_ignore_case_join [of _ "''blksize''" "''windowsize''"]
  equals_ignore_case_join [of _ "''timeout''" "''tsize''"]
  equals_ignore_case_join [of _ "''timeout''" "''windowsize''"]
  equals_ignore_case_join [of _ "''tsize''" "''windowsize''"]

lemma stoul_to_string_word:
  "stoul (to_string (unat (a :: u32))) = Inr (ucast a)"
  "stoul (to_string (unat (b :: u16))) = Inr (ucast b)"
  using unat_width_less(3) [of a] unat_width_less(2) [of b] by (simp_all add: stoul_to_string)

lemma ucast_up_down [simp]: "ucast (ucast (a :: u32) :: u64) = a" "ucast (ucast (b :: u16) :: u64) = b"
  by (simp_all add: ucast_up_ucast_id is_up)

lemma apply_negotiated_option:
  assumes "negotiate_option config fsize opt params = (params', oack)"
    and "option_requested requested (option_name opt)"
  shows "apply_oack_options (oack @ rest) requested params = apply_oack_options rest requested params'"
  using assms
  by (cases rule: negotiate_option_cases)
    (auto simp: option_requested_def stoul_to_string_word simp del: equals_ignore_ascii_case.simps)

lemma apply_negotiated_options:
  "negotiate_options config fsize opts params = (params', oack) \<Longrightarrow>
     \<forall>opt \<in> set opts. option_requested requested (option_name opt) \<Longrightarrow>
     apply_oack_options (oack @ rest) requested params = apply_oack_options rest requested params'"
proof (induction opts arbitrary: params oack)
  case (Cons opt opts)
  obtain p1 o1 where n1: "negotiate_option config fsize opt params = (p1, o1)" by fastforce
  obtain p2 o2 where n2: "negotiate_options config fsize opts p1 = (p2, o2)" by fastforce
  have "oack = o1 @ o2" "params' = p2" using Cons.prems n1 n2 by simp_all
  then show ?case
    using apply_negotiated_option [OF n1] Cons.IH [of p1 o2] n2 Cons.prems(2) by simp
qed simp

lemma built_options_requested:
  "opt \<in> set (build_requested_option_list opts config) \<Longrightarrow>
     option_requested opts (option_name opt) \<and> option_wf opt"
  by (auto simp: build_requested_option_list_def option_requested_def option_wf_def
      split: if_splits option.splits dest!: sym [of "Some _"]
      simp del: equals_ignore_ascii_case.simps nul_free_Cons)

lemma apply_oack_requested:
  "apply_oack_options opts requested params = OackApplied params' \<Longrightarrow> opt \<in> set opts \<Longrightarrow>
     option_requested requested (option_name opt) \<and>
     (\<exists>name. known_option name \<and> equals_ignore_ascii_case (option_name opt) name)"
proof (induction opts arbitrary: params)
  case (Cons a opts)
  show ?case
  proof (cases "opt = a")
    case True
    show ?thesis
      using Cons.prems(1)
      by (auto simp: True option_requested_def known_option_def split: if_splits sum.splits
          dest: option_name_clash simp del: equals_ignore_ascii_case.simps)
  next
    case False
    then show ?thesis using Cons.prems Cons.IH by (auto split: if_splits sum.splits)
  qed
qed simp

lemma stoul_samples [simp]:
  "stoul ''1024'' = Inr 1024" "stoul ''0'' = Inr 0" "stoul ''big'' = Inl InvalidArgument"
  by (simp_all add: stoul_def is_digit_char_def is_space_char_def)

lemma negotiated_option_wf:
  assumes "negotiate_option config fsize opt params = (params', oack)" "option_wf opt"
  shows "list_all option_wf oack"
  using assms by (cases rule: negotiate_option_cases) (auto simp: option_wf_def simp del: nul_free_Cons)

lemma negotiated_options_wf:
  "negotiate_options config fsize opts params = (params', oack) \<Longrightarrow> list_all option_wf opts \<Longrightarrow>
     list_all option_wf oack"
proof (induction opts arbitrary: params oack)
  case (Cons opt opts)
  then show ?case
    by (auto simp: Let_def split: prod.splits dest: negotiated_option_wf)
qed simp

text \<open>The whole exchange over the wire: request, OACK, and the parameters each side ends with.\<close>

definition server_view ::
  "engine_config \<Rightarrow> u64 option \<Rightarrow> bytes \<Rightarrow> (negotiated_parameters \<times> bytes) option" where
  "server_view config fsize request =
     (case parse_tftp_packet request of
        Inl _ \<Rightarrow> None
      | Inr packet \<Rightarrow>
          let (params, oack) =
                negotiate_server_options packet config fsize (engine_default_parameters config)
          in Some (params, serialize_option_acknowledgement oack))"

definition client_view ::
  "engine_config \<Rightarrow> client_requested_options \<Rightarrow> bytes \<Rightarrow> oack_result option" where
  "client_view config opts oack =
     (case parse_tftp_packet oack of
        Inl _ \<Rightarrow> None
      | Inr packet \<Rightarrow> Some (apply_oack_to_client packet opts (engine_default_parameters config)))"

lemma negotiation_applies:
  assumes "default_block_size ccfg = default_block_size scfg"
  obtains params oack where
    "negotiate_server_options (request_packet op f md (build_requested_option_list opts ccfg)) scfg fsize
       (engine_default_parameters scfg) = (params, oack)"
    "list_all option_wf oack"
    "apply_oack_to_client (oack_packet oack) opts (engine_default_parameters ccfg) = OackApplied params"
proof -
  let ?list = "build_requested_option_list opts ccfg"
  have wf: "list_all option_wf ?list" and req: "\<forall>opt \<in> set ?list. option_requested opts (option_name opt)"
    using built_options_requested by (auto simp: list_all_iff)
  have default: "engine_default_parameters ccfg = engine_default_parameters scfg"
    using assms by (simp add: engine_default_parameters_def)
  obtain params oack where n: "negotiate_server_options (request_packet op f md ?list) scfg fsize
      (engine_default_parameters scfg) = (params, oack)" by fastforce
  have "list_all option_wf oack \<and>
      apply_oack_options oack opts (engine_default_parameters scfg) = OackApplied params"
    using n wf req apply_negotiated_options [of scfg fsize ?list _ params oack opts "[]"]
    by (auto simp: negotiate_server_options_def dest: negotiated_options_wf split: if_splits)
  then show ?thesis using that [OF n] by (simp add: apply_oack_to_client_def default)
qed

text \<open>
  C7. Client and server of the engine agree after the option exchange: for every set of requested
  options and every configuration of the two sides with the same default block size, the OACK the
  server answers with is accepted, and gives the client exactly the parameters the server runs with.
\<close>
theorem negotiation_agrees:
  assumes "nul_free f" "nul_free md" "default_block_size ccfg = default_block_size scfg"
  shows "\<exists>params oack.
    server_view scfg fsize
      (serialize_read_request f md (build_requested_option_list opts ccfg)) = Some (params, oack) \<and>
    client_view ccfg opts oack = Some (OackApplied params)"
proof -
  have wf: "list_all option_wf (build_requested_option_list opts ccfg)"
    using built_options_requested by (auto simp: list_all_iff)
  obtain params oack where n: "negotiate_server_options (request_packet ReadRequest f md
      (build_requested_option_list opts ccfg)) scfg fsize (engine_default_parameters scfg) = (params, oack)"
    "list_all option_wf oack" "apply_oack_to_client (oack_packet oack) opts (engine_default_parameters ccfg) = OackApplied params"
    by (rule negotiation_applies [OF assms(3)])
  then show ?thesis using assms wf by (simp add: server_view_def client_view_def)
qed

theorem negotiation_agrees_witness:
  "\<exists>params oack.
    server_view default_engine_config (Some 9)
      (serialize_read_request ''f'' ''octet''
        (build_requested_option_list
          (no_requested_options\<lparr>requested_block_size := Some 4, requested_window_size := Some 8\<rparr>)
          default_engine_config)) = Some (params, oack) \<and>
    client_view default_engine_config
      (no_requested_options\<lparr>requested_block_size := Some 4, requested_window_size := Some 8\<rparr>) oack
      = Some (OackApplied params)"
  by (rule negotiation_agrees) (simp add: byte_of_char_def nul_free_def | code_simp)+

lemma negotiated_parameters_legal:
  assumes "negotiate_server_options request config fsize (engine_default_parameters config) = (params, oack)"
  shows "parameters_legal config params"
proof -
  have "parameters_legal config (engine_default_parameters config)"
    by (simp add: parameters_legal_def engine_default_parameters_def default_parameters_def)
  then show ?thesis
    using assms negotiate_options_legal by (auto simp: negotiate_server_options_def split: if_splits)
qed

text \<open>
  C14. Whatever options a request carries, the server runs the transfer with legal parameters: its
  default block size or one in 8..65464, a window of at least one block, a time-out in 1..255 s;
  and it acknowledges only options it knows that the request named, at most once each.
\<close>
theorem server_negotiation_legal:
  assumes "negotiate_server_options request config fsize (engine_default_parameters config)
    = (params, oack)"
  shows "parameters_legal config params \<and> length oack \<le> length (options request) \<and>
    (\<forall>o' \<in> set oack. known_option (option_name o') \<and> has_option request (option_name o'))"
proof -
  have has: "has_option request n"
    if "opt \<in> set (options request)" "equals_ignore_ascii_case (option_name opt) n" for opt n
    using that by (auto simp: has_option_def find_option_def find_None_iff)
  show ?thesis
  proof (cases "support_option_negotiation config")
    case True
    then have n: "negotiate_options config fsize (options request) (engine_default_parameters config)
        = (params, oack)" using assms by (simp add: negotiate_server_options_def)
    show ?thesis
      using negotiated_parameters_legal [OF assms] negotiate_options_requested [OF n] has by blast
  next
    case False
    then show ?thesis using negotiated_parameters_legal [OF assms] assms by (auto simp: negotiate_server_options_def)
  qed
qed

theorem server_negotiation_legal_witness:
  "parameters_legal default_engine_config
     (fst (negotiate_server_options
       (request_packet ReadRequest ''f'' ''octet'' [make_option ''BlkSize'' ''70000''])
       default_engine_config None (engine_default_parameters default_engine_config)))"
  using server_negotiation_legal [OF prod.collapse [symmetric]] by blast

text \<open>
  A client accepts no option it did not ask for: an OACK it applies holds only the four options
  it knows, each of them among those it requested.
\<close>
lemma oack_applied_requested:
  assumes "apply_oack_to_client oack requested params = OackApplied params'"
  shows "\<forall>opt \<in> set (options oack). option_requested requested (option_name opt) \<and>
    (\<exists>name. known_option name \<and> equals_ignore_ascii_case (option_name opt) name)"
  using assms apply_oack_requested by (simp add: apply_oack_to_client_def)

lemma oack_applied_requested_witness:
  "option_requested (no_requested_options\<lparr>requested_block_size := Some 1024\<rparr>) ''blksize''"
proof -
  have "apply_oack_to_client (oack_packet [make_option ''blksize'' ''1024''])
      (no_requested_options\<lparr>requested_block_size := Some 1024\<rparr>) default_parameters
      = OackApplied (default_parameters\<lparr>block_size := 1024\<rparr>)"
    by (simp add: apply_oack_to_client_def no_requested_options_def)
  from oack_applied_requested [OF this] show ?thesis by simp
qed

text \<open>
  What the client does not check: the value. A block size of 0 is applied, a value that is no number
  raises out of the function.
\<close>

lemma client_applies_zero_block_size:
  "apply_oack_to_client (oack_packet [make_option ''blksize'' ''0''])
     (no_requested_options\<lparr>requested_block_size := Some 1024\<rparr>) default_parameters
   = OackApplied (default_parameters\<lparr>block_size := 0\<rparr>)"
  by (simp add: apply_oack_to_client_def no_requested_options_def)

lemma client_raises_on_bad_number:
  "apply_oack_to_client (oack_packet [make_option ''blksize'' ''big''])
     (no_requested_options\<lparr>requested_block_size := Some 1024\<rparr>) default_parameters
   = OackRaised InvalidArgument"
  by (simp add: apply_oack_to_client_def no_requested_options_def)

end
