(* ===== verification/File_System.thy ===== *)
theory File_System
  imports Prelude
begin

text \<open>
  The part of the file system the engine touches: what reading a path gives, what a write to it
  does, and what \<open>std::filesystem::weakly_canonical\<close> answers, which depends on the symbolic links
  of the machine. These are the fields of a record; \<open>read_entire_file\<close>, \<open>write_entire_file\<close> and
  \<open>resolve_served_path\<close> of \<open>adapters/reference/tftp_reference_engine.cpp\<close> are functions of it.
\<close>

datatype write_behaviour =
    WriteSucceeds
  | OpenFails
  | WriteStops nat

record file_system =
  contents :: "string \<Rightarrow> bytes option"
  other_entries :: "string \<Rightarrow> bool"
  write_behaviours :: "string \<Rightarrow> write_behaviour"
  weakly_canonical :: "string \<Rightarrow> string option"

definition read_entire_file :: "file_system \<Rightarrow> string \<Rightarrow> bytes option" where
  "read_entire_file fs path = contents fs path"

text \<open>Open with truncation, then write; a write that stops leaves the bytes before it.\<close>

definition write_entire_file :: "file_system \<Rightarrow> string \<Rightarrow> bytes \<Rightarrow> file_system \<times> bool" where
  "write_entire_file fs path data =
     (case write_behaviours fs path of
        OpenFails \<Rightarrow> (fs, False)
      | WriteSucceeds \<Rightarrow> (fs\<lparr>contents := (contents fs)(path \<mapsto> data)\<rparr>, True)
      | WriteStops n \<Rightarrow>
          if data = [] then (fs\<lparr>contents := (contents fs)(path \<mapsto> [])\<rparr>, True)
          else (fs\<lparr>contents := (contents fs)(path \<mapsto> take n data)\<rparr>, False))"

definition file_exists :: "file_system \<Rightarrow> string \<Rightarrow> bool" where
  "file_exists fs path \<longleftrightarrow> contents fs path \<noteq> None \<or> other_entries fs path"

text \<open>\<open>operator/\<close> of \<open>std::filesystem::path\<close> on POSIX, for the two strings the server joins.\<close>

definition path_append :: "string \<Rightarrow> string \<Rightarrow> string" where
  "path_append root name =
     (if name \<noteq> [] \<and> hd name = CHR ''/'' then name
      else if root = [] \<or> List.last root = CHR ''/'' then root @ name
      else root @ ''/'' @ name)"

text \<open>
  The path a request may use. The error code of the first \<open>weakly_canonical\<close> is overwritten by the
  second call, so a root that cannot be resolved counts as the empty string.
\<close>

definition resolve_served_path :: "file_system \<Rightarrow> string \<Rightarrow> string \<Rightarrow> string option" where
  "resolve_served_path fs root name =
     (if name = [] then None
      else
        let candidate = path_append root name;
            root_string = (case weakly_canonical fs root of None \<Rightarrow> [] | Some r \<Rightarrow> r)
        in case weakly_canonical fs candidate of
             None \<Rightarrow> None
           | Some candidate_string \<Rightarrow>
               if length candidate_string < length root_string \<or>
                  take (length root_string) candidate_string \<noteq> root_string
               then None else Some candidate_string)"

lemma write_entire_file_other:
  "q \<noteq> path \<Longrightarrow> contents (fst (write_entire_file fs path data)) q = contents fs q"
  by (simp add: write_entire_file_def split: write_behaviour.splits)

lemma write_entire_file_success:
  "snd (write_entire_file fs path data) \<Longrightarrow>
     contents (fst (write_entire_file fs path data)) path = Some data"
  by (auto simp: write_entire_file_def split: write_behaviour.splits if_splits)

lemma write_entire_file_keeps [simp]:
  "weakly_canonical (fst (write_entire_file fs path data)) = weakly_canonical fs"
  "other_entries (fst (write_entire_file fs path data)) = other_entries fs"
  by (simp_all add: write_entire_file_def split: write_behaviour.splits)

lemma write_entire_file_exists: "file_exists fs q \<Longrightarrow> file_exists (fst (write_entire_file fs path data)) q"
  by (auto simp: file_exists_def write_entire_file_def split: write_behaviour.splits)

lemma resolve_served_path_cong:
  "weakly_canonical fs = weakly_canonical fs' \<Longrightarrow> resolve_served_path fs = resolve_served_path fs'"
  by (auto simp: resolve_served_path_def fun_eq_iff)

lemma resolve_served_path_prefix:
  "resolve_served_path fs root name = Some p \<Longrightarrow> weakly_canonical fs root = Some r \<Longrightarrow>
     take (length r) p = r"
  by (auto simp: resolve_served_path_def Let_def split: if_splits option.splits)

section \<open>A machine without symbolic links\<close>

text \<open>
  For absolute paths without links \<open>weakly_canonical\<close> is lexical: empty and \<open>.\<close> components are
  dropped, \<open>..\<close> removes the component before it.
\<close>

fun split_path :: "string \<Rightarrow> string \<Rightarrow> string list" where
  "split_path acc [] = [acc]"
| "split_path acc (c # cs) =
     (if c = CHR ''/'' then acc # split_path [] cs else split_path (acc @ [c]) cs)"

fun normal_components :: "string list \<Rightarrow> string list \<Rightarrow> string list" where
  "normal_components kept [] = kept"
| "normal_components kept (c # cs) =
     (if c = [] \<or> c = ''.'' then normal_components kept cs
      else if c = ''..'' then normal_components (butlast kept) cs
      else normal_components (kept @ [c]) cs)"

definition lexical_canonical :: "string \<Rightarrow> string option" where
  "lexical_canonical path =
     (case normal_components [] (split_path [] path) of
        [] \<Rightarrow> Some ''/''
      | cs \<Rightarrow> Some (concat (map (\<lambda>c. CHR ''/'' # c) cs)))"

definition plain_file_system :: "(string \<Rightarrow> bytes option) \<Rightarrow> file_system" where
  "plain_file_system files =
     \<lparr>contents = files, other_entries = (\<lambda>_. False), write_behaviours = (\<lambda>_. WriteSucceeds),
      weakly_canonical = lexical_canonical\<rparr>"

text \<open>Leaving the served directory with \<open>..\<close> is refused, unless the sibling's name extends the root's.\<close>

lemma traversal_refused:
  "resolve_served_path (plain_file_system files) ''/srv/tftp'' ''../../etc/passwd'' = None"
  "resolve_served_path (plain_file_system files) ''/srv/tftp'' ''/etc/passwd'' = None"
  "resolve_served_path (plain_file_system files) ''/srv/tftp'' ''sub/../file'' = Some ''/srv/tftp/file''"
  by code_simp+

lemma sibling_directory_served:
  "resolve_served_path (plain_file_system files) ''/srv/tftp'' ''../tftp-secret/key''
     = Some ''/srv/tftp-secret/key''"
  by code_simp

end
