(* ===== verification/Reference_Server.thy ===== *)
theory Reference_Server
  imports Negotiation Sender Receiver File_System
begin

text \<open>
  \<open>ReferenceServer\<close> of \<open>adapters/reference/tftp_reference_engine.cpp\<close>: \<open>accept_loop\<close> picks the
  requests out of what arrives at the listening port, \<open>handle_request\<close> serves one of them on a
  socket of its own (\<open>None\<close>: the socket could not be opened or bound) against the file system.
  Handlers run on threads of their own; they share only the file system, which a handler reads once
  (a download) or writes once, after its last datagram (an upload). Their interleaving, \<open>start\<close> and \<open>stop\<close>
  are the subject of \<open>Server_Threads\<close>.
\<close>

section \<open>Accepting requests\<close>

definition accepted_request :: "socket_event \<Rightarrow> (tftp_packet \<times> endpoint) option" where
  "accepted_request ev =
     (case ev of
        Datagram buffer client \<Rightarrow>
          if buffer = [] then None
          else (case parse_tftp_packet buffer of
                  Inl _ \<Rightarrow> None
                | Inr packet \<Rightarrow>
                    if opcode packet \<noteq> ReadRequest \<and> opcode packet \<noteq> WriteRequest then None
                    else Some (packet, client))
      | _ \<Rightarrow> None)"

text \<open>The requests handed to a thread each, for the events until \<open>stop\<close>.\<close>

fun accept_loop :: "socket_event list \<Rightarrow> (tftp_packet \<times> endpoint) list" where
  "accept_loop [] = []"
| "accept_loop (ev # evs) =
     (case accepted_request ev of
        None \<Rightarrow> accept_loop evs
      | Some request \<Rightarrow> request # accept_loop evs)"

section \<open>Handling a request\<close>

text \<open>
  The OACK handshake of a download: \<open>Some True\<close> the client acknowledged block 0, \<open>Some False\<close> no
  acknowledgement after all attempts, \<open>None\<close> the client sent an ERROR.
\<close>

fun await_oack_ack ::
  "nat \<Rightarrow> tftp_option list \<Rightarrow> endpoint \<Rightarrow> udp_socket \<Rightarrow> bool option result" where
  "await_oack_ack 0 oack client sk = Returned (Some False) sk"
| "await_oack_ack (Suc n) oack client sk =
     bind_result
       (receive_from_locked_peer
         (send_to sk (serialize_option_acknowledgement oack) client) client)
       (\<lambda>received sk1.
          case received of
            GotPacket reply \<Rightarrow>
              if opcode reply = Acknowledgement \<and> block_number reply = 0 then Returned (Some True) sk1
              else if opcode reply = Error then Returned None sk1
              else await_oack_ack n oack client sk1
          | _ \<Rightarrow> await_oack_ack n oack client sk1)"

definition reply_error ::
  "file_system \<Rightarrow> tftp_error_code \<Rightarrow> string \<Rightarrow> endpoint \<Rightarrow> udp_socket \<Rightarrow> file_system result" where
  "reply_error fs code reason client sk =
     Returned fs (send_to sk (serialize_error code reason) client)"

definition serve_read ::
  "engine_config \<Rightarrow> file_system \<Rightarrow> tftp_packet \<Rightarrow> bytes \<Rightarrow> endpoint \<Rightarrow> udp_socket \<Rightarrow>
   file_system result" where
  "serve_read config fs request file_bytes client sk =
     (let payload = (if mode_is_netascii (transfer_mode request)
                     then encode_local_to_netascii file_bytes else file_bytes);
          (params, oack_options) =
            negotiate_server_options request config (Some (word_of_nat (length payload)))
              (engine_default_parameters config);
          transfer = (\<lambda>sk1. bind_result (run_data_sender sk1 client payload params config 0)
                               (\<lambda>_ sk2. Returned fs sk2))
      in if oack_options = [] then transfer sk
         else bind_result
                (await_oack_ack (nat (maximum_retransmissions config + 1)) oack_options client sk)
                (\<lambda>acked sk1. if acked = Some True then transfer sk1 else Returned fs sk1))"

definition finish_upload ::
  "file_system \<Rightarrow> tftp_packet \<Rightarrow> string \<Rightarrow> transfer_outcome \<times> bytes \<Rightarrow> file_system" where
  "finish_upload fs request path ended =
     (let (data_outcome, received_bytes) = ended
      in if completed_successfully data_outcome then
           fst (write_entire_file fs path
             (if mode_is_netascii (transfer_mode request)
              then decode_netascii_to_local received_bytes else received_bytes))
         else fs)"

definition serve_write ::
  "engine_config \<Rightarrow> file_system \<Rightarrow> tftp_packet \<Rightarrow> string \<Rightarrow> endpoint \<Rightarrow> udp_socket \<Rightarrow>
   file_system result" where
  "serve_write config fs request path client sk =
     (let (params, oack_options) =
            negotiate_server_options request config None (engine_default_parameters config);
          opening = (if oack_options \<noteq> [] then serialize_option_acknowledgement oack_options
                     else serialize_acknowledgement 0)
      in bind_result (run_data_receiver (send_to sk opening client) client params config [] 1 None)
           (\<lambda>ended sk1. Returned (finish_upload fs request path ended) sk1))"

definition handle_on_socket ::
  "engine_config \<Rightarrow> file_system \<Rightarrow> string \<Rightarrow> tftp_packet \<Rightarrow> endpoint \<Rightarrow> udp_socket \<Rightarrow>
   file_system result" where
  "handle_on_socket config fs served_directory request client sk =
     (if opcode request = ReadRequest then
        (case resolve_served_path fs served_directory (filename request) of
           None \<Rightarrow> reply_error fs AccessViolation ''access violation'' client sk
         | Some path \<Rightarrow>
             (case read_entire_file fs path of
                None \<Rightarrow> reply_error fs FileNotFound ''file not found'' client sk
              | Some file_bytes \<Rightarrow> serve_read config fs request file_bytes client sk))
      else if opcode request = WriteRequest then
        (case resolve_served_path fs served_directory (filename request) of
           None \<Rightarrow> reply_error fs AccessViolation ''access violation'' client sk
         | Some path \<Rightarrow>
             if reject_overwrite_on_write_request config \<and> file_exists fs path
             then reply_error fs FileAlreadyExists ''file already exists'' client sk
             else serve_write config fs request path client sk)
      else Returned fs sk)"

definition handle_request ::
  "engine_config \<Rightarrow> file_system \<Rightarrow> string \<Rightarrow> tftp_packet \<Rightarrow> endpoint \<Rightarrow> udp_socket option \<Rightarrow>
   file_system result" where
  "handle_request config fs served_directory request client opened =
     (case opened of
        None \<Rightarrow> Returned fs (fresh_socket [])
      | Some sk \<Rightarrow>
          handle_on_socket config fs served_directory request client
            (set_receive_timeout sk (retransmission_timeout config)))"

text \<open>The file system when the handler has ended, however it ended.\<close>

definition handler_file_system :: "file_system \<Rightarrow> file_system result \<Rightarrow> file_system" where
  "handler_file_system fs res = (case res of Returned fs' _ \<Rightarrow> fs' | _ \<Rightarrow> fs)"

section \<open>What a handler does to the file system and to the client\<close>

lemma serve_read_keeps_files:
  "handler_file_system fs (serve_read config fs request file_bytes client sk) = fs"
proof -
  have bind: "handler_file_system fs (bind_result res f) = fs"
    if "\<And>a sk. handler_file_system fs (f a sk) = fs" for res :: "'x result" and f
    using that by (cases res) (simp_all add: handler_file_system_def)
  have "handler_file_system fs (Returned fs sk') = fs" for sk'
    by (simp add: handler_file_system_def)
  then show ?thesis
    by (auto simp: serve_read_def Let_def split: prod.splits intro!: bind)
qed

lemma finish_upload_other:
  "q \<noteq> path \<Longrightarrow> contents (finish_upload fs request path ended) q = contents fs q"
  by (auto simp: finish_upload_def Let_def write_entire_file_other split: prod.splits)

lemma serve_write_other:
  "q \<noteq> path \<Longrightarrow>
     contents (handler_file_system fs (serve_write config fs request path client sk)) q = contents fs q"
  unfolding serve_write_def Let_def
  by (cases "run_data_receiver (send_to sk
        (if snd (negotiate_server_options request config None (engine_default_parameters config)) \<noteq> []
         then serialize_option_acknowledgement
           (snd (negotiate_server_options request config None (engine_default_parameters config)))
         else serialize_acknowledgement 0) client) client
        (fst (negotiate_server_options request config None (engine_default_parameters config)))
        config [] 1 None")
    (auto simp: handler_file_system_def finish_upload_other split: prod.splits)

lemma handler_file_system_Returned [simp]: "handler_file_system fs (Returned fs' sk) = fs'"
  by (simp add: handler_file_system_def)

text \<open>
  A handler, whatever arrives on its socket, changes the served files in one way only: a write
  request may change the file its name resolves to, and not even that one if it exists and
  overwriting is rejected.
\<close>
lemma handler_file_effect:
  assumes "contents (handler_file_system fs (handle_request config fs dir request client opened)) q
    \<noteq> contents fs q"
  shows "opcode request = WriteRequest \<and> resolve_served_path fs dir (filename request) = Some q \<and>
    \<not> (reject_overwrite_on_write_request config \<and> file_exists fs q)"
proof -
  from assms obtain sk where sk: "contents (handler_file_system fs
      (handle_on_socket config fs dir request client sk)) q \<noteq> contents fs q"
    by (auto simp: handle_request_def split: option.splits)
  have op: "opcode request = WriteRequest"
    using sk by (auto simp: handle_on_socket_def reply_error_def serve_read_keeps_files
        split: if_splits option.splits)
  then obtain path where p: "resolve_served_path fs dir (filename request) = Some path"
    "\<not> (reject_overwrite_on_write_request config \<and> file_exists fs path)"
    "contents (handler_file_system fs (serve_write config fs request path client sk)) q
      \<noteq> contents fs q"
    using sk by (auto simp: handle_on_socket_def reply_error_def split: if_splits option.splits)
  then have "q = path" using serve_write_other by metis
  then show ?thesis using op p by simp
qed

definition sample_client :: endpoint where
  "sample_client = IPv4 [127, 0, 0, 1] 40000"

definition upload_request :: tftp_packet where
  "upload_request = request_packet WriteRequest ''new'' ''octet'' []"

text \<open>A sample upload of two bytes to \<open>/srv/new\<close>: the DATA block, then silence.\<close>

lemma sample_upload:
  "contents (handler_file_system (plain_file_system (\<lambda>_. None))
     (handle_request default_engine_config (plain_file_system (\<lambda>_. None)) ''/srv'' upload_request
       sample_client
       (Some (fresh_socket [Datagram (serialize_data 1 [5, 6]) sample_client, WouldBlock]))))
     ''/srv/new'' = Some [5, 6]"
  by code_simp

lemma handler_file_effect_witness:
  "resolve_served_path (plain_file_system (\<lambda>_. None)) ''/srv'' (filename upload_request)
     = Some ''/srv/new''"
proof -
  have "contents (plain_file_system (\<lambda>_. None)) ''/srv/new'' = None"
    by (simp add: plain_file_system_def)
  then show ?thesis
    using handler_file_effect [of "plain_file_system (\<lambda>_. None)" default_engine_config "''/srv''"
        upload_request sample_client
        "Some (fresh_socket [Datagram (serialize_data 1 [5, 6]) sample_client, WouldBlock])"
        "''/srv/new''"] sample_upload
    by simp
qed



lemma accepted_request_Some:
  "accepted_request ev = Some (packet, client) \<Longrightarrow>
     \<exists>d. ev = Datagram d client \<and> parse_tftp_packet d = Inr packet \<and>
       opcode packet \<in> {ReadRequest, WriteRequest}"
  by (cases ev) (auto simp: accepted_request_def split: if_splits sum.splits)

text \<open>
  The listening port starts a handler for each well-formed request it receives, in their order,
  and for nothing else: what is started was received, and a request that was received is started.
\<close>
lemma accepted_requests_complete:
  "(\<forall>packet client. (packet, client) \<in> set (accept_loop evs) \<longrightarrow>
      opcode packet \<in> {ReadRequest, WriteRequest} \<and> packet_wf packet \<and>
      Datagram (serialize_packet packet) client \<in> set evs) \<and>
   (\<forall>packet client. packet_wf packet \<longrightarrow> opcode packet \<in> {ReadRequest, WriteRequest} \<longrightarrow>
      Datagram (serialize_packet packet) client \<in> set evs \<longrightarrow>
      (packet, client) \<in> set (accept_loop evs))"
proof (intro conjI allI impI)
  fix packet client
  assume "(packet, client) \<in> set (accept_loop evs)"
  then have "\<exists>ev \<in> set evs. accepted_request ev = Some (packet, client)"
    by (induction evs) (auto split: option.splits)
  then obtain d where d: "Datagram d client \<in> set evs" "parse_tftp_packet d = Inr packet"
    and op: "opcode packet \<in> {ReadRequest, WriteRequest}"
    using accepted_request_Some by blast
  show "opcode packet \<in> {ReadRequest, WriteRequest}" by (rule op)
  have "decodes_as d packet" using d(2) by (rule parse_decodes)
  then have "packet_wf packet" "d = serialize_packet packet"
    using op by (auto simp: decodes_as_def)
  then show "packet_wf packet" "Datagram (serialize_packet packet) client \<in> set evs"
    using d(1) by simp_all
next
  fix packet client
  assume p: "packet_wf packet" "opcode packet \<in> {ReadRequest, WriteRequest}"
    and ev: "Datagram (serialize_packet packet) client \<in> set evs"
  have "parse_tftp_packet (serialize_packet packet) = Inr packet" by (rule parse_serialize_packet [OF p(1)])
  moreover from this have "serialize_packet packet \<noteq> []" by (auto simp: parse_tftp_packet_def)
  ultimately have "accepted_request (Datagram (serialize_packet packet) client) = Some (packet, client)"
    using p(2) by (auto simp: accepted_request_def)
  then show "(packet, client) \<in> set (accept_loop evs)"
    using ev by (induction evs) (auto split: option.splits)
qed

lemma accepted_requests_complete_witness:
  "(upload_request, sample_client) \<in> set (accept_loop
     [WouldBlock, Datagram [9] sample_client, Datagram (serialize_packet upload_request) sample_client])"
proof -
  have "packet_wf upload_request" "opcode upload_request = WriteRequest" by code_simp+
  then show ?thesis
    using accepted_requests_complete [of "[WouldBlock, Datagram [9] sample_client,
        Datagram (serialize_packet upload_request) sample_client]"]
    by auto
qed

text \<open>
  A lost OACK of an upload. The handler does not send it again: its time-out re-sends ACK 0, which
  the client takes as a server without options, so it sends blocks of its default size; the first of
  them is shorter than the block size the server negotiated, and is stored as the whole file.
\<close>

lemma lost_oack_truncates_upload:
  assumes "length d < unat (block_size params)" "endpoint_valid client"
    and "0 < maximum_retransmissions config"
  shows "\<exists>outcome sk'. run_data_receiver
    (sk\<lparr>inbox := [WouldBlock, Datagram (serialize_data 1 d) client, WouldBlock]\<rparr>) client params
    config [] 1 None = Returned (outcome, d) sk' \<and> completed_successfully outcome \<and>
    sent_to client sk' = sent_to client sk @ [serialize_acknowledgement 0, serialize_acknowledgement 1]"
  using assms
  by (simp add: run_data_receiver_def receiver_loop_step receive_locked_timeout receive_locked_packet
      initial_receiver_state_def make_receiver_env_def receiver_handle_def receiver_data_in_sequence
      ack_datagram_def wire_block_number_def Let_def receiver_success_def receiver_dally_silence)

end
