(* ===== verification/Prng.thy ===== *)
theory Prng
  imports Prelude Complex_Main
begin

unbundle bit_operations_syntax

text \<open>
  \<open>src/src/net/deterministic_prng.hpp\<close>: the seeded SplitMix64 generator behind every stochastic
  impairment. The state is one 64-bit word; every operation returns its result and the successor
  state. A \<open>double\<close> is the rational number it denotes: \<open>next_unit_double\<close> is a 53-bit integer
  scaled by a power of two, so the product is exact, and \<open>bernoulli\<close> only compares. NaN
  probabilities are not modelled.

  The rejection loop of \<open>uniform_in_range\<close> has no bound in the code; it is a
  \<open>partial_function (option)\<close> (None: it never returns), and \<open>uniform_in_range_returns\<close> shows that
  it always returns: the output function is a bijection and the state walks through all \<open>2 ^ 64\<close>
  values, so an accepted value turns up.
\<close>

type_synonym double = rat

record deterministic_prng =
  prng_state :: u64

definition reseed :: "deterministic_prng \<Rightarrow> u64 \<Rightarrow> deterministic_prng" where
  "reseed g seed = g\<lparr>prng_state := seed\<rparr>"

definition seed_snapshot :: "deterministic_prng \<Rightarrow> u64" where
  "seed_snapshot g = prng_state g"

definition golden_gamma :: u64 where
  "golden_gamma = 0x9E3779B97F4A7C15"

definition mix64 :: "u64 \<Rightarrow> u64" where
  "mix64 s =
     (let z = s;
          z = (z XOR drop_bit 30 z) * 0xBF58476D1CE4E5B9;
          z = (z XOR drop_bit 27 z) * 0x94D049BB133111EB
      in z XOR drop_bit 31 z)"

definition next_u64 :: "deterministic_prng \<Rightarrow> u64 \<times> deterministic_prng" where
  "next_u64 g =
     (let s = prng_state g + golden_gamma
      in (mix64 s, g\<lparr>prng_state := s\<rparr>))"

definition next_unit_double :: "deterministic_prng \<Rightarrow> double \<times> deterministic_prng" where
  "next_unit_double g =
     (let (v, g') = next_u64 g
      in (of_nat (unat (drop_bit 11 v)) * (1 / 9007199254740992), g'))"

definition bernoulli :: "deterministic_prng \<Rightarrow> double \<Rightarrow> bool \<times> deterministic_prng" where
  "bernoulli g probability =
     (if probability \<le> 0 then (False, g)
      else if probability \<ge> 1 then (True, g)
      else let (u, g') = next_unit_double g in (u < probability, g'))"

partial_function (option) uniform_loop ::
  "u64 \<Rightarrow> u64 \<Rightarrow> u64 \<Rightarrow> deterministic_prng \<Rightarrow> (u64 \<times> deterministic_prng) option" where
  "uniform_loop low limit threshold g =
     (let (v, g') = next_u64 g
      in if v \<ge> threshold then Some (low + (v mod limit), g')
         else uniform_loop low limit threshold g')"

definition uniform_in_range ::
  "deterministic_prng \<Rightarrow> u64 \<Rightarrow> u64 \<Rightarrow> (u64 \<times> deterministic_prng) option" where
  "uniform_in_range g low high =
     (if high \<le> low then Some (low, g)
      else let span = high - low
           in if span = - 1 then Some (next_u64 g)
              else let limit = span + 1;
                       threshold = (- 1 - limit + 1) mod limit
                   in uniform_loop low limit threshold g)"

section \<open>The output function is a bijection\<close>

lemma xor_eq_zero_iff: "x XOR y = 0 \<longleftrightarrow> x = (y :: u64)"
proof
  assume "x XOR y = 0"
  moreover have "x = (x XOR y) XOR y" by (simp add: xor.assoc)
  ultimately show "x = y" by simp
qed simp

lemma xorshift_inject:
  fixes x y :: u64
  assumes "0 < k" and eq: "x XOR drop_bit k x = y XOR drop_bit k y"
  shows "x = y"
proof -
  define d where "d = x XOR y"
  have "d XOR drop_bit k d = (x XOR drop_bit k x) XOR (y XOR drop_bit k y)"
    by (simp add: d_def drop_bit_xor xor.assoc xor.left_commute)
  then have "d XOR drop_bit k d = 0" using eq by simp
  then have "d = drop_bit k d" by (simp add: xor_eq_zero_iff)
  then have "unat d = unat d div 2 ^ k"
    by (metis drop_bit_eq_div unat_drop_bit_eq)
  moreover have "unat d div 2 ^ k < unat d" if "0 < unat d"
    using that assms(1) by (intro div_less_dividend one_less_power [of 2 k, simplified]) simp_all
  ultimately have "unat d = 0" by fastforce
  then have "d = 0" by (simp add: unsigned_eq_0_iff)
  then show ?thesis by (simp add: d_def xor_eq_zero_iff)
qed

lemma odd_mult_inject:
  fixes a b x y :: u64
  assumes "a * b = 1" and "x * a = y * a"
  shows "x = y"
proof -
  have "x = (x * a) * b" using assms(1) by (simp add: mult.assoc)
  also have "\<dots> = (y * a) * b" by (simp only: assms(2))
  also have "\<dots> = y" using assms(1) by (simp add: mult.assoc)
  finally show ?thesis .
qed

lemma mix_inverses:
  "(0xBF58476D1CE4E5B9 :: u64) * 0x96DE1B173F119089 = 1"
  "(0x94D049BB133111EB :: u64) * 0x319642B2D24D8EC3 = 1"
  "golden_gamma * 0xF1DE83E19937733D = 1"
  by (simp_all add: golden_gamma_def)

lemma mix64_inj: "inj mix64"
proof (rule injI)
  fix x y assume eq: "mix64 x = mix64 y"
  define a where "a = (\<lambda>z :: u64. (z XOR drop_bit 30 z) * 0xBF58476D1CE4E5B9)"
  define b where "b = (\<lambda>z :: u64. (z XOR drop_bit 27 z) * 0x94D049BB133111EB)"
  have m: "mix64 z = b (a z) XOR drop_bit 31 (b (a z))" for z
    by (simp only: mix64_def Let_def a_def b_def)
  have "b (a x) = b (a y)"
    using eq unfolding m by (rule xorshift_inject [of 31, rotated]) simp
  then have "a x XOR drop_bit 27 (a x) = a y XOR drop_bit 27 (a y)"
    unfolding b_def by (rule odd_mult_inject [OF mix_inverses(2)])
  then have "a x = a y" by (rule xorshift_inject [of 27, rotated]) simp
  then have "x XOR drop_bit 30 x = y XOR drop_bit 30 y"
    unfolding a_def by (rule odd_mult_inject [OF mix_inverses(1)])
  then show "x = y" by (rule xorshift_inject [of 30, rotated]) simp
qed

lemma mix64_surj: "surj mix64"
  using mix64_inj by (simp add: finite_UNIV_inj_surj)

section \<open>The rejection loop returns, in range, without bias\<close>

fun draws :: "nat \<Rightarrow> deterministic_prng \<Rightarrow> deterministic_prng" where
  "draws 0 g = g"
| "draws (Suc n) g = draws n (snd (next_u64 g))"

lemma prng_state_draws: "prng_state (draws n g) = prng_state g + of_nat n * golden_gamma"
  by (induction n arbitrary: g) (simp_all add: next_u64_def Let_def algebra_simps)

lemma uniform_loop_returns:
  "threshold \<le> fst (next_u64 (draws n g)) \<Longrightarrow> \<exists>r. uniform_loop low limit threshold g = Some r"
proof (induction n arbitrary: g)
  case 0
  then show ?case by (subst uniform_loop.simps) (simp add: case_prod_unfold Let_def)
next
  case (Suc n)
  from Suc.IH [of "snd (next_u64 g)"] Suc.prems
  show ?case by (subst uniform_loop.simps) (simp add: case_prod_unfold Let_def)
qed

lemma some_draw_hits: "\<exists>n. fst (next_u64 (draws n g)) = v"
proof -
  obtain z where z: "mix64 z = v" using mix64_surj by (metis surjD)
  define d where "d = (z - golden_gamma - prng_state g) * 0xF1DE83E19937733D"
  have "d * golden_gamma = z - golden_gamma - prng_state g"
    using mix_inverses(3) mult.commute [of golden_gamma "0xF1DE83E19937733D"]
    by (simp only: d_def mult.assoc mult.right_neutral)
  then have "prng_state (draws (unat d) g) + golden_gamma = z"
    by (simp add: prng_state_draws)
  then have "fst (next_u64 (draws (unat d) g)) = v"
    by (simp add: next_u64_def Let_def z)
  then show ?thesis ..
qed

lemma uniform_loop_total: "\<exists>r. uniform_loop low limit threshold g = Some r"
  using some_draw_hits [of g threshold] uniform_loop_returns by fastforce

lemma uniform_in_range_total: "\<exists>v g'. uniform_in_range g low high = Some (v, g')"
  using uniform_loop_total by (auto simp: uniform_in_range_def Let_def split: if_splits)

lemma uniform_loop_form:
  assumes "uniform_loop low limit threshold g = Some r"
  shows "\<exists>v. threshold \<le> v \<and> fst r = low + v mod limit"
proof (rule uniform_loop.raw_induct
    [where P = "\<lambda>low limit threshold g r. \<exists>v. threshold \<le> v \<and> fst r = low + v mod limit",
     OF _ assms])
  fix f low limit threshold g r
  assume IH: "\<And>low limit threshold g r. f low limit threshold g = Some r \<Longrightarrow>
      \<exists>v. threshold \<le> v \<and> fst r = low + v mod limit"
    and eq: "(let (v, g') = next_u64 g in
        if v \<ge> threshold then Some (low + (v mod limit), g') else f low limit threshold g') = Some r"
  show "\<exists>v. threshold \<le> v \<and> fst r = low + v mod limit"
    using eq IH by (auto simp: case_prod_unfold Let_def split: if_splits)
qed

lemma word_offset_bounds:
  fixes low high m :: u64
  assumes "low \<le> high" and "m \<le> high - low"
  shows "low \<le> low + m \<and> low + m \<le> high"
proof -
  have m: "unat m \<le> unat high - unat low"
    using assms by (metis unat_sub word_le_nat_alt)
  have "unat low \<le> unat high" using assms(1) by (simp add: word_le_nat_alt)
  moreover have "unat high < 2 ^ 64" by (rule order_less_le_trans [OF unsigned_less]) simp
  ultimately have "unat (low + m) = unat low + unat m"
    using m by (intro unat_add_no_overflow) simp
  then show ?thesis using m \<open>unat low \<le> unat high\<close> by (simp add: word_le_nat_alt)
qed

lemma full_span_bounds:
  fixes low high :: u64
  assumes "low \<le> high" and "high - low = - 1"
  shows "low = 0 \<and> high = - 1"
proof -
  have d: "unat high - unat low = 2 ^ 64 - 1"
    using unat_sub [OF assms(1)] unfolding assms(2)
    by (simp add: unsigned_minus_1_eq_mask mask_eq_exp_minus_1)
  have "unat high < 2 ^ 64" by (rule order_less_le_trans [OF unsigned_less]) simp
  with d have "unat low = 0" by simp
  then have "low = 0" by (simp add: unsigned_eq_0_iff)
  with assms(2) show ?thesis by simp
qed

lemma uniform_in_range_bounds:
  assumes ret: "uniform_in_range g low high = Some (v, g')" and le: "low \<le> high"
  shows "low \<le> v \<and> v \<le> high"
proof -
  consider "high \<le> low" | "\<not> high \<le> low" "high - low = - 1" | "\<not> high \<le> low" "high - low \<noteq> - 1"
    by blast
  then show ?thesis
  proof cases
    case 1
    then show ?thesis using ret le by (simp add: uniform_in_range_def)
  next
    case 2
    then show ?thesis using full_span_bounds [OF le] by simp
  next
    case 3
    define limit where "limit = high - low + 1"
    from 3 ret obtain w where v: "v = low + w mod limit"
      using uniform_loop_form [of low limit _ g "(v, g')"]
      by (auto simp: uniform_in_range_def Let_def limit_def)
    have limit: "unat limit = Suc (unat (high - low))"
      unfolding limit_def using 3(2) by (rule unat_plus_one_word)
    then have "unat (w mod limit) \<le> unat (high - low)"
      by (simp add: unat_mod_distrib)
    then have "w mod limit \<le> high - low" by (simp add: word_le_nat_alt)
    with le show ?thesis unfolding v by (rule word_offset_bounds)
  qed
qed

section \<open>Unbiasedness\<close>

lemma card_residues_0:
  assumes "r < l"
  shows "card {n. n < q * l \<and> n mod l = (r :: nat)} = q"
proof -
  have "{n. n < q * l \<and> n mod l = r} = (\<lambda>k. k * l + r) ` {..<q}"
  proof (intro set_eqI iffI)
    fix n assume "n \<in> {n. n < q * l \<and> n mod l = r}"
    then have n: "n < q * l" "n mod l = r" by auto
    then have "n div l < q" by (simp add: less_mult_imp_div_less)
    moreover have "n = n div l * l + r" using n(2) by (metis div_mult_mod_eq)
    ultimately show "n \<in> (\<lambda>k. k * l + r) ` {..<q}" by blast
  next
    fix n assume "n \<in> (\<lambda>k. k * l + r) ` {..<q}"
    then obtain k where k: "k < q" "n = k * l + r" by auto
    then have "n < Suc k * l" using assms by simp
    also have "\<dots> \<le> q * l" using k(1) by (simp add: mult_le_mono1 Suc_leI del: mult_Suc)
    finally show "n \<in> {n. n < q * l \<and> n mod l = r}" using k assms by simp
  qed
  moreover have "inj_on (\<lambda>k. k * l + r) {..<q}" using assms by (auto intro!: inj_onI)
  ultimately show ?thesis by (simp add: card_image)
qed

lemma card_residues:
  assumes "r < l"
  shows "card {n. t \<le> n \<and> n < t + q * l \<and> n mod l = (r :: nat)} = q"
proof (induction t)
  case 0
  show ?case using card_residues_0 [OF assms] by simp
next
  case (Suc t)
  let ?S = "\<lambda>t. {n. t \<le> n \<and> n < t + q * l \<and> n mod l = r}"
  have mod: "(t + q * l) mod l = t mod l" by simp
  show ?case
  proof (cases "q = 0")
    case False
    then have pos: "t < t + q * l" using assms by simp
    show ?thesis
    proof (cases "t mod l = r")
      case True
      have "?S (Suc t) = insert (t + q * l) (?S t - {t})"
        using True mod pos by (auto simp: less_Suc_eq)
      moreover have "t \<in> ?S t" "t + q * l \<notin> ?S t" "finite (?S t)" using True pos by auto
      ultimately show ?thesis using Suc False by (simp add: card_Suc_Diff1)
    next
      case False
      then have "?S (Suc t) = ?S t"
        using mod by (auto simp: less_Suc_eq Suc_le_eq le_less)
      then show ?thesis using Suc by simp
    qed
  qed simp
qed

lemma card_accepted_residues:
  fixes limit r :: u64
  assumes "limit \<noteq> 0" "r < limit"
  shows "card {v. (- 1 - limit + 1) mod limit \<le> v \<and> v mod limit = r} = 2 ^ 64 div unat limit"
proof -
  let ?l = "unat limit"
  have l: "0 < ?l" "?l < 2 ^ 64" using assms(1) unat_width_less(4) [of limit] by (simp_all add: unat_gt_0)
  have t: "unat ((- 1 - limit + 1) mod limit) = 2 ^ 64 mod ?l"
  proof -
    have "word_of_nat (2 ^ 64 - ?l) = - limit" using l by (simp add: of_nat_diff)
    moreover have "unat (word_of_nat (2 ^ 64 - ?l) :: u64) = 2 ^ 64 - ?l"
    proof -
      have "n < 2 ^ 64 \<Longrightarrow> unat (word_of_nat n :: u64) = n" for n by (simp add: unat_of_nat)
      moreover have "2 ^ 64 - ?l < 2 ^ 64" using l by simp
      ultimately show ?thesis by blast
    qed
    ultimately have "unat (- limit) = 2 ^ 64 - ?l" by simp
    then have "unat ((- limit) mod limit) = (2 ^ 64 - ?l) mod ?l" by (simp add: unat_mod_distrib)
    also have "\<dots> = 2 ^ 64 mod ?l" using l by (simp add: le_mod_geq)
    finally show ?thesis by simp
  qed
  let ?N = "{n. 2 ^ 64 mod ?l \<le> n \<and> n < 2 ^ 64 mod ?l + (2 ^ 64 div ?l) * ?l \<and> n mod ?l = unat r}"
  have top: "2 ^ 64 mod ?l + (2 ^ 64 div ?l) * ?l = 2 ^ 64" by simp
  have "unat ` {v. (- 1 - limit + 1) mod limit \<le> v \<and> v mod limit = r} = ?N"
  proof (intro set_eqI iffI)
    fix n assume "n \<in> unat ` {v. (- 1 - limit + 1) mod limit \<le> v \<and> v mod limit = r}"
    then obtain v where v: "n = unat v" "(- 1 - limit + 1) mod limit \<le> v" "v mod limit = r" by blast
    have "2 ^ 64 mod ?l \<le> unat v" using v(2) t by (simp only: word_le_nat_alt)
    moreover have "unat v mod ?l = unat r" using v(3) by (simp flip: unat_mod_distrib)
    ultimately show "n \<in> ?N" using unat_width_less(4) [of v] by (simp add: v(1) top)
  next
    fix n assume n: "n \<in> ?N"
    then have "n < 2 ^ 64" by (simp only: top mem_Collect_eq)
    then have u: "unat (word_of_nat n :: u64) = n" by (simp add: unat_of_nat)
    have "word_of_nat n mod limit = r" using n u by (simp add: word_unat_eq_iff unat_mod_distrib)
    moreover have "(- 1 - limit + 1) mod limit \<le> word_of_nat n"
      using n u t by (simp only: word_le_nat_alt mem_Collect_eq)
    ultimately show "n \<in> unat ` {v. (- 1 - limit + 1) mod limit \<le> v \<and> v mod limit = r}"
      using u by (intro image_eqI [of _ _ "word_of_nat n"]) auto
  qed
  moreover have "card ?N = 2 ^ 64 div ?l"
    using assms(2) by (intro card_residues) (simp add: word_less_nat_alt)
  ultimately show ?thesis by (metis (lifting) card_image inj_on_def word_unat_eq_iff)
qed

lemma uniform_loop_first_accepted:
  assumes "threshold \<le> fst (next_u64 (draws n g))"
  shows "\<exists>k. threshold \<le> fst (next_u64 (draws k g)) \<and>
    (\<forall>m < k. fst (next_u64 (draws m g)) < threshold) \<and>
    uniform_loop low limit threshold g =
      Some (low + fst (next_u64 (draws k g)) mod limit, snd (next_u64 (draws k g)))"
  using assms
proof (induction n arbitrary: g)
  case 0
  then show ?case
    by (intro exI [of _ 0]) (subst uniform_loop.simps, simp add: case_prod_unfold Let_def)
next
  case (Suc n)
  show ?case
  proof (cases "threshold \<le> fst (next_u64 g)")
    case True
    then show ?thesis
      by (intro exI [of _ 0]) (subst uniform_loop.simps, simp add: case_prod_unfold Let_def)
  next
    case False
    from Suc.IH [of "snd (next_u64 g)"] Suc.prems obtain k where k:
      "threshold \<le> fst (next_u64 (draws (Suc k) g))"
      "\<forall>m < k. fst (next_u64 (draws (Suc m) g)) < threshold"
      "uniform_loop low limit threshold (snd (next_u64 g)) =
         Some (low + fst (next_u64 (draws (Suc k) g)) mod limit, snd (next_u64 (draws (Suc k) g)))"
      by auto
    have "fst (next_u64 (draws m g)) < threshold" if "m < Suc k" for m
      using that k(2) False by (cases m) auto
    moreover have "uniform_loop low limit threshold g =
        uniform_loop low limit threshold (snd (next_u64 g))"
      using False by (subst uniform_loop.simps) (simp add: case_prod_unfold Let_def)
    ultimately show ?thesis using k by (intro exI [of _ "Suc k"]) simp
  qed
qed

text \<open>
  C20. The bounded draw is total, in range and unbiased: it returns for every state and range; the
  result is \<open>low\<close> plus the residue of the first raw value at or above the rejection threshold; and
  among the raw values that are accepted every residue occurs equally often.
\<close>
theorem uniform_draw_fair:
  assumes "low < high" and "high - low \<noteq> - 1"
  shows "let limit = high - low + 1; threshold = (- 1 - limit + 1) mod limit in
    (\<exists>k. threshold \<le> fst (next_u64 (draws k g)) \<and>
       (\<forall>m < k. fst (next_u64 (draws m g)) < threshold) \<and>
       uniform_in_range g low high =
         Some (low + fst (next_u64 (draws k g)) mod limit, snd (next_u64 (draws k g)))) \<and>
    (\<forall>v g'. uniform_in_range g low high = Some (v, g') \<longrightarrow> low \<le> v \<and> v \<le> high) \<and>
    (\<forall>r. r < limit \<longrightarrow> card {v. threshold \<le> v \<and> v mod limit = r} = 2 ^ 64 div unat limit)"
proof -
  let ?limit = "high - low + 1"
  let ?t = "(- 1 - ?limit + 1) mod ?limit"
  have lim: "?limit \<noteq> 0" using assms(2) by (metis add.commute add_eq_0_iff)
  have eq: "uniform_in_range g low high = uniform_loop low ?limit ?t g"
  proof -
    have "\<not> high \<le> low" using assms(1) by simp
    then show ?thesis using assms(2) by (simp add: uniform_in_range_def Let_def)
  qed
  obtain n where "fst (next_u64 (draws n g)) = ?t" using some_draw_hits by blast
  then have "?t \<le> fst (next_u64 (draws n g))" by simp
  from uniform_loop_first_accepted [OF this, of low ?limit] show ?thesis
    using uniform_in_range_bounds [of g low high] card_accepted_residues [OF lim]
      order_less_imp_le [OF assms(1)]
    unfolding Let_def eq by (intro conjI allI impI) blast+
qed

theorem uniform_draw_fair_witness:
  "\<exists>v g'. uniform_in_range \<lparr>prng_state = 42\<rparr> 1 6 = Some (v, g') \<and> 1 \<le> v \<and> v \<le> 6"
proof -
  obtain v g' where "uniform_in_range \<lparr>prng_state = 42\<rparr> 1 6 = Some (v, g')"
    using uniform_in_range_total by blast
  then show ?thesis
    using uniform_draw_fair [of 1 6 "\<lparr>prng_state = 42\<rparr>"] by (auto simp: Let_def)
qed

end
