(* ===== verification/Doubles.thy ===== *)
theory Doubles
  imports Prng
begin

text \<open>
  IEEE binary64 arithmetic as the C++ code uses it: a double is the rational it denotes, and every
  operation rounds its exact result to the nearest double, ties to even. The model is exact for
  results between \<open>2 ^ -1022\<close> and \<open>2 ^ 1024\<close>; infinities, NaNs and subnormal numbers are outside it
  (the code's operands are byte counts, rates, seconds and shares).
\<close>

text \<open>The binary exponent of a positive rational: \<open>2 ^ e \<le> x < 2 ^ (e + 1)\<close>.\<close>

definition pow2 :: "int \<Rightarrow> rat" where
  "pow2 e = (if 0 \<le> e then 2 ^ nat e else 1 / 2 ^ nat (- e))"

function bit_count :: "int \<Rightarrow> nat" where
  "bit_count n = (if n \<le> 0 then 0 else Suc (bit_count (n div 2)))"
  by pat_completeness auto
termination by (relation "measure nat") auto

declare bit_count.simps [simp del]

definition binary_exponent :: "rat \<Rightarrow> int" where
  "binary_exponent x =
     (let (p, q) = quotient_of x;
          e = int (bit_count p) - int (bit_count q)
      in if pow2 e \<le> x then e else e - 1)"

definition round_half_even :: "rat \<Rightarrow> int" where
  "round_half_even x =
     (let n = \<lfloor>x\<rfloor>; r = x - of_int n
      in if r < 1 / 2 then n else if r > 1 / 2 then n + 1 else if even n then n else n + 1)"

definition round_positive :: "rat \<Rightarrow> double" where
  "round_positive x =
     (let ulp = pow2 (binary_exponent x - 52) in of_int (round_half_even (x / ulp)) * ulp)"

definition rnd :: "rat \<Rightarrow> double" where
  "rnd x = (if x = 0 then 0 else if x > 0 then round_positive x else - round_positive (- x))"

definition dbl_add :: "double \<Rightarrow> double \<Rightarrow> double" where "dbl_add a b = rnd (a + b)"
definition dbl_sub :: "double \<Rightarrow> double \<Rightarrow> double" where "dbl_sub a b = rnd (a - b)"
definition dbl_mul :: "double \<Rightarrow> double \<Rightarrow> double" where "dbl_mul a b = rnd (a * b)"
definition dbl_div :: "double \<Rightarrow> double \<Rightarrow> double" where "dbl_div a b = rnd (a / b)"
definition dbl_of_int :: "int \<Rightarrow> double" where "dbl_of_int n = rnd (of_int n)"

text \<open>A cast to an integer type truncates towards zero.\<close>

definition dbl_trunc :: "double \<Rightarrow> int" where
  "dbl_trunc x = (if 0 \<le> x then \<lfloor>x\<rfloor> else - \<lfloor>- x\<rfloor>)"

section \<open>The exponent\<close>

lemma pow2_pos [simp]: "0 < pow2 e"
  by (simp add: pow2_def)

lemma pow2_int: "pow2 (int n) = of_int (2 ^ n)"
  by (simp add: pow2_def)

lemma pow2_powr: "pow2 e = 2 powi e"
  by (auto simp: pow2_def power_int_def divide_simps)

lemma pow2_add: "pow2 (a + b) = pow2 a * pow2 b"
  by (simp add: pow2_powr power_int_add)

lemma pow2_mono: "a \<le> b \<Longrightarrow> pow2 a \<le> pow2 b"
  by (simp add: pow2_powr power_int_increasing)

lemma bit_count_bounds:
  "0 < n \<Longrightarrow> 2 ^ (bit_count n - 1) \<le> n \<and> n < 2 ^ bit_count n \<and> 0 < bit_count n"
proof (induction n rule: bit_count.induct)
  case (1 n)
  show ?case
  proof (cases "n = 1")
    case True
    then show ?thesis by (simp add: bit_count.simps)
  next
    case False
    then have pos: "0 < n div 2" using "1.prems" by simp
    then have ih: "2 ^ (bit_count (n div 2) - 1) \<le> n div 2" "n div 2 < 2 ^ bit_count (n div 2)"
      "0 < bit_count (n div 2)" using "1.IH" "1.prems" by auto
    have bc: "bit_count n = Suc (bit_count (n div 2))" using "1.prems" by (simp add: bit_count.simps [of n])
    have "2 ^ bit_count (n div 2) = 2 * (2 :: int) ^ (bit_count (n div 2) - 1)"
      using ih(3) by (cases "bit_count (n div 2)") auto
    moreover have "n = 2 * (n div 2) + n mod 2" "0 \<le> n mod 2" "n mod 2 < 2" by simp_all
    ultimately have "2 ^ bit_count (n div 2) \<le> n" "n < 2 * 2 ^ bit_count (n div 2)"
      using ih(1,2) by linarith+
    then show ?thesis unfolding bc by simp
  qed
qed

lemma binary_exponent_bounds:
  assumes "0 < x"
  shows "pow2 (binary_exponent x) \<le> x \<and> x < pow2 (binary_exponent x + 1)"
proof -
  obtain p q where pq: "quotient_of x = (p, q)" by fastforce
  have q: "0 < q" using quotient_of_denom_pos [OF pq] .
  have x: "x = of_int p / of_int q" using quotient_of_div [OF pq] .
  then have p: "0 < p" using assms q by (simp add: zero_less_divide_iff)
  let ?e = "int (bit_count p) - int (bit_count q)"
  note bp = bit_count_bounds [OF p] and bq = bit_count_bounds [OF q]
  have P: "pow2 (int (bit_count p) - 1) \<le> of_int p" "of_int p < pow2 (int (bit_count p))"
    and Q: "pow2 (int (bit_count q) - 1) \<le> of_int q" "of_int q < pow2 (int (bit_count q))"
  proof -
    have gen: "pow2 (int (bit_count n) - 1) \<le> of_int n \<and> of_int n < pow2 (int (bit_count n))"
      if "0 < n" for n
    proof -
      note b = bit_count_bounds [OF that]
      have i: "int (bit_count n) - 1 = int (bit_count n - 1)" using b by simp
      show ?thesis using b unfolding i pow2_int of_int_le_iff of_int_less_iff by simp
    qed
    show "pow2 (int (bit_count p) - 1) \<le> of_int p" by (rule conjunct1 [OF gen [OF p]])
    show "of_int p < pow2 (int (bit_count p))" by (rule conjunct2 [OF gen [OF p]])
    show "pow2 (int (bit_count q) - 1) \<le> of_int q" by (rule conjunct1 [OF gen [OF q]])
    show "of_int q < pow2 (int (bit_count q))" by (rule conjunct2 [OF gen [OF q]])
  qed
  have qpos: "(0 :: rat) < of_int q" using q by simp
  have up: "x < pow2 (?e + 1)"
  proof -
    have "of_int p < pow2 (?e + 1) * pow2 (int (bit_count q) - 1)"
      using P(2) by (simp flip: pow2_add)
    also have "\<dots> \<le> pow2 (?e + 1) * of_int q"
      using Q(1) by (intro mult_left_mono) (simp_all add: less_imp_le)
    finally show ?thesis using qpos by (simp add: x divide_less_eq)
  qed
  have low: "pow2 (?e - 1) \<le> x"
  proof -
    have "pow2 (?e - 1) * of_int q \<le> pow2 (?e - 1) * pow2 (int (bit_count q))"
      using Q(2) by (intro mult_left_mono) (simp_all add: less_imp_le)
    also have "\<dots> \<le> of_int p" using P(1) by (simp flip: pow2_add)
    finally show ?thesis using qpos by (simp add: x le_divide_eq)
  qed
  show ?thesis
    using up low by (auto simp: binary_exponent_def pq Let_def not_le)
qed

section \<open>Rounding\<close>

lemma round_half_even_int [simp]: "round_half_even (of_int n) = n"
  by (simp add: round_half_even_def Let_def)

lemma round_half_even_mono: "x \<le> y \<Longrightarrow> round_half_even x \<le> round_half_even y"
proof -
  assume le: "x \<le> y"
  then have fl: "\<lfloor>x\<rfloor> \<le> \<lfloor>y\<rfloor>" by (rule floor_mono)
  show ?thesis
  proof (cases "\<lfloor>x\<rfloor> = \<lfloor>y\<rfloor>")
    case True
    then show ?thesis using le by (auto simp: round_half_even_def Let_def)
  next
    case False
    then have "\<lfloor>x\<rfloor> + 1 \<le> \<lfloor>y\<rfloor>" using fl by simp
    then show ?thesis by (auto simp: round_half_even_def Let_def)
  qed
qed

lemma round_half_even_ge: "of_int n \<le> x \<Longrightarrow> n \<le> round_half_even x"
  using round_half_even_mono [of "of_int n" x] by simp

lemma round_half_even_le: "x \<le> of_int n \<Longrightarrow> round_half_even x \<le> n"
  using round_half_even_mono [of x "of_int n"] by simp

lemma round_positive_bounds:
  assumes "0 < x"
  shows "pow2 (binary_exponent x) \<le> round_positive x \<and> round_positive x \<le> pow2 (binary_exponent x + 1)"
proof -
  let ?e = "binary_exponent x"
  let ?ulp = "pow2 (?e - 52)"
  have b: "pow2 ?e \<le> x" "x < pow2 (?e + 1)" using binary_exponent_bounds [OF assms] by simp_all
  have lo: "pow2 ?e = 2 ^ 52 * ?ulp" and hi: "pow2 (?e + 1) = 2 ^ 53 * ?ulp"
  proof -
    have n: "pow2 52 = 2 ^ 52" "pow2 53 = 2 ^ 53" by (simp_all add: pow2_def)
    have "52 + (?e - 52) = ?e" "53 + (?e - 52) = ?e + 1" by simp_all
    then show "pow2 ?e = 2 ^ 52 * ?ulp" "pow2 (?e + 1) = 2 ^ 53 * ?ulp"
      using pow2_add [of 52 "?e - 52"] pow2_add [of 53 "?e - 52"] unfolding n by argo+
  qed
  have "of_int (2 ^ 52) \<le> x / ?ulp" "x / ?ulp \<le> of_int (2 ^ 53)"
    using b lo hi by (simp_all add: le_divide_eq divide_le_eq)
  then have "2 ^ 52 \<le> round_half_even (x / ?ulp)" "round_half_even (x / ?ulp) \<le> 2 ^ 53"
    using round_half_even_ge [of "2 ^ 52"] round_half_even_le [of _ "2 ^ 53"] by blast+
  then have "(of_int (2 ^ 52) :: rat) \<le> of_int (round_half_even (x / ?ulp))"
    "(of_int (round_half_even (x / ?ulp)) :: rat) \<le> of_int (2 ^ 53)"
    by (simp_all only: of_int_le_iff)
  then show ?thesis
    unfolding round_positive_def Let_def lo hi
    by (intro conjI mult_right_mono) (simp_all add: less_imp_le)
qed

lemma round_positive_mono:
  assumes "0 < x" "x \<le> y"
  shows "round_positive x \<le> round_positive y"
proof -
  have y: "0 < y" using assms by simp
  note bx = binary_exponent_bounds [OF assms(1)] and by' = binary_exponent_bounds [OF y]
  have "pow2 (binary_exponent x) < pow2 (binary_exponent y + 1)" using bx by' assms(2) by linarith
  then have "binary_exponent x \<le> binary_exponent y"
    using pow2_mono [of "binary_exponent y + 1" "binary_exponent x"] by linarith
  then consider "binary_exponent x = binary_exponent y" | "binary_exponent x + 1 \<le> binary_exponent y"
    by linarith
  then show ?thesis
  proof cases
    case 1
    have "round_half_even (x / pow2 (binary_exponent y - 52))
        \<le> round_half_even (y / pow2 (binary_exponent y - 52))"
      using assms(2) by (intro round_half_even_mono divide_right_mono) (simp_all add: less_imp_le)
    then show ?thesis
      unfolding round_positive_def Let_def 1
      by (intro mult_right_mono) (simp_all add: less_imp_le)
  next
    case 2
    have "round_positive x \<le> pow2 (binary_exponent x + 1)" using round_positive_bounds [OF assms(1)] by simp
    also have "\<dots> \<le> pow2 (binary_exponent y)" using 2 by (rule pow2_mono)
    also have "\<dots> \<le> round_positive y" using round_positive_bounds [OF y] by simp
    finally show ?thesis .
  qed
qed

lemma round_positive_nonneg: "0 < x \<Longrightarrow> 0 \<le> round_positive x"
  using round_positive_bounds [of x] pow2_pos [of "binary_exponent x"] by linarith

lemma rnd_0 [simp]: "rnd 0 = 0"
  by (simp add: rnd_def)

lemma rnd_mono: "x \<le> y \<Longrightarrow> rnd x \<le> rnd y"
  using round_positive_mono [of x y] round_positive_mono [of "- y" "- x"]
    round_positive_nonneg [of "- x"] round_positive_nonneg [of y]
  by (auto simp: rnd_def not_less)

lemma rnd_nonneg: "0 \<le> x \<Longrightarrow> 0 \<le> rnd x"
  using rnd_mono [of 0 x] by simp

lemma rnd_nonpos: "x \<le> 0 \<Longrightarrow> rnd x \<le> 0"
  using rnd_mono [of x 0] by simp

text \<open>Integers up to \<open>2 ^ 53\<close> are doubles.\<close>

lemma round_positive_exact:
  assumes "0 < n" "n \<le> 2 ^ 53"
  shows "round_positive (of_int n) = of_int n"
proof -
  let ?x = "of_int n :: rat" let ?e = "binary_exponent ?x"
  have b: "pow2 ?e \<le> ?x" using binary_exponent_bounds [of ?x] assms(1) by simp
  show ?thesis
  proof (cases "?e \<le> 52")
    case True
    then have "?x / pow2 (?e - 52) = of_int (n * 2 ^ nat (52 - ?e))" by (simp add: pow2_def)
    then show ?thesis
      unfolding round_positive_def Let_def by (metis nonzero_eq_divide_eq pow2_pos order_less_irrefl round_half_even_int)
  next
    case False
    then have "pow2 53 \<le> pow2 ?e" by (intro pow2_mono) simp
    moreover have "?x \<le> 2 ^ 53" using assms(2) by (metis of_int_le_iff of_int_numeral of_int_power)
    ultimately have eq: "?x = 2 ^ 53" "pow2 ?e = pow2 53" using b by (simp_all add: pow2_def [of 53])
    then have "pow2 (?e - 52) = 2"
      using pow2_add [of "?e - 52" 52] by (simp add: pow2_def [of 53] pow2_def [of 52])
    then show ?thesis
      using round_half_even_int [of "2 ^ 52"] unfolding round_positive_def Let_def eq(1) by simp
  qed
qed

lemma rnd_of_int: "\<bar>n\<bar> \<le> 2 ^ 53 \<Longrightarrow> rnd (of_int n) = of_int n"
  using round_positive_exact [of n] round_positive_exact [of "- n"]
  by (auto simp: rnd_def abs_le_iff not_less order_less_le)

text \<open>Rounding commutes with scaling by a power of two, so every integer multiple is exact too.\<close>

lemma binary_exponent_unique:
  assumes "pow2 e \<le> x" and "x < pow2 (e + 1)"
  shows "binary_exponent x = e"
proof -
  have "0 < x" using assms(1) pow2_pos [of e] by linarith
  note b = binary_exponent_bounds [OF this]
  have "pow2 (binary_exponent x) < pow2 (e + 1)" "pow2 e < pow2 (binary_exponent x + 1)"
    using b assms by linarith+
  then show ?thesis
    using pow2_mono [of "e + 1" "binary_exponent x"] pow2_mono [of "binary_exponent x + 1" e] by linarith
qed

lemma round_positive_scale: "0 < x \<Longrightarrow> round_positive (x * pow2 k) = round_positive x * pow2 k"
proof -
  assume x: "0 < x"
  let ?e = "binary_exponent x"
  note b = binary_exponent_bounds [OF x]
  have up: "pow2 (?e + k + 1) = pow2 (?e + 1) * pow2 k" by (simp flip: pow2_add add: algebra_simps)
  have e: "binary_exponent (x * pow2 k) = ?e + k"
    using b by (intro binary_exponent_unique; simp only: up; simp add: pow2_add)
  have u: "pow2 (?e + k - 52) = pow2 (?e - 52) * pow2 k" by (simp flip: pow2_add add: algebra_simps)
  have "x * pow2 k / (pow2 (?e - 52) * pow2 k) = x / pow2 (?e - 52)"
    using pow2_pos [of k] by (metis mult_divide_mult_cancel_right order_less_irrefl)
  then show ?thesis unfolding round_positive_def Let_def e u by (simp add: mult.assoc)
qed

lemma rnd_scale: "rnd (x * pow2 k) = rnd x * pow2 k"
proof -
  have "\<not> pow2 k < 0" "pow2 k \<noteq> 0" using pow2_pos [of k] by linarith+
  then show ?thesis
    using round_positive_scale [of x k] round_positive_scale [of "- x" k]
    by (auto simp: rnd_def zero_less_mult_iff mult_less_0_iff)
qed

lemma dbl_trunc_nonneg: "0 \<le> x \<Longrightarrow> 0 \<le> dbl_trunc x"
  by (simp add: dbl_trunc_def)

lemma dbl_trunc_of_int [simp]: "dbl_trunc (of_int n) = n"
  by (simp add: dbl_trunc_def)

text \<open>Sample roundings: \<open>2 ^ 53 + 1\<close> and \<open>1 / 10\<close> are not doubles.\<close>

lemma rnd_samples:
  "rnd 9007199254740993 = 9007199254740992"
  "rnd (1 / 10) = 3602879701896397 / 36028797018963968"
  by code_simp+

end
