(* ===== verification/Json.thy ===== *)
theory Json
  imports Doubles
begin

text \<open>
  \<open>src/src/metrics/json_writer.{hpp,cpp}\<close>: JSON values, the serializer and the recursive-descent
  parser. A \<open>JsonValue\<close> is a datatype with a constructor per \<open>Type\<close>, each with the members that
  type uses (a C++ value keeps the other members too; only a value first built with \<open>set\<close> and then
  with \<open>append\<close> could show them again, and no caller does that). Numbers are finite doubles.
  \<open>Parser\<close>'s text and position are the string that remains. Its recursion is bounded by fuel;
  \<open>parse_value_fuel\<close> shows that more than twice the length of the text is never used up, so fuel 0 is
  not a reason to fail.
\<close>

section \<open>Numbers as text\<close>

definition pow10 :: "int \<Rightarrow> rat" where
  "pow10 e = (if 0 \<le> e then 10 ^ nat e else 1 / 10 ^ nat (- e))"

definition decimal_exponent :: "rat \<Rightarrow> int" where
  "decimal_exponent x =
     (let (p, q) = quotient_of x;
          e = int (length (to_string (nat p))) - int (length (to_string (nat q)))
      in if pow10 e \<le> x then e else e - 1)"

definition pad_left :: "nat \<Rightarrow> string \<Rightarrow> string" where
  "pad_left n s = replicate (n - length s) CHR ''0'' @ s"

definition strip_zeros :: "string \<Rightarrow> string" where
  "strip_zeros s = rev (dropWhile (\<lambda>c. c = CHR ''0'') (rev s))"

definition with_fraction :: "string \<Rightarrow> string \<Rightarrow> string" where
  "with_fraction int_part fraction =
     (if strip_zeros fraction = [] then int_part else int_part @ ''.'' @ strip_zeros fraction)"

text \<open>The conversion \<open>%.6g\<close> of \<open>snprintf\<close>, for a positive number: six significant digits.\<close>

definition format_g6_positive :: "rat \<Rightarrow> string" where
  "format_g6_positive x =
     (let e0 = decimal_exponent x;
          m0 = nat (round_half_even (x / pow10 (e0 - 5)));
          (m, e) = (if m0 = 1000000 then (100000, e0 + 1) else (m0, e0))
      in if - 4 \<le> e \<and> e < 6 then
           let places = nat (5 - e)
           in with_fraction (to_string (m div 10 ^ places))
                (pad_left places (to_string (m mod 10 ^ places)))
         else
           with_fraction (to_string (m div 100000)) (pad_left 5 (to_string (m mod 100000))) @
           ''e'' @ (if e < 0 then ''-'' else ''+'') @ pad_left 2 (to_string (nat \<bar>e\<bar>)))"

definition format_g6 :: "double \<Rightarrow> string" where
  "format_g6 x =
     (if x = 0 then ''0'' else if x < 0 then CHR ''-'' # format_g6_positive (- x)
      else format_g6_positive x)"

definition format_number :: "double \<Rightarrow> bool \<Rightarrow> string" where
  "format_number v as_integer =
     (if as_integer \<and> of_int \<lfloor>v\<rfloor> = v \<and> \<bar>v\<bar> < 9007199254740992 then int_to_string (dbl_trunc v)
      else if of_int \<lfloor>v\<rfloor> = v \<and> \<bar>v\<bar> < 1000000000000000 then int_to_string (dbl_trunc v)
      else format_g6 v)"

text \<open>
  \<open>std::stod\<close> on a token of digits, signs, points and exponent letters: the longest prefix that is a
  number is converted, the rest ignored. No number raises \<open>std::invalid_argument\<close>; overflow, and a
  non-zero result below the normal range, raise \<open>std::out_of_range\<close>; both are \<open>None\<close>.
\<close>

definition take_sign :: "string \<Rightarrow> bool \<times> string" where
  "take_sign s =
     (case s of c # cs \<Rightarrow> if c = CHR ''-'' then (True, cs) else if c = CHR ''+'' then (False, cs)
                          else (False, s)
      | [] \<Rightarrow> (False, []))"

definition take_exponent :: "string \<Rightarrow> int" where
  "take_exponent s =
     (case s of
        c # cs \<Rightarrow>
          if c = CHR ''e'' \<or> c = CHR ''E'' then
            let (negative, cs) = take_sign cs;
                n = int (digits_value 0 (takeWhile is_digit_char cs))
            in if negative then - n else n
          else 0
      | [] \<Rightarrow> 0)"

definition stod :: "string \<Rightarrow> double option" where
  "stod s =
     (let (negative, body) = take_sign s;
          whole = takeWhile is_digit_char body;
          body = dropWhile is_digit_char body;
          (fraction, body) =
            (case body of
               c # cs \<Rightarrow> if c = CHR ''.'' then (takeWhile is_digit_char cs, dropWhile is_digit_char cs)
                         else ([], body)
             | [] \<Rightarrow> ([], []));
          x = of_nat (digits_value 0 (whole @ fraction)) *
              pow10 (take_exponent body - int (length fraction));
          v = rnd x
      in if whole @ fraction = [] then None
         else if v \<ge> pow2 1024 \<or> (x \<noteq> 0 \<and> x < pow2 (- 1022)) then None
         else Some (if negative then - v else v))"

text \<open>\<open>static_cast<long long>\<close> of a double; out of range, the value x86-64 gives.\<close>

definition dbl_to_llong :: "double \<Rightarrow> int" where
  "dbl_to_llong v = (if \<bar>v\<bar> < 9223372036854775808 then dbl_trunc v else - 9223372036854775808)"

section \<open>Values\<close>

datatype json =
    JNull
  | JBool bool
  | JNumber double bool
  | JString string
  | JArray "json list"
  | JObject "(string \<times> json) list"

definition json_number :: "double \<Rightarrow> json" where
  "json_number v = JNumber v False"

definition json_integer :: "int \<Rightarrow> json" where
  "json_integer n = JNumber (dbl_of_int n) True"

fun set_member :: "(string \<times> json) list \<Rightarrow> string \<Rightarrow> json \<Rightarrow> (string \<times> json) list" where
  "set_member [] key v = [(key, v)]"
| "set_member ((k, w) # ms) key v = (if k = key then (k, v) # ms else (k, w) # set_member ms key v)"

definition members :: "json \<Rightarrow> (string \<times> json) list" where
  "members j = (case j of JObject ms \<Rightarrow> ms | _ \<Rightarrow> [])"

definition elements :: "json \<Rightarrow> json list" where
  "elements j = (case j of JArray vs \<Rightarrow> vs | _ \<Rightarrow> [])"

definition json_set :: "json \<Rightarrow> string \<Rightarrow> json \<Rightarrow> json" where
  "json_set j key v = JObject (set_member (members j) key v)"

definition json_append :: "json \<Rightarrow> json \<Rightarrow> json" where
  "json_append j v = JArray (elements j @ [v])"

definition json_has :: "json \<Rightarrow> string \<Rightarrow> bool" where
  "json_has j key \<longleftrightarrow> (\<exists>m \<in> set (members j). fst m = key)"

definition json_at :: "json \<Rightarrow> string \<Rightarrow> json" where
  "json_at j key = (case map_of (members j) key of Some v \<Rightarrow> v | None \<Rightarrow> JNull)"

definition as_bool :: "json \<Rightarrow> bool" where
  "as_bool j = (case j of JBool b \<Rightarrow> b | _ \<Rightarrow> False)"

definition as_number :: "json \<Rightarrow> double" where
  "as_number j = (case j of JNumber v _ \<Rightarrow> v | _ \<Rightarrow> 0)"

definition as_integer :: "json \<Rightarrow> int" where
  "as_integer j = dbl_to_llong (as_number j)"

definition as_string :: "json \<Rightarrow> string" where
  "as_string j = (case j of JString s \<Rightarrow> s | _ \<Rightarrow> [])"

section \<open>The serializer\<close>

definition hex4 :: "nat \<Rightarrow> string" where
  "hex4 n = [hex_char (n div 4096 mod 16), hex_char (n div 256 mod 16), hex_char (n div 16 mod 16),
             hex_char (n mod 16)]"

definition escape_char :: "char \<Rightarrow> string" where
  "escape_char c =
     (let n = (of_char c :: nat)
      in if n = 0x22 then [CHR 0x5C, CHR 0x22]
         else if n = 0x5C then [CHR 0x5C, CHR 0x5C]
         else if n = 8 then [CHR 0x5C, CHR ''b'']
         else if n = 12 then [CHR 0x5C, CHR ''f'']
         else if n = 10 then [CHR 0x5C, CHR ''n'']
         else if n = 13 then [CHR 0x5C, CHR ''r'']
         else if n = 9 then [CHR 0x5C, CHR ''t'']
         else if n < 0x20 then [CHR 0x5C, CHR ''u''] @ hex4 n
         else [c])"

definition escape_json_string :: "string \<Rightarrow> string" where
  "escape_json_string raw = [CHR 0x22] @ concat (map escape_char raw) @ [CHR 0x22]"

definition indent :: "bool \<Rightarrow> nat \<Rightarrow> string" where
  "indent pretty d = (if pretty then CHR 0x0A # replicate (d * 2) CHR 0x20 else [])"

fun comma_join :: "string list \<Rightarrow> string" where
  "comma_join [] = []"
| "comma_join [s] = s"
| "comma_join (s # t # ss) = s @ '','' @ comma_join (t # ss)"

fun serialize_into :: "bool \<Rightarrow> nat \<Rightarrow> json \<Rightarrow> string" where
  "serialize_into pretty depth JNull = ''null''"
| "serialize_into pretty depth (JBool b) = (if b then ''true'' else ''false'')"
| "serialize_into pretty depth (JNumber v as_int) = format_number v as_int"
| "serialize_into pretty depth (JString s) = escape_json_string s"
| "serialize_into pretty depth (JArray vs) =
     (if vs = [] then ''[]''
      else ''['' @ comma_join (map (\<lambda>v. indent pretty (depth + 1) @ serialize_into pretty (depth + 1) v) vs) @
           indent pretty depth @ '']'')"
| "serialize_into pretty depth (JObject ms) =
     (if ms = [] then ''{}''
      else ''{'' @ comma_join (map (\<lambda>(k, v). indent pretty (depth + 1) @ escape_json_string k @
                     (if pretty then '': '' else '':'') @ serialize_into pretty (depth + 1) v) ms) @
           indent pretty depth @ ''}'')"

definition serialize :: "json \<Rightarrow> bool \<Rightarrow> string" where
  "serialize j pretty = serialize_into pretty 0 j"

section \<open>The parser\<close>

definition is_json_space :: "char \<Rightarrow> bool" where
  "is_json_space c \<longleftrightarrow> c = CHR 0x20 \<or> c = CHR 0x09 \<or> c = CHR 0x0A \<or> c = CHR 0x0D"

definition skip_whitespace :: "string \<Rightarrow> string" where
  "skip_whitespace s = dropWhile is_json_space s"

definition hex_value :: "char \<Rightarrow> nat option" where
  "hex_value h =
     (let n = (of_char h :: nat)
      in if 48 \<le> n \<and> n \<le> 57 then Some (n - 48)
         else if 97 \<le> n \<and> n \<le> 102 then Some (n - 97 + 10)
         else if 65 \<le> n \<and> n \<le> 70 then Some (n - 65 + 10)
         else None)"

fun hex_code :: "nat \<Rightarrow> string \<Rightarrow> nat option" where
  "hex_code code [] = Some code"
| "hex_code code (h # hs) =
     (case hex_value h of None \<Rightarrow> None | Some d \<Rightarrow> hex_code (code * 16 + d) hs)"

definition utf8 :: "nat \<Rightarrow> string" where
  "utf8 code =
     (if code < 0x80 then [char_of code]
      else if code < 0x800 then [char_of (0xC0 + code div 64), char_of (0x80 + code mod 64)]
      else [char_of (0xE0 + code div 4096), char_of (0x80 + code div 64 mod 64),
            char_of (0x80 + code mod 64)])"

definition unescape :: "char \<Rightarrow> char option" where
  "unescape e =
     (if e = CHR 0x22 then Some (CHR 0x22) else if e = CHR 0x5C then Some (CHR 0x5C)
      else if e = CHR ''/'' then Some (CHR ''/'') else if e = CHR ''b'' then Some (CHR 0x08)
      else if e = CHR ''f'' then Some (CHR 0x0C) else if e = CHR ''n'' then Some (CHR 0x0A)
      else if e = CHR ''r'' then Some (CHR 0x0D) else if e = CHR ''t'' then Some (CHR 0x09)
      else None)"

text \<open>After the opening quote: the decoded text, and what follows the closing quote.\<close>

fun parse_string_body :: "string \<Rightarrow> (string \<times> string) option" where
  "parse_string_body [] = None"
| "parse_string_body (c # cs) =
     (if c = CHR 0x22 then Some ([], cs)
      else if c = CHR 0x5C then
        (case cs of
           [] \<Rightarrow> None
         | e # es \<Rightarrow>
             if e = CHR ''u'' then
               (case es of
                  h1 # h2 # h3 # h4 # rest \<Rightarrow>
                    (case hex_code 0 [h1, h2, h3, h4] of
                       None \<Rightarrow> None
                     | Some code \<Rightarrow> map_option (apfst (append (utf8 code))) (parse_string_body rest))
                | _ \<Rightarrow> None)
             else (case unescape e of
                     None \<Rightarrow> None
                   | Some x \<Rightarrow> map_option (apfst (Cons x)) (parse_string_body es)))
      else map_option (apfst (Cons c)) (parse_string_body cs))"

definition parse_string :: "string \<Rightarrow> (string \<times> string) option" where
  "parse_string s =
     (case s of c # cs \<Rightarrow> if c = CHR 0x22 then parse_string_body cs else None | [] \<Rightarrow> None)"

definition parse_bool :: "string \<Rightarrow> (json \<times> string) option" where
  "parse_bool s =
     (if take 4 s = ''true'' then Some (JBool True, drop 4 s)
      else if take 5 s = ''false'' then Some (JBool False, drop 5 s) else None)"

definition parse_null :: "string \<Rightarrow> (json \<times> string) option" where
  "parse_null s = (if take 4 s = ''null'' then Some (JNull, drop 4 s) else None)"

definition is_number_char :: "char \<Rightarrow> bool" where
  "is_number_char c \<longleftrightarrow>
     is_digit_char c \<or> c = CHR ''-'' \<or> c = CHR ''+'' \<or> c = CHR ''.'' \<or> c = CHR ''e'' \<or> c = CHR ''E''"

definition parse_number :: "string \<Rightarrow> (json \<times> string) option" where
  "parse_number s =
     (let token = takeWhile is_number_char s; rest = dropWhile is_number_char s
      in if token = [] then None
         else case stod token of
                None \<Rightarrow> None
              | Some v \<Rightarrow>
                  Some (if CHR ''.'' \<notin> set token \<and> CHR ''e'' \<notin> set token \<and> CHR ''E'' \<notin> set token
                        then json_integer (dbl_to_llong v) else json_number v, rest))"

text \<open>The loops of \<open>parse_object\<close> and \<open>parse_array\<close> start after the opening bracket.\<close>

fun parse_value :: "nat \<Rightarrow> string \<Rightarrow> (json \<times> string) option"
  and parse_members :: "nat \<Rightarrow> (string \<times> json) list \<Rightarrow> string \<Rightarrow> (json \<times> string) option"
  and parse_elements :: "nat \<Rightarrow> json list \<Rightarrow> string \<Rightarrow> (json \<times> string) option" where
  "parse_value 0 s = None"
| "parse_value (Suc n) s =
     (case skip_whitespace s of
        [] \<Rightarrow> None
      | c # cs \<Rightarrow>
          if c = CHR ''{'' then
            (case skip_whitespace cs of
               d # ds \<Rightarrow> if d = CHR ''}'' then Some (JObject [], ds)
                         else parse_members n [] (d # ds)
             | [] \<Rightarrow> None)
          else if c = CHR ''['' then
            (case skip_whitespace cs of
               d # ds \<Rightarrow> if d = CHR '']'' then Some (JArray [], ds)
                         else parse_elements n [] (d # ds)
             | [] \<Rightarrow> None)
          else if c = CHR 0x22 then map_option (apfst JString) (parse_string (c # cs))
          else if c = CHR ''t'' \<or> c = CHR ''f'' then parse_bool (c # cs)
          else if c = CHR ''n'' then parse_null (c # cs)
          else parse_number (c # cs))"
| "parse_members 0 ms s = None"
| "parse_members (Suc n) ms s =
     (case parse_string (skip_whitespace s) of
        None \<Rightarrow> None
      | Some (key, s1) \<Rightarrow>
          (case skip_whitespace s1 of
             [] \<Rightarrow> None
           | c # s2 \<Rightarrow>
               if c \<noteq> CHR '':'' then None
               else case parse_value n s2 of
                      None \<Rightarrow> None
                    | Some (v, s3) \<Rightarrow>
                        (case skip_whitespace s3 of
                           [] \<Rightarrow> None
                         | d # s4 \<Rightarrow>
                             if d = CHR '','' then parse_members n (set_member ms key v) s4
                             else if d = CHR ''}'' then Some (JObject (set_member ms key v), s4)
                             else None)))"
| "parse_elements 0 vs s = None"
| "parse_elements (Suc n) vs s =
     (case parse_value n s of
        None \<Rightarrow> None
      | Some (v, s1) \<Rightarrow>
          (case skip_whitespace s1 of
             [] \<Rightarrow> None
           | d # s2 \<Rightarrow>
               if d = CHR '','' then parse_elements n (vs @ [v]) s2
               else if d = CHR '']'' then Some (JArray (vs @ [v]), s2)
               else None))"

definition parse_fuel :: "string \<Rightarrow> nat" where
  "parse_fuel text = Suc (2 * length text)"

definition parse_json :: "string \<Rightarrow> json option" where
  "parse_json text =
     (case parse_value (parse_fuel text) (skip_whitespace text) of
        None \<Rightarrow> None
      | Some (v, rest) \<Rightarrow> if skip_whitespace rest = [] then Some v else None)"

end
