(* ===== verification/Json_Round_Trip.thy ===== *)
theory Json_Round_Trip
  imports Json
begin

text \<open>
  What the JSON writer and parser guarantee: the fuel of the parser is never used up, every parsed
  value has distinct keys, and a value whose numbers are whole, or have at most six significant
  digits, is read back as it was written, in the pretty and in the compact form.
\<close>

section \<open>The parser consumes\<close>

lemma skip_whitespace_length: "length (skip_whitespace s) \<le> length s"
  by (simp add: skip_whitespace_def length_dropWhile_le)

lemma skip_whitespace_ConsD: "skip_whitespace s = c # cs \<Longrightarrow> length cs < length s"
  using skip_whitespace_length [of s] by simp

lemma parse_string_body_shorter:
  "parse_string_body s = Some (x, r) \<Longrightarrow> length r < length s"
  by (induction s arbitrary: x r rule: parse_string_body.induct)
    (fastforce split: if_splits list.splits option.splits)+

lemma parse_string_shorter: "parse_string s = Some (x, r) \<Longrightarrow> Suc (length r) < length s"
  by (auto simp: parse_string_def split: list.splits if_splits dest!: parse_string_body_shorter)

lemma parse_bool_shorter: "parse_bool s = Some (v, r) \<Longrightarrow> length r < length s"
  by (cases s) (auto simp: parse_bool_def split: if_splits)

lemma parse_null_shorter: "parse_null s = Some (v, r) \<Longrightarrow> length r < length s"
  by (cases s) (auto simp: parse_null_def split: if_splits)

lemma parse_number_shorter: "parse_number s = Some (v, r) \<Longrightarrow> length r < length s"
proof -
  have "length (takeWhile is_number_char s) + length (dropWhile is_number_char s) = length s"
    by (metis length_append takeWhile_dropWhile_id)
  then show "parse_number s = Some (v, r) \<Longrightarrow> length r < length s"
    by (auto simp: parse_number_def Let_def split: if_splits option.splits)
      (metis length_greater_0_conv less_add_same_cancel2)+
qed

text \<open>The cases of \<open>parse_value\<close> that do not recurse.\<close>

definition parse_scalar :: "string \<Rightarrow> (json \<times> string) option" where
  "parse_scalar s =
     (if hd s = CHR 0x22 then map_option (apfst JString) (parse_string s)
      else if hd s = CHR ''t'' \<or> hd s = CHR ''f'' then parse_bool s
      else if hd s = CHR ''n'' then parse_null s
      else parse_number s)"

lemma parse_scalar_shorter: "parse_scalar s = Some (v, r) \<Longrightarrow> length r < length s"
  by (auto simp: parse_scalar_def split: if_splits
      dest: parse_string_shorter parse_bool_shorter parse_null_shorter parse_number_shorter)

lemma parse_value_cases:
  assumes "parse_value n s = Some (v, r)"
  obtains (empty_object) m cs where "n = Suc m" "skip_whitespace s = CHR ''{'' # cs"
      "skip_whitespace cs = CHR ''}'' # r" "v = JObject []"
    | (object) m cs d ds where "n = Suc m" "skip_whitespace s = CHR ''{'' # cs"
      "skip_whitespace cs = d # ds" "d \<noteq> CHR ''}''" "parse_members m [] (d # ds) = Some (v, r)"
    | (empty_array) m cs where "n = Suc m" "skip_whitespace s = CHR ''['' # cs"
      "skip_whitespace cs = CHR '']'' # r" "v = JArray []"
    | (array) m cs d ds where "n = Suc m" "skip_whitespace s = CHR ''['' # cs"
      "skip_whitespace cs = d # ds" "d \<noteq> CHR '']''" "parse_elements m [] (d # ds) = Some (v, r)"
    | (scalar) m c cs where "n = Suc m" "skip_whitespace s = c # cs" "c \<noteq> CHR ''{''" "c \<noteq> CHR ''[''"
      "parse_scalar (c # cs) = Some (v, r)"
proof (cases n)
  case 0
  then show ?thesis using assms by simp
next
  case (Suc m)
  show ?thesis
  proof (cases "skip_whitespace s")
    case Nil
    then show ?thesis using assms Suc by simp
  next
    case (Cons c cs)
    consider "c = CHR ''{''" | "c = CHR ''[''" | "c \<noteq> CHR ''{''" "c \<noteq> CHR ''[''" by blast
    then show ?thesis
    proof cases
      case 1
      then show ?thesis using assms Suc Cons that(1,2)
        by (cases "skip_whitespace cs") (auto split: if_splits)
    next
      case 2
      then show ?thesis using assms Suc Cons that(3,4)
        by (cases "skip_whitespace cs") (auto split: if_splits)
    next
      case 3
      have "parse_value n s = parse_scalar (c # cs)"
        using Suc Cons 3 by (simp add: parse_scalar_def)
      then have "parse_scalar (c # cs) = Some (v, r)" using assms by simp
      then show ?thesis using Suc Cons 3 that(5) by blast
    qed
  qed
qed

lemma parse_members_cases:
  assumes "parse_members n ms s = Some (v, r)"
  obtains (more) m key s1 s2 w s3 s4 where "n = Suc m"
      "parse_string (skip_whitespace s) = Some (key, s1)" "skip_whitespace s1 = CHR '':'' # s2"
      "parse_value m s2 = Some (w, s3)" "skip_whitespace s3 = CHR '','' # s4"
      "parse_members m (set_member ms key w) s4 = Some (v, r)"
    | (final) m key s1 s2 w s3 where "n = Suc m"
      "parse_string (skip_whitespace s) = Some (key, s1)" "skip_whitespace s1 = CHR '':'' # s2"
      "parse_value m s2 = Some (w, s3)" "skip_whitespace s3 = CHR ''}'' # r"
      "v = JObject (set_member ms key w)"
  using assms
  by (cases n) (auto split: option.splits list.splits if_splits prod.splits)

lemma parse_elements_cases:
  assumes "parse_elements n vs s = Some (v, r)"
  obtains (more) m w s1 s2 where "n = Suc m" "parse_value m s = Some (w, s1)"
      "skip_whitespace s1 = CHR '','' # s2" "parse_elements m (vs @ [w]) s2 = Some (v, r)"
    | (final) m w s1 where "n = Suc m" "parse_value m s = Some (w, s1)"
      "skip_whitespace s1 = CHR '']'' # r" "v = JArray (vs @ [w])"
  using assms
  by (cases n) (auto split: option.splits list.splits if_splits prod.splits)

lemma parser_induct [case_names at_value at_members at_elements]:
  assumes "\<And>n s. (\<And>m ms t. n = Suc m \<Longrightarrow> M m ms t) \<Longrightarrow> (\<And>m vs t. n = Suc m \<Longrightarrow> E m vs t) \<Longrightarrow> V n s"
    and "\<And>n ms s. (\<And>m t. n = Suc m \<Longrightarrow> V m t) \<Longrightarrow> (\<And>m ms t. n = Suc m \<Longrightarrow> M m ms t) \<Longrightarrow> M n ms s"
    and "\<And>n vs s. (\<And>m t. n = Suc m \<Longrightarrow> V m t) \<Longrightarrow> (\<And>m vs t. n = Suc m \<Longrightarrow> E m vs t) \<Longrightarrow> E n vs s"
  shows "V n s" "M n ms s" "E n vs s"
proof -
  have "(\<forall>s. V n s) \<and> (\<forall>ms s. M n ms s) \<and> (\<forall>vs s. E n vs s)" for n
  proof (induction n)
    case 0
    show ?case
    proof (intro conjI allI)
      show "V 0 s" for s by (rule assms(1)) simp_all
      show "M 0 ms s" for ms s by (rule assms(2)) simp_all
      show "E 0 vs s" for vs s by (rule assms(3)) simp_all
    qed
  next
    case (Suc n)
    show ?case
    proof (intro conjI allI)
      show "V (Suc n) s" for s by (rule assms(1)) (use Suc in auto)
      show "M (Suc n) ms s" for ms s by (rule assms(2)) (use Suc in auto)
      show "E (Suc n) vs s" for vs s by (rule assms(3)) (use Suc in auto)
    qed
  qed
  then show "V n s" "M n ms s" "E n vs s" by blast+
qed

lemma parse_value_shorter:
  "\<forall>v r. parse_value n s = Some (v, r) \<longrightarrow> length r < length s"
  "\<forall>v r. parse_members n ms s = Some (v, r) \<longrightarrow> length r < length s"
  "\<forall>v r. parse_elements n vs s = Some (v, r) \<longrightarrow> length r < length s"
proof (induction n s and n ms s and n vs s rule: parser_induct)
  case (at_value n s)
  show ?case
  proof (intro allI impI)
    fix v r assume "parse_value n s = Some (v, r)"
    then show "length r < length s"
    proof (cases rule: parse_value_cases)
      case (empty_object m cs)
      then show ?thesis using skip_whitespace_ConsD less_trans by blast
    next
      case (object m cs d ds)
      have "length r < length (d # ds)" using at_value(1) object(1,5) by blast
      then show ?thesis using skip_whitespace_length [of cs] skip_whitespace_ConsD [OF object(2)] object(3) by simp
    next
      case (empty_array m cs)
      then show ?thesis using skip_whitespace_ConsD less_trans by blast
    next
      case (array m cs d ds)
      have "length r < length (d # ds)" using at_value(2) array(1,5) by blast
      then show ?thesis using skip_whitespace_length [of cs] skip_whitespace_ConsD [OF array(2)] array(3) by simp
    next
      case (scalar m c cs)
      then show ?thesis using parse_scalar_shorter skip_whitespace_length [of s] by fastforce
    qed
  qed
next
  case (at_members n ms s)
  show ?case
  proof (intro allI impI)
    fix v r assume "parse_members n ms s = Some (v, r)"
    then show "length r < length s"
    proof (cases rule: parse_members_cases)
      case (more m key s1 s2 w s3 s4)
      have "length r < length s4" "length s3 < length s2" using at_members more(1,4,6) by blast+
      then show ?thesis using parse_string_shorter [OF more(2)] skip_whitespace_length [of s]
          skip_whitespace_ConsD [OF more(3)] skip_whitespace_ConsD [OF more(5)] by linarith
    next
      case (final m key s1 s2 w s3)
      have "length s3 < length s2" using at_members final(1,4) by blast
      then show ?thesis using parse_string_shorter [OF final(2)] skip_whitespace_length [of s]
          skip_whitespace_ConsD [OF final(3)] skip_whitespace_ConsD [OF final(5)] by linarith
    qed
  qed
next
  case (at_elements n vs s)
  show ?case
  proof (intro allI impI)
    fix v r assume "parse_elements n vs s = Some (v, r)"
    then show "length r < length s"
    proof (cases rule: parse_elements_cases)
      case (more m w s1 s2)
      have "length r < length s2" "length s1 < length s" using at_elements more(1,2,4) by blast+
      then show ?thesis using skip_whitespace_ConsD [OF more(3)] by linarith
    next
      case (final m w s1)
      have "length s1 < length s" using at_elements final(1,2) by blast
      then show ?thesis using skip_whitespace_ConsD [OF final(3)] by linarith
    qed
  qed
qed

section \<open>The fuel is enough\<close>

text \<open>What any amount of fuel parses, fuel of more than twice the length of the text parses as well.\<close>

lemma parse_value_scalar:
  "skip_whitespace s = c # cs \<Longrightarrow> c \<noteq> CHR ''{'' \<Longrightarrow> c \<noteq> CHR ''['' \<Longrightarrow>
     parse_value (Suc n) s = parse_scalar (c # cs)"
  by (simp add: parse_scalar_def)

lemma parse_value_fuel:
  "\<forall>x n. parse_value k s = Some x \<longrightarrow> 2 * length s < n \<longrightarrow> parse_value n s = Some x"
  "\<forall>x n. parse_members k ms s = Some x \<longrightarrow> 2 * length s < n \<longrightarrow> parse_members n ms s = Some x"
  "\<forall>x n. parse_elements k vs s = Some x \<longrightarrow> 2 * length s + 1 < n \<longrightarrow> parse_elements n vs s = Some x"
proof (induction k s and k ms s and k vs s rule: parser_induct)
  case (at_value k s)
  show ?case
  proof (intro allI impI)
    fix x n assume p: "parse_value k s = Some x" and n: "2 * length s < n"
    obtain v r where x: "x = (v, r)" by (cases x)
    obtain n' where n': "n = Suc n'" using n by (cases n) auto
    from p [unfolded x] show "parse_value n s = Some x"
    proof (cases rule: parse_value_cases)
      case (object m cs d ds)
      have "2 * length (d # ds) < n'"
        using n n' skip_whitespace_ConsD [OF object(2)] skip_whitespace_length [of cs] object(3) by simp
      then have "parse_members n' [] (d # ds) = Some (v, r)" using at_value(1) object(1,5) by blast
      then show ?thesis using object(2,3,4) n' x by simp
    next
      case (array m cs d ds)
      have "2 * length (d # ds) + 1 < n'"
        using n n' skip_whitespace_ConsD [OF array(2)] skip_whitespace_length [of cs] array(3) by simp
      then have "parse_elements n' [] (d # ds) = Some (v, r)" using at_value(2) array(1,5) by blast
      then show ?thesis using array(2,3,4) n' x by simp
    next
      case (scalar m c cs)
      then show ?thesis using n' x parse_value_scalar by metis
    qed (simp_all add: n' x)
  qed
next
  case (at_members k ms s)
  show ?case
  proof (intro allI impI)
    fix x n assume p: "parse_members k ms s = Some x" and n: "2 * length s < n"
    obtain v r where x: "x = (v, r)" by (cases x)
    obtain n' where n': "n = Suc n'" using n by (cases n) auto
    have shrink: "2 * length s2 < n' \<and> 2 * length s4 < n'"
      if "parse_string (skip_whitespace s) = Some (key, s1)" "skip_whitespace s1 = c # s2"
        "parse_value m s2 = Some (w, s3)" "skip_whitespace s3 = d # s4" for key s1 s2 c d m w s3 s4
      using that n n' parse_string_shorter [OF that(1)] skip_whitespace_length [of s]
        skip_whitespace_ConsD [OF that(2)] skip_whitespace_ConsD [OF that(4)]
        parse_value_shorter(1) [of m s2] by fastforce
    from p [unfolded x] show "parse_members n ms s = Some x"
    proof (cases rule: parse_members_cases)
      case (more m key s1 s2 w s3 s4)
      note b = shrink [OF more(2,3,4,5)]
      have "parse_value n' s2 = Some (w, s3)" "parse_members n' (set_member ms key w) s4 = Some (v, r)"
        using at_members more(1,4,6) b by blast+
      then show ?thesis using more(2,3,5) n' x by simp
    next
      case (final m key s1 s2 w s3)
      note b = shrink [OF final(2,3,4,5)]
      have "parse_value n' s2 = Some (w, s3)" using at_members(1) final(1,4) b by blast
      then show ?thesis using final(2,3,5,6) n' x by simp
    qed
  qed
next
  case (at_elements k vs s)
  show ?case
  proof (intro allI impI)
    fix x n assume p: "parse_elements k vs s = Some x" and n: "2 * length s + 1 < n"
    obtain v r where x: "x = (v, r)" by (cases x)
    obtain n' where n': "n = Suc n'" using n by (cases n) auto
    have sn: "2 * length s < n'" using n n' by simp
    from p [unfolded x] show "parse_elements n vs s = Some x"
    proof (cases rule: parse_elements_cases)
      case (more m w s1 s2)
      have "length s1 < length s" using parse_value_shorter(1) more(2) by blast
      then have "2 * length s2 + 1 < n'" using sn skip_whitespace_ConsD [OF more(3)] by linarith
      then have "parse_value n' s = Some (w, s1)" "parse_elements n' (vs @ [w]) s2 = Some (v, r)"
        using at_elements more(1,2,4) sn by blast+
      then show ?thesis using more(3) n' x by simp
    next
      case (final m w s1)
      have "parse_value n' s = Some (w, s1)" using at_elements(1) final(1,2) sn by blast
      then show ?thesis using final(3,4) n' x by simp
    qed
  qed
qed

section \<open>Strings\<close>

lemma hex_value_hex_char: "d < 16 \<Longrightarrow> hex_value (hex_char d) = Some d"
proof -
  assume "d < 16"
  then have "d \<in> set [0..<16]" by simp
  then show ?thesis
    by (simp add: upt_conv_Cons) (elim disjE; simp add: hex_value_def hex_char_def)
qed

lemma control_hex_code:
  "n < 32 \<Longrightarrow> hex_code 0 [hex_char (n div 4096 mod 16), hex_char (n div 256 mod 16),
     hex_char (n div 16 mod 16), hex_char (n mod 16)] = Some n"
  by (simp add: hex_value_hex_char)

lemma of_char_nat_iff: "(of_char c :: nat) = of_char d \<longleftrightarrow> c = d"
  by (metis char_of_char)

lemma parse_escaped_char:
  "parse_string_body (escape_char c @ t) = map_option (apfst (Cons c)) (parse_string_body t)"
proof -
  let ?n = "of_char c :: nat"
  consider "?n = 0x22 \<or> ?n = 0x5C \<or> ?n = 8 \<or> ?n = 12 \<or> ?n = 10 \<or> ?n = 13 \<or> ?n = 9"
    | "?n < 32" "?n \<noteq> 8" "?n \<noteq> 12" "?n \<noteq> 10" "?n \<noteq> 13" "?n \<noteq> 9"
    | "32 \<le> ?n" "?n \<noteq> 0x22" "?n \<noteq> 0x5C" by linarith
  then show ?thesis
  proof cases
    case 1
    then have "c = CHR 0x22 \<or> c = CHR 0x5C \<or> c = CHR 0x08 \<or> c = CHR 0x0C \<or> c = CHR 0x0A \<or>
        c = CHR 0x0D \<or> c = CHR 0x09"
      unfolding of_char_nat_iff [symmetric] by simp
    then show ?thesis by (elim disjE) (simp_all add: escape_char_def unescape_def)
  next
    case 2
    have "parse_string_body (escape_char c @ t) = map_option (apfst (append (utf8 ?n))) (parse_string_body t)"
      using 2 control_hex_code [OF 2(1)] by (simp add: escape_char_def Let_def hex4_def)
    also have "utf8 ?n = [c]" using 2(1) by (simp add: utf8_def)
    finally show ?thesis by (simp add: map_option.compositionality o_def fun_eq_iff apfst_def map_prod_def)
  next
    case 3
    then have "c \<noteq> CHR 0x22" "c \<noteq> CHR 0x5C" by auto
    then show ?thesis using 3 by (simp add: escape_char_def Let_def)
  qed
qed

lemma parse_escaped_string:
  "parse_string_body (concat (map escape_char s) @ CHR 0x22 # t) = Some (s, t)"
  by (induction s) (simp_all add: parse_escaped_char)

lemma parse_string_escaped [simp]: "parse_string (escape_json_string s @ t) = Some (s, t)"
  by (simp add: parse_string_def escape_json_string_def parse_escaped_string)

section \<open>Whole numbers\<close>

definition whole :: "double \<Rightarrow> bool \<Rightarrow> bool" where
  "whole v as_int \<longleftrightarrow>
     (\<exists>n. v = of_int n \<and> \<bar>n\<bar> < (if as_int then 9007199254740992 else 1000000000000000))"

lemma whole_bound: "whole v b \<Longrightarrow> \<exists>n. v = of_int n \<and> \<bar>n\<bar> < 9007199254740992"
  by (auto simp: whole_def split: if_splits)

lemma format_whole: "whole (of_int n) b \<Longrightarrow> format_number (of_int n) b = int_to_string n"
proof -
  assume "whole (of_int n) b"
  then have "\<bar>n\<bar> < (if b then 9007199254740992 else 1000000000000000)" by (auto simp: whole_def)
  then have "\<bar>of_int n :: rat\<bar> < of_int (if b then 9007199254740992 else 1000000000000000)"
    by (simp only: of_int_abs [symmetric] of_int_less_iff)
  then show ?thesis by (auto simp: format_number_def split: if_splits)
qed

lemma to_string_Cons:
  obtains c cs where "to_string n = c # cs" "is_digit_char c"
  using to_string_digits [of _ n] to_string_nonempty [of n] by (cases "to_string n") auto

lemma digit_facts:
  "is_digit_char c \<Longrightarrow> is_number_char c \<and> c \<noteq> CHR ''.'' \<and> c \<noteq> CHR ''e'' \<and> c \<noteq> CHR ''E'' \<and>
     c \<noteq> CHR ''-'' \<and> c \<noteq> CHR ''+'' \<and> c \<noteq> CHR 0x22 \<and> c \<noteq> CHR ''{'' \<and> c \<noteq> CHR ''['' \<and>
     c \<noteq> CHR ''t'' \<and> c \<noteq> CHR ''f'' \<and> c \<noteq> CHR ''n'' \<and> \<not> is_json_space c"
  by (auto simp: is_digit_char_def is_number_char_def is_json_space_def)

lemma pow2_below_one: "pow2 (- 1022) \<le> 1" and pow2_above_integers: "9007199254740992 \<le> pow2 1024"
proof -
  show "pow2 (- 1022) \<le> 1" using pow2_mono [of "- 1022" 0] by (simp add: pow2_def [of 0])
  have "pow2 53 \<le> pow2 1024" by (rule pow2_mono) simp
  then show "9007199254740992 \<le> pow2 1024" by (simp add: pow2_def [of 53])
qed

lemma stod_digits:
  assumes "n < 9007199254740992"
  shows "stod (to_string n) = Some (of_nat n)"
    and "stod (CHR ''-'' # to_string n) = Some (- of_nat n)"
proof -
  have all: "takeWhile is_digit_char (to_string n) = to_string n" "dropWhile is_digit_char (to_string n) = []"
    using to_string_digits by (auto simp: takeWhile_eq_all_conv dropWhile_eq_Nil_conv)
  obtain c cs where c: "to_string n = c # cs" "is_digit_char c" by (rule to_string_Cons)
  have sign: "take_sign (to_string n) = (False, to_string n)"
    using digit_facts [OF c(2)] by (simp add: take_sign_def c(1))
  have r: "rnd (of_nat n) = of_nat n" using rnd_of_int [of "int n"] assms by simp
  have small: "\<not> pow2 1024 \<le> of_nat n"
  proof -
    have "(of_nat n :: rat) < 9007199254740992"
      using assms by (metis of_nat_less_iff of_nat_numeral)
    then show ?thesis using pow2_above_integers by linarith
  qed
  have big: "\<not> (of_nat n \<noteq> (0 :: rat) \<and> of_nat n < pow2 (- 1022))"
  proof
    assume a: "of_nat n \<noteq> (0 :: rat) \<and> of_nat n < pow2 (- 1022)"
    then have "(1 :: rat) \<le> of_nat n" by (cases n) simp_all
    then show False using a pow2_below_one by linarith
  qed
  have p: "pow10 0 = 1" by (simp add: pow10_def)
  show "stod (to_string n) = Some (of_nat n)"
    unfolding stod_def Let_def sign prod.case all
    by (simp add: p take_exponent_def r small) (use big in simp)
  have sign': "take_sign (CHR ''-'' # to_string n) = (True, to_string n)" by (simp add: take_sign_def)
  show "stod (CHR ''-'' # to_string n) = Some (- of_nat n)"
    unfolding stod_def Let_def sign' prod.case all
    by (simp add: p take_exponent_def r small) (use big in simp)
qed

lemma int_to_string_number_chars: "\<forall>c \<in> set (int_to_string n). is_number_char c"
  and int_to_string_no_point: "set (int_to_string n) \<inter> {CHR ''.'', CHR ''e'', CHR ''E''} = {}"
  using to_string_digits [of _ "nat n"] to_string_digits [of _ "nat (- n)"] digit_facts
  by (auto simp: int_to_string_def is_number_char_def split: if_splits)

lemma dbl_trunc_whole [simp]: "\<bar>n\<bar> < 9007199254740992 \<Longrightarrow> dbl_to_llong (of_int n) = n"
proof -
  assume "\<bar>n\<bar> < 9007199254740992"
  then have "\<bar>of_int n :: rat\<bar> < of_int 9223372036854775808"
    by (simp only: of_int_abs [symmetric] of_int_less_iff)
  then show ?thesis by (simp add: dbl_to_llong_def)
qed

definition starts_no_number :: "string \<Rightarrow> bool" where
  "starts_no_number t \<longleftrightarrow> (case t of [] \<Rightarrow> True | c # _ \<Rightarrow> \<not> is_number_char c)"

section \<open>Other numbers\<close>

text \<open>
  A number that is not whole is written with six significant digits. It comes back unchanged exactly
  if those digits denote it, as they do for the literals of the test matrix (0.05, 2.5).
\<close>

definition real_text :: "string \<Rightarrow> bool" where
  "real_text s \<longleftrightarrow> CHR ''.'' \<in> set s \<or> CHR ''e'' \<in> set s \<or> CHR ''E'' \<in> set s"

definition exact_number :: "double \<Rightarrow> bool \<Rightarrow> bool" where
  "exact_number v b \<longleftrightarrow> whole v b \<or> stod (format_number v b) = Some v \<and> real_text (format_number v b)"

text \<open>
  Any number comes back as the double its text denotes, marked as an integer if the text has neither
  point nor exponent, provided the text denotes a double at all.
\<close>

definition readable_number :: "double \<Rightarrow> bool \<Rightarrow> bool" where
  "readable_number v b \<longleftrightarrow> stod (format_number v b) \<noteq> None"

definition reread_number :: "double \<Rightarrow> bool \<Rightarrow> json" where
  "reread_number v b =
     (case stod (format_number v b) of
        None \<Rightarrow> JNull
      | Some w \<Rightarrow> if real_text (format_number v b) then json_number w else json_integer (dbl_to_llong w))"

definition number_text :: "string \<Rightarrow> bool" where
  "number_text s \<longleftrightarrow> s \<noteq> [] \<and> (is_digit_char (hd s) \<or> hd s = CHR ''-'') \<and> (\<forall>c \<in> set s. is_number_char c)"

lemma number_text_to_string [simp]: "number_text (to_string n)"
  using to_string_digits [of _ n] digit_facts
  by (cases "to_string n") (auto simp: number_text_def)

lemma number_text_int: "number_text (int_to_string n)"
  using int_to_string_number_chars [of n] number_text_to_string [of "nat n"]
  by (auto simp: number_text_def int_to_string_def)

lemma strip_zeros_subset: "set (strip_zeros s) \<subseteq> set s"
  by (auto simp: strip_zeros_def dest: set_dropWhileD)

lemma pad_left_number: "(\<forall>c \<in> set s. is_number_char c) \<Longrightarrow> \<forall>c \<in> set (pad_left n s). is_number_char c"
  by (auto simp: pad_left_def is_number_char_def is_digit_char_def)

lemma to_string_number: "\<forall>c \<in> set (to_string n). is_number_char c"
  using number_text_to_string [of n] by (simp add: number_text_def)

lemma padded_digits_number: "c \<in> set (pad_left n (to_string m)) \<Longrightarrow> is_number_char c"
  using pad_left_number [OF to_string_number] by blast

lemma with_fraction_number:
  "number_text s \<Longrightarrow> \<forall>c \<in> set f. is_number_char c \<Longrightarrow> number_text (with_fraction s f)"
  using strip_zeros_subset [of f] by (auto simp: with_fraction_def number_text_def is_number_char_def)

lemma number_text_append: "number_text s \<Longrightarrow> \<forall>c \<in> set t. is_number_char c \<Longrightarrow> number_text (s @ t)"
  by (auto simp: number_text_def)

lemma format_number_text: "number_text (format_number v b)"
proof -
  have e: "is_number_char CHR ''e''" "is_number_char CHR ''-''" "is_number_char CHR ''+''" "is_number_char CHR ''0''"
    by (simp_all add: is_number_char_def is_digit_char_def)
  have pos: "number_text (format_g6_positive x)" for x
    unfolding format_g6_positive_def Let_def
    by (auto split: prod.splits if_splits simp: e padded_digits_number
        intro!: with_fraction_number number_text_append)
  have neg: "number_text s \<Longrightarrow> number_text (CHR ''-'' # s)" for s by (auto simp: number_text_def e)
  have "number_text (format_g6 x)" for x
    using pos neg [OF pos] by (simp add: format_g6_def) (simp add: number_text_def is_digit_char_def e)
  then show ?thesis using number_text_int by (simp add: format_number_def)
qed

lemma parse_number_reread:
  assumes "readable_number v b" and "starts_no_number t"
  shows "parse_number (format_number v b @ t) = Some (reread_number v b, t)"
proof -
  let ?s = "format_number v b"
  obtain w where w: "stod ?s = Some w" using assms(1) by (auto simp: readable_number_def)
  have chars: "\<forall>c \<in> set ?s. is_number_char c" "?s \<noteq> []"
    using format_number_text [of v b] by (simp_all add: number_text_def)
  have span: "takeWhile is_number_char (?s @ t) = ?s" "dropWhile is_number_char (?s @ t) = t"
    using chars(1) assms(2) by (cases t; simp add: takeWhile_append2 dropWhile_append2 starts_no_number_def)+
  show ?thesis
    unfolding parse_number_def span using w chars(2) by (auto simp: reread_number_def real_text_def)
qed

text \<open>An exact number is readable, and comes back as itself.\<close>

lemma exact_number_reread:
  assumes "exact_number v b"
  shows "readable_number v b \<and> reread_number v b = JNumber v (\<not> real_text (format_number v b))"
proof (cases "whole v b")
  case True
  then obtain n where n: "v = of_int n" "\<bar>n\<bar> < 9007199254740992" using whole_bound by blast
  have written: "format_number v b = int_to_string n" using format_whole True n(1) by simp
  have "\<not> real_text (int_to_string n)" using int_to_string_no_point [of n] by (auto simp: real_text_def)
  moreover have "stod (int_to_string n) = Some (of_int n)"
    using stod_digits(1) [of "nat n"] stod_digits(2) [of "nat (- n)"] n(2)
    by (cases "n < 0") (simp_all add: int_to_string_def of_nat_nat)
  moreover have "dbl_of_int n = of_int n" using rnd_of_int [of n] n(2) by (simp add: dbl_of_int_def)
  ultimately show ?thesis
    using n(2) unfolding readable_number_def reread_number_def written
    by (simp add: json_integer_def n(1))
next
  case False
  then show ?thesis
    using assms by (simp add: exact_number_def readable_number_def reread_number_def json_number_def)
qed

section \<open>Reading back what was written\<close>

fun exact_json :: "json \<Rightarrow> bool" where
  "exact_json (JNumber v b) \<longleftrightarrow> exact_number v b"
| "exact_json (JArray vs) \<longleftrightarrow> (\<forall>v \<in> set vs. exact_json v)"
| "exact_json (JObject ms) \<longleftrightarrow> distinct (map fst ms) \<and> (\<forall>m \<in> set ms. exact_json (snd m))"
| "exact_json _ \<longleftrightarrow> True"

text \<open>A number written without point and exponent comes back marked as an integer.\<close>

fun canonical_json :: "json \<Rightarrow> json" where
  "canonical_json (JNumber v b) = JNumber v (\<not> real_text (format_number v b))"
| "canonical_json (JArray vs) = JArray (map canonical_json vs)"
| "canonical_json (JObject ms) = JObject (map (\<lambda>(k, v). (k, canonical_json v)) ms)"
| "canonical_json j = j"

fun readable_json :: "json \<Rightarrow> bool" where
  "readable_json (JNumber v b) \<longleftrightarrow> readable_number v b"
| "readable_json (JArray vs) \<longleftrightarrow> (\<forall>v \<in> set vs. readable_json v)"
| "readable_json (JObject ms) \<longleftrightarrow> distinct (map fst ms) \<and> (\<forall>m \<in> set ms. readable_json (snd m))"
| "readable_json _ \<longleftrightarrow> True"

fun reread_json :: "json \<Rightarrow> json" where
  "reread_json (JNumber v b) = reread_number v b"
| "reread_json (JArray vs) = JArray (map reread_json vs)"
| "reread_json (JObject ms) = JObject (map (\<lambda>(k, v). (k, reread_json v)) ms)"
| "reread_json j = j"

lemma exact_json_reread: "exact_json j \<Longrightarrow> readable_json j \<and> reread_json j = canonical_json j"
proof (induction j)
  case (JObject ms)
  then have "\<forall>m \<in> set ms. readable_json (snd m) \<and> reread_json (snd m) = canonical_json (snd m)"
    by (auto simp: snds.simps)
  then show ?case using JObject.prems by (auto simp: split_beta)
qed (auto simp: exact_number_reread)

definition blank :: "string \<Rightarrow> bool" where
  "blank ws \<longleftrightarrow> (\<forall>c \<in> set ws. is_json_space c)"

lemma blank_indent [simp]: "blank (indent pretty d)"
  by (auto simp: blank_def indent_def is_json_space_def)

lemma blank_Nil [simp]: "blank []" by (simp add: blank_def)

lemma skip_blank [simp]: "blank ws \<Longrightarrow> skip_whitespace (ws @ s) = skip_whitespace s"
  by (simp add: skip_whitespace_def blank_def dropWhile_append2)

lemma skip_Nil [simp]: "skip_whitespace [] = []"
  by (simp add: skip_whitespace_def)

lemma skip_nonblank [simp]: "\<not> is_json_space c \<Longrightarrow> skip_whitespace (c # s) = c # s"
  by (simp add: skip_whitespace_def)

lemma skip_skip [simp]: "skip_whitespace (skip_whitespace s) = skip_whitespace s"
  by (cases "skip_whitespace s") (auto simp: skip_whitespace_def dropWhile_eq_Cons_conv)

lemma punctuation_not_blank [simp]:
  "\<not> is_json_space CHR '',''" "\<not> is_json_space CHR '':''" "\<not> is_json_space CHR ''{''"
  "\<not> is_json_space CHR ''}''" "\<not> is_json_space CHR ''[''" "\<not> is_json_space CHR '']''"
  "\<not> is_json_space CHR 0x22"
  by (simp_all add: is_json_space_def)

lemma punctuation_no_number [simp]:
  "\<not> is_number_char CHR '',''" "\<not> is_number_char CHR ''}''" "\<not> is_number_char CHR '']''"
  by (simp_all add: is_number_char_def is_digit_char_def)

lemma space_no_number: "is_json_space c \<Longrightarrow> \<not> is_number_char c"
  by (auto simp: is_json_space_def is_number_char_def is_digit_char_def)

lemma blank_starts_no_number [simp]:
  "blank ws \<Longrightarrow> \<not> is_number_char c \<Longrightarrow> starts_no_number (ws @ c # t)"
  by (cases ws) (simp_all add: starts_no_number_def blank_def space_no_number)

lemma starts_no_number_Cons [simp]: "starts_no_number (c # t) \<longleftrightarrow> \<not> is_number_char c"
  by (simp add: starts_no_number_def)

lemma parse_value_skip [simp]: "parse_value n (skip_whitespace s) = parse_value n s"
  by (cases n) simp_all

lemma parse_members_skip [simp]: "parse_members n ms (skip_whitespace s) = parse_members n ms s"
  by (cases n) simp_all

lemma parse_elements_skip [simp]: "parse_elements n vs (skip_whitespace s) = parse_elements n vs s"
  by (cases n) simp_all

text \<open>\<open>reads f s x\<close>: with enough fuel the parser \<open>f\<close> returns \<open>x\<close> on \<open>s\<close>.\<close>

definition reads :: "(nat \<Rightarrow> string \<Rightarrow> 'a option) \<Rightarrow> string \<Rightarrow> 'a \<Rightarrow> bool" where
  "reads f s x \<longleftrightarrow> (\<exists>N. \<forall>n \<ge> N. f n s = Some x)"

lemma readsI: "(\<And>n. N \<le> n \<Longrightarrow> f n s = Some x) \<Longrightarrow> reads f s x"
  by (auto simp: reads_def)

lemma reads_SucI: "(\<And>n. f (Suc n) s = Some x) \<Longrightarrow> reads f s x"
  by (rule readsI [of 1]) (metis Suc_le_D One_nat_def)

lemma reads_Suc:
  assumes "reads f s x" and "\<And>n. f n s = Some x \<Longrightarrow> g (Suc n) t = Some y"
  shows "reads g t y"
proof -
  obtain N where N: "\<And>n. N \<le> n \<Longrightarrow> f n s = Some x" using assms(1) by (auto simp: reads_def)
  show ?thesis
  proof (rule readsI [of "Suc N"])
    fix n assume "Suc N \<le> n"
    then obtain m where "n = Suc m" "N \<le> m" by (cases n) auto
    then show "g n t = Some y" using assms(2) N by blast
  qed
qed

lemma reads_Suc2:
  assumes "reads f s x" and "reads h u z"
    and "\<And>n. f n s = Some x \<Longrightarrow> h n u = Some z \<Longrightarrow> g (Suc n) t = Some y"
  shows "reads g t y"
proof -
  obtain N M where "\<And>n. N \<le> n \<Longrightarrow> f n s = Some x" "\<And>n. M \<le> n \<Longrightarrow> h n u = Some z"
    using assms(1,2) by (auto simp: reads_def)
  then have "reads (\<lambda>n _. if f n s = Some x \<and> h n u = Some z then Some () else None) [] ()"
    by (intro readsI [of "max N M"]) simp
  then show ?thesis by (rule reads_Suc) (use assms(3) in \<open>auto split: if_splits\<close>)
qed

lemma reads_elements:
  assumes "\<And>v t. v \<in> set vs \<Longrightarrow> starts_no_number t \<Longrightarrow>
      reads parse_value (piece v @ t) (reread_json v, t)"
    and "vs \<noteq> []" and "blank ws"
  shows "reads (\<lambda>n. parse_elements n acc) (comma_join (map piece vs) @ ws @ CHR '']'' # t)
    (JArray (acc @ map reread_json vs), t)"
  using assms(1,2)
proof (induction vs arbitrary: acc)
  case (Cons v vs)
  show ?case
  proof (cases vs)
    case Nil
    have "starts_no_number (ws @ CHR '']'' # t)"
      using assms(3) by simp
    then have "reads parse_value (piece v @ ws @ CHR '']'' # t) (reread_json v, ws @ CHR '']'' # t)"
      by (intro Cons.prems(1)) simp_all
    then show ?thesis by (rule reads_Suc) (use assms(3) Nil in simp)
  next
    case (Cons w us)
    let ?rest = "comma_join (map piece vs) @ ws @ CHR '']'' # t"
    have "reads parse_value (piece v @ CHR '','' # ?rest) (reread_json v, CHR '','' # ?rest)"
      by (intro Cons.prems(1)) simp_all
    moreover have "reads (\<lambda>n. parse_elements n (acc @ [reread_json v])) ?rest
        (JArray ((acc @ [reread_json v]) @ map reread_json vs), t)"
      using Cons.prems(1) Cons by (intro Cons.IH) simp_all
    ultimately show ?thesis by (rule reads_Suc2) (simp add: Cons)
  qed
qed simp

lemma set_member_new: "key \<notin> fst ` set ms \<Longrightarrow> set_member ms key v = ms @ [(key, v)]"
  by (induction ms key v rule: set_member.induct) auto

lemma reads_members:
  assumes "\<And>k v t. (k, v) \<in> set ms \<Longrightarrow> starts_no_number t \<Longrightarrow>
      reads parse_value (piece v @ t) (reread_json v, t)"
    and "ms \<noteq> []" and "blank ws" and "blank ind"
    and "distinct (map fst ms)" and "fst ` set acc \<inter> fst ` set ms = {}"
  shows "reads (\<lambda>n. parse_members n acc)
    (comma_join (map (\<lambda>(k, v). ind @ escape_json_string k @ CHR '':'' # piece v) ms) @ ws @ CHR ''}'' # t)
    (JObject (acc @ map (\<lambda>(k, v). (k, reread_json v)) ms), t)"
  using assms(1,2,5,6)
proof (induction ms arbitrary: acc)
  case (Cons m ms)
  obtain k v where m: "m = (k, v)" by (cases m)
  have set: "set_member acc k w = acc @ [(k, w)]" for w
    using Cons.prems(4) by (intro set_member_new) (auto simp: m)
  have quote: "skip_whitespace (escape_json_string k @ u) = escape_json_string k @ u" for u
    by (simp add: escape_json_string_def)
  show ?case
  proof (cases ms)
    case Nil
    have "starts_no_number (ws @ CHR ''}'' # t)"
      using assms(3) by simp
    then have "reads parse_value (piece v @ ws @ CHR ''}'' # t) (reread_json v, ws @ CHR ''}'' # t)"
      by (intro Cons.prems(1) [of k]) (simp_all add: m)
    then show ?thesis by (rule reads_Suc) (use assms(3,4) Nil in \<open>simp add: m quote set\<close>)
  next
    case (Cons m' us)
    obtain k' v' where m': "m' = (k', v')" by (cases m')
    let ?rest = "comma_join (map (\<lambda>(k, v). ind @ escape_json_string k @ CHR '':'' # piece v) ms) @ ws @ CHR ''}'' # t"
    have "reads parse_value (piece v @ CHR '','' # ?rest) (reread_json v, CHR '','' # ?rest)"
      by (intro Cons.prems(1) [of k]) (simp_all add: m)
    moreover have "reads (\<lambda>n. parse_members n (acc @ [(k, reread_json v)])) ?rest
        (JObject ((acc @ [(k, reread_json v)]) @ map (\<lambda>(k, v). (k, reread_json v)) ms), t)"
      using Cons.prems Cons by (intro Cons.IH) (auto simp: m)
    ultimately show ?thesis
      by (rule reads_Suc2) (use assms(4) Cons in \<open>simp add: m m' quote set\<close>)
  qed
qed simp

lemma reads_scalar:
  assumes "skip_whitespace s = c # cs" and "c \<noteq> CHR ''{''" and "c \<noteq> CHR ''[''"
    and "parse_scalar (c # cs) = Some x"
  shows "reads parse_value s x"
  using parse_value_scalar [OF assms(1,2,3)] assms(4) by (intro reads_SucI) simp

lemma reads_number:
  assumes "readable_number v b" and "starts_no_number t" and "blank ws"
  shows "reads parse_value (ws @ format_number v b @ t) (reread_number v b, t)"
proof -
  obtain c cs where c: "format_number v b = c # cs" "is_digit_char c \<or> c = CHR ''-''"
    using format_number_text [of v b] by (cases "format_number v b") (auto simp: number_text_def)
  have facts: "c \<noteq> CHR 0x22 \<and> c \<noteq> CHR ''{'' \<and> c \<noteq> CHR ''['' \<and> c \<noteq> CHR ''t'' \<and> c \<noteq> CHR ''f'' \<and>
      c \<noteq> CHR ''n'' \<and> \<not> is_json_space c"
    using digit_facts [of c] c(2) by (elim disjE) (simp_all add: is_json_space_def)
  have "parse_scalar (c # cs @ t) = Some (reread_number v b, t)"
    using parse_number_reread [OF assms(1,2)] facts by (simp add: parse_scalar_def c)
  then show ?thesis
    using facts assms(3) by (intro reads_scalar [of _ c "cs @ t"]) (simp_all add: c)
qed

lemma parse_elements_opens:
  assumes "parse_elements n vs s = Some x"
  obtains d ds where "skip_whitespace s = d # ds" "d \<noteq> CHR '']''"
proof -
  have no: "parse_scalar (CHR '']'' # cs) = None" for cs
    by (simp add: parse_scalar_def parse_number_def)
  obtain m v r where "parse_value m s = Some (v, r)"
    using assms by (cases x) (auto elim: parse_elements_cases)
  then show ?thesis
    by (cases rule: parse_value_cases) (use that no in fastforce)+
qed

lemma parse_members_opens:
  assumes "parse_members n ms s = Some x"
  obtains d ds where "skip_whitespace s = d # ds" "d \<noteq> CHR ''}''"
proof -
  obtain key s1 where "parse_string (skip_whitespace s) = Some (key, s1)"
    using assms by (cases x) (auto elim: parse_members_cases)
  then have "\<exists>ds. skip_whitespace s = CHR 0x22 # ds"
    by (auto simp: parse_string_def split: list.splits if_splits)
  then show ?thesis using that by auto
qed

lemma parse_value_array:
  assumes "parse_elements n [] s = Some x"
  shows "parse_value (Suc n) (CHR ''['' # s) = Some x"
proof -
  obtain d ds where "skip_whitespace s = d # ds" "d \<noteq> CHR '']''" by (rule parse_elements_opens [OF assms])
  then show ?thesis using assms parse_elements_skip [of n "[]" s] by simp
qed

lemma parse_value_object:
  assumes "parse_members n [] s = Some x"
  shows "parse_value (Suc n) (CHR ''{'' # s) = Some x"
proof -
  obtain d ds where "skip_whitespace s = d # ds" "d \<noteq> CHR ''}''" by (rule parse_members_opens [OF assms])
  then show ?thesis using assms parse_members_skip [of n "[]" s] by simp
qed

lemma parse_value_blank: "blank ws \<Longrightarrow> parse_value n (ws @ s) = parse_value n s"
  using parse_value_skip [of n "ws @ s"] parse_value_skip [of n s] by simp

lemma serialize_reads:
  "readable_json j \<Longrightarrow> starts_no_number t \<Longrightarrow> blank ws \<Longrightarrow>
     reads parse_value (ws @ serialize_into pretty d j @ t) (reread_json j, t)"
proof (induction j arbitrary: d t ws)
  case JNull
  then show ?case
    by (intro reads_scalar [of _ "CHR ''n''" "''ull'' @ t"])
      (simp_all add: parse_scalar_def parse_null_def is_json_space_def)
next
  case (JBool b)
  then show ?case
    by (cases b; intro reads_scalar [of _ "if b then CHR ''t'' else CHR ''f''"
          "(if b then ''rue'' else ''alse'') @ t"])
      (simp_all add: parse_scalar_def parse_bool_def is_json_space_def)
next
  case (JNumber v b)
  then show ?case using reads_number by simp
next
  case (JString s)
  then show ?case
    by (intro reads_scalar [of _ "CHR 0x22" "concat (map escape_char s) @ CHR 0x22 # t"])
      (simp_all add: parse_scalar_def parse_string_def parse_escaped_string escape_json_string_def)
next
  case (JArray vs)
  show ?case
  proof (cases "vs = []")
    case True
    then show ?thesis using JArray.prems(3) by (intro reads_SucI) simp
  next
    case False
    let ?piece = "\<lambda>v. indent pretty (d + 1) @ serialize_into pretty (d + 1) v"
    let ?body = "comma_join (map ?piece vs) @ indent pretty d @ CHR '']'' # t"
    have "reads parse_value (?piece v @ u) (reread_json v, u)"
      if "v \<in> set vs" "starts_no_number u" for v u
      using JArray.IH [of v u "indent pretty (d + 1)" "d + 1"] that JArray.prems(1) by simp
    from reads_elements [where acc = "[]" and t = t, OF this False blank_indent]
    have body: "reads (\<lambda>n. parse_elements n []) ?body (JArray (map reread_json vs), t)" by simp
    show ?thesis
      by (rule reads_Suc [OF body])
        (use JArray.prems(3) False in \<open>simp add: parse_value_blank parse_value_array del: parse_value.simps\<close>)
  qed
next
  case (JObject ms)
  show ?case
  proof (cases "ms = []")
    case True
    then show ?thesis using JObject.prems(3) by (intro reads_SucI) simp
  next
    case False
    let ?colon = "if pretty then '' '' else []"
    let ?piece = "\<lambda>v. ?colon @ serialize_into pretty (d + 1) v"
    let ?members = "\<lambda>(k, v). indent pretty (d + 1) @ escape_json_string k @ CHR '':'' # ?piece v"
    let ?body = "comma_join (map ?members ms) @ indent pretty d @ CHR ''}'' # t"
    have colon: "blank ?colon" by (simp add: blank_def is_json_space_def)
    have "reads parse_value (?piece v @ u) (reread_json v, u)"
      if "(k, v) \<in> set ms" "starts_no_number u" for k v u
      using JObject.IH [of "(k, v)" v u ?colon "d + 1"] that JObject.prems(1) colon by fastforce
    from reads_members [where acc = "[]" and t = t, OF this False blank_indent blank_indent]
    have body: "reads (\<lambda>n. parse_members n []) ?body
        (JObject (map (\<lambda>(k, v). (k, reread_json v)) ms), t)"
      using JObject.prems(1) by simp
    have written: "serialize_into pretty d (JObject ms) @ t = CHR ''{'' # ?body"
      using False by (cases pretty) simp_all
    show ?thesis
      unfolding written
      by (rule reads_Suc [OF body])
        (use JObject.prems(3) in \<open>simp add: parse_value_blank parse_value_object del: parse_value.simps\<close>)
  qed
qed

lemma parse_value_enough: "parse_value k s = Some x \<Longrightarrow> parse_value (parse_fuel s) s = Some x"
proof -
  have "2 * length s < parse_fuel s" by (simp add: parse_fuel_def)
  then show "parse_value k s = Some x \<Longrightarrow> parse_value (parse_fuel s) s = Some x"
    using parse_value_fuel(1) by blast
qed

lemma parse_json_serialize:
  assumes "readable_json j"
  shows "parse_json (serialize j pretty) = Some (reread_json j)"
proof -
  let ?s = "serialize j pretty"
  obtain N where N: "parse_value N ?s = Some (reread_json j, [])"
    using serialize_reads [OF assms, of "[]" "[]" pretty 0]
    by (auto simp: reads_def serialize_def starts_no_number_def simp del: parse_value.simps)
  have "parse_value (parse_fuel ?s) ?s = Some (reread_json j, [])"
    by (rule parse_value_enough [OF N])
  then show ?thesis by (simp add: parse_json_def)
qed

text \<open>
  C31. What the JSON writer writes, compact or indented, the parser reads back, whatever bytes the
  strings and keys hold, for a value whose objects have distinct keys and whose numbers are written as
  doubles the parser accepts: structure, keys, strings and booleans come back unchanged and each number
  as the double its text denotes. That is the number itself if it is whole (below \<open>2 ^ 53\<close>, or \<open>10 ^ 15\<close>
  when it is not marked as an integer) or denoted by its six significant digits. The parser's
  recursion never runs out of its bound, here or on any other text.
\<close>
theorem json_round_trip:
  assumes "readable_json j"
  shows "parse_json (serialize j pretty) = Some (reread_json j) \<and>
    (exact_json j \<longrightarrow> reread_json j = canonical_json j) \<and>
    (\<forall>fuel s x. parse_value fuel s = Some x \<longrightarrow> parse_value (parse_fuel s) s = Some x)"
  using parse_json_serialize [OF assms] exact_json_reread parse_value_enough by blast

definition sample_json :: json where
  "sample_json = JObject [(''k'', JArray [JNull, JBool True, JNumber (- 12) True]), ([], JString [CHR 0x0A])]"

theorem json_round_trip_witness:
  "parse_json (serialize sample_json True) =
     Some (JObject [(''k'', JArray [JNull, JBool True, JNumber (- 12) True]), ([], JString [CHR 0x0A])])"
proof -
  have w: "whole (- 12) True" by (auto simp: whole_def intro: exI [of _ "- 12"])
  then have "format_number (- 12) True = int_to_string (- 12)" using format_whole [of "- 12" True] by simp
  then have "\<not> real_text (format_number (- 12) True)"
    using int_to_string_no_point [of "- 12"] by (auto simp: real_text_def)
  moreover have "exact_json sample_json" using w by (simp add: sample_json_def exact_number_def)
  ultimately show ?thesis
    using json_round_trip [of sample_json True] exact_json_reread [of sample_json] by (simp add: sample_json_def)
qed

section \<open>Parsed objects have distinct keys\<close>

fun distinct_keys :: "json \<Rightarrow> bool" where
  "distinct_keys (JArray vs) \<longleftrightarrow> (\<forall>v \<in> set vs. distinct_keys v)"
| "distinct_keys (JObject ms) \<longleftrightarrow> distinct (map fst ms) \<and> (\<forall>m \<in> set ms. distinct_keys (snd m))"
| "distinct_keys _ \<longleftrightarrow> True"

lemma set_member_keys: "fst ` set (set_member ms key v) = insert key (fst ` set ms)"
  by (induction ms key v rule: set_member.induct) auto

lemma set_member_distinct:
  "distinct_keys (JObject ms) \<Longrightarrow> distinct_keys v \<Longrightarrow> distinct_keys (JObject (set_member ms key v))"
proof (induction ms key v rule: set_member.induct)
  case (2 k w ms key v)
  show ?case
  proof (cases "k = key")
    case True
    then show ?thesis using 2 by simp
  next
    case False
    then have "distinct_keys (JObject (set_member ms key v))" using 2 by simp
    moreover have "k \<notin> fst ` set (set_member ms key v)" using 2(2) False by (simp add: set_member_keys)
    ultimately show ?thesis using 2(2) False by simp
  qed
qed simp

lemma parse_scalar_distinct_keys: "parse_scalar s = Some (v, r) \<Longrightarrow> distinct_keys v"
  by (auto simp: parse_scalar_def parse_bool_def parse_null_def parse_number_def Let_def json_integer_def
      json_number_def apfst_def map_prod_def split: if_splits option.splits prod.splits)

lemma parse_value_distinct_keys:
  "\<forall>v r. parse_value n s = Some (v, r) \<longrightarrow> distinct_keys v"
  "\<forall>v r. parse_members n ms s = Some (v, r) \<longrightarrow> distinct_keys (JObject ms) \<longrightarrow> distinct_keys v"
  "\<forall>v r. parse_elements n vs s = Some (v, r) \<longrightarrow> distinct_keys (JArray vs) \<longrightarrow> distinct_keys v"
proof (induction n s and n ms s and n vs s rule: parser_induct)
  case (at_value n s)
  have empty: "distinct_keys (JObject [])" "distinct_keys (JArray [])" by simp_all
  show ?case
  proof (intro allI impI)
    fix v r assume "parse_value n s = Some (v, r)"
    then show "distinct_keys v"
    proof (cases rule: parse_value_cases)
      case (object m cs d ds)
      then show ?thesis using at_value(1) empty by blast
    next
      case (array m cs d ds)
      then show ?thesis using at_value(2) empty by blast
    next
      case (scalar m c cs)
      then show ?thesis using parse_scalar_distinct_keys by blast
    qed simp_all
  qed
next
  case (at_members n ms s)
  show ?case
  proof (intro allI impI)
    fix v r assume "parse_members n ms s = Some (v, r)" and ms: "distinct_keys (JObject ms)"
    then show "distinct_keys v"
    proof (cases rule: parse_members_cases)
      case (more m key s1 s2 w s3 s4)
      have "distinct_keys w" using at_members(1) more(1,4) by blast
      then show ?thesis using at_members(2) more(1,6) set_member_distinct [OF ms] by blast
    next
      case (final m key s1 s2 w s3)
      have "distinct_keys w" using at_members(1) final(1,4) by blast
      then show ?thesis using set_member_distinct [OF ms] final(6) by blast
    qed
  qed
next
  case (at_elements n vs s)
  show ?case
  proof (intro allI impI)
    fix v r assume "parse_elements n vs s = Some (v, r)" and vs: "distinct_keys (JArray vs)"
    then show "distinct_keys v"
    proof (cases rule: parse_elements_cases)
      case (more m w s1 s2)
      have "distinct_keys w" using at_elements(1) more(1,2) by blast
      then have "distinct_keys (JArray (vs @ [w]))" using vs by simp
      then show ?thesis using at_elements(2) more(1,4) by blast
    next
      case (final m w s1)
      have "distinct_keys w" using at_elements(1) final(1,2) by blast
      then show ?thesis using vs final(4) by simp
    qed
  qed
qed

text \<open>
  C32. A value of the JSON type is well formed if no object in it, at any depth, has a key twice. Every
  value the parser returns is well formed, a repeated key in the text keeping its first place with its
  last value; and \<open>set\<close>, \<open>append\<close> and \<open>at\<close> keep values well formed.
\<close>
theorem json_values_well_formed:
  "(\<forall>s j. parse_json s = Some j \<longrightarrow> distinct_keys j) \<and>
   (\<forall>j key v. distinct_keys j \<and> distinct_keys v \<longrightarrow>
      distinct_keys (json_set j key v) \<and> distinct_keys (json_append j v) \<and> distinct_keys (json_at j key)) \<and>
   (\<forall>j key v. distinct_keys j \<longrightarrow> json_at (json_set j key v) key = v \<and> json_has (json_set j key v) key)"
proof (intro conjI allI impI)
  show "distinct_keys j" if "parse_json s = Some j" for s j
    using that parse_value_distinct_keys(1)
    by (auto simp: parse_json_def split: option.splits prod.splits if_splits)
next
  fix j key v assume d: "distinct_keys j \<and> distinct_keys v"
  have m: "distinct_keys (JObject (members j))" using d by (cases j) (simp_all add: members_def)
  then show "distinct_keys (json_set j key v)" using d unfolding json_set_def by (intro set_member_distinct) simp_all
  show "distinct_keys (json_append j v)" using d by (cases j) (simp_all add: json_append_def elements_def)
  show "distinct_keys (json_at j key)"
    using m by (auto simp: json_at_def split: option.splits dest!: map_of_SomeD)
next
  fix j key v
  have at: "map_of (set_member ms key v) key = Some v" for ms
    by (induction ms key v rule: set_member.induct) auto
  then show "json_at (json_set j key v) key = v" by (simp add: json_at_def json_set_def members_def)
  show "json_has (json_set j key v) key"
  proof -
    have "key \<in> fst ` set (set_member (members j) key v)" by (simp add: set_member_keys)
    then show ?thesis by (auto simp: json_has_def json_set_def members_def [of "JObject _"])
  qed
qed

theorem json_values_well_formed_witness:
  "distinct_keys (json_set (JObject [(''a'', JNull)]) ''a'' (JBool True)) \<and>
   json_at (json_set (JObject [(''a'', JNull)]) ''a'' (JBool True)) ''a'' = JBool True"
  using json_values_well_formed by (auto simp: distinct_keys.simps)

end
