(* ===== verification/Endpoint_Text.thy ===== *)
theory Endpoint_Text
  imports Udp_Socket Json_Round_Trip
begin

text \<open>
  The text form of endpoints, \<open>src/src/net/endpoint.cpp\<close>. The system's \<open>inet_pton\<close> and
  \<open>inet_ntop\<close> are arguments, a record of the four conversions; what they promise is the locale
  \<open>address_conversion\<close>. It is interpreted with dotted decimal and with groups of hexadecimal digits that
  are not abbreviated, which is one of the forms the system may choose. A socket address of the system
  is an endpoint; the scope of an IPv6 address, which the equality of the code ignores, is not part of it.
\<close>

section \<open>The conversions of the code\<close>

record address_texts =
  pton4 :: "string \<Rightarrow> bytes option"
  pton6 :: "string \<Rightarrow> bytes option"
  ntop4 :: "bytes \<Rightarrow> string"
  ntop6 :: "bytes \<Rightarrow> string"

text \<open>What a C function sees of a \<open>std::string\<close>.\<close>

definition c_string :: "string \<Rightarrow> string" where
  "c_string s = takeWhile (\<lambda>c. c \<noteq> CHR 0x00) s"

definition from_host_and_port :: "address_texts \<Rightarrow> string \<Rightarrow> u16 \<Rightarrow> bool \<times> endpoint" where
  "from_host_and_port T host port =
     (case pton4 T (c_string host) of
        Some a \<Rightarrow> (True, IPv4 a port)
      | None \<Rightarrow>
          (case pton6 T (c_string host) of
             Some a \<Rightarrow> (True, IPv6 a port)
           | None \<Rightarrow> (False, Unbound)))"

text \<open>A raw address, \<open>None\<close> for the null pointer, and its length, at most that of \<open>sockaddr_storage\<close>.\<close>

definition from_sockaddr :: "endpoint option \<Rightarrow> nat \<Rightarrow> endpoint" where
  "from_sockaddr address len =
     (case address of Some a \<Rightarrow> if 0 < len \<and> len \<le> 128 then a else Unbound | None \<Rightarrow> Unbound)"

datatype address_family = Unspecified | Inet | Inet6

fun endpoint_family :: "endpoint \<Rightarrow> address_family" where
  "endpoint_family Unbound = Unspecified"
| "endpoint_family (IPv4 _ _) = Inet"
| "endpoint_family (IPv6 _ _) = Inet6"

definition is_ipv6 :: "endpoint \<Rightarrow> bool" where
  "is_ipv6 e \<longleftrightarrow> endpoint_family e = Inet6"

fun endpoint_host :: "address_texts \<Rightarrow> endpoint \<Rightarrow> string" where
  "endpoint_host T (IPv4 a _) = ntop4 T a"
| "endpoint_host T (IPv6 a _) = ntop6 T a"
| "endpoint_host T Unbound = []"

definition endpoint_text :: "address_texts \<Rightarrow> endpoint \<Rightarrow> string" where
  "endpoint_text T e =
     (if \<not> endpoint_valid e then ''<unbound>''
      else if is_ipv6 e then ''['' @ endpoint_host T e @ '']:'' @ to_string (unat (endpoint_port e))
      else endpoint_host T e @ '':'' @ to_string (unat (endpoint_port e)))"

fun endpoint_wf :: "endpoint \<Rightarrow> bool" where
  "endpoint_wf Unbound \<longleftrightarrow> True"
| "endpoint_wf (IPv4 a _) \<longleftrightarrow> length a = 4"
| "endpoint_wf (IPv6 a _) \<longleftrightarrow> length a = 16"

section \<open>What the system promises\<close>

lemma append_Cons_eq_iff_left:
  "x \<notin> set xs \<Longrightarrow> x \<notin> set ys \<Longrightarrow> xs @ x # as = ys @ x # bs \<Longrightarrow> xs = ys \<and> as = bs"
proof (induction xs arbitrary: ys)
  case Nil
  then show ?case by (cases ys) simp_all
next
  case (Cons a xs)
  then obtain zs where "ys = a # zs" by (cases ys) auto
  then show ?case using Cons.prems Cons.IH [of zs] by simp
qed

lemma last_colon:
  assumes "CHR '':'' \<notin> set d" "CHR '':'' \<notin> set d'"
  shows "h @ CHR '':'' # d = h' @ CHR '':'' # d' \<longleftrightarrow> h = h' \<and> d = d'"
proof
  assume "h @ CHR '':'' # d = h' @ CHR '':'' # d'"
  then have "rev d @ CHR '':'' # rev h = rev d' @ CHR '':'' # rev h'"
    by (metis append.assoc append_Cons append_Nil rev.simps(2) rev_append)
  then have "rev d = rev d' \<and> rev h = rev h'"
    using assms by (metis (no_types) append_Cons_eq_iff_left set_rev)
  then show "h = h' \<and> d = d'" by simp
qed simp

lemma port_text_no_colon: "CHR '':'' \<notin> set (to_string n)"
proof -
  have "\<not> is_digit_char (CHR '':'')" by (simp add: is_digit_char_def)
  then show ?thesis using to_string_digits by blast
qed

lemma not_dotted_chars:
  "\<not> (is_digit_char (CHR 0x00) \<or> CHR 0x00 = CHR ''.'')"
  "\<not> (is_digit_char (CHR ''['') \<or> CHR ''['' = CHR ''.'')"
  "\<not> (is_digit_char (CHR ''<'') \<or> CHR ''<'' = CHR ''.'')"
  "\<not> (is_digit_char (CHR '':'') \<or> CHR '':'' = CHR ''.'')"
  by (simp_all add: is_digit_char_def)

locale address_conversion =
  fixes T :: address_texts
  assumes pton4_length: "pton4 T s = Some a \<Longrightarrow> length a = 4"
    and pton6_length: "pton6 T s = Some b \<Longrightarrow> length b = 16"
    and pton4_ntop4: "length a = 4 \<Longrightarrow> pton4 T (ntop4 T a) = Some a"
    and pton6_ntop6: "length b = 16 \<Longrightarrow> pton6 T (ntop6 T b) = Some b"
    and pton4_ntop6: "length b = 16 \<Longrightarrow> pton4 T (ntop6 T b) = None"
    and ntop4_chars: "length a = 4 \<Longrightarrow> c \<in> set (ntop4 T a) \<Longrightarrow> is_digit_char c \<or> c = CHR ''.''"
    and ntop6_chars: "length b = 16 \<Longrightarrow> CHR 0x00 \<notin> set (ntop6 T b)"
begin

lemma c_string_ntop [simp]:
  "length a = 4 \<Longrightarrow> c_string (ntop4 T a) = ntop4 T a"
  "length b = 16 \<Longrightarrow> c_string (ntop6 T b) = ntop6 T b"
  using ntop4_chars [of a "CHR 0x00"] ntop6_chars [of b] not_dotted_chars(1)
  by (auto simp: c_string_def takeWhile_eq_all_conv)

lemma parsed_endpoint_wf: "from_host_and_port T h p = (ok, e) \<Longrightarrow>
  endpoint_wf e \<and> (ok \<longleftrightarrow> endpoint_valid e) \<and> (ok \<longrightarrow> endpoint_port e = p)"
  by (auto simp: from_host_and_port_def endpoint_valid_def pton4_length pton6_length split: option.splits)

lemma host_round_trip:
  "endpoint_wf e \<Longrightarrow> endpoint_valid e \<Longrightarrow>
     from_host_and_port T (endpoint_host T e) (endpoint_port e) = (True, e)"
  by (cases e) (simp_all add: from_host_and_port_def endpoint_valid_def pton4_ntop4 pton6_ntop6 pton4_ntop6)

lemma host_inject:
  "endpoint_wf e \<Longrightarrow> endpoint_wf f \<Longrightarrow> endpoint_valid e \<Longrightarrow> endpoint_valid f \<Longrightarrow>
     endpoint_host T e = endpoint_host T f \<Longrightarrow> endpoint_port e = endpoint_port f \<Longrightarrow> e = f"
  by (metis host_round_trip prod.inject)

lemma text4: "endpoint_text T (IPv4 a p) = ntop4 T a @ '':'' @ to_string (unat p)"
  and text6: "endpoint_text T (IPv6 b p) = CHR ''['' # (ntop6 T b @ '']'') @ '':'' @ to_string (unat p)"
  and text0: "endpoint_text T Unbound = ''<unbound>''"
  by (simp_all add: endpoint_text_def endpoint_valid_def is_ipv6_def)

lemma text4_starts:
  assumes "length a = 4" shows "hd (endpoint_text T (IPv4 a p)) \<notin> {CHR ''['', CHR ''<''}"
proof (cases "ntop4 T a")
  case Nil
  then show ?thesis by (simp add: text4)
next
  case (Cons c cs)
  then have "is_digit_char c \<or> c = CHR ''.''" using ntop4_chars [OF assms, of c] by simp
  then have "c \<noteq> CHR ''[''" "c \<noteq> CHR ''<''" using not_dotted_chars by blast+
  then show ?thesis using Cons by (simp add: text4)
qed

lemma text_inject:
  assumes "endpoint_wf e" "endpoint_wf f" "endpoint_text T e = endpoint_text T f"
  shows "e = f"
proof (cases e; cases f)
  fix a p b q
  assume ef: "e = IPv4 a p" "f = IPv4 b q"
  then have "ntop4 T a = ntop4 T b \<and> unat p = unat q"
    using assms(3) by (simp add: text4 last_colon port_text_no_colon)
  then show ?thesis using assms ef host_inject [of e f] by (simp add: endpoint_valid_def word_unat_eq_iff)
next
  fix a p b q
  assume ef: "e = IPv6 a p" "f = IPv6 b q"
  then have "(ntop6 T a @ '']'') @ CHR '':'' # to_string (unat p) = (ntop6 T b @ '']'') @ CHR '':'' # to_string (unat q)"
    using assms(3) by (simp add: text6)
  then have "ntop6 T a = ntop6 T b \<and> unat p = unat q"
    unfolding last_colon [OF port_text_no_colon port_text_no_colon] by simp
  then show ?thesis using assms ef host_inject [of e f] by (simp add: endpoint_valid_def word_unat_eq_iff)
next
  fix a p b q
  assume "e = IPv4 a p" "f = IPv6 b q"
  then show ?thesis using assms text4_starts [of a p] by (simp add: text6)
next
  fix a p b q
  assume "e = IPv6 a p" "f = IPv4 b q"
  then show ?thesis using assms(2) text4_starts [of b q] assms(3) [symmetric] by (simp add: text6)
next
  fix a p
  assume "e = IPv4 a p" "f = Unbound"
  then show ?thesis using assms text4_starts [of a p] by (simp add: text0)
next
  fix b q
  assume "e = Unbound" "f = IPv4 b q"
  then show ?thesis using assms(2) text4_starts [of b q] assms(3) [symmetric] by (simp add: text0)
qed (use assms(3) in \<open>simp_all add: text0 text6\<close>)

end

section \<open>The system's forms\<close>

fun parts :: "char \<Rightarrow> string \<Rightarrow> string list" where
  "parts sep [] = [[]]"
| "parts sep (c # cs) =
     (if c = sep then [] # parts sep cs
      else case parts sep cs of [] \<Rightarrow> [[c]] | p # ps \<Rightarrow> (c # p) # ps)"

fun joined :: "char \<Rightarrow> string list \<Rightarrow> string" where
  "joined sep [] = []"
| "joined sep [p] = p"
| "joined sep (p # q # ps) = p @ sep # joined sep (q # ps)"

lemma parts_append: "sep \<notin> set p \<Longrightarrow> parts sep (p @ sep # s) = p # parts sep s"
  by (induction p) auto

lemma parts_alone: "sep \<notin> set p \<Longrightarrow> parts sep p = [p]"
  by (induction p) auto

lemma parts_joined: "ps \<noteq> [] \<Longrightarrow> \<forall>p \<in> set ps. sep \<notin> set p \<Longrightarrow> parts sep (joined sep ps) = ps"
  by (induction sep ps rule: joined.induct) (auto simp: parts_append parts_alone)

lemma joined_chars: "set (joined sep ps) \<subseteq> insert sep (\<Union>p \<in> set ps. set p)"
  by (induction sep ps rule: joined.induct) auto

definition octet_value :: "string \<Rightarrow> u8 option" where
  "octet_value s =
     (let n = digits_value 0 s
      in if s \<noteq> [] \<and> list_all is_digit_char s \<and> n \<le> 255 \<and> s = to_string n then Some (word_of_nat n) else None)"

fun all_some :: "'a option list \<Rightarrow> 'a list option" where
  "all_some [] = Some []"
| "all_some (x # xs) =
     (case x of None \<Rightarrow> None | Some a \<Rightarrow> (case all_some xs of None \<Rightarrow> None | Some as \<Rightarrow> Some (a # as)))"

lemma all_some_map: "(\<And>x. x \<in> set xs \<Longrightarrow> f x = Some (g x)) \<Longrightarrow> all_some (map f xs) = Some (map g xs)"
  by (induction xs) auto

lemma all_some_length: "all_some xs = Some ys \<Longrightarrow> length ys = length xs"
  by (induction xs arbitrary: ys) (auto split: option.splits)

definition dotted :: "bytes \<Rightarrow> string" where
  "dotted a = joined (CHR ''.'') (map (\<lambda>b. to_string (unat b)) a)"

definition parse_dotted :: "string \<Rightarrow> bytes option" where
  "parse_dotted s =
     (let ps = parts (CHR ''.'') s in if length ps = 4 then all_some (map octet_value ps) else None)"

fun words16 :: "bytes \<Rightarrow> nat list" where
  "words16 (h # l # bs) = (unat h * 256 + unat l) # words16 bs"
| "words16 _ = []"

definition word_bytes :: "nat \<Rightarrow> bytes" where
  "word_bytes n = [word_of_nat (n div 256), word_of_nat (n mod 256)]"

definition group_value :: "string \<Rightarrow> bytes option" where
  "group_value s = (if length s = 4 then map_option word_bytes (hex_code 0 s) else None)"

definition grouped :: "bytes \<Rightarrow> string" where
  "grouped a = joined (CHR '':'') (map hex4 (words16 a))"

definition parse_grouped :: "string \<Rightarrow> bytes option" where
  "parse_grouped s =
     (let ps = parts (CHR '':'') s
      in if length ps = 8 then map_option concat (all_some (map group_value ps)) else None)"

definition system_texts :: address_texts where
  "system_texts = \<lparr>pton4 = parse_dotted, pton6 = parse_grouped, ntop4 = dotted, ntop6 = grouped\<rparr>"


lemma unat_byte: "unat (b :: u8) \<le> 255"
  using unsigned_less [where 'a=nat, of b] by simp

lemma octet_value_to_string: "octet_value (to_string (unat b)) = Some b"
  using unat_byte [of b] by (auto simp: octet_value_def list_all_iff to_string_digits)

lemma parse_dotted_dotted:
  assumes "length a = 4"
  shows "parse_dotted (dotted a) = Some a"
proof -
  have "CHR ''.'' \<notin> set (to_string n)" for n
    using to_string_digits [of "CHR ''.''" n] by (auto simp: is_digit_char_def)
  then have "parts (CHR ''.'') (dotted a) = map (\<lambda>b. to_string (unat b)) a"
    unfolding dotted_def using assms by (intro parts_joined) auto
  moreover have "all_some (map (\<lambda>b. octet_value (to_string (unat b))) a) = Some (map (\<lambda>b. b) a)"
    by (intro all_some_map octet_value_to_string)
  ultimately show ?thesis using assms by (simp add: parse_dotted_def o_def)
qed

lemma hex_char_in: "n < 16 \<Longrightarrow> hex_char n \<in> set ''0123456789abcdef''"
  unfolding hex_char_def by (intro nth_mem) simp

lemma hex4_chars: "set (hex4 n) \<subseteq> set ''0123456789abcdef''"
proof -
  have digit: "hex_char (m mod 16) \<in> set ''0123456789abcdef''" for m by (intro hex_char_in) simp
  have "set (hex4 n) = {hex_char (n div 4096 mod 16), hex_char (n div 256 mod 16),
      hex_char (n div 16 mod 16), hex_char (n mod 16)}"
    by (simp add: hex4_def)
  then show ?thesis using digit by (simp only: insert_subset empty_subsetI simp_thms)
qed

lemma hex_code_hex4: "n < 65536 \<Longrightarrow> hex_code 0 (hex4 n) = Some n"
proof -
  assume n: "n < 65536"
  have split16: "m div 16 * 16 + m mod 16 = m" for m :: nat by simp
  have parts: "n div 256 = n div 16 div 16" "n div 4096 = n div 16 div 16 div 16"
    by (simp_all flip: div_mult2_eq)
  have "hex_code 0 (hex4 n) =
      Some (((n div 16 div 16 div 16 * 16 + n div 16 div 16 mod 16) * 16 + n div 16 mod 16) * 16 + n mod 16)"
    using n unfolding hex4_def parts by (simp add: hex_value_hex_char)
  then show ?thesis unfolding split16 .
qed

lemma group_value_hex4: "group_value (hex4 (unat h * 256 + unat l)) = Some [h, l]" for h l :: u8
  using unat_byte [of h] unat_byte [of l]
  by (subst group_value_def, subst hex_code_hex4) (auto simp: hex4_def word_bytes_def)

lemma words16_groups:
  "even (length b) \<Longrightarrow> \<exists>gs. all_some (map group_value (map hex4 (words16 b))) = Some gs \<and> concat gs = b"
  by (induction b rule: words16.induct) (auto simp: group_value_hex4)

lemma words16_length: "length (words16 b) = length b div 2"
  by (induction b rule: words16.induct) auto

lemma grouped_chars: "set (grouped b) \<subseteq> insert (CHR '':'') (set ''0123456789abcdef'')"
  unfolding grouped_def using joined_chars [of "CHR '':''" "map hex4 (words16 b)"] hex4_chars by fastforce

lemma parse_grouped_grouped:
  assumes "length b = 16"
  shows "parse_grouped (grouped b) = Some b"
proof -
  have "CHR '':'' \<notin> set (hex4 n)" for n
    using hex4_chars [of n] by auto
  then have "parts (CHR '':'') (grouped b) = map hex4 (words16 b)"
    unfolding grouped_def using assms words16_length [of b] by (intro parts_joined) auto
  then show ?thesis
    using assms words16_groups [of b] words16_length [of b] by (auto simp: parse_grouped_def)
qed

lemma word_groups_length: "all_some (map group_value ps) = Some gs \<Longrightarrow> length (concat gs) = 2 * length ps"
  by (induction ps arbitrary: gs) (auto simp: group_value_def word_bytes_def split: option.splits if_splits)

interpretation system: address_conversion system_texts
proof
  fix s a
  show "pton4 system_texts s = Some a \<Longrightarrow> length a = 4"
    by (auto simp: system_texts_def parse_dotted_def Let_def dest!: all_some_length split: if_splits)
  show "pton6 system_texts s = Some a \<Longrightarrow> length a = 16"
    by (auto simp: system_texts_def parse_grouped_def Let_def dest!: word_groups_length split: if_splits)
next
  fix a :: bytes and c
  assume len: "length a = 4"
  show "pton4 system_texts (ntop4 system_texts a) = Some a"
    using len by (simp add: system_texts_def parse_dotted_dotted)
  assume "c \<in> set (ntop4 system_texts a)"
  then have "c \<in> insert (CHR ''.'') (\<Union>p \<in> set (map (\<lambda>b. to_string (unat b)) a). set p)"
    using joined_chars unfolding system_texts_def dotted_def by fastforce
  then show "is_digit_char c \<or> c = CHR ''.''" using to_string_digits by auto
next
  fix b :: bytes
  assume len: "length b = 16"
  show "pton6 system_texts (ntop6 system_texts b) = Some b"
    using len by (simp add: system_texts_def parse_grouped_grouped)
  have "CHR ''.'' \<notin> set (grouped b)" using grouped_chars [of b] by auto
  then show "pton4 system_texts (ntop6 system_texts b) = None"
    by (simp add: system_texts_def parse_dotted_def parts_alone Let_def)
  show "CHR 0x00 \<notin> set (ntop6 system_texts b)"
    using grouped_chars [of b] by (auto simp: system_texts_def)
qed

text \<open>The two addresses the harness binds, as the system prints and reads them.\<close>

lemma loopback_texts:
  "from_host_and_port system_texts ''127.0.0.1'' 69 = (True, IPv4 [127, 0, 0, 1] 69)"
  "from_host_and_port system_texts ''localhost'' 69 = (False, Unbound)"
  "endpoint_text system_texts (IPv4 [127, 0, 0, 1] 69) = ''127.0.0.1:69''"
  "endpoint_text system_texts Unbound = ''<unbound>''"
  by code_simp+

end
