(* ===== verification/Native_Sockets.thy ===== *)
theory Native_Sockets
  imports Endpoint_Text "HOL-Library.Signed_Division"
begin

text \<open>
  \<open>src/src/net/socket_platform.{hpp,cpp}\<close> and \<open>udp_socket.{hpp,cpp}\<close>, on a POSIX system: the socket
  objects of the harness over the handles of the system. Every system call has its answer as an
  argument; the kernel keeps which handles are open, the time-outs set, the error number of the last
  failure, and how many closes named a handle that was not open. The first part are the operations, the
  second the ownership of handles by a program that constructs, moves and destroys objects, the third
  the relation to the scripted sockets of \<open>Udp_Socket\<close>, on which the engine is modelled.
\<close>

section \<open>The platform\<close>

text \<open>A system call succeeds with a value or fails with an error number.\<close>

datatype 'a answer = Answer 'a | Fails int

record platform =
  error_texts :: "int \<Rightarrow> string"
  would_block_code :: int
  again_code :: int

record kernel =
  open_handles :: "int set"
  stray_closes :: nat
  receive_timeouts :: "int \<Rightarrow> int \<times> int"
  error_number :: int

definition fresh_kernel :: kernel where
  "fresh_kernel = \<lparr>open_handles = {}, stray_closes = 0, receive_timeouts = (\<lambda>_. (0, 0)), error_number = 0\<rparr>"

definition invalid_native_socket :: int where "invalid_native_socket = -1"

text \<open>\<open>::close\<close> releases the handle; of a handle that is not open it is an error nobody looks at.\<close>

definition close_native_socket :: "int \<Rightarrow> kernel \<Rightarrow> kernel" where
  "close_native_socket h k =
     (if h = invalid_native_socket then k
      else if h \<in> open_handles k then k\<lparr>open_handles := open_handles k - {h}\<rparr>
      else k\<lparr>stray_closes := stray_closes k + 1\<rparr>)"

definition last_socket_error :: "kernel \<Rightarrow> int" where
  "last_socket_error k = error_number k"

definition describe_socket_error :: "platform \<Rightarrow> int \<Rightarrow> string" where
  "describe_socket_error P code = error_texts P code"

definition socket_error_is_would_block :: "platform \<Rightarrow> int \<Rightarrow> bool" where
  "socket_error_is_would_block P code \<longleftrightarrow> code = would_block_code P \<or> code = again_code P"

section \<open>Socket objects\<close>

record socket_object =
  handle :: int
  object_family :: address_family
  last_error :: string

definition new_socket :: socket_object where
  "new_socket = \<lparr>handle = invalid_native_socket, object_family = Inet, last_error = []\<rparr>"

definition is_open :: "socket_object \<Rightarrow> bool" where
  "is_open s \<longleftrightarrow> handle s \<noteq> invalid_native_socket"

definition record_error :: "platform \<Rightarrow> string \<Rightarrow> kernel \<Rightarrow> socket_object \<Rightarrow> socket_object" where
  "record_error P where_text k s =
     s\<lparr>last_error := where_text @ '': '' @ describe_socket_error P (last_socket_error k)\<rparr>"

definition close_socket :: "socket_object \<times> kernel \<Rightarrow> socket_object \<times> kernel" where
  "close_socket sk =
     (let (s, k) = sk
      in if handle s \<noteq> invalid_native_socket
         then (s\<lparr>handle := invalid_native_socket\<rparr>, close_native_socket (handle s) k)
         else (s, k))"

definition open_socket ::
  "platform \<Rightarrow> int answer \<Rightarrow> address_family \<Rightarrow> socket_object \<times> kernel \<Rightarrow>
   bool \<times> socket_object \<times> kernel" where
  "open_socket P answered family sk =
     (let (s, k) = close_socket sk;
          s = s\<lparr>object_family := family\<rparr>
      in case answered of
           Answer h \<Rightarrow> (True, s\<lparr>handle := h\<rparr>, k\<lparr>open_handles := insert h (open_handles k)\<rparr>)
         | Fails e \<Rightarrow>
             let k = k\<lparr>error_number := e\<rparr>
             in (False, record_error P ''socket()'' k (s\<lparr>handle := invalid_native_socket\<rparr>), k))"

text \<open>The answers: of \<open>socket\<close>, asked when the object is not open yet, and of \<open>bind\<close>.\<close>

definition bind_socket ::
  "platform \<Rightarrow> address_texts \<Rightarrow> int answer \<Rightarrow> unit answer \<Rightarrow> string \<Rightarrow> u16 \<Rightarrow>
   socket_object \<times> kernel \<Rightarrow> bool \<times> socket_object \<times> kernel" where
  "bind_socket P T opened bound host port sk =
     (let (parsed, local) = from_host_and_port T host port
      in if \<not> parsed
         then (False, (fst sk)\<lparr>last_error := ''bind(): could not parse host '' @ [CHR 0x27] @ host @ [CHR 0x27]\<rparr>, snd sk)
         else
           let (ready, s, k) = (if \<not> is_open (fst sk) then open_socket P opened (endpoint_family local) sk
                                else (True, sk))
           in if \<not> ready then (False, s, k)
              else case bound of
                     Answer _ \<Rightarrow> (True, s, k)
                   | Fails e \<Rightarrow> (let k = k\<lparr>error_number := e\<rparr> in (False, record_error P ''bind()'' k s, k)))"

definition bound_endpoint :: "(endpoint \<times> nat) answer \<Rightarrow> endpoint" where
  "bound_endpoint named =
     (case named of Answer (a, len) \<Rightarrow> from_sockaddr (Some a) len | Fails _ \<Rightarrow> Unbound)"

definition send_native ::
  "platform \<Rightarrow> nat answer \<Rightarrow> socket_object \<times> kernel \<Rightarrow> int \<times> socket_object \<times> kernel" where
  "send_native P sent sk =
     (let (s, k) = sk
      in if \<not> is_open s then (-1, s\<lparr>last_error := ''send_to(): socket not open''\<rparr>, k)
         else case sent of
                Answer n \<Rightarrow> (int n, s, k)
              | Fails e \<Rightarrow> (let k = k\<lparr>error_number := e\<rparr> in (-1, record_error P ''sendto()'' k s, k)))"

text \<open>
  The answer of \<open>recvfrom\<close> is the datagram, its sender and the length of its address; the result is the
  value returned, the buffer and the sender, which an error leaves as it was.
\<close>

definition receive_native ::
  "platform \<Rightarrow> (bytes \<times> endpoint \<times> nat) answer \<Rightarrow> nat \<Rightarrow> bytes \<times> endpoint \<Rightarrow> socket_object \<times> kernel \<Rightarrow>
   (int \<times> bytes \<times> endpoint) \<times> socket_object \<times> kernel" where
  "receive_native P arrived maximum_length before sk =
     (let (s, k) = sk; (buffer, sender) = before
      in if \<not> is_open s
         then ((-1, buffer, sender), s\<lparr>last_error := ''receive_from(): socket not open''\<rparr>, k)
         else case arrived of
                Answer (datagram, address, len) \<Rightarrow>
                  let data = take maximum_length datagram
                  in ((int (length data), data, from_sockaddr (Some address) len), s, k)
              | Fails e \<Rightarrow>
                  let k = k\<lparr>error_number := e\<rparr>
                  in if socket_error_is_would_block P e then ((0, [], sender), s, k)
                     else ((-1, [], sender), record_error P ''recvfrom()'' k s, k))"

definition set_native_timeout ::
  "platform \<Rightarrow> unit answer \<Rightarrow> int \<Rightarrow> socket_object \<times> kernel \<Rightarrow> bool \<times> socket_object \<times> kernel" where
  "set_native_timeout P configured ms sk =
     (let (s, k) = sk
      in if \<not> is_open s then (False, s\<lparr>last_error := ''set_receive_timeout(): socket not open''\<rparr>, k)
         else case configured of
                Answer _ \<Rightarrow>
                  (True, s, k\<lparr>receive_timeouts := (receive_timeouts k)(handle s := (ms sdiv 1000, ms smod 1000 * 1000))\<rparr>)
              | Fails e \<Rightarrow>
                  (let k = k\<lparr>error_number := e\<rparr>
                   in (False, record_error P ''setsockopt(SO_RCVTIMEO)'' k s, k)))"

text \<open>Moving: the new owner and what is left of the old one; a moved-from string is taken to be empty.\<close>

definition move_socket :: "socket_object \<Rightarrow> socket_object \<times> socket_object" where
  "move_socket other = (other, other\<lparr>handle := invalid_native_socket, last_error := []\<rparr>)"

definition move_assign_socket ::
  "socket_object \<Rightarrow> socket_object \<times> kernel \<Rightarrow> socket_object \<times> socket_object \<times> kernel" where
  "move_assign_socket other sk =
     (let (s, k) = close_socket sk; (s, other) = move_socket other in (s, other, k))"

section \<open>Programs over socket objects\<close>

text \<open>The objects that exist, by name, and the kernel. Assigning an object to itself does nothing and is no step.\<close>

record socket_program =
  objects :: "nat \<Rightarrow> socket_object option"
  system :: kernel

definition empty_program :: socket_program where
  "empty_program = \<lparr>objects = (\<lambda>_. None), system = fresh_kernel\<rparr>"

text \<open>The system answers \<open>socket\<close> with a handle that is not in use (or not at all).\<close>

definition grants :: "kernel \<Rightarrow> int answer \<Rightarrow> bool" where
  "grants k answered \<longleftrightarrow> (case answered of Answer h \<Rightarrow> 0 \<le> h \<and> h \<notin> open_handles k | Fails _ \<Rightarrow> True)"

definition store_object :: "nat \<Rightarrow> socket_object \<times> kernel \<Rightarrow> socket_program \<Rightarrow> socket_program" where
  "store_object v sk p = p\<lparr>objects := (objects p)(v \<mapsto> fst sk), system := snd sk\<rparr>"

inductive socket_step :: "platform \<Rightarrow> address_texts \<Rightarrow> socket_program \<Rightarrow> socket_program \<Rightarrow> bool"
  for P T where
  construct: "objects p v = None \<Longrightarrow> socket_step P T p (store_object v (new_socket, system p) p)"
| opens: "objects p v = Some s \<Longrightarrow> grants (snd (close_socket (s, system p))) opened \<Longrightarrow>
    open_socket P opened family (s, system p) = (ok, s', k') \<Longrightarrow>
    socket_step P T p (store_object v (s', k') p)"
| binds: "objects p v = Some s \<Longrightarrow> grants (system p) opened \<Longrightarrow>
    bind_socket P T opened bound host port (s, system p) = (ok, s', k') \<Longrightarrow>
    socket_step P T p (store_object v (s', k') p)"
| sends: "objects p v = Some s \<Longrightarrow> send_native P sent (s, system p) = (n, s', k') \<Longrightarrow>
    socket_step P T p (store_object v (s', k') p)"
| receives: "objects p v = Some s \<Longrightarrow>
    receive_native P arrived maximum before (s, system p) = (r, s', k') \<Longrightarrow>
    socket_step P T p (store_object v (s', k') p)"
| times: "objects p v = Some s \<Longrightarrow> set_native_timeout P configured ms (s, system p) = (ok, s', k') \<Longrightarrow>
    socket_step P T p (store_object v (s', k') p)"
| closes: "objects p v = Some s \<Longrightarrow>
    socket_step P T p (store_object v (close_socket (s, system p)) p)"
| move_constructs: "objects p v = None \<Longrightarrow> objects p w = Some other \<Longrightarrow> move_socket other = (s', other') \<Longrightarrow>
    socket_step P T p (store_object v (s', system p) (store_object w (other', system p) p))"
| move_assigns: "objects p v = Some s \<Longrightarrow> objects p w = Some other \<Longrightarrow> v \<noteq> w \<Longrightarrow>
    move_assign_socket other (s, system p) = (s', other', k') \<Longrightarrow>
    socket_step P T p (store_object v (s', k') (store_object w (other', k') p))"
| destroys: "objects p v = Some s \<Longrightarrow> close_socket (s, system p) = (s', k') \<Longrightarrow>
    socket_step P T p (p\<lparr>objects := (objects p)(v := None), system := k'\<rparr>)"

inductive socket_run :: "platform \<Rightarrow> address_texts \<Rightarrow> socket_program \<Rightarrow> bool" for P T where
  begin_run: "socket_run P T empty_program"
| step_run: "socket_run P T p \<Longrightarrow> socket_step P T p p' \<Longrightarrow> socket_run P T p'"


section \<open>Every handle has one owner\<close>

definition object_handles :: "socket_object \<Rightarrow> int set" where
  "object_handles s = (if is_open s then {handle s} else {})"

definition held :: "socket_program \<Rightarrow> nat \<Rightarrow> int set" where
  "held p v = (case objects p v of None \<Rightarrow> {} | Some s \<Rightarrow> object_handles s)"

definition shares :: "(nat \<Rightarrow> int set) \<Rightarrow> int set \<Rightarrow> bool" where
  "shares H handles \<longleftrightarrow> handles = (\<Union>v. H v) \<and> (\<forall>v w. v \<noteq> w \<longrightarrow> H v \<inter> H w = {})"

definition owned :: "socket_program \<Rightarrow> bool" where
  "owned p \<longleftrightarrow> stray_closes (system p) = 0 \<and> shares (held p) (open_handles (system p))"

lemma shares_update:
  assumes "shares H U" "new \<inter> (U - H v) = {}"
  shows "shares (H(v := new)) ((U - H v) \<union> new)"
proof -
  have all: "U = (\<Union>v. H v)" and disjoint: "\<And>v w. v \<noteq> w \<Longrightarrow> H v \<inter> H w = {}"
    using assms(1) by (auto simp: shares_def)
  have rest: "U - H v = (\<Union>w \<in> - {v}. H w)" using all disjoint by blast
  have "(U - H v) \<union> new = (\<Union>w. (H(v := new)) w)" unfolding rest by (auto split: if_splits)
  moreover have "(H(v := new)) a \<inter> (H(v := new)) b = {}" if "a \<noteq> b" for a b
    using that disjoint assms(2) unfolding rest by (cases "a = v"; cases "b = v") fastforce+
  ultimately show ?thesis by (simp add: shares_def)
qed

lemma shares_move:
  assumes "shares H U" "v \<noteq> w"
  shows "shares (H(w := {}, v := H w)) (U - H v)"
proof -
  have sub: "H w \<subseteq> U" and disjoint: "H v \<inter> H w = {}" using assms by (auto simp: shares_def)
  have "shares (H(w := {})) ((U - H w) \<union> {})" using assms(1) by (intro shares_update) simp_all
  moreover have "H w \<inter> (((U - H w) \<union> {}) - (H(w := {})) v) = {}" by blast
  ultimately have "shares (H(w := {}, v := H w)) (((U - H w) \<union> {}) - (H(w := {})) v \<union> H w)"
    by (rule shares_update)
  moreover have "((U - H w) \<union> {}) - (H(w := {})) v \<union> H w = U - H v"
    using sub disjoint assms(2) by auto
  ultimately show ?thesis by simp
qed

text \<open>What every operation of one object does to the handles.\<close>

definition tidy :: "socket_object \<times> kernel \<Rightarrow> socket_object \<times> kernel \<Rightarrow> bool" where
  "tidy before after \<longleftrightarrow>
     (let (s, k) = before; (s', k') = after
      in object_handles s \<subseteq> open_handles k \<longrightarrow>
         stray_closes k' = stray_closes k \<and>
         open_handles k' = (open_handles k - object_handles s) \<union> object_handles s' \<and>
         object_handles s' \<inter> (open_handles k - object_handles s) = {})"

lemma held_store [simp]: "held (store_object v (s', k') p) = (held p)(v := object_handles s')"
  by (auto simp: held_def store_object_def fun_eq_iff)

lemma owned_store:
  assumes "owned p" "objects p v = Some s" "tidy (s, system p) (s', k')"
  shows "owned (store_object v (s', k') p)"
proof -
  have held: "held p v = object_handles s" using assms(2) by (simp add: held_def)
  then have "object_handles s \<subseteq> open_handles (system p)"
    using assms(1) by (auto simp: owned_def shares_def)
  then show ?thesis
    using assms(1,3) shares_update [of "held p" "open_handles (system p)" "object_handles s'" v]
    by (simp add: owned_def tidy_def held) (simp add: store_object_def)
qed

lemma tidy_close: "tidy sk (close_socket sk)"
  by (cases sk) (auto simp: tidy_def close_socket_def close_native_socket_def object_handles_def is_open_def)

lemma tidy_same: "handle s' = handle s \<Longrightarrow> open_handles k' = open_handles k \<Longrightarrow>
    stray_closes k' = stray_closes k \<Longrightarrow> tidy (s, k) (s', k')"
  by (auto simp: tidy_def object_handles_def is_open_def)

lemma close_socket_closed:
  "close_socket (s, k) = (s', k') \<Longrightarrow> handle s' = invalid_native_socket \<and>
     (object_handles s \<subseteq> open_handles k \<longrightarrow>
        stray_closes k' = stray_closes k \<and> open_handles k' = open_handles k - object_handles s)"
  by (auto simp: close_socket_def close_native_socket_def object_handles_def is_open_def split: if_splits)

lemma tidy_open:
  assumes "grants (snd (close_socket (s, k))) opened" "open_socket P opened family (s, k) = (ok, s', k')"
  shows "tidy (s, k) (s', k')"
proof -
  obtain s1 k1 where closed: "close_socket (s, k) = (s1, k1)" by fastforce
  note effect = close_socket_closed [OF closed]
  show ?thesis
  proof (cases opened)
    case (Answer h)
    then have "s' = s1\<lparr>object_family := family, handle := h\<rparr>"
      "k' = k1\<lparr>open_handles := insert h (open_handles k1)\<rparr>" "0 \<le> h" "h \<notin> open_handles k1"
      using assms closed by (simp_all add: open_socket_def grants_def)
    moreover from this have "object_handles s' = {h}"
      by (simp add: object_handles_def is_open_def invalid_native_socket_def)
    ultimately show ?thesis using effect by (auto simp: tidy_def)
  next
    case (Fails e)
    then have "handle s' = invalid_native_socket" "open_handles k' = open_handles k1" "stray_closes k' = stray_closes k1"
      using assms(2) closed by (auto simp: open_socket_def record_error_def Let_def)
    moreover from this have "object_handles s' = {}" by (simp add: object_handles_def is_open_def)
    ultimately show ?thesis using effect by (simp add: tidy_def)
  qed
qed

lemma tidy_bind:
  assumes "grants k opened" "bind_socket P T opened bound host port (s, k) = (ok, s', k')"
  shows "tidy (s, k) (s', k')"
proof (cases "is_open s \<or> \<not> fst (from_host_and_port T host port)")
  case True
  then show ?thesis
    using assms(2) by (auto simp: bind_socket_def record_error_def Let_def split_beta
        split: answer.splits if_splits intro!: tidy_same)
next
  case False
  define family where "family = endpoint_family (snd (from_host_and_port T host port))"
  obtain done1 s1 k1 where opens: "open_socket P opened family (s, k) = (done1, s1, k1)"
    using prod_cases3 by blast
  have "close_socket (s, k) = (s, k)" using False by (simp add: close_socket_def is_open_def)
  then have "tidy (s, k) (s1, k1)" using tidy_open [OF _ opens] assms(1) by simp
  moreover have "handle s' = handle s1 \<and> open_handles k' = open_handles k1 \<and> stray_closes k' = stray_closes k1"
    using assms(2) False opens unfolding family_def
    by (auto simp: bind_socket_def record_error_def Let_def split_beta split: answer.splits if_splits)
  moreover from this have "object_handles s' = object_handles s1" by (simp add: object_handles_def is_open_def)
  ultimately show ?thesis by (simp add: tidy_def)
qed

lemma tidy_calls:
  "send_native P sent (s, k) = (n, s', k') \<Longrightarrow> tidy (s, k) (s', k')"
  "receive_native P arrived maximum before (s, k) = (r, s', k') \<Longrightarrow> tidy (s, k) (s', k')"
  "set_native_timeout P configured ms (s, k) = (ok, s', k') \<Longrightarrow> tidy (s, k) (s', k')"
  by (auto simp: send_native_def receive_native_def set_native_timeout_def record_error_def Let_def split_beta
      split: answer.splits if_splits intro!: tidy_same)

lemma owned_moved:
  assumes "owned p" "v \<noteq> w" "objects p w = Some other" "move_socket other = (s', other')"
    and "open_handles k' = open_handles (system p) - held p v" "stray_closes k' = stray_closes (system p)"
  shows "owned (store_object v (s', k') (store_object w (other', k'') p))"
proof -
  have "object_handles s' = held p w" "object_handles other' = {}"
    using assms(3,4) by (auto simp: move_socket_def held_def object_handles_def is_open_def)
  then show ?thesis
    using assms(1,2,5,6) shares_move [of "held p" "open_handles (system p)" v w]
    by (simp add: owned_def) (simp add: store_object_def)
qed

lemma owned_destroyed:
  assumes "owned p" "objects p v = Some s" "close_socket (s, system p) = (s', k')"
  shows "owned (p\<lparr>objects := (objects p)(v := None), system := k'\<rparr>)"
proof -
  have v: "held p v = object_handles s" using assms(2) by (simp add: held_def)
  then have "object_handles s \<subseteq> open_handles (system p)"
    using assms(1) by (auto simp: owned_def shares_def)
  moreover have "held (p\<lparr>objects := (objects p)(v := None), system := k'\<rparr>) = (held p)(v := {})"
    by (auto simp: held_def fun_eq_iff)
  ultimately show ?thesis
    using assms(1) close_socket_closed [OF assms(3)] shares_update [of "held p" "open_handles (system p)" "{}" v]
    by (simp add: owned_def v)
qed

lemma owned_step: "socket_step P T p p' \<Longrightarrow> owned p \<Longrightarrow> owned p'"
proof (induction rule: socket_step.induct)
  case (construct p v)
  have "object_handles new_socket = {}" by (simp add: new_socket_def object_handles_def is_open_def)
  moreover have "held p v = {}" using construct by (simp add: held_def)
  ultimately show ?case
    using construct shares_update [of "held p" "open_handles (system p)" "{}" v]
    by (simp add: owned_def) (simp add: store_object_def)
next
  case (move_constructs p v w other s' other')
  then have "v \<noteq> w" "held p v = {}" by (auto simp: held_def)
  then show ?case using move_constructs by (intro owned_moved [of _ v w other]) auto
next
  case (move_assigns p v s w other s' other' k')
  obtain s1 where closed: "close_socket (s, system p) = (s1, k')" "move_socket other = (s', other')"
    using move_assigns(4) by (auto simp: move_assign_socket_def split: prod.splits)
  have v: "held p v = object_handles s" using move_assigns(1) by (simp add: held_def)
  then have "object_handles s \<subseteq> open_handles (system p)"
    using move_assigns(5) by (auto simp: owned_def shares_def)
  then show ?case
    using move_assigns closed close_socket_closed [OF closed(1)] v by (intro owned_moved [of _ v w other]) auto
next
  case (opens p v s opened family ok s' k')
  then show ?case using owned_store tidy_open by blast
next
  case (binds p v s opened bound host port ok s' k')
  then show ?case using owned_store tidy_bind by blast
next
  case (closes p v s)
  then show ?case using owned_store [of p v s] tidy_close [of "(s, system p)"] by (metis prod.collapse)
next
  case (destroys p v s s' k')
  then show ?case using owned_destroyed by blast
next
  case (sends p v s sent n s' k')
  then show ?case using owned_store tidy_calls(1) by blast
next
  case (receives p v s arrived maximum before r s' k')
  show ?case by (rule owned_store [OF receives(3,1) tidy_calls(2) [OF receives(2)]])
next
  case (times p v s configured ms ok s' k')
  show ?case by (rule owned_store [OF times(3,1) tidy_calls(3) [OF times(2)]])
qed

lemma owned_run: "socket_run P T p \<Longrightarrow> owned p"
proof (induction rule: socket_run.induct)
  case begin_run
  have "held empty_program = (\<lambda>v. {})" by (simp add: held_def empty_program_def fun_eq_iff)
  then show ?case by (simp add: owned_def shares_def empty_program_def fresh_kernel_def)
next
  case (step_run p p')
  then show ?case using owned_step by blast
qed

text \<open>
  C12. Sockets are never leaked, shared or closed twice: however a program constructs, opens, binds, uses,
  moves, closes and destroys socket objects, and whatever the system answers, no close ever names a
  handle that is not open, no two objects have the same handle, and the handles that are open are those
  the objects hold; when the last object is gone none is open.
\<close>
theorem sockets_have_one_owner:
  assumes "socket_run P T p"
  shows "stray_closes (system p) = 0 \<and>
    open_handles (system p) = {handle s | v s. objects p v = Some s \<and> is_open s} \<and>
    (\<forall>v w s t. objects p v = Some s \<and> objects p w = Some t \<and> is_open s \<and> handle s = handle t \<longrightarrow> v = w)"
proof -
  have "owned p" using assms by (rule owned_run)
  then have stray: "stray_closes (system p) = 0" and all: "open_handles (system p) = (\<Union>v. held p v)"
    and disjoint: "\<And>v w. v \<noteq> w \<Longrightarrow> held p v \<inter> held p w = {}"
    by (auto simp: owned_def shares_def)
  have held: "h \<in> held p v \<longleftrightarrow> (\<exists>s. objects p v = Some s \<and> is_open s \<and> handle s = h)" for h v
    by (auto simp: held_def object_handles_def split: option.splits if_splits)
  have "v = w" if "objects p v = Some s \<and> objects p w = Some t \<and> is_open s \<and> handle s = handle t" for v w s t
  proof -
    have "is_open t" using that by (simp add: is_open_def)
    then have "handle s \<in> held p v" "handle s \<in> held p w" using that unfolding held by metis+
    then show ?thesis using disjoint [of v w] by blast
  qed
  moreover have "open_handles (system p) = {handle s | v s. objects p v = Some s \<and> is_open s}"
  proof -
    have "h \<in> (\<Union>v. held p v) \<longleftrightarrow> (\<exists>v s. h = handle s \<and> objects p v = Some s \<and> is_open s)" for h
      unfolding UN_iff held by blast
    then show ?thesis by (simp only: all set_eq_iff mem_Collect_eq simp_thms)
  qed
  ultimately show ?thesis using stray by blast
qed

text \<open>A program that opens a socket, moves it into a second object, and destroys both.\<close>

definition sample_platform :: platform where
  "sample_platform = \<lparr>error_texts = (\<lambda>n. ''error''), would_block_code = 11, again_code = 11\<rparr>"

lemma sample_socket_run:
  "\<exists>p. socket_run sample_platform system_texts p \<and> objects p 0 = Some new_socket \<and>
     objects p 1 = Some (new_socket\<lparr>handle := 3\<rparr>)"
proof -
  let ?p1 = "store_object 0 (new_socket, system empty_program) empty_program"
  have 1: "socket_run sample_platform system_texts ?p1"
    by (intro step_run [OF begin_run] construct) (simp add: empty_program_def)
  obtain ok s k where o: "open_socket sample_platform (Answer 3) Inet (new_socket, system ?p1) = (ok, s, k)"
    using prod_cases3 by blast
  then have sk: "s = new_socket\<lparr>handle := 3\<rparr>"
    by (auto simp: open_socket_def close_socket_def new_socket_def)
  let ?p2 = "store_object 0 (s, k) ?p1"
  have 2: "socket_run sample_platform system_texts ?p2"
    by (rule step_run [OF 1 opens [OF _ _ o]])
      (simp_all add: store_object_def grants_def empty_program_def fresh_kernel_def close_socket_def new_socket_def)
  obtain s' t where m: "move_socket s = (s', t)" by fastforce
  then have st: "s' = new_socket\<lparr>handle := 3\<rparr>" "t = new_socket" by (auto simp: move_socket_def sk new_socket_def)
  have "socket_run sample_platform system_texts (store_object 1 (s', system ?p2) (store_object 0 (t, system ?p2) ?p2))"
    by (rule step_run [OF 2 move_constructs [OF _ _ m]]) (simp_all add: store_object_def empty_program_def)
  then show ?thesis by (intro exI conjI, assumption) (simp_all add: st store_object_def)
qed

theorem sockets_have_one_owner_witness:
  "\<exists>p. socket_run sample_platform system_texts p \<and> objects p 0 = Some new_socket \<and>
     3 \<in> open_handles (system p) \<and> stray_closes (system p) = 0"
proof -
  obtain p where p: "socket_run sample_platform system_texts p" "objects p 0 = Some new_socket"
    "objects p 1 = Some (new_socket\<lparr>handle := 3\<rparr>)"
    using sample_socket_run by blast
  have opened: "is_open (new_socket\<lparr>handle := 3\<rparr>)" by (simp add: is_open_def invalid_native_socket_def)
  have "handle (new_socket\<lparr>handle := 3\<rparr>) \<in> open_handles (system p)"
    unfolding sockets_have_one_owner [OF p(1), THEN conjunct2, THEN conjunct1] using p(3) opened by blast
  moreover have "stray_closes (system p) = 0" using sockets_have_one_owner [OF p(1)] by (rule conjunct1)
  ultimately show ?thesis using p(1,2) by (intro exI [of _ p]) simp
qed

section \<open>Scripted sockets\<close>

text \<open>
  The socket of \<open>Udp_Socket\<close> receives what the events of its script say; this is the event of an answer
  of \<open>recvfrom\<close>. A receive on an open socket is a receive of the script, for a buffer that takes the datagram
  (the 70000 bytes of the code take any), and a send that the system accepts is one of the outbox.
\<close>

definition event_of_answer :: "platform \<Rightarrow> (bytes \<times> endpoint \<times> nat) answer \<Rightarrow> socket_event" where
  "event_of_answer P arrived =
     (case arrived of
        Answer (datagram, address, len) \<Rightarrow> Datagram datagram (from_sockaddr (Some address) len)
      | Fails e \<Rightarrow> if socket_error_is_would_block P e then WouldBlock else SocketFailure)"

lemma receive_native_is_scripted:
  assumes "is_open s" "receive_native P arrived maximum ([], Unbound) (s, k) = (r, s', k')"
    and "\<And>datagram address len. arrived = Answer (datagram, address, len) \<Longrightarrow> length datagram \<le> maximum"
    and "inbox sk = event_of_answer P arrived # evs"
  shows "receive_from sk = Returned r (sk\<lparr>inbox := evs\<rparr>)" "is_open s'"
  using assms by (auto simp: receive_native_def receive_from_def event_of_answer_def record_error_def is_open_def
      Let_def split: answer.splits if_splits)

text \<open>The seconds and microseconds of a time-out are its milliseconds, in the range the system takes.\<close>

lemma receive_timeout_exact:
  assumes "is_open s" "0 \<le> ms" "set_native_timeout P (Answer ()) ms (s, k) = (ok, s', k')"
  shows "\<exists>sec usec. receive_timeouts k' (handle s) = (sec, usec) \<and> sec * 1000000 + usec = ms * 1000 \<and>
    0 \<le> usec \<and> usec < 1000000"
proof -
  have "receive_timeouts k' (handle s) = (ms div 1000, ms mod 1000 * 1000)"
    using assms by (auto simp: set_native_timeout_def signed_divide_int_def signed_modulo_int_def sgn_if)
  moreover have "ms div 1000 * 1000000 + ms mod 1000 * 1000 = ms * 1000"
    using div_mult_mod_eq [of ms 1000] by linarith
  ultimately show ?thesis by simp
qed

text \<open>A time-out of zero means that receives block for ever.\<close>

lemma zero_timeout_blocks:
  "is_open s \<Longrightarrow> set_native_timeout P (Answer ()) 0 (s, k) = (ok, s', k') \<Longrightarrow>
     receive_timeouts k' (handle s) = (0, 0)"
  by (auto simp: set_native_timeout_def)

end
