(* ===== verification/Server_Threads.thy ===== *)
theory Server_Threads
  imports Reference_Server Native_Sockets
begin

text \<open>
  The life of \<open>ReferenceServer\<close>: \<open>start\<close>, \<open>stop\<close>, the accept thread and the detached threads of the
  requests, as one step relation over the object, the threads, the files and the handles of the system,
  in any interleaving. A step is what one thread does between two points where it can be delayed; the
  reading of the files at the start of a request and the writing at its end are one step each. The adapter's
  \<open>start\<close> makes a new server object and destroys the one before, which stops it, so \<open>starts\<close> is
  enabled only when there is no server.
\<close>

section \<open>Sockets of the server\<close>

definition open_transfer_socket ::
  "platform \<Rightarrow> address_texts \<Rightarrow> engine_config \<Rightarrow> int answer \<Rightarrow> unit answer \<Rightarrow> unit answer \<Rightarrow> endpoint \<Rightarrow>
   kernel \<Rightarrow> bool \<times> socket_object \<times> kernel" where
  "open_transfer_socket P T config opened bound timed client k =
     (let (ok, s, k) = open_socket P opened (endpoint_family client) (new_socket, k)
      in if \<not> ok then (False, s, k)
         else
           let (ok, s, k) = bind_socket P T opened bound (if is_ipv6 client then ''::'' else ''0.0.0.0'') 0 (s, k)
           in if \<not> ok then (False, s, k)
              else (True, snd (set_native_timeout P timed (int (retransmission_timeout config)) (s, k))))"

record server_object =
  served_root :: string
  server_host :: string
  listen_socket :: socket_object
  running :: bool
  active_handlers :: int

definition fresh_server :: server_object where
  "fresh_server = \<lparr>served_root = [], server_host = [], listen_socket = new_socket, running = False,
     active_handlers = 0\<rparr>"

text \<open>
  \<open>start\<close>, with the answers of \<open>socket\<close>, \<open>bind\<close>, \<open>setsockopt\<close> and \<open>getsockname\<close>; the accept thread is
  started exactly when \<open>running\<close> is set.
\<close>

record server_answers =
  socket_answer :: "int answer"
  bind_answer :: "unit answer"
  timeout_answer :: "unit answer"
  name_answer :: "(endpoint \<times> nat) answer"

definition start_reference_server ::
  "platform \<Rightarrow> address_texts \<Rightarrow> server_answers \<Rightarrow> string \<Rightarrow> string \<Rightarrow> server_object \<times> kernel \<Rightarrow>
   endpoint \<times> server_object \<times> kernel" where
  "start_reference_server P T w dir host sk =
     (let (srv, k) = sk;
          srv = srv\<lparr>served_root := dir, server_host := host\<rparr>;
          (ok, s, k) = bind_socket P T (socket_answer w) (bind_answer w) host 0 (listen_socket srv, k)
      in if \<not> ok then (Unbound, srv\<lparr>listen_socket := s\<rparr>, k)
         else
           let (_, s, k) = set_native_timeout P (timeout_answer w) 200 (s, k)
           in (bound_endpoint (name_answer w), srv\<lparr>listen_socket := s, running := True\<rparr>, k))"

text \<open>What the adapter returns for the endpoint the server is bound to.\<close>

definition adapter_configuration :: "address_texts \<Rightarrow> endpoint \<Rightarrow> string \<times> u16" where
  "adapter_configuration T bound = (endpoint_host T bound, endpoint_port bound)"

section \<open>What a request writes\<close>

text \<open>The file a handler writes at its end, if it does, and the bytes.\<close>

definition handler_upload ::
  "engine_config \<Rightarrow> file_system \<Rightarrow> string \<Rightarrow> tftp_packet \<Rightarrow> endpoint \<Rightarrow> udp_socket \<Rightarrow> (string \<times> bytes) option" where
  "handler_upload config fs dir request client sk =
     (if opcode request \<noteq> WriteRequest then None
      else case resolve_served_path fs dir (filename request) of
             None \<Rightarrow> None
           | Some path \<Rightarrow>
               if reject_overwrite_on_write_request config \<and> file_exists fs path then None
               else
                 let (params, oack_options) =
                       negotiate_server_options request config None (engine_default_parameters config);
                     opening = (if oack_options \<noteq> [] then serialize_option_acknowledgement oack_options
                                else serialize_acknowledgement 0)
                 in case run_data_receiver (send_to (set_receive_timeout sk (retransmission_timeout config))
                           opening client) client params config [] 1 None of
                      Returned (data_outcome, received_bytes) _ \<Rightarrow>
                        if completed_successfully data_outcome then
                          Some (path, if mode_is_netascii (transfer_mode request)
                                      then decode_netascii_to_local received_bytes else received_bytes)
                        else None
                    | _ \<Rightarrow> None)"

fun apply_upload :: "(string \<times> bytes) option \<Rightarrow> file_system \<Rightarrow> file_system" where
  "apply_upload None fs = fs"
| "apply_upload (Some (path, data)) fs = fst (write_entire_file fs path data)"

lemma handle_request_upload:
  assumes "opcode request \<in> {ReadRequest, WriteRequest}"
    and "handle_request config fs dir request client (Some sk) = Returned fs' sk'"
  shows "fs' = apply_upload (handler_upload config fs dir request client sk) fs"
proof (cases "opcode request = WriteRequest")
  case True
  then show ?thesis using assms(2)
    by (auto simp: handle_request_def handle_on_socket_def handler_upload_def reply_error_def serve_write_def
        finish_upload_def Let_def split_beta split: option.splits if_splits result.splits
        elim!: bind_result.elims)
next
  case False
  then have "handle_on_socket config fs dir request client sk2 = Returned fs' sk' \<Longrightarrow> fs' = fs" for sk2
    using serve_read_keeps_files [of fs config request _ client sk2] assms(1)
    by (auto simp: handle_on_socket_def reply_error_def split: option.splits) (metis handler_file_system_Returned)
  then show ?thesis using False assms(2) by (simp add: handle_request_def handler_upload_def)
qed

section \<open>The threads\<close>

datatype accept_thread = NotStarted | AtLoopHead | AtReceive | AtDrain | AcceptEnded

datatype main_thread = NoServer | ServerUp | Stopping

text \<open>
  A thread of a request: started, on its socket with the result its run will have and the file it will
  write, or at the decrement of the counter.
\<close>

datatype handler =
    Starting tftp_packet endpoint
  | Serving socket_object "file_system result" "(string \<times> bytes) option"
  | Returning

record server_state =
  the_server :: server_object
  main_thread :: main_thread
  accept_thread :: accept_thread
  handlers :: "nat \<Rightarrow> handler option"
  served_files :: file_system
  machine :: kernel
  accepted :: "(string \<times> tftp_packet) list"
  terminated :: bool

definition no_server :: "file_system \<Rightarrow> server_state" where
  "no_server fs = \<lparr>the_server = fresh_server, main_thread = NoServer, accept_thread = NotStarted,
     handlers = (\<lambda>_. None), served_files = fs, machine = fresh_kernel, accepted = [], terminated = False\<rparr>"

definition set_running :: "bool \<Rightarrow> server_object \<Rightarrow> server_object" where
  "set_running b srv = srv\<lparr>running := b\<rparr>"

definition count_handlers :: "int \<Rightarrow> server_object \<Rightarrow> server_object" where
  "count_handlers n srv = srv\<lparr>active_handlers := active_handlers srv + n\<rparr>"

text \<open>
  \<open>stop\<close> up to the point where it waits for the accept thread, and the adapter's \<open>stop\<close>, which does
  nothing without a server.
\<close>

definition begin_stop :: "server_state \<Rightarrow> server_state" where
  "begin_stop st = st\<lparr>the_server := set_running False (the_server st), main_thread := Stopping\<rparr>"

definition adapter_stop :: "server_state \<Rightarrow> server_state" where
  "adapter_stop st = (if main_thread st = ServerUp then begin_stop st else st)"

inductive server_step ::
  "platform \<Rightarrow> address_texts \<Rightarrow> engine_config \<Rightarrow> server_state \<Rightarrow> server_state \<Rightarrow> bool" for P T config where
  starts: "main_thread st = NoServer \<Longrightarrow> grants (machine st) (socket_answer w) \<Longrightarrow>
    start_reference_server P T w dir host (fresh_server, machine st) = (bound, srv, k) \<Longrightarrow>
    server_step P T config st (st\<lparr>the_server := srv, machine := k, main_thread := ServerUp,
      accept_thread := (if running srv then AtLoopHead else NotStarted)\<rparr>)"
| stop_begins: "main_thread st = ServerUp \<Longrightarrow>
    server_step P T config st (begin_stop st)"
| stop_ends: "main_thread st = Stopping \<Longrightarrow> accept_thread st \<in> {NotStarted, AcceptEnded} \<Longrightarrow>
    close_socket (listen_socket (the_server st), machine st) = (s, k) \<Longrightarrow>
    server_step P T config st (st\<lparr>the_server := (the_server st)\<lparr>listen_socket := s\<rparr>, machine := k,
      accept_thread := NotStarted, main_thread := NoServer\<rparr>)"
| accept_looks: "accept_thread st = AtLoopHead \<Longrightarrow>
    server_step P T config st
      (st\<lparr>accept_thread := (if running (the_server st) then AtReceive else AtDrain)\<rparr>)"
| accept_ignores: "accept_thread st = AtReceive \<Longrightarrow> accepted_request ev = None \<Longrightarrow>
    server_step P T config st (st\<lparr>accept_thread := AtLoopHead\<rparr>)"
| accept_hands_over: "accept_thread st = AtReceive \<Longrightarrow> accepted_request ev = Some (request, client) \<Longrightarrow>
    handlers st i = None \<Longrightarrow>
    server_step P T config st (st\<lparr>accept_thread := AtLoopHead,
      the_server := count_handlers 1 (the_server st),
      handlers := (handlers st)(i \<mapsto> Starting request client),
      accepted := accepted st @ [(served_root (the_server st), request)]\<rparr>)"
| accept_drained: "accept_thread st = AtDrain \<Longrightarrow> active_handlers (the_server st) \<le> 0 \<Longrightarrow>
    server_step P T config st (st\<lparr>accept_thread := AcceptEnded\<rparr>)"
| handler_opens: "handlers st i = Some (Starting request client) \<Longrightarrow> grants (machine st) opened \<Longrightarrow>
    open_transfer_socket P T config opened bound timed client (machine st) = (True, s, k) \<Longrightarrow>
    dir = served_root (the_server st) \<Longrightarrow>
    server_step P T config st (st\<lparr>machine := k, handlers := (handlers st)(i \<mapsto> Serving s
      (handle_request config (served_files st) dir request client (Some (fresh_socket evs)))
      (handler_upload config (served_files st) dir request client (fresh_socket evs)))\<rparr>)"
| handler_fails: "handlers st i = Some (Starting request client) \<Longrightarrow> grants (machine st) opened \<Longrightarrow>
    open_transfer_socket P T config opened bound timed client (machine st) = (False, s, k) \<Longrightarrow>
    close_socket (s, k) = (s', k') \<Longrightarrow>
    server_step P T config st (st\<lparr>machine := k', handlers := (handlers st)(i \<mapsto> Returning)\<rparr>)"
| handler_serves: "handlers st i = Some (Serving s (Returned fs sk) upload) \<Longrightarrow>
    close_socket (s, machine st) = (s', k) \<Longrightarrow>
    server_step P T config st (st\<lparr>machine := k, served_files := apply_upload upload (served_files st),
      handlers := (handlers st)(i \<mapsto> Returning)\<rparr>)"
| handler_raises: "handlers st i = Some (Serving s (Raised e sk) upload) \<Longrightarrow>
    server_step P T config st (st\<lparr>terminated := True\<rparr>)"
| handler_ends: "handlers st i = Some Returning \<Longrightarrow>
    server_step P T config st (st\<lparr>the_server := count_handlers (- 1) (the_server st),
      handlers := (handlers st)(i := None)\<rparr>)"

inductive server_run ::
  "platform \<Rightarrow> address_texts \<Rightarrow> engine_config \<Rightarrow> file_system \<Rightarrow> server_state \<Rightarrow> bool" for P T config fs where
  begin_server: "server_run P T config fs (no_server fs)"
| step_server: "server_run P T config fs st \<Longrightarrow> server_step P T config st st' \<Longrightarrow> server_run P T config fs st'"


lemma adapter_stop_steps: "adapter_stop st = st \<or> server_step P T config st (adapter_stop st)"
  unfolding adapter_stop_def using stop_begins by metis

text \<open>The destructor of a stopped server stops it once more, which does nothing.\<close>

lemma second_stop_is_void:
  assumes "close_socket (s, k) = (s', k')"
  shows "close_socket (s', k') = (s', k') \<and> set_running False (set_running False srv) = set_running False srv"
proof -
  have "handle s' = invalid_native_socket" using close_socket_closed [OF assms] by blast
  then show ?thesis by (simp add: close_socket_def set_running_def)
qed

text \<open>The adapters of a client find the endpoint again from the text the server's adapter returns.\<close>

context address_conversion
begin

lemma adapter_configuration_found:
  "endpoint_wf e \<Longrightarrow> endpoint_valid e \<Longrightarrow>
     from_host_and_port T (fst (adapter_configuration T e)) (snd (adapter_configuration T e)) = (True, e)"
  by (simp add: adapter_configuration_def host_round_trip)

lemma adapter_configuration_unbound: "snd (adapter_configuration T Unbound) = 0"
  by (simp add: adapter_configuration_def)

end

section \<open>Invariants\<close>

text \<open>The counter counts the handlers, and handlers exist only while the accept thread does.\<close>

definition threads_ok :: "server_state \<Rightarrow> bool" where
  "threads_ok st \<longleftrightarrow>
     finite (dom (handlers st)) \<and>
     active_handlers (the_server st) = int (card (dom (handlers st))) \<and>
     (accept_thread st \<notin> {NotStarted, AcceptEnded} \<or> handlers st = (\<lambda>_. None)) \<and>
     (\<not> running (the_server st) \<or> main_thread st = ServerUp) \<and>
     (accept_thread st \<notin> {AtLoopHead, AtReceive} \<or> running (the_server st) \<or> main_thread st = Stopping) \<and>
     (accept_thread st \<notin> {AtDrain, AcceptEnded} \<or> main_thread st = Stopping) \<and>
     (main_thread st \<noteq> NoServer \<or> accept_thread st = NotStarted)"

lemma threads_ok_alive:
  "threads_ok st \<Longrightarrow> handlers st i = Some h \<Longrightarrow> accept_thread st \<notin> {NotStarted, AcceptEnded}"
  unfolding threads_ok_def by (metis option.distinct(1))

lemma threads_ok_replaced:
  assumes "threads_ok st" "handlers st i = Some h" "handlers st' = (handlers st)(i \<mapsto> h')"
    "the_server st' = the_server st" "accept_thread st' = accept_thread st" "main_thread st' = main_thread st"
  shows "threads_ok st'"
proof -
  have "dom (handlers st') = dom (handlers st)" using assms(2,3) by auto
  then show ?thesis
    using assms(1,4,5,6) threads_ok_alive [OF assms(1,2)] unfolding threads_ok_def by simp
qed

lemma start_server_fields:
  assumes "start_reference_server P T w dir host (fresh_server, k) = (bound, srv, k')"
  shows "active_handlers srv = 0" "served_root srv = dir"
  using assms by (auto simp: start_reference_server_def fresh_server_def Let_def split: prod.splits if_splits)

lemma threads_step: "server_step P T config st st' \<Longrightarrow> threads_ok st \<Longrightarrow> threads_ok st'"
proof (induction rule: server_step.induct)
  case (starts st w dir host bound srv k)
  have "accept_thread st = NotStarted" using starts(1,4) unfolding threads_ok_def by blast
  then have "handlers st = (\<lambda>_. None)" using starts(4) unfolding threads_ok_def by blast
  then show ?case using start_server_fields(1) [OF starts(3)] by (simp add: threads_ok_def)
next
  case (accept_hands_over st ev request client i)
  have "dom ((handlers st)(i \<mapsto> Starting request client)) = insert i (dom (handlers st))" "i \<notin> dom (handlers st)"
    using accept_hands_over(3) by auto
  then show ?case using accept_hands_over by (simp add: threads_ok_def count_handlers_def)
next
  case (accept_drained st)
  then have "card (dom (handlers st)) = 0" "finite (dom (handlers st))" by (auto simp: threads_ok_def)
  then have "handlers st = (\<lambda>_. None)" by (simp add: dom_eq_empty_conv)
  then show ?case using accept_drained by (auto simp: threads_ok_def)
next
  case (handler_ends st i)
  have "i \<in> dom (handlers st)" using handler_ends(1) by (simp add: domI)
  moreover have "finite (dom (handlers st))" using handler_ends(2) unfolding threads_ok_def by (rule conjunct1)
  ultimately obtain n where card: "card (dom (handlers st) - {i}) = n" "card (dom (handlers st)) = Suc n"
    by (metis card.remove)
  have "accept_thread st \<notin> {NotStarted, AcceptEnded}" by (rule threads_ok_alive [OF handler_ends(2,1)])
  then show ?case using handler_ends(2) card unfolding threads_ok_def by (simp add: count_handlers_def)
next
  case (handler_opens st i request client opened bound timed s k dir evs)
  show ?case by (rule threads_ok_replaced [OF handler_opens(5,1)]) simp_all
next
  case (handler_fails st i request client opened bound timed s k s' k')
  show ?case by (rule threads_ok_replaced [OF handler_fails(5,1)]) simp_all
next
  case (handler_serves st i s fs sk upload s' k)
  show ?case by (rule threads_ok_replaced [OF handler_serves(3,1)]) simp_all
qed (auto simp: threads_ok_def begin_stop_def set_running_def)

text \<open>The handles: the listening socket has place 0, the handler \<open>i\<close> place \<open>i + 1\<close>.\<close>

definition handler_handles :: "handler option \<Rightarrow> int set" where
  "handler_handles h = (case h of Some (Serving s _ _) \<Rightarrow> object_handles s | _ \<Rightarrow> {})"

definition server_sockets :: "server_state \<Rightarrow> nat \<Rightarrow> int set" where
  "server_sockets st n =
     (case n of 0 \<Rightarrow> object_handles (listen_socket (the_server st)) | Suc i \<Rightarrow> handler_handles (handlers st i))"

definition sockets_ok :: "server_state \<Rightarrow> bool" where
  "sockets_ok st \<longleftrightarrow>
     stray_closes (machine st) = 0 \<and> shares (server_sockets st) (open_handles (machine st)) \<and>
     (main_thread st \<noteq> NoServer \<or> object_handles (listen_socket (the_server st)) = {})"

lemma shares_tidy:
  assumes "shares H (open_handles k)" "H n = object_handles s" "tidy (s, k) (s', k')"
  shows "shares (H(n := object_handles s')) (open_handles k')" "stray_closes k' = stray_closes k"
proof -
  have "object_handles s \<subseteq> open_handles k" using assms(1,2) by (auto simp: shares_def)
  then show "stray_closes k' = stray_closes k" using assms(3) by (simp add: tidy_def)
  show "shares (H(n := object_handles s')) (open_handles k')"
    using \<open>object_handles s \<subseteq> open_handles k\<close> assms shares_update [OF assms(1), of "object_handles s'" n]
    by (simp add: tidy_def)
qed

lemma tidy_trans: "tidy a b \<Longrightarrow> tidy b c \<Longrightarrow> tidy a c"
  unfolding tidy_def by (cases a; cases b; cases c) (simp; blast)

lemma tidy_bind_open:
  assumes "is_open s" "bind_socket P T opened bound host port (s, k) = (ok, s', k')"
  shows "tidy (s, k) (s', k')"
proof (rule tidy_bind)
  show "grants k (Fails 0)" by (simp add: grants_def)
  have "bind_socket P T (Fails 0) bound host port (s, k) = bind_socket P T opened bound host port (s, k)"
    using assms(1) by (simp add: bind_socket_def split_beta)
  then show "bind_socket P T (Fails 0) bound host port (s, k) = (ok, s', k')" using assms(2) by simp
qed

lemma new_socket_handles [simp]: "object_handles new_socket = {}"
  by (simp add: new_socket_def object_handles_def is_open_def)

lemma tidy_start:
  assumes "grants k (socket_answer w)"
    and "start_reference_server P T w dir host (fresh_server, k) = (bound, srv, k')"
  shows "tidy (new_socket, k) (listen_socket srv, k')"
proof -
  obtain ok s k1 where b: "bind_socket P T (socket_answer w) (bind_answer w) host 0 (new_socket, k) = (ok, s, k1)"
    using prod_cases3 by blast
  obtain t s2 k2 where t: "set_native_timeout P (timeout_answer w) 200 (s, k1) = (t, s2, k2)"
    using prod_cases3 by blast
  have "tidy (new_socket, k) (s, k1)" "tidy (s, k1) (s2, k2)"
    using tidy_bind [OF assms(1) b] tidy_calls(3) [OF t] .
  then show ?thesis
    using assms(2) b t tidy_trans [of "(new_socket, k)" "(s, k1)" "(s2, k2)"]
    by (auto simp: start_reference_server_def fresh_server_def Let_def split: if_splits)
qed

lemma tidy_open_transfer:
  assumes "grants k opened" "open_transfer_socket P T config opened bound timed client k = (ok, s', k')"
  shows "tidy (new_socket, k) (s', k')"
proof -
  obtain ok1 s1 k1 where o: "open_socket P opened (endpoint_family client) (new_socket, k) = (ok1, s1, k1)"
    using prod_cases3 by blast
  have "close_socket (new_socket, k) = (new_socket, k)" by (simp add: close_socket_def new_socket_def)
  then have t1: "tidy (new_socket, k) (s1, k1)" using tidy_open [OF _ o] assms(1) by simp
  show ?thesis
  proof (cases ok1)
    case True
    then have s1: "is_open s1"
      using o assms(1) by (auto simp: open_socket_def is_open_def grants_def invalid_native_socket_def
          Let_def split: answer.splits prod.splits)
    let ?host = "if is_ipv6 client then ''::'' else ''0.0.0.0''"
    obtain ok2 s2 k2 where b: "bind_socket P T opened bound ?host 0 (s1, k1) = (ok2, s2, k2)"
      using prod_cases3 by blast
    obtain t s3 k3 where t: "set_native_timeout P timed (int (retransmission_timeout config)) (s2, k2) = (t, s3, k3)"
      using prod_cases3 by blast
    have "tidy (new_socket, k) (s2, k2)" "tidy (new_socket, k) (s3, k3)"
      using tidy_trans [OF t1 tidy_bind_open [OF s1 b]] tidy_trans tidy_calls(3) [OF t] by blast+
    then show ?thesis using assms(2) o True b t by (auto simp: open_transfer_socket_def split: if_splits)
  next
    case False
    then show ?thesis using assms(2) o t1 by (simp add: open_transfer_socket_def)
  qed
qed


lemma server_sockets_fields [simp]:
  "server_sockets (st\<lparr>accept_thread := a\<rparr>) = server_sockets st"
  "server_sockets (st\<lparr>terminated := b\<rparr>) = server_sockets st"
  by (auto simp: server_sockets_def fun_eq_iff split: nat.split)

lemma sockets_ok_tidy:
  assumes "sockets_ok st" "server_sockets st n = object_handles s" "tidy (s, machine st) (s', k')"
    and "server_sockets st' = (server_sockets st)(n := object_handles s')" "machine st' = k'"
    and "main_thread st' \<noteq> NoServer \<or> object_handles (listen_socket (the_server st')) = {}"
  shows "sockets_ok st'"
  using assms shares_tidy [of "server_sockets st" "machine st" n s s' k'] by (simp add: sockets_ok_def)

lemma sockets_ok_same:
  assumes "sockets_ok st" "server_sockets st' = server_sockets st" "machine st' = machine st"
    and "main_thread st' \<noteq> NoServer \<or> main_thread st = NoServer"
  shows "sockets_ok st'"
proof -
  have "object_handles (listen_socket (the_server st')) = object_handles (listen_socket (the_server st))"
    using fun_cong [OF assms(2), of 0] by (simp add: server_sockets_def)
  then show ?thesis using assms by (auto simp: sockets_ok_def)
qed

lemma listening_handles: "sockets_ok st \<Longrightarrow> main_thread st' = main_thread st \<Longrightarrow> the_server st' = the_server st \<Longrightarrow>
    main_thread st' \<noteq> NoServer \<or> object_handles (listen_socket (the_server st')) = {}"
  by (auto simp: sockets_ok_def)

lemma closed_handles: "close_socket (s, k) = (s', k') \<Longrightarrow> object_handles s' = {}"
  using close_socket_closed [of s k s' k'] by (simp add: object_handles_def is_open_def)

lemma sockets_step: "server_step P T config st st' \<Longrightarrow> sockets_ok st \<Longrightarrow> sockets_ok st'"
proof (induction rule: server_step.induct)
  case (starts st w dir host bound srv k)
  have "server_sockets st 0 = object_handles new_socket" using starts(1,4) by (auto simp: sockets_ok_def server_sockets_def)
  then show ?case
    by (rule sockets_ok_tidy [OF starts(4) _ tidy_start [OF starts(2,3)]])
      (auto simp: server_sockets_def fun_eq_iff split: nat.split)
next
  case (stop_ends st s k)
  have "server_sockets st 0 = object_handles (listen_socket (the_server st))" by (simp add: server_sockets_def)
  moreover have "tidy (listen_socket (the_server st), machine st) (s, k)"
    using tidy_close [of "(listen_socket (the_server st), machine st)"] stop_ends(3) by simp
  ultimately show ?case
    by (rule sockets_ok_tidy [OF stop_ends(4)])
      (use closed_handles [OF stop_ends(3)] in \<open>auto simp: server_sockets_def fun_eq_iff split: nat.split\<close>)
next
  case (handler_opens st i request client opened bound timed s k dir evs)
  have "server_sockets st (Suc i) = object_handles new_socket"
    using handler_opens(1) by (simp add: server_sockets_def handler_handles_def)
  then show ?case
    by (rule sockets_ok_tidy [OF handler_opens(5) _ tidy_open_transfer [OF handler_opens(2,3)]])
      (use listening_handles [OF handler_opens(5)] in
        \<open>auto simp: server_sockets_def handler_handles_def fun_eq_iff split: nat.split\<close>)
next
  case (handler_fails st i request client opened bound timed s k s' k')
  have place: "server_sockets st (Suc i) = object_handles new_socket"
    using handler_fails(1) by (simp add: server_sockets_def handler_handles_def)
  have "tidy (new_socket, machine st) (s', k')"
    using tidy_trans [OF tidy_open_transfer [OF handler_fails(2,3)]] tidy_close [of "(s, k)"] handler_fails(4) by simp
  then show ?case
    by (rule sockets_ok_tidy [OF handler_fails(5) place])
      (use listening_handles [OF handler_fails(5)] closed_handles [OF handler_fails(4)] in
        \<open>auto simp: server_sockets_def handler_handles_def fun_eq_iff split: nat.split\<close>)
next
  case (handler_serves st i s fs sk upload s' k)
  have place: "server_sockets st (Suc i) = object_handles s"
    using handler_serves(1) by (simp add: server_sockets_def handler_handles_def)
  have "tidy (s, machine st) (s', k)"
    using tidy_close [of "(s, machine st)"] handler_serves(2) by simp
  then show ?case
    by (rule sockets_ok_tidy [OF handler_serves(3) place])
      (use listening_handles [OF handler_serves(3)] closed_handles [OF handler_serves(2)] in
        \<open>auto simp: server_sockets_def handler_handles_def fun_eq_iff split: nat.split\<close>)
next
  case (stop_begins st)
  show ?case by (rule sockets_ok_same [OF stop_begins(2)])
      (auto simp: server_sockets_def begin_stop_def set_running_def fun_eq_iff split: nat.split)
next
  case (accept_hands_over st ev request client i)
  then show ?case by (intro sockets_ok_same [OF accept_hands_over(4)])
      (auto simp: server_sockets_def count_handlers_def handler_handles_def fun_eq_iff split: nat.split)
next
  case (handler_ends st i)
  then show ?case by (intro sockets_ok_same [OF handler_ends(2)])
      (auto simp: server_sockets_def count_handlers_def handler_handles_def fun_eq_iff split: nat.split)
qed (simp_all add: sockets_ok_def)

lemma server_run_threads: "server_run P T config fs st \<Longrightarrow> threads_ok st"
proof (induction rule: server_run.induct)
  case begin_server
  show ?case by (simp add: threads_ok_def no_server_def fresh_server_def)
next
  case (step_server st st')
  then show ?case using threads_step by blast
qed

lemma server_run_sockets: "server_run P T config fs st \<Longrightarrow> sockets_ok st"
proof (induction rule: server_run.induct)
  case begin_server
  have "server_sockets (no_server fs) = (\<lambda>_. {})"
    by (auto simp: server_sockets_def no_server_def fresh_server_def handler_handles_def fun_eq_iff split: nat.split)
  then show ?case by (simp add: sockets_ok_def shares_def no_server_def fresh_kernel_def fresh_server_def)
next
  case (step_server st st')
  then show ?case using sockets_step by blast
qed


section \<open>Handlers never throw\<close>

fun no_exception :: "'a result \<Rightarrow> bool" where
  "no_exception (Raised e sk) \<longleftrightarrow> False"
| "no_exception _ \<longleftrightarrow> True"

lemma no_exception_bind: "no_exception res \<Longrightarrow> (\<And>a sk. no_exception (f a sk)) \<Longrightarrow> no_exception (bind_result res f)"
  by (cases res) auto

lemma no_exception_receive [simp]: "no_exception (receive_from_locked_peer sk peer)"
  by (cases "receive_from_locked_peer sk peer") auto

lemma sender_loop_never_throws: "no_exception (sender_loop env peer st sk)"
proof (induction "length (inbox sk)" arbitrary: st sk rule: less_induct)
  case less
  show ?case
  proof (cases "last_acked st < snd_total_blocks env")
    case True
    obtain st1 sends where tx: "sender_transmit env st = (st1, sends)" by fastforce
    note step = sender_loop_step [OF True tx, of peer sk]
    show ?thesis
    proof (cases "receive_from_locked_peer (send_all sk peer sends) peer")
      case (Returned r sk2)
      then have "length (inbox sk2) < length (inbox sk)" using receive_locked_shorter by fastforce
      then show ?thesis using less.hyps step Returned by (simp split: sum.split)
    qed (use step in simp_all)
  next
    case False
    then show ?thesis by (subst sender_loop.simps) simp
  qed
qed

lemma receiver_dally_never_throws: "no_exception (receiver_dally n i peer sk)"
  by (induction n arbitrary: sk) (auto split: result.split receive_result.split)

lemma receiver_loop_never_throws: "no_exception (receiver_loop env peer st None sk)"
proof (induction "length (inbox sk)" arbitrary: st sk rule: less_induct)
  case less
  show ?case
  proof (cases "receive_from_locked_peer sk peer")
    case (Returned r sk1)
    have "length (inbox sk1) < length (inbox sk)" by (rule receive_locked_shorter [OF Returned])
    then show ?thesis
      using less.hyps Returned
      by (subst receiver_loop.simps)
        (auto simp: Let_def split_beta receiver_dally_never_throws split: receiver_next.split intro!: no_exception_bind)
  qed (subst receiver_loop.simps, simp)+
qed

lemma legal_block_size:
  assumes "default_block_size config \<noteq> 0"
    and "negotiate_server_options request config fsize (engine_default_parameters config) = (params, oack)"
  shows "block_size params \<noteq> 0"
  using negotiated_parameters_legal [OF assms(2)] assms(1) by (auto simp: parameters_legal_def)

lemma await_oack_ack_never_throws: "no_exception (await_oack_ack n oack client sk)"
  by (induction n arbitrary: sk) (auto intro!: no_exception_bind split: receive_result.split)

lemma handle_request_never_throws:
  assumes "default_block_size config \<noteq> 0"
  shows "no_exception (handle_request config fs dir request client opened)"
proof -
  have sender: "no_exception (run_data_sender sk client payload params config 0)"
    if "block_size params \<noteq> 0" for sk payload params
    using that sender_loop_never_throws
    by (simp add: run_data_sender_def effective_total_blocks_def total_block_count_def)
  have "no_exception (serve_read config fs request file_bytes client sk)" for file_bytes sk
    using legal_block_size [OF assms] sender await_oack_ack_never_throws
    by (auto simp: serve_read_def Let_def split: prod.split intro!: no_exception_bind)
  moreover have "no_exception (serve_write config fs request path client sk)" for path sk
    using receiver_loop_never_throws
    by (auto simp: serve_write_def run_data_receiver_def Let_def split: prod.split intro!: no_exception_bind)
  ultimately show ?thesis
    by (auto simp: handle_request_def handle_on_socket_def reply_error_def split: option.split)
qed


section \<open>What the threads do to the files\<close>

text \<open>A change of a file is accounted for by an accepted write request that may make it.\<close>

definition may_change :: "engine_config \<Rightarrow> file_system \<Rightarrow> (string \<times> tftp_packet) list \<Rightarrow> string \<Rightarrow> bool" where
  "may_change config fs requests path \<longleftrightarrow>
     (\<exists>(dir, request) \<in> set requests. opcode request = WriteRequest \<and>
        resolve_served_path fs dir (filename request) = Some path \<and>
        \<not> (reject_overwrite_on_write_request config \<and> file_exists fs path))"

definition handler_ok :: "engine_config \<Rightarrow> file_system \<Rightarrow> server_state \<Rightarrow> handler \<Rightarrow> bool" where
  "handler_ok config fs st h =
     (case h of
        Starting request client \<Rightarrow> (served_root (the_server st), request) \<in> set (accepted st)
      | Serving s r upload \<Rightarrow> no_exception r \<and> pred_option (\<lambda>(path, data). may_change config fs (accepted st) path) upload
      | Returning \<Rightarrow> True)"

definition files_ok :: "engine_config \<Rightarrow> file_system \<Rightarrow> server_state \<Rightarrow> bool" where
  "files_ok config fs st \<longleftrightarrow>
     \<not> terminated st \<and>
     weakly_canonical (served_files st) = weakly_canonical fs \<and>
     (\<forall>q. file_exists fs q \<longrightarrow> file_exists (served_files st) q) \<and>
     (\<forall>q. contents (served_files st) q \<noteq> contents fs q \<longrightarrow> may_change config fs (accepted st) q) \<and>
     (\<forall>i h. handlers st i = Some h \<longrightarrow> handler_ok config fs st h)"

lemma may_change_more: "may_change config fs rs q \<Longrightarrow> may_change config fs (rs @ rs') q"
  by (auto simp: may_change_def)

lemma handler_ok_same: "handler_ok config fs st h \<Longrightarrow> served_root (the_server st') = served_root (the_server st) \<Longrightarrow>
    accepted st' = accepted st @ later \<Longrightarrow> handler_ok config fs st' h"
  by (cases h) (auto simp: handler_ok_def may_change_more pred_option_def)

lemma handler_upload_allowed:
  assumes "handler_upload config now dir request client sk = Some (path, data)"
  shows "opcode request = WriteRequest \<and> resolve_served_path now dir (filename request) = Some path \<and>
    \<not> (reject_overwrite_on_write_request config \<and> file_exists now path)"
  using assms by (auto simp: handler_upload_def Let_def split: if_splits option.splits result.splits prod.splits)

lemma apply_upload_files:
  "weakly_canonical (apply_upload u now) = weakly_canonical now"
  "file_exists now q \<Longrightarrow> file_exists (apply_upload u now) q"
  "contents (apply_upload u now) q \<noteq> contents now q \<Longrightarrow> \<exists>data. u = Some (q, data)"
  by (cases u; auto simp: write_entire_file_exists; metis write_entire_file_other)+

lemma files_ok_kept:
  assumes "files_ok config fs st" "served_files st' = served_files st" "terminated st' = terminated st"
    and "accepted st' = accepted st @ later" "served_root (the_server st') = served_root (the_server st)"
    and "\<And>i h. handlers st' i = Some h \<Longrightarrow> handlers st i = Some h \<or> handler_ok config fs st' h"
  shows "files_ok config fs st'"
  using assms(1-3) handler_ok_same [OF _ assms(5,4)] assms(4,6) may_change_more
  unfolding files_ok_def by metis

lemma files_step:
  "server_step P T config st st' \<Longrightarrow> default_block_size config \<noteq> 0 \<Longrightarrow> threads_ok st \<Longrightarrow> files_ok config fs st \<Longrightarrow>
     files_ok config fs st'"
proof (induction rule: server_step.induct)
  case (starts st w dir host bound srv k)
  then have "accept_thread st = NotStarted" unfolding threads_ok_def by blast
  then have "handlers st = (\<lambda>_. None)" using starts(5) unfolding threads_ok_def by blast
  then show ?case using starts(6) by (simp add: files_ok_def)
next
  case (handler_opens st i request client opened bound timed s k dir evs)
  let ?now = "served_files st" and ?sk = "fresh_socket evs"
  have "handler_ok config fs st (Starting request client)"
    using handler_opens(1,7) unfolding files_ok_def by blast
  then have start: "(dir, request) \<in> set (accepted st)" using handler_opens(4) by (simp add: handler_ok_def)
  have now: "weakly_canonical ?now = weakly_canonical fs" "\<And>q. file_exists fs q \<Longrightarrow> file_exists ?now q"
    using handler_opens(7) by (auto simp: files_ok_def)
  have "may_change config fs (accepted st) path"
    if "handler_upload config ?now dir request client ?sk = Some (path, data)" for path data
    using handler_upload_allowed [OF that] start now(2) resolve_served_path_cong [OF now(1)]
    by (auto simp: may_change_def)
  then have "handler_ok config fs st (Serving s (handle_request config ?now dir request client (Some ?sk))
      (handler_upload config ?now dir request client ?sk))"
    using handle_request_never_throws [OF handler_opens(5)] by (auto simp: handler_ok_def pred_option_def)
  then show ?case
    by (intro files_ok_kept [OF handler_opens(7), where later = "[]"]) (auto simp: handler_ok_def split: if_splits)
next
  case (handler_serves st i s fs' sk upload s' k)
  have "handler_ok config fs st (Serving s (Returned fs' sk) upload)"
    using handler_serves(1,5) unfolding files_ok_def by blast
  then have up: "pred_option (\<lambda>(path, data). may_change config fs (accepted st) path) upload"
    by (simp add: handler_ok_def)
  have changed: "may_change config fs (accepted st) q"
    if "contents (apply_upload upload (served_files st)) q \<noteq> contents fs q" for q
    using that apply_upload_files(3) [of upload "served_files st" q] up handler_serves(5)
    by (cases "contents (apply_upload upload (served_files st)) q = contents (served_files st) q")
      (auto simp: files_ok_def)
  let ?after = "st\<lparr>machine := k, served_files := apply_upload upload (served_files st),
      handlers := (handlers st)(i \<mapsto> Returning)\<rparr>"
  have all: "handler_ok config fs ?after h" if "handlers ?after j = Some h" for j h
  proof (cases "j = i")
    case True
    then show ?thesis using that by (auto simp: handler_ok_def)
  next
    case False
    then have "handler_ok config fs st h" using that handler_serves(5) unfolding files_ok_def by simp
    then show ?thesis by (rule handler_ok_same [where later = "[]"]) simp_all
  qed
  have "\<not> terminated ?after" "weakly_canonical (served_files ?after) = weakly_canonical fs"
    "\<And>q. file_exists fs q \<Longrightarrow> file_exists (served_files ?after) q"
    using handler_serves(5) apply_upload_files(1,2) by (simp_all add: files_ok_def)
  then show ?case using all changed unfolding files_ok_def by simp
next
  case (handler_raises st i s e sk upload)
  then have "handler_ok config fs st (Serving s (Raised e sk) upload)" unfolding files_ok_def by blast
  then show ?case by (simp add: handler_ok_def)
next
  case (accept_hands_over st ev request client i)
  show ?case
    by (intro files_ok_kept [OF accept_hands_over(6)]) (auto simp: handler_ok_def count_handlers_def split: if_splits)
qed (erule files_ok_kept [where later = "[]"];
     auto simp: handler_ok_def begin_stop_def set_running_def count_handlers_def split: if_splits)+

lemma server_run_files:
  assumes "default_block_size config \<noteq> 0"
  shows "server_run P T config fs st \<Longrightarrow> files_ok config fs st"
proof (induction rule: server_run.induct)
  case begin_server
  show ?case by (simp add: files_ok_def no_server_def)
next
  case (step_server st st')
  then show ?case using files_step [OF _ assms] server_run_threads by blast
qed


section \<open>Stopping\<close>

text \<open>The work left for \<open>stop\<close>, in steps.\<close>

definition handler_work :: "handler \<Rightarrow> nat" where
  "handler_work h = (case h of Starting _ _ \<Rightarrow> 3 | Serving _ _ _ \<Rightarrow> 2 | Returning \<Rightarrow> 1)"

definition accept_work :: "accept_thread \<Rightarrow> nat" where
  "accept_work a =
     (case a of NotStarted \<Rightarrow> 0 | AtLoopHead \<Rightarrow> 2 | AtReceive \<Rightarrow> 6 | AtDrain \<Rightarrow> 1 | AcceptEnded \<Rightarrow> 0)"

definition handlers_work :: "(nat \<Rightarrow> handler option) \<Rightarrow> nat" where
  "handlers_work hs = (\<Sum>i \<in> dom hs. handler_work (the (hs i)))"

definition stop_work :: "server_state \<Rightarrow> nat" where
  "stop_work st =
     (if main_thread st = NoServer then 0 else 1) + accept_work (accept_thread st) + handlers_work (handlers st)"

lemma handlers_work_split:
  assumes "finite (dom hs)"
  shows "hs i = Some h \<Longrightarrow> handlers_work hs = handlers_work (hs(i := None)) + handler_work h"
    and "handlers_work (hs(i \<mapsto> h')) = handlers_work (hs(i := None)) + handler_work h'"
proof -
  have rest: "(\<Sum>j \<in> dom hs - {i}. handler_work (the (hs j))) = handlers_work (hs(i := None))"
    unfolding handlers_work_def by (rule sum.cong) auto
  show "handlers_work hs = handlers_work (hs(i := None)) + handler_work h" if "hs i = Some h"
  proof -
    have "i \<in> dom hs" using that by (rule domI)
    then show ?thesis using assms that rest unfolding handlers_work_def by (simp add: sum.remove)
  qed
  have "handlers_work (hs(i \<mapsto> h')) =
      handler_work (the ((hs(i \<mapsto> h')) i)) + (\<Sum>j \<in> dom (hs(i \<mapsto> h')) - {i}. handler_work (the ((hs(i \<mapsto> h')) j)))"
    unfolding handlers_work_def using assms by (intro sum.remove) auto
  moreover have "(\<Sum>j \<in> dom (hs(i \<mapsto> h')) - {i}. handler_work (the ((hs(i \<mapsto> h')) j))) = handlers_work (hs(i := None))"
    unfolding handlers_work_def by (rule sum.cong) auto
  ultimately show "handlers_work (hs(i \<mapsto> h')) = handlers_work (hs(i := None)) + handler_work h'" by simp
qed

lemma stop_step_works:
  "server_step P T config st st' \<Longrightarrow> main_thread st = Stopping \<Longrightarrow> threads_ok st \<Longrightarrow> \<not> terminated st' \<Longrightarrow>
     stop_work st' < stop_work st \<and> main_thread st' \<in> {Stopping, NoServer}"
proof (induction rule: server_step.induct)
  case (accept_hands_over st ev request client i)
  then have "finite (dom (handlers st))" "(handlers st)(i := None) = handlers st"
    by (auto simp: threads_ok_def fun_eq_iff)
  then show ?case using accept_hands_over(1,4) handlers_work_split(2) [of "handlers st" i]
    by (simp add: stop_work_def accept_work_def handler_work_def)
next
  case (stop_ends st s k)
  then show ?case by (auto simp: stop_work_def accept_work_def)
next
  case (accept_looks st)
  then have "\<not> running (the_server st)" by (auto simp: threads_ok_def)
  then show ?case using accept_looks by (simp add: stop_work_def accept_work_def)
next
  case (handler_opens st i request client opened bound timed s k dir evs)
  then have "finite (dom (handlers st))" by (simp add: threads_ok_def)
  note work = handlers_work_split [OF this, of i]
  show ?case using handler_opens(5) work(1) [OF handler_opens(1)] work(2)
    by (simp add: stop_work_def handler_work_def)
next
  case (handler_fails st i request client opened bound timed s k s' k')
  then have "finite (dom (handlers st))" by (simp add: threads_ok_def)
  note work = handlers_work_split [OF this, of i]
  show ?case using handler_fails(5) work(1) [OF handler_fails(1)] work(2)
    by (simp add: stop_work_def handler_work_def)
next
  case (handler_serves st i s fs sk upload s' k)
  then have "finite (dom (handlers st))" by (simp add: threads_ok_def)
  note work = handlers_work_split [OF this, of i]
  show ?case using handler_serves(3) work(1) [OF handler_serves(1)] work(2)
    by (simp add: stop_work_def handler_work_def)
next
  case (handler_ends st i)
  then have "finite (dom (handlers st))" by (simp add: threads_ok_def)
  note work = handlers_work_split [OF this, of i]
  show ?case using handler_ends(2) work(1) [OF handler_ends(1)]
    by (simp add: stop_work_def handler_work_def)
qed (auto simp: stop_work_def accept_work_def)

text \<open>Who is blocked: a handler that still waits for its client.\<close>

definition waits_for_client :: "server_state \<Rightarrow> bool" where
  "waits_for_client st \<longleftrightarrow> (\<exists>i s sk upload. handlers st i = Some (Serving s (Waiting sk) upload))"

lemma handler_can_step:
  assumes "handlers st i = Some h" "\<not> waits_for_client st"
  shows "\<exists>st'. server_step P T config st st'"
proof (cases h)
  case (Starting request client)
  obtain ok s k where o: "open_transfer_socket P T config (Fails 0) (Fails 0) (Fails 0) client (machine st) = (ok, s, k)"
    using prod_cases3 by blast
  have no: "\<not> ok" using o by (auto simp: open_transfer_socket_def open_socket_def Let_def split: prod.splits)
  obtain s' k' where "close_socket (s, k) = (s', k')" by fastforce
  then show ?thesis
    using handler_fails [of st i request client "Fails 0" P T config "Fails 0" "Fails 0" s k] assms(1) Starting o no
    by (auto simp: grants_def)
next
  case (Serving s r upload)
  obtain s' k' where c: "close_socket (s, machine st) = (s', k')" by fastforce
  show ?thesis
  proof (cases r)
    case (Returned fs sk)
    then show ?thesis using handler_serves [OF _ c] assms(1) Serving by blast
  next
    case (Raised e sk)
    then show ?thesis using handler_raises assms(1) Serving by blast
  next
    case (Waiting sk)
    then show ?thesis using assms Serving by (auto simp: waits_for_client_def)
  qed
next
  case Returning
  then show ?thesis using handler_ends assms(1) by blast
qed

lemma stop_can_step:
  assumes "main_thread st = Stopping" "threads_ok st" "\<not> waits_for_client st"
  shows "\<exists>st'. server_step P T config st st'"
proof (cases "accept_thread st")
  case AtReceive
  have "accepted_request WouldBlock = None" by (simp add: accepted_request_def)
  then show ?thesis using accept_ignores [OF AtReceive] by blast
next
  case AtDrain
  show ?thesis
  proof (cases "handlers st = (\<lambda>_. None)")
    case True
    then have "active_handlers (the_server st) \<le> 0" using assms(2) by (simp add: threads_ok_def)
    then show ?thesis using accept_drained [OF AtDrain] by blast
  next
    case False
    then obtain i h where "handlers st i = Some h" by (metis not_None_eq ext)
    then show ?thesis using handler_can_step assms(3) by blast
  qed
next
  case AtLoopHead
  then show ?thesis using accept_looks by blast
qed (use stop_ends [of st _ _ P T config] assms(1) in \<open>(metis insert_iff prod.collapse)+\<close>)


section \<open>A server that takes an upload and is stopped\<close>

definition sample_files :: file_system where "sample_files = plain_file_system (\<lambda>_. None)"

definition sample_server_answers :: server_answers where
  "sample_server_answers = \<lparr>socket_answer = Answer 3, bind_answer = Answer (), timeout_answer = Answer (),
     name_answer = Answer (IPv4 [127, 0, 0, 1] 6969, 16)\<rparr>"

definition sample_events :: "socket_event list" where
  "sample_events = [Datagram (serialize_data 1 [5, 6]) sample_client, WouldBlock]"

lemma sample_start:
  "\<exists>srv k. start_reference_server sample_platform system_texts sample_server_answers ''/srv'' ''127.0.0.1''
     (fresh_server, fresh_kernel) = (IPv4 [127, 0, 0, 1] 6969, srv, k) \<and> running srv \<and>
     served_root srv = ''/srv'' \<and> active_handlers srv = 0 \<and> open_handles k = {3}"
proof -
  have "from_host_and_port system_texts ''127.0.0.1'' 0 = (True, IPv4 [127, 0, 0, 1] 0)" by code_simp
  then show ?thesis
    by (simp add: start_reference_server_def fresh_server_def fresh_kernel_def sample_server_answers_def
        bind_socket_def open_socket_def close_socket_def new_socket_def is_open_def invalid_native_socket_def
        set_native_timeout_def bound_endpoint_def from_sockaddr_def)
qed

lemma sample_transfer_socket:
  assumes "open_handles k = {3}"
  shows "\<exists>s k'. open_transfer_socket sample_platform system_texts default_engine_config (Answer 4) (Answer ())
     (Answer ()) sample_client k = (True, s, k')"
proof -
  have "from_host_and_port system_texts ''0.0.0.0'' 0 = (True, IPv4 [0, 0, 0, 0] 0)" by code_simp
  then show ?thesis
    by (simp add: open_transfer_socket_def sample_client_def is_ipv6_def bind_socket_def open_socket_def
        close_socket_def new_socket_def is_open_def invalid_native_socket_def set_native_timeout_def)
qed

lemma sample_upload_result:
  "handler_upload default_engine_config sample_files ''/srv'' upload_request sample_client
      (fresh_socket sample_events) = Some (''/srv/new'', [5, 6])"
  "\<exists>fs sk. handle_request default_engine_config sample_files ''/srv'' upload_request sample_client
      (Some (fresh_socket sample_events)) = Returned fs sk"
proof -
  have upload: "handler_upload default_engine_config (plain_file_system (\<lambda>_. None)) ''/srv'' upload_request sample_client
      (fresh_socket [Datagram (serialize_data 1 [5, 6]) sample_client, WouldBlock]) = Some (''/srv/new'', [5, 6])"
    by code_simp
  then show "handler_upload default_engine_config sample_files ''/srv'' upload_request sample_client
      (fresh_socket sample_events) = Some (''/srv/new'', [5, 6])"
    by (simp only: sample_files_def sample_events_def)
  have "contents sample_files ''/srv/new'' = None" by (simp add: sample_files_def plain_file_system_def)
  then show "\<exists>fs sk. handle_request default_engine_config sample_files ''/srv'' upload_request sample_client
      (Some (fresh_socket sample_events)) = Returned fs sk"
    using sample_upload unfolding sample_files_def sample_events_def
    by (cases "handle_request default_engine_config (plain_file_system (\<lambda>_. None)) ''/srv'' upload_request sample_client
       (Some (fresh_socket [Datagram (serialize_data 1 [5, 6]) sample_client, WouldBlock]))")
      (auto simp: handler_file_system_def)
qed


text \<open>The run up to the point where \<open>stop\<close> has been called, with the file stored.\<close>

lemma sample_server_run:
  "\<exists>st. server_run sample_platform system_texts default_engine_config sample_files st \<and>
     main_thread st = Stopping \<and> accept_thread st = AtLoopHead \<and> handlers st = (\<lambda>_. None) \<and>
     active_handlers (the_server st) = 0 \<and> \<not> running (the_server st) \<and>
     contents (served_files st) ''/srv/new'' = Some [5, 6]"
proof -
  let ?run = "server_run sample_platform system_texts default_engine_config sample_files"
  let ?step = "server_step sample_platform system_texts default_engine_config"
  let ?st0 = "no_server sample_files"
  obtain srv k where s: "start_reference_server sample_platform system_texts sample_server_answers ''/srv''
      ''127.0.0.1'' (fresh_server, fresh_kernel) = (IPv4 [127, 0, 0, 1] 6969, srv, k)" "running srv"
    "served_root srv = ''/srv''" "active_handlers srv = 0" "open_handles k = {3}"
    using sample_start by blast
  define st1 where "st1 = ?st0\<lparr>the_server := srv, machine := k, main_thread := ServerUp, accept_thread := AtLoopHead\<rparr>"
  have "?step ?st0 st1"
    using starts [of ?st0 sample_server_answers sample_platform system_texts "''/srv''" "''127.0.0.1''" _ srv k] s(1,2)
    by (simp add: st1_def no_server_def grants_def sample_server_answers_def fresh_kernel_def)
  then have 1: "?run st1" by (rule step_server [OF begin_server])
  define st2 where "st2 = st1\<lparr>accept_thread := AtReceive\<rparr>"
  have "?step st1 st2" using accept_looks [of st1] s(2) by (simp add: st1_def st2_def)
  then have 2: "?run st2" by (rule step_server [OF 1])
  define st3 where "st3 = st2\<lparr>accept_thread := AtLoopHead, the_server := count_handlers 1 srv,
    handlers := [0 \<mapsto> Starting upload_request sample_client], accepted := [(''/srv'', upload_request)]\<rparr>"
  have "accepted_request (Datagram (serialize_packet upload_request) sample_client) = Some (upload_request, sample_client)"
    by code_simp
  then have "?step st2 st3" using accept_hands_over [of st2 _ upload_request sample_client 0] s(3)
    by (simp add: st1_def st2_def st3_def no_server_def)
  then have 3: "?run st3" by (rule step_server [OF 2])
  obtain t k4 where t: "open_transfer_socket sample_platform system_texts default_engine_config (Answer 4) (Answer ())
      (Answer ()) sample_client k = (True, t, k4)" using sample_transfer_socket [OF s(5)] by blast
  obtain fs5 sk5 where result: "handle_request default_engine_config sample_files ''/srv'' upload_request sample_client
      (Some (fresh_socket sample_events)) = Returned fs5 sk5" using sample_upload_result(2) by blast
  define st4 where "st4 = st3\<lparr>machine := k4, handlers := [0 \<mapsto> Serving t (Returned fs5 sk5) (Some (''/srv/new'', [5, 6]))]\<rparr>"
  have st3: "handlers st3 = [0 \<mapsto> Starting upload_request sample_client]" "machine st3 = k"
    "''/srv'' = served_root (the_server st3)" "served_files st3 = sample_files"
    using s(3) by (simp_all add: st1_def st2_def st3_def no_server_def count_handlers_def)
  then have "handlers st3 0 = Some (Starting upload_request sample_client)" "grants (machine st3) (Answer 4)"
    using s(5) by (simp_all add: grants_def)
  note opened = handler_opens [OF this t [folded st3(2)] st3(3), of sample_events]
  have "?step st3 st4"
    using opened unfolding st3(1,4) result sample_upload_result(1) st4_def by (simp only: fun_upd_upd)
  then have 4: "?run st4" by (rule step_server [OF 3])
  obtain t5 k5 where c: "close_socket (t, k4) = (t5, k5)" by fastforce
  define st5 where "st5 = st4\<lparr>machine := k5, served_files := apply_upload (Some (''/srv/new'', [5, 6])) sample_files,
    handlers := [0 \<mapsto> Returning]\<rparr>"
  have "handlers st4 0 = Some (Serving t (Returned fs5 sk5) (Some (''/srv/new'', [5, 6])))"
    "machine st4 = k4" "served_files st4 = sample_files" "(handlers st4)(0 \<mapsto> Returning) = [0 \<mapsto> Returning]"
    using st3(4) by (simp_all add: st4_def)
  then have "?step st4 st5" using handler_serves c unfolding st5_def by metis
  then have 5: "?run st5" by (rule step_server [OF 4])
  define st6 where "st6 = st5\<lparr>the_server := count_handlers (- 1) (count_handlers 1 srv), handlers := (\<lambda>_. None)\<rparr>"
  have "?step st5 st6" using handler_ends [of st5 0]
    by (simp add: st1_def st2_def st3_def st4_def st5_def st6_def)
  then have 6: "?run st6" by (rule step_server [OF 5])
  define st7 where "st7 = st6\<lparr>the_server := set_running False (the_server st6), main_thread := Stopping\<rparr>"
  have "?step st6 st7" using stop_begins [of st6]
    by (simp add: begin_stop_def st1_def st2_def st3_def st4_def st5_def st6_def st7_def)
  then have 7: "?run st7" by (rule step_server [OF 6])
  have "contents (apply_upload (Some (''/srv/new'', [5, 6])) sample_files) ''/srv/new'' = Some [5, 6]"
    by (simp add: sample_files_def plain_file_system_def write_entire_file_def)
  then have "contents (served_files st7) ''/srv/new'' = Some [5, 6]"
    by (simp add: st7_def st6_def st5_def)
  moreover have "main_thread st7 = Stopping" "handlers st7 = (\<lambda>_. None)" by (simp_all add: st7_def st6_def)
  moreover have "accept_thread st7 = AtLoopHead" by (simp add: st7_def st6_def st5_def st4_def st3_def)
  moreover have "active_handlers (the_server st7) = 0" "\<not> running (the_server st7)"
    by (simp_all add: st7_def st6_def set_running_def count_handlers_def s(4))
  ultimately show ?thesis using 7 by blast
qed


lemma sample_server_stopped:
  "\<exists>st. server_run sample_platform system_texts default_engine_config sample_files st \<and>
     main_thread st = NoServer \<and> contents (served_files st) ''/srv/new'' = Some [5, 6]"
proof -
  let ?run = "server_run sample_platform system_texts default_engine_config sample_files"
  let ?step = "server_step sample_platform system_texts default_engine_config"
  obtain st where st: "?run st" "main_thread st = Stopping" "accept_thread st = AtLoopHead"
    "active_handlers (the_server st) = 0" "\<not> running (the_server st)"
    "contents (served_files st) ''/srv/new'' = Some [5, 6]"
    using sample_server_run by blast
  define st1 where "st1 = st\<lparr>accept_thread := AtDrain\<rparr>"
  have "?step st st1" using accept_looks [OF st(3)] st(5) by (simp add: st1_def)
  then have 1: "?run st1" by (rule step_server [OF st(1)])
  define st2 where "st2 = st1\<lparr>accept_thread := AcceptEnded\<rparr>"
  have "?step st1 st2" using accept_drained [of st1] st(4) by (simp add: st1_def st2_def)
  then have 2: "?run st2" by (rule step_server [OF 1])
  obtain s k where c: "close_socket (listen_socket (the_server st), machine st) = (s, k)" by fastforce
  define st3 where "st3 = st2\<lparr>the_server := (the_server st)\<lparr>listen_socket := s\<rparr>, machine := k,
      accept_thread := NotStarted, main_thread := NoServer\<rparr>"
  have "?step st2 st3" using stop_ends [of st2 s k] c st(2) by (simp add: st1_def st2_def st3_def)
  then have "?run st3" by (rule step_server [OF 2])
  then show ?thesis using st(6) by (intro exI [of _ st3]) (simp add: st1_def st2_def st3_def)
qed







section \<open>A handler waits for its client, but not forever\<close>

lemma await_oack_ack_returns:
  "n \<le> timeouts_left (inbox sk) \<Longrightarrow>
     \<exists>r sk'. await_oack_ack n oack client sk = Returned r sk' \<and>
       timeouts_left (inbox sk) \<le> timeouts_left (inbox sk') + n"
proof (induction n arbitrary: sk)
  case (Suc n)
  let ?sk = "send_to sk (serialize_option_acknowledgement oack) client"
  show ?case
  proof (cases "receive_from_locked_peer ?sk client")
    case (Returned r sk1)
    have left: "timeouts_left (inbox sk) \<le> timeouts_left (inbox sk1) + 1"
      using receive_locked_timeouts_left [OF Returned] by (simp split: if_splits)
    then have "\<exists>r' sk'. await_oack_ack n oack client sk1 = Returned r' sk' \<and>
        timeouts_left (inbox sk1) \<le> timeouts_left (inbox sk') + n"
      using Suc by simp
    then show ?thesis using left Returned by (cases r) auto
  next
    case (Waiting sk1)
    then show ?thesis using receive_locked_waiting [OF Waiting] Suc.prems by simp
  qed simp
qed simp

lemma serve_read_returns:
  assumes "default_block_size config \<noteq> 0" "length file_bytes \<le> n" "2 * n + 65537 < 2 ^ 32"
    and "Suc (nat (maximum_retransmissions config)) * (2 * n + 3) \<le> timeouts_left (inbox sk)"
  shows "returns (serve_read config fs request file_bytes client sk)"
proof -
  let ?payload = "if mode_is_netascii (transfer_mode request) then encode_local_to_netascii file_bytes else file_bytes"
  let ?m = "Suc (nat (maximum_retransmissions config))"
  obtain params oack where neg: "negotiate_server_options request config (Some (word_of_nat (length ?payload)))
      (engine_default_parameters config) = (params, oack)" by fastforce
  have bs: "block_size params \<noteq> 0" by (rule legal_block_size [OF assms(1) neg])
  have "length ?payload \<le> 2 * n" using encode_length_bounds [of file_bytes] assms(2) by auto
  then have blocks: "length ?payload div unat (block_size params) \<le> 2 * n"
    using div_le_dividend le_trans by blast
  have transfer: "returns (bind_result (run_data_sender sk1 client ?payload params config 0) (\<lambda>_ sk2. Returned fs sk2))"
    if "?m * (2 * n + 2) \<le> timeouts_left (inbox sk1)" for sk1
  proof -
    have "?m * (length ?payload div unat (block_size params) + 2) \<le> ?m * (2 * n + 2)"
      using blocks by (intro mult_le_mono2) simp
    also have "\<dots> \<le> timeouts_left (inbox sk1)" by (rule that)
    finally have time: "?m * (length ?payload div unat (block_size params) + 2) \<le> timeouts_left (inbox sk1)" .
    have "length ?payload div unat (block_size params) + 1 + 65536 < 2 ^ 32" using blocks assms(3) by linarith
    from run_data_sender_returns [OF bs this time, of client 0] obtain outcome sk'
      where "run_data_sender sk1 client ?payload params config 0 = Returned outcome sk'" by blast
    then show ?thesis by simp
  qed
  have enough: "?m * (2 * n + 2) + ?m \<le> timeouts_left (inbox sk)" using assms(4) by (simp add: algebra_simps)
  have attempts: "nat (maximum_retransmissions config + 1) \<le> ?m" by simp
  have "nat (maximum_retransmissions config + 1) \<le> timeouts_left (inbox sk)" using attempts enough by linarith
  from await_oack_ack_returns [OF this] obtain acked sk1 where acked: "await_oack_ack (nat (maximum_retransmissions config + 1)) oack client sk =
      Returned acked sk1" "timeouts_left (inbox sk) \<le> timeouts_left (inbox sk1) + nat (maximum_retransmissions config + 1)"
    by blast
  have "?m * (2 * n + 2) \<le> timeouts_left (inbox sk1)" using acked(2) attempts enough by linarith
  then show ?thesis
    using transfer [of sk] transfer [of sk1] enough acked(1)
    by (simp add: serve_read_def neg Let_def)
qed

lemma serve_write_returns:
  assumes "Suc (nat (maximum_retransmissions config)) * Suc (datagrams_left (inbox sk)) \<le> timeouts_left (inbox sk)"
  shows "returns (serve_write config fs request path client sk)"
proof -
  obtain params oack where neg: "negotiate_server_options request config None (engine_default_parameters config) = (params, oack)"
    by fastforce
  let ?sk = "send_to sk (if oack \<noteq> [] then serialize_option_acknowledgement oack else serialize_acknowledgement 0) client"
  obtain outcome content sk' where "run_data_receiver ?sk client params config [] 1 None = Returned (outcome, content) sk'"
    using run_data_receiver_returns [of config ?sk client params "[]" 1] assms by auto
  then show ?thesis by (simp add: serve_write_def neg Let_def)
qed

text \<open>
  Every handler gives up on a client that has gone silent: whatever arrives, the run of a request
  returns on every script with an allowance of time-outs for each block of the largest file and each
  datagram of the script; a failure of its socket ends it at once. With \<open>stop_returns\<close>: \<open>stop\<close> waits as
  long as clients keep talking to handlers, and no longer.
\<close>
lemma handlers_give_up:
  assumes "default_block_size config \<noteq> 0"
    and "\<forall>path file_bytes. contents fs path = Some file_bytes \<longrightarrow> length file_bytes \<le> n" "2 * n + 65537 < 2 ^ 32"
    and "Suc (nat (maximum_retransmissions config)) * (2 * n + datagrams_left evs + 3) \<le> timeouts_left evs"
  shows "\<exists>fs' sk'. handle_request config fs dir request client (Some (fresh_socket evs)) = Returned fs' sk'"
proof -
  let ?m = "Suc (nat (maximum_retransmissions config))"
  have "?m * (2 * n + 3) \<le> ?m * (2 * n + datagrams_left evs + 3)" by (intro mult_le_mono2) simp
  moreover have "?m * Suc (datagrams_left evs) \<le> ?m * (2 * n + datagrams_left evs + 3)" by (intro mult_le_mono2) simp
  ultimately have enough: "?m * (2 * n + 3) \<le> timeouts_left evs" "?m * Suc (datagrams_left evs) \<le> timeouts_left evs"
    using assms(4) by linarith+
  let ?sk = "set_receive_timeout (fresh_socket evs) (retransmission_timeout config)"
  have "returns (serve_read config fs request file_bytes client ?sk)" if "contents fs path = Some file_bytes" for path file_bytes
    using that assms(2) enough(1) by (intro serve_read_returns [OF assms(1) _ assms(3)]) auto
  moreover have "returns (serve_write config fs request path client ?sk)" for path
    using enough(2) by (intro serve_write_returns) simp
  ultimately have "returns (handle_request config fs dir request client (Some (fresh_socket evs)))"
    by (auto simp: handle_request_def handle_on_socket_def reply_error_def read_entire_file_def split: option.split)
  then show ?thesis by (simp add: returns_def)
qed

lemma handlers_give_up_witness:
  "\<exists>fs' sk'. handle_request default_engine_config sample_files ''/srv'' upload_request sample_client
     (Some (fresh_socket (Datagram (serialize_data 9 []) sample_client # replicate 100 WouldBlock))) = Returned fs' sk'"
  by (rule handlers_give_up [where n = 0])
    (simp_all add: default_engine_config_def sample_files_def plain_file_system_def datagrams_left_def)

text \<open>
  Rejecting overwrites is not atomic: the check is made when a request starts and the file is written
  when it ends, so of two uploads of one new name that overlap both are accepted, and the later one
  replaces the file of the other without a word.
\<close>

lemma overlapping_uploads_overwrite:
  assumes "reject_overwrite_on_write_request config" "write_behaviours fs path = WriteSucceeds"
    and "handler_upload config fs dir request client sk = Some (path, data)"
    and "handler_upload config fs dir request' client' sk' = Some (path, data')"
  shows "\<not> file_exists fs path \<and> file_exists (apply_upload (Some (path, data)) fs) path \<and>
    contents (apply_upload (Some (path, data')) (apply_upload (Some (path, data)) fs)) path = Some data'"
  using assms(1,2) handler_upload_allowed [OF assms(3)] by (simp add: write_entire_file_def file_exists_def)

end
