(* ===== verification/Reference_Client.thy ===== *)
theory Reference_Client
  imports Negotiation Sender Receiver File_System
begin

text \<open>
  \<open>ReferenceClient\<close> of \<open>adapters/reference/tftp_reference_engine.cpp\<close>: \<open>read_file\<close> (a download) and
  \<open>write_file\<close> (an upload). A socket argument of \<open>None\<close> is a socket that could not be opened or
  bound. An exception of \<open>std::stoul\<close>, and the division by a block size of 0, leave the function as
  \<open>Raised\<close>.
\<close>

definition open_client_socket :: "engine_config \<Rightarrow> udp_socket option \<Rightarrow> udp_socket option" where
  "open_client_socket config opened =
     map_option (\<lambda>sk. set_receive_timeout sk (retransmission_timeout config)) opened"

text \<open>
  The request loop: send, receive once from anywhere, keep the first datagram that parses. The
  number is the attempts left, \<open>maximum_retransmissions + 1\<close> of them at the start.
\<close>

fun await_first_reply ::
  "nat \<Rightarrow> bytes \<Rightarrow> endpoint \<Rightarrow> udp_socket \<Rightarrow> (tftp_packet \<times> endpoint) option result" where
  "await_first_reply 0 request server sk = Returned None sk"
| "await_first_reply (Suc n) request server sk =
     bind_result (receive_from (send_to sk request server))
       (\<lambda>(received, buffer, sender) sk1.
          if received > 0 then
            (case parse_tftp_packet buffer of
               Inr packet \<Rightarrow> Returned (Some (packet, sender)) sk1
             | Inl _ \<Rightarrow> await_first_reply n request server sk1)
          else await_first_reply n request server sk1)"

definition request_attempts :: "engine_config \<Rightarrow> nat" where
  "request_attempts config = nat (maximum_retransmissions config + 1)"

definition failed_outcome :: "string \<Rightarrow> transfer_outcome" where
  "failed_outcome reason = empty_outcome\<lparr>outcome_error_message := reason\<rparr>"

definition unanswered_outcome :: "string \<Rightarrow> transfer_outcome" where
  "unanswered_outcome reason =
     empty_outcome\<lparr>timed_out := True, outcome_error_message := reason\<rparr>"

definition peer_error_outcome :: "tftp_error_code \<Rightarrow> string \<Rightarrow> transfer_outcome" where
  "peer_error_outcome code reason =
     empty_outcome\<lparr>outcome_error_code := Some code, outcome_error_message := reason\<rparr>"

definition finish_download ::
  "file_system \<Rightarrow> string \<Rightarrow> string \<Rightarrow> negotiated_parameters \<Rightarrow> transfer_outcome \<times> bytes \<Rightarrow>
   transfer_outcome \<times> file_system" where
  "finish_download fs destination md params ended =
     (let (data_outcome, received_bytes) = ended;
          outcome = data_outcome\<lparr>negotiated := params\<rparr>
      in if \<not> completed_successfully outcome then (outcome, fs)
         else
           let local_bytes = (if mode_is_netascii md then decode_netascii_to_local received_bytes
                              else received_bytes);
               (fs1, ok) = write_entire_file fs destination local_bytes
           in if ok then (outcome, fs1)
              else (outcome\<lparr>completed_successfully := False,
                      outcome_error_message := ''could not write destination file''\<rparr>, fs1))"

definition read_after_reply ::
  "engine_config \<Rightarrow> file_system \<Rightarrow> string \<Rightarrow> string \<Rightarrow> client_requested_options \<Rightarrow>
   tftp_packet \<Rightarrow> endpoint \<Rightarrow> udp_socket \<Rightarrow> (transfer_outcome \<times> file_system) result" where
  "read_after_reply config fs destination md opts first_reply locked_peer sk =
     (let params0 = engine_default_parameters config;
          receive = (\<lambda>params primed sk1.
            bind_result (run_data_receiver sk1 locked_peer params config [] 1 primed)
              (\<lambda>ended sk2. Returned (finish_download fs destination md params ended) sk2))
      in if opcode first_reply = Error then
           Returned (peer_error_outcome (error_code first_reply) (error_message first_reply), fs) sk
         else if opcode first_reply = OptionAcknowledgement then
           (case apply_oack_to_client first_reply opts params0 of
              OackRaised e \<Rightarrow> Raised e sk
            | OackRejected reason \<Rightarrow>
                Returned (peer_error_outcome OptionNegotiationFailed reason, fs)
                  (send_to sk (serialize_error OptionNegotiationFailed reason) locked_peer)
            | OackApplied params \<Rightarrow>
                receive params None (send_to sk (serialize_acknowledgement 0) locked_peer))
         else if opcode first_reply = Data then receive params0 (Some first_reply) sk
         else Returned (failed_outcome ''unexpected first reply to RRQ'', fs) sk)"

definition read_file ::
  "engine_config \<Rightarrow> file_system \<Rightarrow> udp_socket option \<Rightarrow> endpoint \<Rightarrow> string \<Rightarrow> string \<Rightarrow> string \<Rightarrow>
   client_requested_options \<Rightarrow> (transfer_outcome \<times> file_system) result" where
  "read_file config fs opened server remote_filename destination md opts =
     (case open_client_socket config opened of
        None \<Rightarrow> Returned (failed_outcome ''client could not open socket'', fs) (fresh_socket [])
      | Some sk \<Rightarrow>
          let request = serialize_read_request remote_filename md
                          (build_requested_option_list opts config)
          in bind_result (await_first_reply (request_attempts config) request server sk)
               (\<lambda>reply sk1.
                  case reply of
                    None \<Rightarrow>
                      Returned
                        (unanswered_outcome ''no reply to RRQ (server unreachable/loss)'', fs) sk1
                  | Some (first_reply, locked_peer) \<Rightarrow>
                      read_after_reply config fs destination md opts first_reply locked_peer sk1))"

definition write_after_reply ::
  "engine_config \<Rightarrow> bytes \<Rightarrow> client_requested_options \<Rightarrow> tftp_packet \<Rightarrow> endpoint \<Rightarrow> udp_socket \<Rightarrow>
   transfer_outcome result" where
  "write_after_reply config payload opts first_reply locked_peer sk =
     (let params0 = engine_default_parameters config;
          send = (\<lambda>params.
            bind_result (run_data_sender sk locked_peer payload params config 0)
              (\<lambda>outcome sk1. Returned (outcome\<lparr>negotiated := params\<rparr>) sk1))
      in if opcode first_reply = Error then
           Returned (peer_error_outcome (error_code first_reply) (error_message first_reply)) sk
         else if opcode first_reply = OptionAcknowledgement then
           (case apply_oack_to_client first_reply opts params0 of
              OackRaised e \<Rightarrow> Raised e sk
            | OackRejected reason \<Rightarrow>
                Returned (peer_error_outcome OptionNegotiationFailed reason)
                  (send_to sk (serialize_error OptionNegotiationFailed reason) locked_peer)
            | OackApplied params \<Rightarrow> send params)
         else if opcode first_reply = Acknowledgement \<and> block_number first_reply = 0
         then send params0
         else Returned (failed_outcome ''unexpected first reply to WRQ'') sk)"

definition effective_write_options ::
  "client_requested_options \<Rightarrow> bytes \<Rightarrow> client_requested_options" where
  "effective_write_options opts payload =
     (if requested_transfer_size opts = None then opts
      else opts\<lparr>requested_transfer_size := Some (word_of_nat (length payload))\<rparr>)"

definition upload_payload :: "string \<Rightarrow> bytes \<Rightarrow> bytes" where
  "upload_payload md file_bytes =
     (if mode_is_netascii md then encode_local_to_netascii file_bytes else file_bytes)"

definition write_file ::
  "engine_config \<Rightarrow> file_system \<Rightarrow> udp_socket option \<Rightarrow> endpoint \<Rightarrow> string \<Rightarrow> string \<Rightarrow> string \<Rightarrow>
   client_requested_options \<Rightarrow> transfer_outcome result" where
  "write_file config fs opened server source remote_filename md opts =
     (case read_entire_file fs source of
        None \<Rightarrow> Returned (failed_outcome ''client could not read source file'') (fresh_socket [])
      | Some file_bytes \<Rightarrow>
          let payload = upload_payload md file_bytes
          in case open_client_socket config opened of
               None \<Rightarrow> Returned (failed_outcome ''client could not open socket'') (fresh_socket [])
             | Some sk \<Rightarrow>
                 let effective_options = effective_write_options opts payload;
                     request = serialize_write_request remote_filename md
                                 (build_requested_option_list effective_options config)
                 in bind_result (await_first_reply (request_attempts config) request server sk)
                      (\<lambda>reply sk1.
                         case reply of
                           None \<Rightarrow>
                             Returned
                               (unanswered_outcome ''no reply to WRQ (server unreachable/loss)'') sk1
                         | Some (first_reply, locked_peer) \<Rightarrow>
                             write_after_reply config payload effective_options first_reply
                               locked_peer sk1))"

section \<open>The request loop\<close>

text \<open>An unanswered request is sent once per attempt and no more.\<close>

lemma await_first_reply_timeouts:
  "inbox sk = replicate n WouldBlock @ evs \<Longrightarrow>
     await_first_reply n request server sk =
       Returned None (sk\<lparr>inbox := evs, outbox := outbox sk @ replicate n (request, server)\<rparr>)"
proof (induction n arbitrary: sk)
  case 0
  then show ?case by (cases sk) simp
next
  case (Suc n)
  then have r: "receive_from (send_to sk request server) =
      Returned (0, [], Unbound) ((send_to sk request server)\<lparr>inbox := replicate n WouldBlock @ evs\<rparr>)"
    by (simp add: receive_from_def)
  show ?case
    unfolding await_first_reply.simps r
    by (simp add: Suc.IH) (simp add: send_to_def replicate_app_Cons_same)
qed

lemma await_first_reply_never_raises [simp]: "await_first_reply n request server sk \<noteq> Raised e sk'"
proof (induction n arbitrary: sk)
  case (Suc n)
  show ?case
    by (cases "receive_from (send_to sk request server)")
      (auto simp: Suc.IH split: sum.splits prod.splits)
qed simp

section \<open>The client as a whole\<close>

text \<open>
  A server that never answers: the download sends the same RRQ once and once more per allowed
  retransmission, then reports a time-out; the file system is untouched.
\<close>
lemma unanswered_download:
  assumes "inbox sk = replicate (request_attempts config) WouldBlock @ evs"
  shows "\<exists>sk'. read_file config fs (Some sk) server remote dest md opts =
      Returned (unanswered_outcome ''no reply to RRQ (server unreachable/loss)'', fs) sk' \<and>
    outbox sk' = outbox sk @ replicate (request_attempts config)
      (serialize_read_request remote md (build_requested_option_list opts config), server)"
  using assms
  by (simp add: read_file_def open_client_socket_def await_first_reply_timeouts Let_def)

lemma unanswered_download_witness:
  "\<exists>sk'. read_file default_engine_config (plain_file_system (\<lambda>_. None))
      (Some (fresh_socket (replicate 7 WouldBlock))) (IPv4 [127, 0, 0, 1] 69) ''f'' ''/tmp/f'' ''octet''
      no_requested_options =
    Returned (unanswered_outcome ''no reply to RRQ (server unreachable/loss)'',
      plain_file_system (\<lambda>_. None)) sk' \<and> length (outbox sk') = 7"
proof -
  have "request_attempts default_engine_config = 7"
    by (simp add: request_attempts_def default_engine_config_def)
  then show ?thesis
    using unanswered_download [of "fresh_socket (replicate 7 WouldBlock)" default_engine_config "[]"
        "plain_file_system (\<lambda>_. None)" "IPv4 [127, 0, 0, 1] 69" "''f''" "''/tmp/f''" "''octet''"
        no_requested_options] by auto
qed

lemma bind_result_Returned:
  "bind_result res f = Returned b sk \<longleftrightarrow> (\<exists>a sk1. res = Returned a sk1 \<and> f a sk1 = Returned b sk)"
  by (cases res) auto

lemma finish_download_effect:
  assumes "finish_download fs dest md params ended = (outcome, fs')"
  shows "(\<forall>q. q \<noteq> dest \<longrightarrow> contents fs' q = contents fs q) \<and>
    (completed_successfully outcome \<longrightarrow> completed_successfully (fst ended) \<and>
       contents fs' dest = Some (if mode_is_netascii md then decode_netascii_to_local (snd ended)
         else snd ended)) \<and>
    (\<not> completed_successfully (fst ended) \<longrightarrow> fs' = fs)"
proof -
  obtain data_outcome bytes where e: "ended = (data_outcome, bytes)" by fastforce
  let ?local = "if mode_is_netascii md then decode_netascii_to_local bytes else bytes"
  obtain fs1 ok where w: "write_entire_file fs dest ?local = (fs1, ok)" by fastforce
  have other: "contents fs1 q = contents fs q" if "q \<noteq> dest" for q
    using write_entire_file_other [OF that, of fs ?local] w by simp
  have wrote: "contents fs1 dest = Some ?local" if ok
    using write_entire_file_success [of fs dest ?local] w that by simp
  show ?thesis
    using assms other wrote w
    by (cases "completed_successfully data_outcome"; cases ok)
      (auto simp: finish_download_def e)
qed

text \<open>Reports of the client that do not come from a transfer never claim success.\<close>

lemma early_outcomes [simp]:
  "\<not> completed_successfully (failed_outcome reason)"
  "\<not> completed_successfully (unanswered_outcome reason)"
  "\<not> completed_successfully (peer_error_outcome code reason)"
  by (simp_all add: failed_outcome_def unanswered_outcome_def peer_error_outcome_def empty_outcome_def)

lemma read_after_reply_ends:
  assumes "read_after_reply config fs dest md opts reply peer sk = Returned (outcome, fs') sk'"
  shows "(fs' = fs \<and> \<not> completed_successfully outcome) \<or>
    (\<exists>params primed sk1 ended sk2.
       run_data_receiver sk1 peer params config [] 1 primed = Returned ended sk2 \<and>
       finish_download fs dest md params ended = (outcome, fs'))"
  using assms unfolding read_after_reply_def Let_def
  by (auto simp: bind_result_Returned split: if_splits oack_result.splits) blast+


text \<open>A sample: the server sends the only block of a two-byte file.\<close>

lemma sample_download:
  "case read_file default_engine_config (plain_file_system (\<lambda>_. None))
      (Some (fresh_socket [Datagram (serialize_data 1 [5, 6]) (IPv4 [127, 0, 0, 1] 3069), WouldBlock]))
      (IPv4 [127, 0, 0, 1] 69) ''f'' ''/tmp/f'' ''octet'' no_requested_options of
    Returned (outcome, fs') sk \<Rightarrow> completed_successfully outcome
  | _ \<Rightarrow> False"
  by code_simp


end
