(* ===== verification/End_To_End.thy ===== *)
theory End_To_End
  imports Lossless Server_Threads Reference_Client
begin

text \<open>
  The engine against itself, over a network that loses nothing: a \<open>read_file\<close> or \<open>write_file\<close> of the client
  and the server's handler for its request, each given exactly what the other one sends. The request is
  accepted, the options are agreed, the blocks go through in order, both ends return, and the file is
  where it belongs. The one-sided runs are those of \<open>Lossless\<close>, the agreement that of \<open>Negotiation\<close>.
\<close>

section \<open>What the two sides need of each other\<close>

definition engines_compatible :: "engine_config \<Rightarrow> engine_config \<Rightarrow> bool" where
  "engines_compatible ccfg scfg \<longleftrightarrow>
     default_block_size ccfg = default_block_size scfg \<and> default_block_size scfg \<noteq> 0 \<and>
     0 \<le> maximum_retransmissions ccfg \<and> 0 \<le> maximum_retransmissions scfg \<and>
     quirks ccfg = correct_quirks \<and> quirks scfg = correct_quirks"

text \<open>The bytes that arrive: those of the file, with its line ends normalised in netascii mode.\<close>

definition delivered_bytes :: "string \<Rightarrow> bytes \<Rightarrow> bytes" where
  "delivered_bytes md file_bytes = (if mode_is_netascii md then normalize_eol file_bytes else file_bytes)"

lemma delivered_payload:
  "(if mode_is_netascii md then decode_netascii_to_local (upload_payload md file_bytes)
    else upload_payload md file_bytes) = delivered_bytes md file_bytes"
  by (simp add: delivered_bytes_def upload_payload_def decode_encode_normalizes)

lemma transfer_setup:
  assumes "engines_compatible ccfg scfg" "config = ccfg \<or> config = scfg" "block_size params \<noteq> 0"
    and "2 * length file_bytes + 65537 < 2 ^ 32"
  shows "net_setup (upload_payload md file_bytes) params config 0"
proof -
  have "length (upload_payload md file_bytes) \<le> 2 * length file_bytes"
    using encode_length_bounds [of file_bytes] by (simp add: upload_payload_def)
  then have "length (upload_payload md file_bytes) div unat (block_size params) \<le> 2 * length file_bytes"
    using div_le_dividend le_trans by blast
  then have "block_total (upload_payload md file_bytes) params + 65536 < 2 ^ 32"
    using assms(4) by (simp add: block_total_def)
  moreover have "quirks config = correct_quirks" using assms(1,2) by (auto simp: engines_compatible_def)
  ultimately show ?thesis
    using assms(3) by (simp add: net_setup_def correct_quirks_def word_gt_0)
qed

section \<open>Openings\<close>

lemma first_reply_answered:
  assumes "inbox sk = Datagram d peer # evs" "parse_tftp_packet d = Inr p" "0 < n"
  shows "await_first_reply n request server sk = Returned (Some (p, peer)) ((send_to sk request server)\<lparr>inbox := evs\<rparr>)"
proof -
  have "d \<noteq> []" using assms(2) by (auto simp: parse_tftp_packet_def)
  then show ?thesis using assms by (cases n) (simp_all add: receive_from_def)
qed

lemma oack_acknowledged:
  assumes "inbox sk = Datagram (serialize_acknowledgement 0) client # evs" "endpoint_valid client" "0 < n"
  shows "await_oack_ack n oack client sk =
    Returned (Some True) ((send_to sk (serialize_option_acknowledgement oack) client)\<lparr>inbox := evs\<rparr>)"
  using assms by (cases n) (simp_all add: receive_locked_packet [of _ "serialize_acknowledgement 0"])

text \<open>A packet handed to the receiver is a packet it would have received.\<close>

lemma primed_packet:
  assumes "endpoint_valid peer" "parse_tftp_packet d = Inr p"
  shows "run_data_receiver sk peer params config sink0 first (Some p) =
    run_data_receiver (sk\<lparr>inbox := Datagram d peer # inbox sk\<rparr>) peer params config sink0 first None"
proof -
  have "receive_from_locked_peer (sk\<lparr>inbox := Datagram d peer # inbox sk\<rparr>) peer = Returned (GotPacket p) sk"
    using receive_locked_packet [OF _ assms, of "sk\<lparr>inbox := Datagram d peer # inbox sk\<rparr>" "inbox sk"] by (cases sk) simp
  then show ?thesis
    unfolding run_data_receiver_def
    by (subst (1 2) receiver_loop.simps) simp
qed

text \<open>The request of a client, as the accept loop of the server sees it.\<close>

lemma built_request_wf: "list_all option_wf (build_requested_option_list opts config)"
  using built_options_requested by (auto simp: list_all_iff)

lemma request_accepted:
  assumes "nul_free remote" "nul_free md"
  shows "accepted_request (Datagram (serialize_read_request remote md (build_requested_option_list opts config)) client)
      = Some (request_packet ReadRequest remote md (build_requested_option_list opts config), client)"
    and "accepted_request (Datagram (serialize_write_request remote md (build_requested_option_list opts config)) client)
      = Some (request_packet WriteRequest remote md (build_requested_option_list opts config), client)"
proof -
  have "serialize_read_request remote md os \<noteq> []" "serialize_write_request remote md os \<noteq> []" for os
    by (simp_all add: serialize_shapes)
  then show "accepted_request (Datagram (serialize_read_request remote md (build_requested_option_list opts config)) client)
      = Some (request_packet ReadRequest remote md (build_requested_option_list opts config), client)"
    "accepted_request (Datagram (serialize_write_request remote md (build_requested_option_list opts config)) client)
      = Some (request_packet WriteRequest remote md (build_requested_option_list opts config), client)"
    using assms built_request_wf by (simp_all add: accepted_request_def)
qed

lemma request_attempts_positive: "engines_compatible ccfg scfg \<Longrightarrow> 0 < request_attempts ccfg"
  by (simp add: engines_compatible_def request_attempts_def)

text \<open>Both ends run with the same parameters; without an OACK these are the defaults.\<close>

lemma agreed_parameters:
  assumes "engines_compatible ccfg scfg"
  obtains params oack where
    "negotiate_server_options (request_packet op f md (build_requested_option_list opts ccfg)) scfg fsize
       (engine_default_parameters scfg) = (params, oack)"
    "list_all option_wf oack" "block_size params \<noteq> 0"
    "apply_oack_to_client (oack_packet oack) opts (engine_default_parameters ccfg) = OackApplied params"
    "oack = [] \<Longrightarrow> params = engine_default_parameters ccfg"
proof -
  obtain params oack where n: "negotiate_server_options (request_packet op f md (build_requested_option_list opts ccfg))
      scfg fsize (engine_default_parameters scfg) = (params, oack)" "list_all option_wf oack"
    "apply_oack_to_client (oack_packet oack) opts (engine_default_parameters ccfg) = OackApplied params"
    using negotiation_applies assms by (metis engines_compatible_def)
  have "block_size params \<noteq> 0" using legal_block_size [OF _ n(1)] assms by (simp add: engines_compatible_def)
  moreover have "params = engine_default_parameters ccfg" if "oack = []"
    using n(3) that by (simp add: apply_oack_to_client_def)
  ultimately show ?thesis using that n by blast
qed

text \<open>Two engines of default configuration and a server with one file, for the witnesses.\<close>

definition served_sample :: file_system where
  "served_sample = plain_file_system [''/srv/f'' \<mapsto> [13, 10, 7]]"

lemma sample_engines: "engines_compatible default_engine_config default_engine_config"
  by (simp add: engines_compatible_def default_engine_config_def)

lemma served_sample_facts:
  "resolve_served_path served_sample ''/srv'' ''f'' = Some ''/srv/f''"
  "read_entire_file served_sample ''/srv/f'' = Some [13, 10, 7]"
  "snd (write_entire_file served_sample q data)"
  "resolve_served_path served_sample ''/srv'' ''new'' = Some ''/srv/new''" "\<not> file_exists served_sample ''/srv/new''"
  by (code_simp, simp_all add: served_sample_def plain_file_system_def read_entire_file_def
      write_entire_file_def file_exists_def) code_simp

section \<open>A download\<close>

definition opening_of_download :: "tftp_option list \<Rightarrow> bytes list" where
  "opening_of_download oack = (if oack = [] then [] else [serialize_option_acknowledgement oack])"

definition answer_to_oack :: "tftp_option list \<Rightarrow> bytes list" where
  "answer_to_oack oack = (if oack = [] then [] else [serialize_acknowledgement 0])"

lemma finished_download:
  assumes "completed_successfully outcome" "snd (write_entire_file fs dest (delivered_bytes md file_bytes))"
  obtains outcome' fs' where
    "finish_download fs dest md params (outcome, upload_payload md file_bytes) = (outcome', fs')"
    "completed_successfully outcome'" "contents fs' dest = Some (delivered_bytes md file_bytes)"
proof -
  obtain fs' where w: "write_entire_file fs dest (delivered_bytes md file_bytes) = (fs', True)"
    using assms(2) by (metis prod.collapse)
  have "contents fs' dest = Some (delivered_bytes md file_bytes)"
    using write_entire_file_success [OF assms(2)] w by simp
  then show ?thesis
    using assms(1) w that by (simp add: finish_download_def delivered_payload)
qed

lemma transfer_data_first:
  obtains d n rest where "transfer_data payload params = serialize_data n d # rest"
  by (simp add: transfer_data_def block_datagrams_def block_total_def upt_conv_Cons del: upt_Suc)

lemma script_append [simp]: "script peer (ds @ es) = script peer ds @ script peer es"
  by (simp add: script_def)

lemma script_Cons [simp]: "script peer (d # ds) = Datagram d peer # script peer ds"
  by (simp add: script_def)

lemma script_Nil [simp]: "script peer [] = []"
  by (simp add: script_def)

lemma download_client_side:
  assumes compatible: "engines_compatible ccfg scfg" and valid: "endpoint_valid tid"
    and size: "2 * length file_bytes + 65537 < 2 ^ 32"
    and agreed: "list_all option_wf oack" "block_size params \<noteq> 0"
      "apply_oack_to_client (oack_packet oack) opts (engine_default_parameters ccfg) = OackApplied params"
      "oack = [] \<Longrightarrow> params = engine_default_parameters ccfg"
    and writable: "snd (write_entire_file fs dest (delivered_bytes md file_bytes))"
    and payload: "payload = upload_payload md file_bytes"
  shows "\<exists>outcome fs' sk. read_file ccfg fs
      (Some (fresh_socket (script tid (opening_of_download oack @ transfer_data payload params) @ [WouldBlock])))
      listening remote dest md opts = Returned (outcome, fs') sk \<and>
    completed_successfully outcome \<and> contents fs' dest = Some (delivered_bytes md file_bytes) \<and>
    outbox sk = (serialize_read_request remote md (build_requested_option_list opts ccfg), listening) #
      addressed tid (answer_to_oack oack @ transfer_acks payload params)"
proof -
  let ?request = "serialize_read_request remote md (build_requested_option_list opts ccfg)"
  let ?sk = "set_receive_timeout (fresh_socket (script tid (opening_of_download oack @ transfer_data payload params)
    @ [WouldBlock])) (retransmission_timeout ccfg)"
  note attempts = request_attempts_positive [OF compatible]
  have ready: "net_setup payload params ccfg 0"
    unfolding payload by (rule transfer_setup [OF compatible _ agreed(2) size]) simp
  have receiver: "\<exists>outcome sk'. run_data_receiver sk tid params ccfg [] 1 None = Returned (outcome, payload) sk' \<and>
      completed_successfully outcome \<and> inbox sk' = [] \<and>
      outbox sk' = outbox sk @ addressed tid (transfer_acks payload params)"
    if "inbox sk = script tid (transfer_data payload params) @ [WouldBlock]" for sk
    by (rule lossless_receiver) (use ready valid that in \<open>auto simp: net_setup_def\<close>)
  show ?thesis
  proof (cases "oack = []")
    case True
    obtain d n rest where first: "transfer_data payload params = serialize_data n d # rest"
      by (rule transfer_data_first)
    let ?sk1 = "(send_to ?sk ?request listening)\<lparr>inbox := script tid rest @ [WouldBlock]\<rparr>"
    have reply: "await_first_reply (request_attempts ccfg) ?request listening ?sk =
        Returned (Some (data_packet n d, tid)) ?sk1"
      by (rule first_reply_answered [OF _ parse_serialized(1) attempts])
        (simp add: True opening_of_download_def first)
    obtain outcome sk' where run: "run_data_receiver ?sk1 tid params ccfg [] 1 (Some (data_packet n d)) =
        Returned (outcome, payload) sk'" "completed_successfully outcome"
      "outbox sk' = (?request, listening) # addressed tid (transfer_acks payload params)"
      unfolding primed_packet [OF valid parse_serialized(1) [of n d]]
      using receiver [of "?sk1\<lparr>inbox := Datagram (serialize_data n d) tid # inbox ?sk1\<rparr>"] first by auto
    obtain outcome' fs' where fin: "finish_download fs dest md params (outcome, payload) = (outcome', fs')"
      "completed_successfully outcome'" "contents fs' dest = Some (delivered_bytes md file_bytes)"
      using finished_download [OF run(2) writable] unfolding payload .
    show ?thesis
      using reply run fin agreed(4) [OF True]
      by (simp add: read_file_def open_client_socket_def Let_def read_after_reply_def True answer_to_oack_def)
  next
    case False
    let ?sk1 = "(send_to ?sk ?request listening)\<lparr>inbox := script tid (transfer_data payload params) @ [WouldBlock]\<rparr>"
    have reply: "await_first_reply (request_attempts ccfg) ?request listening ?sk =
        Returned (Some (oack_packet oack, tid)) ?sk1"
      by (rule first_reply_answered [OF _ parse_serialized(4) [OF agreed(1)] attempts])
        (simp add: False opening_of_download_def)
    obtain outcome sk' where run: "run_data_receiver (send_to ?sk1 (serialize_acknowledgement 0) tid) tid params ccfg [] 1 None =
        Returned (outcome, payload) sk'" "completed_successfully outcome"
      "outbox sk' = (?request, listening) # (serialize_acknowledgement 0, tid) # addressed tid (transfer_acks payload params)"
      using receiver [of "send_to ?sk1 (serialize_acknowledgement 0) tid"] by auto
    obtain outcome' fs' where fin: "finish_download fs dest md params (outcome, payload) = (outcome', fs')"
      "completed_successfully outcome'" "contents fs' dest = Some (delivered_bytes md file_bytes)"
      using finished_download [OF run(2) writable] unfolding payload .
    show ?thesis
      using reply run fin agreed(3)
      by (simp add: read_file_def open_client_socket_def Let_def read_after_reply_def False answer_to_oack_def)
  qed
qed

lemma download_server_side:
  assumes compatible: "engines_compatible ccfg scfg" and valid: "endpoint_valid client"
    and size: "2 * length file_bytes + 65537 < 2 ^ 32"
    and agreed: "negotiate_server_options request scfg (Some (word_of_nat (length payload)))
      (engine_default_parameters scfg) = (params, oack)" "block_size params \<noteq> 0"
    and request: "opcode request = ReadRequest" "transfer_mode request = md"
      "resolve_served_path fs dir (filename request) = Some path" "read_entire_file fs path = Some file_bytes"
    and payload: "payload = upload_payload md file_bytes"
  shows "\<exists>sk. handle_request scfg fs dir request client
      (Some (fresh_socket (script client (answer_to_oack oack @ transfer_acks payload params)))) = Returned fs sk \<and>
    outbox sk = addressed client (opening_of_download oack @ transfer_data payload params)"
proof -
  let ?sk = "set_receive_timeout (fresh_socket (script client (answer_to_oack oack @ transfer_acks payload params)))
    (retransmission_timeout scfg)"
  have ready: "net_setup payload params scfg 0"
    unfolding payload by (rule transfer_setup [OF compatible _ agreed(2) size]) simp
  have sender: "\<exists>outcome sk'. run_data_sender sk client payload params scfg 0 = Returned outcome sk' \<and>
      outbox sk' = outbox sk @ addressed client (transfer_data payload params)"
    if "inbox sk = script client (transfer_acks payload params)" for sk
    using lossless_sender [OF ready valid, of sk "[]"] that by auto
  have served: "handle_request scfg fs dir request client
      (Some (fresh_socket (script client (answer_to_oack oack @ transfer_acks payload params)))) =
    serve_read scfg fs request file_bytes client ?sk"
    using request by (simp add: handle_request_def handle_on_socket_def)
  have payload': "(if mode_is_netascii (transfer_mode request) then encode_local_to_netascii file_bytes else file_bytes)
      = payload" by (simp add: payload upload_payload_def request(2))
  show ?thesis
  proof (cases "oack = []")
    case True
    then show ?thesis
      unfolding served using sender [of ?sk] agreed(1) payload'
      by (auto simp: serve_read_def Let_def answer_to_oack_def opening_of_download_def)
  next
    case False
    let ?sk1 = "(send_to ?sk (serialize_option_acknowledgement oack) client)
      \<lparr>inbox := script client (transfer_acks payload params)\<rparr>"
    have "await_oack_ack (nat (maximum_retransmissions scfg + 1)) oack client ?sk = Returned (Some True) ?sk1"
      by (rule oack_acknowledged [OF _ valid])
        (use compatible False in \<open>simp_all add: answer_to_oack_def engines_compatible_def\<close>)
    then show ?thesis
      unfolding served using sender [of ?sk1] agreed(1) payload' False
      by (auto simp: serve_read_def Let_def opening_of_download_def)
  qed
qed

text \<open>
  C3. A download from the engine's own server arrives. For engines whose default block sizes agree and
  that have no fault switched on, every file of less than 2 GB that the server can read, every mode and
  every set of requested options: there are two sequences of datagrams such that the client, given the
  first, stores the file at the destination and reports success, having sent the request and the second;
  and the server's handler for that request, given the second, sends exactly the first and returns.
\<close>
theorem lossless_download_completes:
  assumes "engines_compatible ccfg scfg" "endpoint_valid client" "endpoint_valid tid"
    and "nul_free remote" "nul_free md" "2 * length file_bytes + 65537 < 2 ^ 32"
    and "resolve_served_path sfs dir remote = Some path" "read_entire_file sfs path = Some file_bytes"
    and "snd (write_entire_file cfs dest (delivered_bytes md file_bytes))"
  shows "\<exists>rrq request to_client to_server outcome cfs' csk ssk.
    read_file ccfg cfs (Some (fresh_socket (script tid to_client @ [WouldBlock]))) listening remote dest md opts
      = Returned (outcome, cfs') csk \<and>
    completed_successfully outcome \<and> contents cfs' dest = Some (delivered_bytes md file_bytes) \<and>
    outbox csk = (rrq, listening) # addressed tid to_server \<and>
    accepted_request (Datagram rrq client) = Some (request, client) \<and>
    handle_request scfg sfs dir request client (Some (fresh_socket (script client to_server))) = Returned sfs ssk \<and>
    outbox ssk = addressed client to_client"
proof -
  let ?options = "build_requested_option_list opts ccfg"
  let ?request = "request_packet ReadRequest remote md ?options"
  let ?payload = "upload_payload md file_bytes"
  obtain params oack where agreed: "negotiate_server_options ?request scfg (Some (word_of_nat (length ?payload)))
      (engine_default_parameters scfg) = (params, oack)"
    "list_all option_wf oack" "block_size params \<noteq> 0"
    "apply_oack_to_client (oack_packet oack) opts (engine_default_parameters ccfg) = OackApplied params"
    "oack = [] \<Longrightarrow> params = engine_default_parameters ccfg"
    using agreed_parameters [OF assms(1), of ReadRequest remote md opts] by blast
  have shape: "opcode ?request = ReadRequest" "transfer_mode ?request = md" "filename ?request = remote"
    by (simp_all add: request_packet_def)
  show ?thesis
    using download_client_side [OF assms(1,3,6) agreed(2-5) assms(9) refl, of listening remote]
      download_server_side [OF assms(1,2,6) agreed(1,3) shape(1,2) _ assms(8) refl, of dir] assms(7)
      request_accepted(1) [OF assms(4,5), of opts ccfg client]
    unfolding shape(3) by blast
qed

theorem lossless_download_completes_witness:
  "\<exists>rrq request to_client to_server outcome cfs' csk ssk.
    read_file default_engine_config served_sample
      (Some (fresh_socket (script (IPv4 [127, 0, 0, 1] 3069) to_client @ [WouldBlock]))) (IPv4 [127, 0, 0, 1] 69)
      ''f'' ''/tmp/f'' ''netascii'' no_requested_options = Returned (outcome, cfs') csk \<and>
    completed_successfully outcome \<and> contents cfs' ''/tmp/f'' = Some (delivered_bytes ''netascii'' [13, 10, 7]) \<and>
    outbox csk = (rrq, IPv4 [127, 0, 0, 1] 69) # addressed (IPv4 [127, 0, 0, 1] 3069) to_server \<and>
    accepted_request (Datagram rrq sample_client) = Some (request, sample_client) \<and>
    handle_request default_engine_config served_sample ''/srv'' request sample_client
      (Some (fresh_socket (script sample_client to_server))) = Returned served_sample ssk \<and>
    outbox ssk = addressed sample_client to_client"
  by (rule lossless_download_completes [OF sample_engines, where path = "''/srv/f''"])
    (simp_all add: served_sample_facts sample_client_def endpoint_valid_def nul_free_def byte_of_char_def)

section \<open>An upload\<close>

definition opening_of_upload :: "tftp_option list \<Rightarrow> bytes" where
  "opening_of_upload oack =
     (if oack \<noteq> [] then serialize_option_acknowledgement oack else serialize_acknowledgement 0)"

lemma upload_client_side:
  assumes compatible: "engines_compatible ccfg scfg" and valid: "endpoint_valid tid"
    and size: "2 * length file_bytes + 65537 < 2 ^ 32"
    and source: "read_entire_file fs source = Some file_bytes"
    and payload: "payload = upload_payload md file_bytes" and opts: "opts' = effective_write_options opts payload"
    and agreed: "list_all option_wf oack" "block_size params \<noteq> 0"
      "apply_oack_to_client (oack_packet oack) opts' (engine_default_parameters ccfg) = OackApplied params"
      "oack = [] \<Longrightarrow> params = engine_default_parameters ccfg"
  shows "\<exists>outcome sk. write_file ccfg fs
      (Some (fresh_socket (script tid (opening_of_upload oack # transfer_acks payload params))))
      listening source remote md opts = Returned outcome sk \<and> completed_successfully outcome \<and>
    outbox sk = (serialize_write_request remote md (build_requested_option_list opts' ccfg), listening) #
      addressed tid (transfer_data payload params)"
proof -
  let ?request = "serialize_write_request remote md (build_requested_option_list opts' ccfg)"
  let ?sk = "set_receive_timeout (fresh_socket (script tid (opening_of_upload oack # transfer_acks payload params)))
    (retransmission_timeout ccfg)"
  let ?sk1 = "(send_to ?sk ?request listening)\<lparr>inbox := script tid (transfer_acks payload params)\<rparr>"
  let ?reply = "if oack = [] then ack_packet 0 else oack_packet oack"
  have ready: "net_setup payload params ccfg 0"
    unfolding payload by (rule transfer_setup [OF compatible _ agreed(2) size]) simp
  obtain outcome sk' where run: "run_data_sender ?sk1 tid payload params ccfg 0 = Returned outcome sk'"
    "completed_successfully outcome"
    "outbox sk' = (?request, listening) # addressed tid (transfer_data payload params)"
    using lossless_sender [OF ready valid, of ?sk1 "[]"] by auto
  have "parse_tftp_packet (opening_of_upload oack) = Inr ?reply"
    using parse_serialized(2) [of 0] parse_serialized(4) [OF agreed(1)] by (simp add: opening_of_upload_def)
  from first_reply_answered [OF _ this request_attempts_positive [OF compatible], of ?sk tid _ ?request listening]
  have reply: "await_first_reply (request_attempts ccfg) ?request listening ?sk = Returned (Some (?reply, tid)) ?sk1"
    by simp
  show ?thesis
    using reply run agreed(3,4) source payload opts
    by (cases "oack = []") (simp_all add: write_file_def open_client_socket_def Let_def write_after_reply_def)
qed

lemma upload_server_side:
  assumes compatible: "engines_compatible ccfg scfg" and valid: "endpoint_valid client"
    and size: "2 * length file_bytes + 65537 < 2 ^ 32"
    and agreed: "negotiate_server_options request scfg None (engine_default_parameters scfg) = (params, oack)"
      "block_size params \<noteq> 0"
    and request: "opcode request = WriteRequest" "transfer_mode request = md"
      "resolve_served_path fs dir (filename request) = Some path"
      "\<not> (reject_overwrite_on_write_request scfg \<and> file_exists fs path)"
    and writable: "snd (write_entire_file fs path (delivered_bytes md file_bytes))"
    and payload: "payload = upload_payload md file_bytes"
  shows "\<exists>fs' sk. handle_request scfg fs dir request client
      (Some (fresh_socket (script client (transfer_data payload params) @ [WouldBlock]))) = Returned fs' sk \<and>
    contents fs' path = Some (delivered_bytes md file_bytes) \<and>
    outbox sk = addressed client (opening_of_upload oack # transfer_acks payload params)"
proof -
  let ?sk = "set_receive_timeout (fresh_socket (script client (transfer_data payload params) @ [WouldBlock]))
    (retransmission_timeout scfg)"
  have ready: "net_setup payload params scfg 0"
    unfolding payload by (rule transfer_setup [OF compatible _ agreed(2) size]) simp
  obtain outcome sk' where run: "run_data_receiver (send_to ?sk (opening_of_upload oack) client) client params scfg [] 1 None
      = Returned (outcome, payload) sk'" "completed_successfully outcome"
    "outbox sk' = addressed client (opening_of_upload oack # transfer_acks payload params)"
    using lossless_receiver [OF _ _ valid, of params payload "send_to ?sk (opening_of_upload oack) client" "[]" scfg] ready
    by (auto simp: net_setup_def)
  have stored: "contents (finish_upload fs request path (outcome, payload)) path = Some (delivered_bytes md file_bytes)"
    using run(2) write_entire_file_success [OF writable]
    by (simp add: finish_upload_def request(2) payload delivered_payload)
  have "handle_request scfg fs dir request client
      (Some (fresh_socket (script client (transfer_data payload params) @ [WouldBlock]))) =
    Returned (finish_upload fs request path (outcome, payload)) sk'"
    using request(1,3,4) agreed(1) run(1)
    by (auto simp: handle_request_def handle_on_socket_def serve_write_def opening_of_upload_def Let_def)
  then show ?thesis using stored run(3) by simp
qed

text \<open>
  C4. An upload to the engine's own server arrives: under the same conditions, for a name the server
  resolves and may write, there are two sequences of datagrams such that the client, given the first,
  reports success, having sent the request and the second; and the handler for that request, given the
  second, sends exactly the first and leaves the file at the served path.
\<close>
theorem lossless_upload_completes:
  assumes "engines_compatible ccfg scfg" "endpoint_valid client" "endpoint_valid tid"
    and "nul_free remote" "nul_free md" "2 * length file_bytes + 65537 < 2 ^ 32"
    and "read_entire_file cfs source = Some file_bytes" "resolve_served_path sfs dir remote = Some path"
    and "\<not> (reject_overwrite_on_write_request scfg \<and> file_exists sfs path)"
    and "snd (write_entire_file sfs path (delivered_bytes md file_bytes))"
  shows "\<exists>wrq request to_client to_server outcome sfs' csk ssk.
    write_file ccfg cfs (Some (fresh_socket (script tid to_client))) listening source remote md opts
      = Returned outcome csk \<and> completed_successfully outcome \<and>
    outbox csk = (wrq, listening) # addressed tid to_server \<and>
    accepted_request (Datagram wrq client) = Some (request, client) \<and>
    handle_request scfg sfs dir request client (Some (fresh_socket (script client to_server @ [WouldBlock])))
      = Returned sfs' ssk \<and>
    outbox ssk = addressed client to_client \<and> contents sfs' path = Some (delivered_bytes md file_bytes)"
proof -
  let ?payload = "upload_payload md file_bytes"
  let ?opts = "effective_write_options opts ?payload"
  let ?request = "request_packet WriteRequest remote md (build_requested_option_list ?opts ccfg)"
  obtain params oack where agreed: "negotiate_server_options ?request scfg None
      (engine_default_parameters scfg) = (params, oack)"
    "list_all option_wf oack" "block_size params \<noteq> 0"
    "apply_oack_to_client (oack_packet oack) ?opts (engine_default_parameters ccfg) = OackApplied params"
    "oack = [] \<Longrightarrow> params = engine_default_parameters ccfg"
    using agreed_parameters [OF assms(1), of WriteRequest remote md ?opts] by blast
  have shape: "opcode ?request = WriteRequest" "transfer_mode ?request = md" "filename ?request = remote"
    by (simp_all add: request_packet_def)
  show ?thesis
    using upload_client_side [OF assms(1,3,6,7) refl refl agreed(2-5), of listening remote]
      upload_server_side [OF assms(1,2,6) agreed(1,3) shape(1,2) _ assms(9,10) refl, of dir] assms(8)
      request_accepted(2) [OF assms(4,5), of ?opts ccfg client]
    unfolding shape(3) by blast
qed

theorem lossless_upload_completes_witness:
  "\<exists>wrq request to_client to_server outcome sfs' csk ssk.
    write_file default_engine_config served_sample
      (Some (fresh_socket (script (IPv4 [127, 0, 0, 1] 3069) to_client))) (IPv4 [127, 0, 0, 1] 69)
      ''/srv/f'' ''new'' ''octet'' no_requested_options = Returned outcome csk \<and> completed_successfully outcome \<and>
    outbox csk = (wrq, IPv4 [127, 0, 0, 1] 69) # addressed (IPv4 [127, 0, 0, 1] 3069) to_server \<and>
    accepted_request (Datagram wrq sample_client) = Some (request, sample_client) \<and>
    handle_request default_engine_config served_sample ''/srv'' request sample_client
      (Some (fresh_socket (script sample_client to_server @ [WouldBlock]))) = Returned sfs' ssk \<and>
    outbox ssk = addressed sample_client to_client \<and>
    contents sfs' ''/srv/new'' = Some (delivered_bytes ''octet'' [13, 10, 7])"
  by (rule lossless_upload_completes [OF sample_engines])
    (simp_all add: served_sample_facts sample_client_def endpoint_valid_def nul_free_def byte_of_char_def)

end
