(* ===== verification/Giving_Up.thy ===== *)
theory Giving_Up
  imports Server_Threads Reference_Client
begin

text \<open>
  Both roles of the engine give up on a silent peer: \<open>read_file\<close> and \<open>write_file\<close> of the client and every
  handler of the server come to an end on every script with enough time-outs. This is what the transfer
  driver relies on when it joins the client's thread after the proxy and the server are gone. The client
  may end in an exception, for the numbers of an OACK; it does not hang on them.
\<close>

section \<open>Runs that end\<close>

definition ends :: "'a result \<Rightarrow> bool" where
  "ends res \<longleftrightarrow> (\<forall>sk. res \<noteq> Waiting sk)"

lemma ends_simps [simp]: "ends (Returned a sk)" "ends (Raised e sk)" "\<not> ends (Waiting sk)"
  by (simp_all add: ends_def)

lemma returns_ends: "returns res \<Longrightarrow> ends res"
  by (auto simp: returns_def)

lemma ends_bind: "ends res \<Longrightarrow> (\<And>a sk. res = Returned a sk \<Longrightarrow> ends (f a sk)) \<Longrightarrow> ends (bind_result res f)"
  by (cases res) auto

lemma ends_bind_value: "ends res \<Longrightarrow> ends (bind_result res (\<lambda>a sk. Returned (g a) sk))"
  by (rule ends_bind) simp_all

lemma receive_from_left:
  assumes "0 < timeouts_left (inbox sk)"
  obtains r sk1 where "receive_from sk = Returned r sk1"
    "timeouts_left (inbox sk) \<le> timeouts_left (inbox sk1) + 1" "datagrams_left (inbox sk1) \<le> datagrams_left (inbox sk)"
proof (cases "inbox sk")
  case Nil
  then show ?thesis using assms by simp
next
  case (Cons ev evs)
  then show ?thesis using that by (cases ev) (simp_all add: receive_from_def)
qed

lemma await_first_reply_left:
  assumes "n \<le> timeouts_left (inbox sk)"
  obtains r sk1 where "await_first_reply n request server sk = Returned r sk1"
    "timeouts_left (inbox sk) \<le> timeouts_left (inbox sk1) + n" "datagrams_left (inbox sk1) \<le> datagrams_left (inbox sk)"
  using assms
proof (induction n arbitrary: sk thesis)
  case 0
  then show ?case by simp
next
  case (Suc n)
  let ?sk = "send_to sk request server"
  from Suc.prems(2) have "0 < timeouts_left (inbox ?sk)" by simp
  then obtain r sk1 where r: "receive_from ?sk = Returned r sk1"
    "timeouts_left (inbox ?sk) \<le> timeouts_left (inbox sk1) + 1" "datagrams_left (inbox sk1) \<le> datagrams_left (inbox ?sk)"
    by (rule receive_from_left)
  obtain received buffer sender where t: "r = (received, buffer, sender)" using prod_cases3 by blast
  have "n \<le> timeouts_left (inbox sk1)" using Suc.prems(2) r(2) by simp
  then obtain r' sk' where again: "await_first_reply n request server sk1 = Returned r' sk'"
    "timeouts_left (inbox sk1) \<le> timeouts_left (inbox sk') + n" "datagrams_left (inbox sk') \<le> datagrams_left (inbox sk1)"
    using Suc.IH by blast
  show ?case
  proof (cases "received > 0 \<and> (\<exists>packet. parse_tftp_packet buffer = Inr packet)")
    case True
    then obtain packet where "await_first_reply (Suc n) request server sk = Returned (Some (packet, sender)) sk1"
      using r(1) t by auto
    then show ?thesis by (rule Suc.prems(1)) (use r in simp_all)
  next
    case False
    then have "await_first_reply (Suc n) request server sk = Returned r' sk'"
      using r(1) t again(1) by (auto split: sum.split)
    then show ?thesis by (rule Suc.prems(1)) (use r again in simp_all)
  qed
qed

section \<open>The two loops\<close>

lemma run_data_sender_ends:
  assumes "length payload div unat (block_size params) + 1 + 65536 < 2 ^ 32"
    and "Suc (nat (maximum_retransmissions config)) * (length payload div unat (block_size params) + 2)
      \<le> timeouts_left (inbox sk)"
  shows "ends (run_data_sender sk peer payload params config k)"
proof (cases "block_size params = 0")
  case True
  then show ?thesis by (simp add: run_data_sender_def effective_total_blocks_def total_block_count_def)
next
  case False
  from run_data_sender_returns [OF this assms] show ?thesis by (metis ends_simps(1))
qed

lemma run_data_receiver_ends:
  assumes "Suc (nat (maximum_retransmissions config)) * (datagrams_left (inbox sk) + 2) \<le> timeouts_left (inbox sk)"
  shows "ends (run_data_receiver sk peer params config sink0 first primed)"
proof (cases primed)
  case None
  have "Suc (nat (maximum_retransmissions config)) * Suc (datagrams_left (inbox sk)) \<le>
      Suc (nat (maximum_retransmissions config)) * (datagrams_left (inbox sk) + 2)"
    by (intro mult_le_mono2) simp
  then show ?thesis
    using run_data_receiver_returns [of config sk peer params sink0 first] assms None by fastforce
next
  case (Some p)
  let ?env = "make_receiver_env params config" and ?st = "initial_receiver_state params sink0 first"
    and ?d = "datagrams_left (inbox sk)"
  obtain next_step sends where h: "receiver_handle ?env ?st (GotPacket p) = (next_step, sends)" by fastforce
  have adm: "receiver_admits ?env ?st" by (simp add: receiver_admits_def initial_receiver_state_def)
  show ?thesis
  proof (cases next_step)
    case (Continue st1)
    have "receiver_admits ?env st1 \<and> receiver_potential ?env st1 ?d \<le> receiver_potential ?env ?st (Suc ?d)"
      using receiver_handle_potential [OF adm h [unfolded Continue], of ?d "Suc ?d"] by simp
    moreover have "receiver_potential ?env ?st (Suc ?d) < timeouts_left (inbox sk)"
      using assms by (simp add: receiver_potential_def initial_receiver_state_def make_receiver_env_def)
    ultimately have "returns (receiver_loop ?env peer st1 None (send_all sk peer sends))"
      by (intro receiver_poll.returns_if_timeouts_left) simp_all
    then show ?thesis
      using Some h Continue by (simp add: run_data_receiver_def receiver_loop.simps [of _ _ _ "Some p"] returns_ends)
  next
    case (Complete st1)
    have "0 < timeouts_left (inbox sk)" using assms by simp
    then have "ends (receiver_dally 4 (last_in_sequence st1) peer (set_receive_timeout (send_all sk peer sends) 150))"
      by (intro returns_ends receiver_dally_returns) simp
    then show ?thesis
      using Some h Complete by (simp add: run_data_receiver_def receiver_loop.simps [of _ _ _ "Some p"] ends_bind)
  qed (use Some h in \<open>simp add: run_data_receiver_def receiver_loop.simps [of _ _ _ "Some p"]\<close>)
qed

section \<open>The client\<close>

lemma read_after_reply_stops:
  assumes "Suc (nat (maximum_retransmissions config)) * (datagrams_left (inbox sk) + 2) \<le> timeouts_left (inbox sk)"
  shows "ends (read_after_reply config fs destination md opts reply peer sk)"
proof -
  have "ends (run_data_receiver sk1 peer params config [] 1 primed)" if "inbox sk1 = inbox sk" for sk1 params primed
    using run_data_receiver_ends assms that by simp
  then show ?thesis
    by (auto simp: read_after_reply_def Let_def split: oack_result.split intro!: ends_bind)
qed

lemma write_after_reply_stops:
  assumes "length payload \<le> n" "n + 65537 < 2 ^ 32"
    and "Suc (nat (maximum_retransmissions config)) * (n + 2) \<le> timeouts_left (inbox sk)"
  shows "ends (write_after_reply config payload opts reply peer sk)"
proof -
  have "ends (run_data_sender sk peer payload params config 0)" for params
  proof (rule run_data_sender_ends)
    have blocks: "length payload div unat (block_size params) \<le> n"
      using div_le_dividend assms(1) le_trans by blast
    then show "length payload div unat (block_size params) + 1 + 65536 < 2 ^ 32" using assms(2) by simp
    have "Suc (nat (maximum_retransmissions config)) * (length payload div unat (block_size params) + 2) \<le>
        Suc (nat (maximum_retransmissions config)) * (n + 2)"
      using blocks by (intro mult_le_mono2) simp
    then show "Suc (nat (maximum_retransmissions config)) * (length payload div unat (block_size params) + 2)
        \<le> timeouts_left (inbox sk)" using assms(3) by linarith
  qed
  then show ?thesis
    by (auto simp: write_after_reply_def Let_def split: oack_result.split intro!: ends_bind)
qed


lemma read_file_stops:
  assumes "Suc (nat (maximum_retransmissions config)) * (datagrams_left evs + 3) \<le> timeouts_left evs"
  shows "ends (read_file config fs (Some (fresh_socket evs)) server remote destination md opts)"
proof -
  let ?m = "Suc (nat (maximum_retransmissions config))"
  let ?sk = "set_receive_timeout (fresh_socket evs) (retransmission_timeout config)"
  let ?request = "serialize_read_request remote md (build_requested_option_list opts config)"
  have attempts: "request_attempts config \<le> ?m" by (simp add: request_attempts_def)
  have room: "?m * (datagrams_left evs + 2) + ?m \<le> timeouts_left evs" using assms by (simp add: algebra_simps)
  then have "request_attempts config \<le> timeouts_left (inbox ?sk)" using attempts by simp
  then obtain reply sk1 where reply: "await_first_reply (request_attempts config) ?request server ?sk = Returned reply sk1"
    "timeouts_left (inbox ?sk) \<le> timeouts_left (inbox sk1) + request_attempts config"
    "datagrams_left (inbox sk1) \<le> datagrams_left (inbox ?sk)"
    by (rule await_first_reply_left)
  have "?m * (datagrams_left (inbox sk1) + 2) \<le> ?m * (datagrams_left evs + 2)"
    using reply(3) by (intro mult_le_mono2) simp
  also have "\<dots> \<le> timeouts_left (inbox sk1)" using room attempts reply(2) by simp
  finally have "ends (read_after_reply config fs destination md opts first peer sk1)" for first peer
    by (rule read_after_reply_stops)
  then show ?thesis
    using reply(1) by (auto simp: read_file_def open_client_socket_def Let_def split: option.split prod.split)
qed

lemma write_file_stops:
  assumes "\<And>path file_bytes. contents fs path = Some file_bytes \<Longrightarrow> length file_bytes \<le> n" "2 * n + 65537 < 2 ^ 32"
    and "Suc (nat (maximum_retransmissions config)) * (2 * n + 3) \<le> timeouts_left evs"
  shows "ends (write_file config fs (Some (fresh_socket evs)) server source remote md opts)"
proof (cases "read_entire_file fs source")
  case None
  then show ?thesis by (simp add: write_file_def)
next
  case (Some file_bytes)
  let ?m = "Suc (nat (maximum_retransmissions config))"
  let ?sk = "set_receive_timeout (fresh_socket evs) (retransmission_timeout config)"
  let ?payload = "upload_payload md file_bytes"
  let ?opts = "effective_write_options opts ?payload"
  let ?request = "serialize_write_request remote md (build_requested_option_list ?opts config)"
  have size: "length ?payload \<le> 2 * n"
    using assms(1) [of source file_bytes] Some encode_length_bounds [of file_bytes]
    by (auto simp: upload_payload_def read_entire_file_def)
  have attempts: "request_attempts config \<le> ?m" by (simp add: request_attempts_def)
  have room: "?m * (2 * n + 2) + ?m \<le> timeouts_left evs" using assms(3) by (simp add: algebra_simps)
  then have "request_attempts config \<le> timeouts_left (inbox ?sk)" using attempts by simp
  then obtain reply sk1 where reply: "await_first_reply (request_attempts config) ?request server ?sk = Returned reply sk1"
    "timeouts_left (inbox ?sk) \<le> timeouts_left (inbox sk1) + request_attempts config"
    by (rule await_first_reply_left)
  have "?m * (2 * n + 2) \<le> timeouts_left (inbox sk1)" using room attempts reply(2) by simp
  then have "ends (write_after_reply config ?payload ?opts first peer sk1)" for first peer
    by (rule write_after_reply_stops [OF size assms(2)])
  then show ?thesis
    using reply(1) Some by (auto simp: write_file_def open_client_socket_def Let_def split: option.split prod.split)
qed

section \<open>Both roles\<close>

text \<open>
  C8. Everybody gives up on a silent peer. On every script with an allowance of time-outs for each byte
  of twice the largest file, each datagram of the script and a few more, whatever the datagrams are and in
  whatever order: a handler of the server returns, and a download and an upload of the client come to an
  end (perhaps in an exception, for a number in an OACK).
\<close>
theorem engine_gives_up:
  assumes "default_block_size config \<noteq> 0"
    and "\<forall>path file_bytes. contents fs path = Some file_bytes \<longrightarrow> length file_bytes \<le> n" "2 * n + 65537 < 2 ^ 32"
    and "Suc (nat (maximum_retransmissions config)) * (2 * n + datagrams_left evs + 3) \<le> timeouts_left evs"
  shows "(\<exists>fs' sk'. handle_request config fs dir request peer (Some (fresh_socket evs)) = Returned fs' sk') \<and>
    ends (read_file config fs (Some (fresh_socket evs)) peer remote path md opts) \<and>
    ends (write_file config fs (Some (fresh_socket evs)) peer path remote md opts)"
proof (intro conjI)
  let ?m = "Suc (nat (maximum_retransmissions config))"
  show "\<exists>fs' sk'. handle_request config fs dir request peer (Some (fresh_socket evs)) = Returned fs' sk'"
    by (rule handlers_give_up [OF assms])
  have "?m * (datagrams_left evs + 3) \<le> ?m * (2 * n + datagrams_left evs + 3)" by (intro mult_le_mono2) simp
  then show "ends (read_file config fs (Some (fresh_socket evs)) peer remote path md opts)"
    using assms(4) by (intro read_file_stops) linarith
  have "?m * (2 * n + 3) \<le> ?m * (2 * n + datagrams_left evs + 3)" by (intro mult_le_mono2) simp
  then show "ends (write_file config fs (Some (fresh_socket evs)) peer path remote md opts)"
    using assms(2-4) by (intro write_file_stops [of fs n]) auto
qed

theorem engine_gives_up_witness:
  "ends (read_file default_engine_config sample_files
     (Some (fresh_socket (Datagram (serialize_data 9 []) sample_client # replicate 100 WouldBlock))) sample_client
     ''f'' ''/tmp/f'' ''octet'' no_requested_options)"
  by (rule engine_gives_up [where n = 0, THEN conjunct2, THEN conjunct1])
    (simp_all add: default_engine_config_def sample_files_def plain_file_system_def datagrams_left_def)

end
