(* ===== verification/Impairments.thy ===== *)
theory Impairments
  imports Doubles
begin

text \<open>
  \<open>src/src/net/impairments.{hpp,cpp}\<close>: the impairment pipeline of the proxy. One call of
  \<open>process\<close> takes a datagram and decides from the seeded generator whether it is dropped, delayed,
  corrupted or duplicated; the pipeline's state (generator, channel states, token bucket, counter of
  DATA packets) is passed explicitly. Times are steady-clock nanoseconds, delays milliseconds, both
  unbounded; doubles are those of Doubles. A draw from a range always returns
  (\<open>draw_in_range_total\<close>), so \<open>draw_in_range\<close> has a default that is never taken.
\<close>

section \<open>Data\<close>

datatype direction = ClientToServer | ServerToClient

datatype corruption_target = AnyByte | OpcodeField | BlockNumber | DataPayload

record impairment_config =
  uniform_loss_probability :: double
  gilbert_elliott_enabled :: bool
  good_to_bad_probability :: double
  bad_to_good_probability :: double
  loss_in_good_state :: double
  loss_in_bad_state :: double
  duplication_probability :: double
  reorder_probability :: double
  reorder_extra_delay :: int
  fixed_delay :: int
  jitter :: int
  corruption_probability :: double
  config_corruption_target :: corruption_target
  throttle_enabled :: bool
  throttle_bytes_per_second :: double
  blackout_enabled :: bool
  blackout_after_data_packets :: u32

definition default_impairment_config :: impairment_config where
  "default_impairment_config =
     \<lparr>uniform_loss_probability = 0, gilbert_elliott_enabled = False,
      good_to_bad_probability = rnd (5 / 100), bad_to_good_probability = rnd (30 / 100),
      loss_in_good_state = 0, loss_in_bad_state = 1, duplication_probability = 0,
      reorder_probability = 0, reorder_extra_delay = 60, fixed_delay = 0, jitter = 0,
      corruption_probability = 0, config_corruption_target = DataPayload, throttle_enabled = False,
      throttle_bytes_per_second = 0, blackout_enabled = False, blackout_after_data_packets = 0\<rparr>"

record delivery_action =
  delivery_bytes :: bytes
  delivery_delay :: int
  delivery_corrupted :: bool
  delivery_is_duplicate :: bool

record pipeline_result =
  result_dropped :: bool
  result_deliveries :: "delivery_action list"
  result_drop_reason :: string

record impairment_pipeline =
  pipeline_config :: impairment_config
  pipeline_prng :: deterministic_prng
  client_to_server_bad :: bool
  server_to_client_bad :: bool
  delivered_data_packets :: u32
  token_bucket_bytes :: double
  last_refill :: int

definition make_pipeline :: "impairment_config \<Rightarrow> u64 \<Rightarrow> int \<Rightarrow> impairment_pipeline" where
  "make_pipeline config seed created =
     \<lparr>pipeline_config = config, pipeline_prng = \<lparr>prng_state = seed\<rparr>,
      client_to_server_bad = False, server_to_client_bad = False, delivered_data_packets = 0,
      token_bucket_bytes = 0, last_refill = created\<rparr>"

definition channel_for :: "direction \<Rightarrow> impairment_pipeline \<Rightarrow> bool" where
  "channel_for d p = (if d = ClientToServer then client_to_server_bad p else server_to_client_bad p)"

definition set_channel :: "direction \<Rightarrow> bool \<Rightarrow> impairment_pipeline \<Rightarrow> impairment_pipeline" where
  "set_channel d b p =
     (if d = ClientToServer then p\<lparr>client_to_server_bad := b\<rparr> else p\<lparr>server_to_client_bad := b\<rparr>)"

text \<open>The pipeline's two kinds of draw.\<close>

definition chance :: "double \<Rightarrow> impairment_pipeline \<Rightarrow> bool \<times> impairment_pipeline" where
  "chance probability p =
     (let (b, g) = bernoulli (pipeline_prng p) probability in (b, p\<lparr>pipeline_prng := g\<rparr>))"

definition draw_in_range :: "u64 \<Rightarrow> u64 \<Rightarrow> impairment_pipeline \<Rightarrow> u64 \<times> impairment_pipeline" where
  "draw_in_range low high p =
     (case uniform_in_range (pipeline_prng p) low high of
        Some (v, g) \<Rightarrow> (v, p\<lparr>pipeline_prng := g\<rparr>)
      | None \<Rightarrow> (low, p))"

section \<open>The stages\<close>

definition decide_loss :: "direction \<Rightarrow> impairment_pipeline \<Rightarrow> bool \<times> string \<times> impairment_pipeline" where
  "decide_loss d p =
     (let c = pipeline_config p;
          (lost, p) = chance (uniform_loss_probability c) p
      in if lost then (True, ''uniform loss'', p)
         else if gilbert_elliott_enabled c then
           let (flips, p) = (if channel_for d p then chance (bad_to_good_probability c) p
                             else chance (good_to_bad_probability c) p);
               bad = (if flips then \<not> channel_for d p else channel_for d p);
               p = set_channel d bad p;
               (lost, p) = chance (if bad then loss_in_bad_state c else loss_in_good_state c) p
           in if lost then
                (True, if bad then ''Gilbert-Elliott burst loss (bad)''
                       else ''Gilbert-Elliott loss (good)'', p)
              else (False, [], p)
         else (False, [], p))"

definition flip_at :: "nat \<Rightarrow> bytes \<Rightarrow> impairment_pipeline \<Rightarrow> bytes \<times> bool \<times> impairment_pipeline" where
  "flip_at index bytes p =
     (if index < length bytes then
        let (r, p) = draw_in_range 0 7 p;
            bit = (ucast (push_bit (unat r) (1 :: u32)) :: u8)
        in (bytes[index := bytes ! index XOR bit], True, p)
      else (bytes, False, p))"

definition maybe_corrupt :: "bytes \<Rightarrow> impairment_pipeline \<Rightarrow> bytes \<times> bool \<times> impairment_pipeline" where
  "maybe_corrupt datagram p =
     (let c = pipeline_config p
      in if datagram = [] then (datagram, False, p)
         else let (fires, p) = chance (corruption_probability c) p
              in if \<not> fires then (datagram, False, p)
                 else (case config_corruption_target c of
                   OpcodeField \<Rightarrow>
                     let (r, p) = draw_in_range 0 1 p in flip_at (unat r) datagram p
                 | BlockNumber \<Rightarrow>
                     let (r, p) = draw_in_range 0 1 p in flip_at (2 + unat r) datagram p
                 | DataPayload \<Rightarrow>
                     if length datagram > 4 then
                       let (r, p) = draw_in_range 0 (word_of_nat (length datagram - 5)) p
                       in flip_at (4 + unat r) datagram p
                     else flip_at (length datagram - 1) datagram p
                 | AnyByte \<Rightarrow>
                     let (r, p) = draw_in_range 0 (word_of_nat (length datagram - 1)) p
                     in flip_at (unat r) datagram p))"

definition throttle_delay :: "nat \<Rightarrow> int \<Rightarrow> impairment_pipeline \<Rightarrow> int \<times> impairment_pipeline" where
  "throttle_delay datagram_size now p =
     (let c = pipeline_config p; rate = throttle_bytes_per_second c
      in if \<not> throttle_enabled c \<or> rate \<le> 0 then (0, p)
         else let elapsed_seconds = dbl_div (dbl_of_int (now - last_refill p)) 1000000000;
                  tokens = dbl_add (token_bucket_bytes p) (dbl_mul elapsed_seconds rate);
                  tokens = (if rate < tokens then rate else tokens);
                  tokens = dbl_sub tokens (dbl_of_int (int datagram_size));
                  p = p\<lparr>last_refill := now, token_bucket_bytes := tokens\<rparr>
              in if tokens \<ge> 0 then (0, p)
                 else (dbl_trunc (dbl_mul (dbl_div (- tokens) rate) 1000), p))"

definition process_delay :: "nat \<Rightarrow> int \<Rightarrow> impairment_pipeline \<Rightarrow> int \<times> impairment_pipeline" where
  "process_delay datagram_size now p =
     (let c = pipeline_config p;
          delay = fixed_delay c;
          (delay, p) = (if jitter c > 0 then
                          let (r, p) = draw_in_range 0 (word_of_int (jitter c)) p
                          in (delay + uint r, p)
                        else (delay, p));
          (extra, p) = throttle_delay datagram_size now p;
          (held, p) = chance (reorder_probability c) p
      in (if held then delay + extra + reorder_extra_delay c else delay + extra, p))"

definition process ::
  "direction \<Rightarrow> bytes \<Rightarrow> bool \<Rightarrow> int \<Rightarrow> impairment_pipeline \<Rightarrow> pipeline_result \<times> impairment_pipeline" where
  "process d datagram is_data_packet now p =
     (let c = pipeline_config p
      in if blackout_enabled c \<and> delivered_data_packets p \<ge> blackout_after_data_packets c then
           (\<lparr>result_dropped = True, result_deliveries = [],
             result_drop_reason = ''blackout after N data packets''\<rparr>, p)
         else
           let (lost, reason, p) = decide_loss d p
           in if lost then
                (\<lparr>result_dropped = True, result_deliveries = [], result_drop_reason = reason\<rparr>, p)
              else
                let p = (if is_data_packet
                         then p\<lparr>delivered_data_packets := delivered_data_packets p + 1\<rparr> else p);
                    (bytes, corrupted, p) = maybe_corrupt datagram p;
                    (delay, p) = process_delay (length bytes) now p;
                    primary = \<lparr>delivery_bytes = bytes, delivery_delay = delay,
                      delivery_corrupted = corrupted, delivery_is_duplicate = False\<rparr>;
                    (twice, p) = chance (duplication_probability c) p;
                    duplicate = \<lparr>delivery_bytes = bytes, delivery_delay = delay + 1,
                      delivery_corrupted = corrupted, delivery_is_duplicate = True\<rparr>
                in (\<lparr>result_dropped = False,
                     result_deliveries = (if twice then [primary, duplicate] else [primary]),
                     result_drop_reason = []\<rparr>, p))"

section \<open>Every stage leaves the configuration alone\<close>

lemma chance_frame:
  "chance q p = (b, p') \<Longrightarrow> pipeline_config p' = pipeline_config p \<and>
     delivered_data_packets p' = delivered_data_packets p \<and> token_bucket_bytes p' = token_bucket_bytes p"
  by (auto simp: chance_def split: prod.splits)

lemma draw_in_range_frame:
  "draw_in_range low high p = (r, p') \<Longrightarrow> pipeline_config p' = pipeline_config p \<and>
     delivered_data_packets p' = delivered_data_packets p \<and> token_bucket_bytes p' = token_bucket_bytes p"
  by (auto simp: draw_in_range_def split: option.splits)

lemma draw_in_range_total:
  "uniform_in_range (pipeline_prng p) low high =
     Some (fst (draw_in_range low high p), pipeline_prng (snd (draw_in_range low high p)))"
  using uniform_in_range_total [of "pipeline_prng p" low high] by (auto simp: draw_in_range_def)

lemma draw_in_range_bounds:
  assumes "low \<le> high" and "draw_in_range low high p = (r, p')"
  shows "low \<le> r" and "r \<le> high"
  using uniform_in_range_bounds [OF draw_in_range_total [of p low high] assms(1)] assms(2) by simp_all

lemma chance_certain [simp]: "q \<le> 0 \<Longrightarrow> chance q p = (False, p)"
  by (simp add: chance_def bernoulli_def)

lemma chance_sure [simp]: "1 \<le> q \<Longrightarrow> chance q p = (True, p)"
  by (simp add: chance_def bernoulli_def)

lemma set_channel_frame [simp]:
  "pipeline_config (set_channel d b p) = pipeline_config p"
  "delivered_data_packets (set_channel d b p) = delivered_data_packets p"
  "token_bucket_bytes (set_channel d b p) = token_bucket_bytes p"
  by (simp_all add: set_channel_def)

lemma decide_loss_frame:
  assumes "decide_loss d p = (l, reason, p')"
  shows "pipeline_config p' = pipeline_config p \<and> delivered_data_packets p' = delivered_data_packets p"
  using assms
  by (auto simp: decide_loss_def Let_def split: prod.splits if_splits dest!: chance_frame)

lemma flip_at_frame:
  assumes "flip_at i x p = (y, c, p')"
  shows "pipeline_config p' = pipeline_config p \<and> delivered_data_packets p' = delivered_data_packets p"
  using assms by (auto simp: flip_at_def Let_def split: prod.splits if_splits dest!: draw_in_range_frame)

lemma maybe_corrupt_frame:
  assumes "maybe_corrupt x p = (y, c, p')"
  shows "pipeline_config p' = pipeline_config p \<and> delivered_data_packets p' = delivered_data_packets p"
  using assms
  by (auto simp: maybe_corrupt_def Let_def split: prod.splits if_splits corruption_target.splits
      dest!: chance_frame draw_in_range_frame flip_at_frame)

lemma throttle_delay_frame:
  assumes "throttle_delay n now p = (t, p')"
  shows "pipeline_config p' = pipeline_config p \<and> delivered_data_packets p' = delivered_data_packets p"
  using assms by (auto simp: throttle_delay_def Let_def split: if_splits)

lemma process_delay_frame:
  assumes "process_delay n now p = (t, p')"
  shows "pipeline_config p' = pipeline_config p \<and> delivered_data_packets p' = delivered_data_packets p"
  using assms
  by (auto simp: process_delay_def Let_def split: prod.splits if_splits
      dest!: chance_frame draw_in_range_frame throttle_delay_frame)

section \<open>Corruption flips one bit\<close>

definition bit_flipped :: "bytes \<Rightarrow> bytes \<Rightarrow> nat \<Rightarrow> nat \<Rightarrow> bool" where
  "bit_flipped x y i k \<longleftrightarrow> i < length x \<and> k < 8 \<and> y = x[i := x ! i XOR push_bit k 1]"

definition in_target :: "corruption_target \<Rightarrow> nat \<Rightarrow> nat \<Rightarrow> bool" where
  "in_target t n i \<longleftrightarrow>
     (case t of OpcodeField \<Rightarrow> i < 2 | BlockNumber \<Rightarrow> i = 2 \<or> i = 3
      | DataPayload \<Rightarrow> if 4 < n then 4 \<le> i else i = n - 1 | AnyByte \<Rightarrow> True)"

lemma single_bit_u8: "k < 8 \<Longrightarrow> ucast (push_bit k (1 :: u32)) = (push_bit k 1 :: u8) \<and> push_bit k (1 :: u8) \<noteq> 0"
proof -
  assume "k < 8"
  then have "k = 0 \<or> k = 1 \<or> k = 2 \<or> k = 3 \<or> k = 4 \<or> k = 5 \<or> k = 6 \<or> k = 7" by linarith
  then show ?thesis by (elim disjE) simp_all
qed

lemma bit_flipped_differs: "bit_flipped x y i k \<Longrightarrow> y \<noteq> x"
proof -
  assume b: "bit_flipped x y i k"
  have "x ! i XOR push_bit k 1 \<noteq> x ! i"
  proof
    assume "x ! i XOR push_bit k 1 = x ! i"
    then have "(x ! i XOR x ! i) XOR push_bit k 1 = x ! i XOR x ! i" by (simp only: xor.assoc)
    then show False using single_bit_u8 [of k] b by (simp add: bit_flipped_def)
  qed
  then show "y \<noteq> x" using b by (metis bit_flipped_def nth_list_update_eq)
qed

lemma flip_at_effect:
  assumes "flip_at i x p = (y, c, p')"
  shows "\<not> c \<and> y = x \<and> length x \<le> i \<or> c \<and> (\<exists>k. bit_flipped x y i k)"
proof (cases "i < length x")
  case True
  obtain r q where r: "draw_in_range 0 7 p = (r, q)" by fastforce
  have "r \<le> 7" using draw_in_range_bounds(2) [OF _ r] by simp
  then have k: "unat r < 8" by (simp add: word_le_nat_alt)
  have "bit_flipped x y i (unat r)"
    using assms True r k single_bit_u8 [OF k] by (auto simp: flip_at_def bit_flipped_def Let_def)
  then show ?thesis using assms True r by (auto simp: flip_at_def Let_def)
qed (use assms in \<open>auto simp: flip_at_def\<close>)

lemma maybe_corrupt_effect:
  assumes "maybe_corrupt x p = (y, c, p')"
  shows "\<not> c \<and> y = x \<or>
    c \<and> (\<exists>i k. bit_flipped x y i k \<and> in_target (config_corruption_target (pipeline_config p)) (length x) i)"
proof -
  obtain fires q where f: "chance (corruption_probability (pipeline_config p)) p = (fires, q)" by fastforce
  consider "x = [] \<or> \<not> fires" | "x \<noteq> []" "fires" by blast
  then show ?thesis
  proof cases
    case 1
    then show ?thesis using assms f by (auto simp: maybe_corrupt_def Let_def split: if_splits)
  next
    case 2
    have "\<exists>i q'. flip_at i x q' = (y, c, p') \<and>
        (i < length x \<longrightarrow> in_target (config_corruption_target (pipeline_config p)) (length x) i)"
    proof (cases "config_corruption_target (pipeline_config p)")
      case AnyByte
      then show ?thesis using assms f 2
        by (auto simp: maybe_corrupt_def Let_def in_target_def split: prod.splits)
    next
      case OpcodeField
      obtain r q' where r: "draw_in_range 0 1 q = (r, q')" by fastforce
      have "unat r < 2" using draw_in_range_bounds(2) [OF _ r] by (simp add: word_le_nat_alt)
      then show ?thesis using assms f 2 r OpcodeField
        by (auto simp: maybe_corrupt_def Let_def in_target_def)
    next
      case BlockNumber
      obtain r q' where r: "draw_in_range 0 1 q = (r, q')" by fastforce
      have "unat r < 2" using draw_in_range_bounds(2) [OF _ r] by (simp add: word_le_nat_alt)
      then have "2 + unat r = 2 \<or> 2 + unat r = 3" by linarith
      then show ?thesis using assms f 2 r BlockNumber
        by (auto simp: maybe_corrupt_def Let_def in_target_def)
    next
      case DataPayload
      obtain r q' where r: "draw_in_range 0 (word_of_nat (length x - 5)) q = (r, q')" by fastforce
      show ?thesis using assms f 2 r DataPayload
        by (cases "length x > 4") (auto simp: maybe_corrupt_def Let_def in_target_def)
    qed
    then show ?thesis using flip_at_effect by (metis bit_flipped_def)
  qed
qed

section \<open>One datagram\<close>

lemma process_cases:
  assumes "process d x isd now p = (r, p')"
  obtains (blackout) "blackout_enabled (pipeline_config p)"
      "blackout_after_data_packets (pipeline_config p) \<le> delivered_data_packets p"
      "result_dropped r" "result_deliveries r = []" "p' = p"
    | (lost) reason where "\<not> (blackout_enabled (pipeline_config p) \<and>
        blackout_after_data_packets (pipeline_config p) \<le> delivered_data_packets p)"
      "decide_loss d p = (True, reason, p')" "result_dropped r" "result_deliveries r = []"
    | (delivered) reason p1 p2 p3 y c t twice where "\<not> (blackout_enabled (pipeline_config p) \<and>
        blackout_after_data_packets (pipeline_config p) \<le> delivered_data_packets p)"
      "decide_loss d p = (False, reason, p1)"
      "maybe_corrupt x (if isd then p1\<lparr>delivered_data_packets := delivered_data_packets p1 + 1\<rparr> else p1)
         = (y, c, p2)"
      "process_delay (length y) now p2 = (t, p3)"
      "chance (duplication_probability (pipeline_config p)) p3 = (twice, p')"
      "\<not> result_dropped r"
      "result_deliveries r =
         \<lparr>delivery_bytes = y, delivery_delay = t, delivery_corrupted = c, delivery_is_duplicate = False\<rparr> #
         (if twice then [\<lparr>delivery_bytes = y, delivery_delay = t + 1, delivery_corrupted = c,
            delivery_is_duplicate = True\<rparr>] else [])"
  using assms by (auto simp: process_def Let_def split: prod.splits if_splits)

lemma process_frame:
  assumes "process d x isd now p = (r, p')"
  shows "pipeline_config p' = pipeline_config p"
  using assms
  by (cases rule: process_cases)
    (auto dest!: decide_loss_frame maybe_corrupt_frame process_delay_frame chance_frame split: if_splits)

text \<open>
  C26. What the pipeline may do to one datagram: either it is dropped and nothing is delivered, or it
  is delivered once, or twice with the copy marked and one millisecond later; both copies carry the
  same bytes, and those are the datagram itself or the datagram with exactly one bit flipped at a
  position of the configured target, which the corruption mark reports truthfully.
\<close>
theorem impaired_deliveries:
  "let (r, p') = process d x is_data now p in
     pipeline_config p' = pipeline_config p \<and>
     (result_dropped r \<and> result_deliveries r = []
      \<or> (\<exists>y c t twice. \<not> result_dropped r \<and>
           result_deliveries r =
             \<lparr>delivery_bytes = y, delivery_delay = t, delivery_corrupted = c,
              delivery_is_duplicate = False\<rparr> #
             (if twice then [\<lparr>delivery_bytes = y, delivery_delay = t + 1, delivery_corrupted = c,
                delivery_is_duplicate = True\<rparr>] else []) \<and>
           length y = length x \<and> c = (y \<noteq> x) \<and>
           (y = x \<or> (\<exists>i k. bit_flipped x y i k \<and>
             in_target (config_corruption_target (pipeline_config p)) (length x) i))))"
proof -
  obtain r p' where pr: "process d x is_data now p = (r, p')" by fastforce
  note frame = process_frame [OF pr]
  from pr show ?thesis
  proof (cases rule: process_cases)
    case (delivered reason p1 p2 p3 y c t twice)
    have cfg: "pipeline_config (if is_data then p1\<lparr>delivered_data_packets := delivered_data_packets p1 + 1\<rparr> else p1)
        = pipeline_config p" using decide_loss_frame [OF delivered(2)] by simp
    note eff = maybe_corrupt_effect [OF delivered(3), unfolded cfg]
    then have "length y = length x" "c = (y \<noteq> x)"
      using bit_flipped_differs [of x y] by (auto simp: bit_flipped_def)
    then show ?thesis using pr frame delivered(6,7) eff by auto
  qed (use pr frame in auto)
qed

section \<open>Blackout\<close>

text \<open>A run: the datagrams in the order the event loop feeds them, with direction, DATA flag and time.\<close>

type_synonym arrival = "direction \<times> bytes \<times> bool \<times> int"

fun run_pipeline :: "arrival list \<Rightarrow> impairment_pipeline \<Rightarrow> pipeline_result list \<times> impairment_pipeline" where
  "run_pipeline [] p = ([], p)"
| "run_pipeline ((d, x, isd, now) # as) p =
     (let (r, p) = process d x isd now p; (rs, p) = run_pipeline as p in (r # rs, p))"

definition data_deliveries :: "arrival list \<Rightarrow> pipeline_result list \<Rightarrow> nat" where
  "data_deliveries as rs =
     length (filter (\<lambda>((d, x, isd, now), r). isd \<and> \<not> result_dropped r) (zip as rs))"

lemma process_counter:
  assumes "process d x isd now p = (r, p')" and "blackout_enabled (pipeline_config p)"
    and "delivered_data_packets p \<le> blackout_after_data_packets (pipeline_config p)"
  shows "delivered_data_packets p' \<le> blackout_after_data_packets (pipeline_config p)"
    and "unat (delivered_data_packets p') =
      unat (delivered_data_packets p) + (if isd \<and> \<not> result_dropped r then 1 else 0)"
proof -
  let ?N = "blackout_after_data_packets (pipeline_config p)"
  show "delivered_data_packets p' \<le> ?N"
    and "unat (delivered_data_packets p') =
      unat (delivered_data_packets p) + (if isd \<and> \<not> result_dropped r then 1 else 0)"
    using assms(1)
  proof (atomize(full), cases rule: process_cases)
    case blackout
    then show "delivered_data_packets p' \<le> ?N \<and> unat (delivered_data_packets p') =
      unat (delivered_data_packets p) + (if isd \<and> \<not> result_dropped r then 1 else 0)" using assms(3) by simp
  next
    case (lost reason)
    then show "delivered_data_packets p' \<le> ?N \<and> unat (delivered_data_packets p') =
      unat (delivered_data_packets p) + (if isd \<and> \<not> result_dropped r then 1 else 0)"
      using assms(3) decide_loss_frame by simp
  next
    case (delivered reason p1 p2 p3 y c t twice)
    have less: "delivered_data_packets p < ?N" using delivered(1) assms(2) by simp
    then have "delivered_data_packets p \<noteq> - 1" by auto
    then have inc: "unat (delivered_data_packets p + 1) = Suc (unat (delivered_data_packets p))"
      by (rule unat_plus_one_word)
    have "delivered_data_packets p' = (if isd then delivered_data_packets p + 1 else delivered_data_packets p)"
      using decide_loss_frame [OF delivered(2)] maybe_corrupt_frame [OF delivered(3)]
        process_delay_frame [OF delivered(4)] chance_frame [OF delivered(5)] by (auto split: if_splits)
    then show "delivered_data_packets p' \<le> ?N \<and> unat (delivered_data_packets p') =
      unat (delivered_data_packets p) + (if isd \<and> \<not> result_dropped r then 1 else 0)"
      using less inc delivered(6) by (auto simp: word_less_nat_alt word_le_nat_alt)
  qed
qed

lemma run_pipeline_counter:
  assumes "run_pipeline as p = (rs, p')" and "blackout_enabled (pipeline_config p)"
    and "delivered_data_packets p \<le> blackout_after_data_packets (pipeline_config p)"
  shows "pipeline_config p' = pipeline_config p \<and>
    delivered_data_packets p' \<le> blackout_after_data_packets (pipeline_config p) \<and>
    unat (delivered_data_packets p') = unat (delivered_data_packets p) + data_deliveries as rs"
  using assms
proof (induction as arbitrary: p rs)
  case Nil
  then show ?case by (simp add: data_deliveries_def)
next
  case (Cons a as)
  obtain d x isd now where a: "a = (d, x, isd, now)" by (cases a)
  obtain r p1 where r: "process d x isd now p = (r, p1)" by fastforce
  obtain qs where qs: "run_pipeline as p1 = (qs, p')" "rs = r # qs"
    using Cons.prems(1) by (auto simp: a r Let_def split: prod.splits)
  note f = process_frame [OF r] and c = process_counter [OF r Cons.prems(2,3)]
  show ?case
    using Cons.IH [OF qs(1)] Cons.prems(2) f c by (auto simp: qs(2) a data_deliveries_def)
qed

text \<open>
  The blackout bounds the session: over any sequence of datagrams in both directions, no more
  DATA packets are delivered than configured, and once that many have been, every further datagram
  of either direction is dropped, without drawing from the generator.
\<close>
lemma blackout_bounds_delivery:
  assumes "blackout_enabled config"
    and "run_pipeline arrivals (make_pipeline config seed created) = (results, p)"
  shows "data_deliveries arrivals results \<le> unat (blackout_after_data_packets config) \<and>
    (data_deliveries arrivals results = unat (blackout_after_data_packets config) \<longrightarrow>
      (\<forall>d x is_data now. result_dropped (fst (process d x is_data now p)) \<and>
         snd (process d x is_data now p) = p))"
proof -
  have init: "pipeline_config (make_pipeline config seed created) = config"
    "delivered_data_packets (make_pipeline config seed created) = 0" by (simp_all add: make_pipeline_def)
  note run = run_pipeline_counter [OF assms(2), unfolded init, OF assms(1)]
  then have n: "unat (delivered_data_packets p) = data_deliveries arrivals results" by simp
  then have "data_deliveries arrivals results \<le> unat (blackout_after_data_packets config)"
    using run by (simp add: word_le_nat_alt)
  moreover have "result_dropped (fst (process d x is_data now p)) \<and> snd (process d x is_data now p) = p"
    if "data_deliveries arrivals results = unat (blackout_after_data_packets config)" for d x is_data now
    using that n run assms(1) by (simp add: process_def word_le_nat_alt)
  ultimately show ?thesis by blast
qed

lemmas process_simps = process_def decide_loss_def maybe_corrupt_def process_delay_def throttle_delay_def
  channel_for_def set_channel_def Let_def

definition one_data_config :: impairment_config where
  "one_data_config = default_impairment_config\<lparr>blackout_enabled := True, blackout_after_data_packets := 1\<rparr>"

definition three_arrivals :: "arrival list" where
  "three_arrivals = [(ClientToServer, [0, 1, 65, 0, 66, 0], False, 5),
     (ServerToClient, [0, 3, 0, 1, 7], True, 6), (ClientToServer, [0, 4, 0, 1], False, 7)]"

lemma blackout_bounds_delivery_witness:
  "\<exists>results p. run_pipeline three_arrivals (make_pipeline one_data_config 42 0) = (results, p) \<and>
     data_deliveries three_arrivals results = 1 \<and>
     result_dropped (fst (process ServerToClient [0, 3, 0, 2, 8] True 9 p))"
proof -
  obtain results p where run:
    "run_pipeline three_arrivals (make_pipeline one_data_config 42 0) = (results, p)" by fastforce
  have "data_deliveries three_arrivals results = 1"
    using run by (auto simp: process_simps three_arrivals_def one_data_config_def
        default_impairment_config_def make_pipeline_def data_deliveries_def)
  moreover have "blackout_enabled one_data_config" "unat (blackout_after_data_packets one_data_config) = 1"
    by (simp_all add: one_data_config_def)
  ultimately show ?thesis using blackout_bounds_delivery [OF _ run] run by auto
qed

section \<open>The transparent pipeline and the delays\<close>

definition transparent :: "impairment_config \<Rightarrow> bool" where
  "transparent c \<longleftrightarrow> uniform_loss_probability c \<le> 0 \<and> \<not> gilbert_elliott_enabled c \<and>
     duplication_probability c \<le> 0 \<and> reorder_probability c \<le> 0 \<and> jitter c \<le> 0 \<and>
     corruption_probability c \<le> 0 \<and> \<not> throttle_enabled c \<and> \<not> blackout_enabled c"

lemma process_transparent:
  "transparent (pipeline_config p) \<Longrightarrow>
    process d x is_data now p =
      (\<lparr>result_dropped = False, result_deliveries =
          [\<lparr>delivery_bytes = x, delivery_delay = fixed_delay (pipeline_config p),
            delivery_corrupted = False, delivery_is_duplicate = False\<rparr>], result_drop_reason = []\<rparr>,
       if is_data then p\<lparr>delivered_data_packets := delivered_data_packets p + 1\<rparr> else p)"
  by (simp add: transparent_def process_simps)

text \<open>
  A configuration with every impairment switched off (the default one is) relays each datagram
  exactly once, unchanged and after the fixed delay only, and never draws from the generator, so a
  session through such a proxy is the session without it.
\<close>
lemma transparent_pipeline_relays:
  assumes "transparent (pipeline_config p)"
  shows "transparent default_impairment_config \<and>
    process d x is_data now p =
      (\<lparr>result_dropped = False, result_deliveries =
          [\<lparr>delivery_bytes = x, delivery_delay = fixed_delay (pipeline_config p),
            delivery_corrupted = False, delivery_is_duplicate = False\<rparr>], result_drop_reason = []\<rparr>,
       if is_data then p\<lparr>delivered_data_packets := delivered_data_packets p + 1\<rparr> else p)"
  using process_transparent [OF assms] by (simp add: transparent_def default_impairment_config_def)

lemma transparent_pipeline_relays_witness:
  "result_deliveries (fst (process ClientToServer [0, 4, 0, 1] False 3
     (make_pipeline default_impairment_config 7 0))) =
   [\<lparr>delivery_bytes = [0, 4, 0, 1], delivery_delay = 0, delivery_corrupted = False,
     delivery_is_duplicate = False\<rparr>]"
proof -
  have "transparent (pipeline_config (make_pipeline default_impairment_config 7 0))"
    by (simp add: transparent_def default_impairment_config_def make_pipeline_def)
  from transparent_pipeline_relays [OF this] show ?thesis
    by (simp add: make_pipeline_def default_impairment_config_def)
qed

lemma deficit_delay_nonneg:
  "a \<le> 0 \<Longrightarrow> 0 \<le> r \<Longrightarrow> 0 \<le> dbl_trunc (dbl_mul (dbl_div (- a) r) 1000)"
  unfolding dbl_mul_def dbl_div_def
  by (intro dbl_trunc_nonneg rnd_nonneg mult_nonneg_nonneg divide_nonneg_nonneg) simp_all

lemma throttle_delay_nonneg:
  assumes "throttle_delay n now p = (t, p')"
  shows "0 \<le> t"
  using assms by (auto simp: throttle_delay_def Let_def split: if_splits intro!: deficit_delay_nonneg)

text \<open>The token bucket never holds more than one second of traffic (a rate is a double).\<close>

lemma bucket_charge_bound:
  assumes "rnd r = r" and "a \<le> r"
  shows "dbl_sub a (dbl_of_int (int n)) \<le> r"
proof -
  have "0 \<le> dbl_of_int (int n)" by (simp add: dbl_of_int_def rnd_nonneg)
  then have "rnd (a - dbl_of_int (int n)) \<le> rnd r" using assms(2) by (intro rnd_mono) linarith
  then show ?thesis unfolding dbl_sub_def assms(1) .
qed

lemma throttle_bucket_bound:
  assumes "throttle_delay n now p = (t, p')"
    and "rnd (throttle_bytes_per_second (pipeline_config p)) = throttle_bytes_per_second (pipeline_config p)"
    and "token_bucket_bytes p \<le> throttle_bytes_per_second (pipeline_config p)"
  shows "token_bucket_bytes p' \<le> throttle_bytes_per_second (pipeline_config p)"
proof -
  note charge = bucket_charge_bound [OF assms(2), of _ n]
  show ?thesis
    using assms(1,3) by (auto simp: throttle_delay_def Let_def not_less split: if_splits intro!: charge)
qed

lemma process_delay_bounds:
  assumes "process_delay n now p = (t, p')" and "0 \<le> reorder_extra_delay (pipeline_config p)"
    and "jitter (pipeline_config p) < 2 ^ 64"
  shows "fixed_delay (pipeline_config p) \<le> t"
    and "\<not> throttle_enabled (pipeline_config p) \<Longrightarrow>
      t \<le> fixed_delay (pipeline_config p) + max 0 (jitter (pipeline_config p)) + reorder_extra_delay (pipeline_config p)"
proof -
  let ?c = "pipeline_config p"
  define step where "step = (if jitter ?c > 0 then draw_in_range 0 (word_of_int (jitter ?c)) p else (0, p))"
  obtain r p1 where r: "step = (r, p1)" by fastforce
  obtain e p2 where e: "throttle_delay n now p1 = (e, p2)" by fastforce
  obtain h p3 where h: "chance (reorder_probability ?c) p2 = (h, p3)" by fastforce
  have c1: "pipeline_config p1 = ?c"
    using r by (auto simp: step_def split: if_splits dest!: draw_in_range_frame)
  have t: "t = (if h then fixed_delay ?c + uint r + e + reorder_extra_delay ?c else fixed_delay ?c + uint r + e)"
  proof (cases "jitter ?c > 0")
    case True
    then show ?thesis using assms(1) r e h by (simp add: process_delay_def Let_def step_def)
  next
    case False
    then have "r = 0" "p1 = p" using r by (simp_all add: step_def)
    then show ?thesis using assms(1) e h False by (cases h) (simp_all add: process_delay_def Let_def)
  qed
  have jit: "uint r \<le> max 0 (jitter ?c)"
  proof (cases "jitter ?c > 0")
    case True
    then have "r \<le> word_of_int (jitter ?c)"
      using draw_in_range_bounds(2) [of 0 "word_of_int (jitter ?c)" p r p1] r by (simp add: step_def)
    then have "uint r \<le> uint (word_of_int (jitter ?c) :: u64)" by (simp add: word_le_def)
    also have "\<dots> = jitter ?c" using True assms(3) by (simp add: uint_word_of_int)
    finally show ?thesis by simp
  qed (use r in \<open>auto simp: step_def\<close>)
  have "0 \<le> e" using throttle_delay_nonneg [OF e] .
  then show "fixed_delay ?c \<le> t" using t assms(2) by auto
  assume "\<not> throttle_enabled ?c"
  then have "e = 0" using e c1 by (simp add: throttle_delay_def Let_def)
  then show "t \<le> fixed_delay ?c + max 0 (jitter ?c) + reorder_extra_delay ?c"
    using t jit assms(2) by (auto split: if_splits)
qed

text \<open>
  Every copy the pipeline schedules waits at least the fixed delay, and without a throttle at
  most the fixed delay, the jitter, the reordering delay and the millisecond of the duplicate.
\<close>
lemma delivery_delay_bounds:
  assumes "0 \<le> reorder_extra_delay (pipeline_config p)" and "jitter (pipeline_config p) < 2 ^ 64"
    and "a \<in> set (result_deliveries (fst (process d x is_data now p)))"
  shows "fixed_delay (pipeline_config p) \<le> delivery_delay a \<and>
    (\<not> throttle_enabled (pipeline_config p) \<longrightarrow>
      delivery_delay a \<le> fixed_delay (pipeline_config p) + max 0 (jitter (pipeline_config p)) +
        reorder_extra_delay (pipeline_config p) + 1)"
proof -
  obtain r p' where pr: "process d x is_data now p = (r, p')" by fastforce
  from pr show ?thesis
  proof (cases rule: process_cases)
    case (delivered reason p1 p2 p3 y c t twice)
    have cfg: "pipeline_config p2 = pipeline_config p"
      using maybe_corrupt_frame [OF delivered(3)] decide_loss_frame [OF delivered(2)] by auto
    have "fixed_delay (pipeline_config p) \<le> t"
      using process_delay_bounds(1) [OF delivered(4)] assms(1,2) cfg by simp
    moreover have "\<not> throttle_enabled (pipeline_config p) \<longrightarrow>
        t \<le> fixed_delay (pipeline_config p) + max 0 (jitter (pipeline_config p)) +
          reorder_extra_delay (pipeline_config p)"
      using process_delay_bounds(2) [OF delivered(4)] assms(1,2) cfg by simp
    moreover have "delivery_delay a = t \<or> delivery_delay a = t + 1"
      using assms(3) pr delivered(7) by (auto split: if_splits)
    ultimately show ?thesis by auto
  qed (use assms(3) pr in auto)
qed

lemma delivery_delay_bounds_witness:
  "\<exists>a. a \<in> set (result_deliveries (fst (process ClientToServer [0, 4, 0, 1] False 3
       (make_pipeline (default_impairment_config\<lparr>fixed_delay := 5\<rparr>) 7 0)))) \<and>
     5 \<le> delivery_delay a \<and> delivery_delay a \<le> 66"
proof -
  let ?p = "make_pipeline (default_impairment_config\<lparr>fixed_delay := 5\<rparr>) 7 0"
  let ?a = "\<lparr>delivery_bytes = [0, 4, 0, 1], delivery_delay = 5, delivery_corrupted = False,
    delivery_is_duplicate = False\<rparr>"
  have "?a \<in> set (result_deliveries (fst (process ClientToServer [0, 4, 0, 1] False 3 ?p)))"
    by (simp add: process_simps make_pipeline_def default_impairment_config_def)
  from delivery_delay_bounds [OF _ _ this] this show ?thesis
    by (intro exI [of _ ?a]) (simp add: make_pipeline_def default_impairment_config_def)
qed

end
