(* ===== verification/Packet_Trace.thy ===== *)
theory Packet_Trace
  imports Impairments Tftp_Packet
begin

text \<open>
  \<open>src/src/net/packet_trace.hpp\<close>: the records the impairment proxy writes, one per datagram it
  observes or injects, and the packet observer reads. A \<open>std::size_t\<close> length is a \<open>nat\<close>.
\<close>

datatype trace_disposition = Delivered | Dropped | Corrupted | Injected

fun trace_disposition_name :: "trace_disposition \<Rightarrow> string" where
  "trace_disposition_name Delivered = ''delivered''"
| "trace_disposition_name Dropped = ''dropped''"
| "trace_disposition_name Corrupted = ''corrupted''"
| "trace_disposition_name Injected = ''injected''"

record trace_record =
  relative_time_ms :: double
  record_direction :: direction
  source_tid :: u16
  destination_tid :: u16
  datagram_length :: nat
  parseable :: bool
  record_packet :: tftp_packet
  parse_failure :: string
  disposition :: trace_disposition
  was_duplicated :: bool
  note_text :: string

definition empty_record :: trace_record where
  "empty_record =
     \<lparr>relative_time_ms = 0, record_direction = ClientToServer, source_tid = 0, destination_tid = 0,
      datagram_length = 0, parseable = False, record_packet = empty_packet, parse_failure = [],
      disposition = Delivered, was_duplicated = False, note_text = []\<rparr>"

definition is_data :: "trace_record \<Rightarrow> bool" where
  "is_data r \<longleftrightarrow> parseable r \<and> opcode (record_packet r) = Data"

definition is_ack :: "trace_record \<Rightarrow> bool" where
  "is_ack r \<longleftrightarrow> parseable r \<and> opcode (record_packet r) = Acknowledgement"

definition is_error :: "trace_record \<Rightarrow> bool" where
  "is_error r \<longleftrightarrow> parseable r \<and> opcode (record_packet r) = Error"

definition reached_peer :: "trace_record \<Rightarrow> bool" where
  "reached_peer r \<longleftrightarrow>
     disposition r = Delivered \<or> disposition r = Corrupted \<or> disposition r = Injected"

record packet_trace =
  trace_seed :: u64
  trace_records :: "trace_record list"

text \<open>A record reached the peer unless the proxy dropped it.\<close>

lemma reached_peer_iff: "reached_peer r \<longleftrightarrow> disposition r \<noteq> Dropped"
  by (cases "disposition r") (auto simp: reached_peer_def)

end
