(* ===== verification/Impairment_Proxy.thy ===== *)
theory Impairment_Proxy
  imports Packet_Trace Udp_Socket
begin

text \<open>
  \<open>src/src/net/impairment_proxy.{hpp,cpp}\<close>: the relay loop between a client and a server. One pass
  of the loop flushes the due sends, waits in \<open>select\<close> and handles what arrived on the listen socket,
  the server-facing sockets of the sessions and the stray sockets. What the loop reads from outside is
  the environment: the clock (its successive readings, nanoseconds), the outcome of opening a
  server-facing socket, the local address of a socket, and, for each pass, what arrived on which
  socket. The lists of passes are the passes the thread makes before \<open>running_\<close> is cleared. The
  mutex only orders the trace against \<open>stop_and_take_trace\<close>, which joins the thread first.

  Sockets are named: the listen socket, the server-facing socket of session \<open>i\<close>, the \<open>i\<close>-th stray
  socket (taken to open; the code does not look at the result). \<open>sent_datagrams\<close> lists what was
  handed to \<open>send_to\<close>. An injection script may keep state, so it is a function of the records it has
  been shown before and of the present one.
\<close>

section \<open>Data\<close>

datatype proxy_socket = ListenSocket | SessionSocket nat | StraySocket nat

record injected_packet =
  injected_bytes :: bytes
  toward_client :: bool
  injected_delay :: int
  from_stray_tid :: bool
  injected_description :: string

type_synonym injection_script = "trace_record list \<Rightarrow> trace_record \<Rightarrow> injected_packet list"

record proxy_config =
  server_endpoint :: endpoint
  proxy_impairment :: impairment_config
  proxy_seed :: u64
  injection :: "injection_script option"

record proxy_session =
  client_endpoint :: endpoint
  server_destination :: endpoint
  server_tid_locked :: bool
  session_started :: int

record scheduled_send =
  deadline :: int
  send_socket :: proxy_socket
  send_destination :: endpoint
  send_bytes :: bytes

record environment =
  clock :: "nat \<Rightarrow> int"
  listen_binds :: bool
  session_opens :: "nat \<Rightarrow> bool"
  local_endpoint :: "proxy_socket \<Rightarrow> endpoint"

record impairment_proxy =
  config :: proxy_config
  pipeline :: impairment_pipeline
  sessions :: "proxy_session list"
  stray_count :: nat
  scheduled :: "scheduled_send list"
  proxy_trace :: packet_trace
  script_memory :: "trace_record list"
  clock_readings :: nat
  open_attempts :: nat
  last_select :: "int \<times> int"
  sent_datagrams :: "scheduled_send list"

text \<open>One pass: whether \<open>select\<close> reports anything, and what \<open>receive_from\<close> returns on a ready socket.\<close>

record relay_input =
  select_ready :: bool
  arrivals :: "(proxy_socket \<times> bytes \<times> endpoint) list"

section \<open>Operations\<close>

definition read_clock :: "environment \<Rightarrow> impairment_proxy \<Rightarrow> int \<times> impairment_proxy" where
  "read_clock env p = (clock env (clock_readings p), p\<lparr>clock_readings := clock_readings p + 1\<rparr>)"

definition session_time_ms ::
  "environment \<Rightarrow> proxy_session \<Rightarrow> impairment_proxy \<Rightarrow> double \<times> impairment_proxy" where
  "session_time_ms env s p =
     (let (now, p) = read_clock env p
      in (dbl_div (dbl_of_int (now - session_started s)) 1000000, p))"

fun session_index :: "endpoint \<Rightarrow> proxy_session list \<Rightarrow> nat option" where
  "session_index e [] = None"
| "session_index e (s # ss) =
     (if endpoint_eq (client_endpoint s) e then Some 0 else map_option Suc (session_index e ss))"

definition find_or_create_session ::
  "environment \<Rightarrow> endpoint \<Rightarrow> impairment_proxy \<Rightarrow> nat option \<times> impairment_proxy" where
  "find_or_create_session env e p =
     (case session_index e (sessions p) of
        Some i \<Rightarrow> (Some i, p)
      | None \<Rightarrow>
          let opened = session_opens env (open_attempts p);
              p = p\<lparr>open_attempts := open_attempts p + 1\<rparr>
          in if \<not> opened then (None, p)
             else let (now, p) = read_clock env p;
                      s = \<lparr>client_endpoint = e, server_destination = server_endpoint (config p),
                           server_tid_locked = False, session_started = now\<rparr>
                  in (Some (length (sessions p)), p\<lparr>sessions := sessions p @ [s]\<rparr>))"

definition stray_socket_for :: "impairment_proxy \<Rightarrow> proxy_socket \<times> impairment_proxy" where
  "stray_socket_for p = (StraySocket (stray_count p), p\<lparr>stray_count := stray_count p + 1\<rparr>)"

definition flush_due_sends :: "int \<Rightarrow> impairment_proxy \<Rightarrow> impairment_proxy" where
  "flush_due_sends now p =
     p\<lparr>sent_datagrams := sent_datagrams p @ filter (\<lambda>s. deadline s \<le> now) (scheduled p),
       scheduled := filter (\<lambda>s. \<not> deadline s \<le> now) (scheduled p)\<rparr>"

definition add_trace :: "trace_record \<Rightarrow> impairment_proxy \<Rightarrow> impairment_proxy" where
  "add_trace r p =
     p\<lparr>proxy_trace := (proxy_trace p)\<lparr>trace_records := trace_records (proxy_trace p) @ [r]\<rparr>\<rparr>"

definition schedule :: "scheduled_send list \<Rightarrow> impairment_proxy \<Rightarrow> impairment_proxy" where
  "schedule ss p = p\<lparr>scheduled := scheduled p @ ss\<rparr>"

text \<open>One packet of the script: its socket, its destination, its record and its send.\<close>

definition inject ::
  "environment \<Rightarrow> nat \<Rightarrow> int \<Rightarrow> injected_packet \<Rightarrow> impairment_proxy \<Rightarrow> impairment_proxy" where
  "inject env i now q p =
     (let s = sessions p ! i;
          (socket, p) = (if from_stray_tid q then stray_socket_for p
                         else (if toward_client q then ListenSocket else SessionSocket i, p));
          destination = (if toward_client q then client_endpoint s else server_destination s);
          (elapsed, p) = session_time_ms env s p;
          parsed = parse_tftp_packet (injected_bytes q);
          record = empty_record\<lparr>
            relative_time_ms := elapsed,
            record_direction := (if toward_client q then ServerToClient else ClientToServer),
            source_tid := endpoint_port (local_endpoint env socket),
            destination_tid := endpoint_port destination,
            datagram_length := length (injected_bytes q),
            parseable := (case parsed of Inr k \<Rightarrow> True | Inl e \<Rightarrow> False),
            record_packet := (case parsed of Inr k \<Rightarrow> k | Inl e \<Rightarrow> empty_packet),
            disposition := Injected,
            note_text := (if injected_description q = [] then ''injected packet''
                          else injected_description q)\<rparr>
      in add_trace record (schedule [\<lparr>deadline = now + 1000000 * injected_delay q,
           send_socket = socket, send_destination = destination, send_bytes = injected_bytes q\<rparr>] p))"

definition run_injection ::
  "environment \<Rightarrow> trace_record \<Rightarrow> nat \<Rightarrow> impairment_proxy \<Rightarrow> impairment_proxy" where
  "run_injection env observed i p =
     (case injection (config p) of
        None \<Rightarrow> p
      | Some script \<Rightarrow>
          let (now, p) = read_clock env p;
              packets = script (script_memory p) observed;
              p = p\<lparr>script_memory := script_memory p @ [observed]\<rparr>
          in fold (inject env i now) packets p)"

definition observed_record ::
  "proxy_session \<Rightarrow> direction \<Rightarrow> bytes \<Rightarrow> double \<Rightarrow> trace_record" where
  "observed_record s d datagram elapsed =
     (let parsed = parse_tftp_packet datagram;
          client = endpoint_port (client_endpoint s);
          server = endpoint_port (server_destination s)
      in empty_record\<lparr>
           relative_time_ms := elapsed,
           record_direction := d,
           source_tid := (if d = ClientToServer then client else server),
           destination_tid := (if d = ClientToServer then server else client),
           datagram_length := length datagram,
           parseable := (case parsed of Inr k \<Rightarrow> True | Inl e \<Rightarrow> False),
           record_packet := (case parsed of Inr k \<Rightarrow> k | Inl e \<Rightarrow> empty_packet),
           parse_failure := (case parsed of Inr k \<Rightarrow> [] | Inl e \<Rightarrow> e)\<rparr>)"

definition judged_record :: "pipeline_result \<Rightarrow> trace_record \<Rightarrow> trace_record" where
  "judged_record result r =
     (if result_dropped result then r\<lparr>disposition := Dropped, note_text := result_drop_reason result\<rparr>
      else let corrupted = list_ex delivery_corrupted (result_deliveries result);
               r = r\<lparr>was_duplicated := length (result_deliveries result) > 1,
                     disposition := (if corrupted then Corrupted else Delivered)\<rparr>
           in if corrupted then r\<lparr>note_text := ''corrupted payload''\<rparr> else r)"

definition delivery_sends ::
  "int \<Rightarrow> proxy_socket \<Rightarrow> endpoint \<Rightarrow> pipeline_result \<Rightarrow> scheduled_send list" where
  "delivery_sends now socket destination result =
     (if result_dropped result then []
      else map (\<lambda>a. \<lparr>deadline = now + 1000000 * delivery_delay a, send_socket = socket,
                     send_destination = destination, send_bytes = delivery_bytes a\<rparr>)
             (result_deliveries result))"

definition observe_and_relay ::
  "environment \<Rightarrow> nat \<Rightarrow> direction \<Rightarrow> bytes \<Rightarrow> proxy_socket \<Rightarrow> endpoint \<Rightarrow>
   impairment_proxy \<Rightarrow> impairment_proxy" where
  "observe_and_relay env i d datagram socket destination p =
     (let (now, p) = read_clock env p;
          s = sessions p ! i;
          (elapsed, p) = session_time_ms env s p;
          record = observed_record s d datagram elapsed;
          (result, pipe) = process d datagram (is_data record) now (pipeline p);
          p = schedule (delivery_sends now socket destination result) (p\<lparr>pipeline := pipe\<rparr>);
          record = judged_record result record
      in run_injection env record i (add_trace record p))"

definition handle_client_datagram ::
  "environment \<Rightarrow> nat \<Rightarrow> bytes \<Rightarrow> impairment_proxy \<Rightarrow> impairment_proxy" where
  "handle_client_datagram env i datagram p =
     observe_and_relay env i ClientToServer datagram (SessionSocket i)
       (server_destination (sessions p ! i)) p"

definition handle_server_datagram ::
  "environment \<Rightarrow> nat \<Rightarrow> bytes \<Rightarrow> impairment_proxy \<Rightarrow> impairment_proxy" where
  "handle_server_datagram env i datagram p =
     observe_and_relay env i ServerToClient datagram ListenSocket
       (client_endpoint (sessions p ! i)) p"

section \<open>The relay loop\<close>

definition select_wait :: "int \<Rightarrow> scheduled_send list \<Rightarrow> int" where
  "select_wait now sends =
     fold (\<lambda>s wait. let until = deadline s - now in if until < wait then max until 0 else wait)
       sends (50 * 1000000)"

definition select_timeout :: "int \<Rightarrow> int \<times> int" where
  "select_timeout wait =
     (let wait_us = wait div 1000 in (wait_us div 1000000, wait_us mod 1000000))"

text \<open>What \<open>receive_from\<close> yields on a socket: nothing, unless the socket is in the ready set.\<close>

definition received :: "bool \<Rightarrow> relay_input \<Rightarrow> proxy_socket \<Rightarrow> (bytes \<times> endpoint) option" where
  "received watched inp socket =
     (if watched then
        (case map_of (arrivals inp) socket of
           Some (buffer, sender) \<Rightarrow> if length buffer > 0 then Some (buffer, sender) else None
         | None \<Rightarrow> None)
      else None)"

definition serve_listen ::
  "environment \<Rightarrow> relay_input \<Rightarrow> impairment_proxy \<Rightarrow> impairment_proxy" where
  "serve_listen env inp p =
     (case received True inp ListenSocket of
        None \<Rightarrow> p
      | Some (buffer, sender) \<Rightarrow>
          (case find_or_create_session env sender p of
             (None, p) \<Rightarrow> p
           | (Some i, p) \<Rightarrow> handle_client_datagram env i buffer p))"

definition lock_tid :: "nat \<Rightarrow> endpoint \<Rightarrow> impairment_proxy \<Rightarrow> impairment_proxy" where
  "lock_tid i sender p =
     (let s = sessions p ! i
      in if \<not> server_tid_locked s
         then p\<lparr>sessions := (sessions p)[i := s\<lparr>server_destination := sender, server_tid_locked := True\<rparr>]\<rparr>
         else p)"

definition serve_session ::
  "environment \<Rightarrow> nat \<Rightarrow> relay_input \<Rightarrow> nat \<Rightarrow> impairment_proxy \<Rightarrow> impairment_proxy" where
  "serve_session env watched inp i p =
     (case received (i < watched) inp (SessionSocket i) of
        None \<Rightarrow> p
      | Some (buffer, sender) \<Rightarrow> handle_server_datagram env i buffer (lock_tid i sender p))"

definition stray_reply_note :: string where
  "stray_reply_note = ''reply to stray TID (dropped by proxy)''"

definition serve_stray ::
  "environment \<Rightarrow> nat \<Rightarrow> relay_input \<Rightarrow> nat \<Rightarrow> impairment_proxy \<Rightarrow> impairment_proxy" where
  "serve_stray env watched inp i p =
     (case received (i < watched) inp (StraySocket i) of
        None \<Rightarrow> p
      | Some (buffer, sender) \<Rightarrow>
          let parsed = parse_tftp_packet buffer
          in add_trace (empty_record\<lparr>
               record_direction := ClientToServer,
               source_tid := endpoint_port sender,
               destination_tid := endpoint_port (local_endpoint env (StraySocket i)),
               datagram_length := length buffer,
               parseable := (case parsed of Inr k \<Rightarrow> True | Inl e \<Rightarrow> False),
               record_packet := (case parsed of Inr k \<Rightarrow> k | Inl e \<Rightarrow> empty_packet),
               disposition := Injected,
               note_text := stray_reply_note\<rparr>) p)"

definition serve_arrivals ::
  "environment \<Rightarrow> nat \<Rightarrow> nat \<Rightarrow> relay_input \<Rightarrow> impairment_proxy \<Rightarrow> impairment_proxy" where
  "serve_arrivals env watched watched_strays inp p =
     (let p = serve_listen env inp p;
          p = fold (serve_session env watched inp) [0..<length (sessions p)] p
      in fold (serve_stray env watched_strays inp) [0..<stray_count p] p)"

definition relay_pass ::
  "environment \<Rightarrow> relay_input \<Rightarrow> impairment_proxy \<Rightarrow> impairment_proxy" where
  "relay_pass env inp p =
     (let (now, p) = read_clock env p;
          p = flush_due_sends now p;
          p = p\<lparr>last_select := select_timeout (select_wait now (scheduled p))\<rparr>
      in if \<not> select_ready inp then p
         else serve_arrivals env (length (sessions p)) (stray_count p) inp p)"

definition final_flush :: "environment \<Rightarrow> impairment_proxy \<Rightarrow> impairment_proxy" where
  "final_flush env p =
     (let (now, p) = read_clock env p in flush_due_sends (now + 3600 * 1000000000) p)"

definition relay_loop ::
  "environment \<Rightarrow> relay_input list \<Rightarrow> impairment_proxy \<Rightarrow> impairment_proxy" where
  "relay_loop env inps p = final_flush env (fold (relay_pass env) inps p)"

text \<open>
  \<open>start\<close>: the state in which the relay thread begins, \<open>None\<close> when the listen socket does not bind.
  The clock is read for the token bucket, then for the (otherwise unused) epoch.
\<close>

definition start :: "environment \<Rightarrow> proxy_config \<Rightarrow> impairment_proxy option" where
  "start env c =
     (if \<not> listen_binds env then None
      else Some \<lparr>config = c,
             pipeline = make_pipeline (proxy_impairment c) (proxy_seed c) (clock env 0),
             sessions = [], stray_count = 0, scheduled = [],
             proxy_trace = \<lparr>trace_seed = proxy_seed c, trace_records = []\<rparr>,
             script_memory = [], clock_readings = 2, open_attempts = 0,
             last_select = (0, 0), sent_datagrams = []\<rparr>)"

text \<open>A whole life of the proxy, from \<open>start\<close> to the trace \<open>stop_and_take_trace\<close> returns.\<close>

definition run_proxy :: "environment \<Rightarrow> proxy_config \<Rightarrow> relay_input list \<Rightarrow> impairment_proxy option" where
  "run_proxy env c inps = map_option (relay_loop env inps) (start env c)"

definition stop_and_take_trace :: "impairment_proxy \<Rightarrow> packet_trace" where
  "stop_and_take_trace p = proxy_trace p"

section \<open>What the operations leave alone\<close>

lemma read_clock_simps [simp]:
  "fst (read_clock env p) = clock env (clock_readings p)"
  "snd (read_clock env p) = p\<lparr>clock_readings := clock_readings p + 1\<rparr>"
  by (simp_all add: read_clock_def)

lemma session_time_eq:
  "session_time_ms env s p =
     (dbl_div (dbl_of_int (clock env (clock_readings p) - session_started s)) 1000000,
      p\<lparr>clock_readings := clock_readings p + 1\<rparr>)"
  by (simp add: session_time_ms_def read_clock_def)

text \<open>The fields a relayed or injected datagram does not touch.\<close>

definition same_routes :: "impairment_proxy \<Rightarrow> impairment_proxy \<Rightarrow> bool" where
  "same_routes p p' \<longleftrightarrow> config p' = config p \<and> sessions p' = sessions p \<and>
     sent_datagrams p' = sent_datagrams p \<and> open_attempts p' = open_attempts p"

lemma same_routes_refl [simp]: "same_routes p p"
  by (simp add: same_routes_def)

lemma same_routes_trans: "same_routes p q \<Longrightarrow> same_routes q r \<Longrightarrow> same_routes p r"
  by (simp add: same_routes_def)

definition records_of :: "impairment_proxy \<Rightarrow> trace_record list" where
  "records_of p = trace_records (proxy_trace p)"

lemma add_trace_fields [simp]:
  "config (add_trace r p) = config p" "sessions (add_trace r p) = sessions p"
  "sent_datagrams (add_trace r p) = sent_datagrams p" "scheduled (add_trace r p) = scheduled p"
  "open_attempts (add_trace r p) = open_attempts p" "clock_readings (add_trace r p) = clock_readings p"
  "pipeline (add_trace r p) = pipeline p" "records_of (add_trace r p) = records_of p @ [r]"
  "script_memory (add_trace r p) = script_memory p" "stray_count (add_trace r p) = stray_count p"
  by (simp_all add: add_trace_def records_of_def)

lemma schedule_fields [simp]:
  "config (schedule xs p) = config p" "sessions (schedule xs p) = sessions p"
  "sent_datagrams (schedule xs p) = sent_datagrams p" "scheduled (schedule xs p) = scheduled p @ xs"
  "open_attempts (schedule xs p) = open_attempts p" "clock_readings (schedule xs p) = clock_readings p"
  "pipeline (schedule xs p) = pipeline p" "records_of (schedule xs p) = records_of p"
  "script_memory (schedule xs p) = script_memory p" "stray_count (schedule xs p) = stray_count p"
  by (simp_all add: schedule_def records_of_def)

lemma records_of_update [simp]:
  "records_of (p\<lparr>clock_readings := k, pipeline := pipe\<rparr>) = records_of p"
  "records_of (p\<lparr>clock_readings := k\<rparr>) = records_of p"
  by (simp_all add: records_of_def)

definition injection_send :: "nat \<Rightarrow> int \<Rightarrow> injected_packet \<Rightarrow> impairment_proxy \<Rightarrow> scheduled_send" where
  "injection_send i now q p =
     \<lparr>deadline = now + 1000000 * injected_delay q,
      send_socket = (if from_stray_tid q then StraySocket (stray_count p)
                     else if toward_client q then ListenSocket else SessionSocket i),
      send_destination = (if toward_client q then client_endpoint (sessions p ! i)
                          else server_destination (sessions p ! i)),
      send_bytes = injected_bytes q\<rparr>"

lemma inject_effect:
  "same_routes p (inject env i now q p) \<and> pipeline (inject env i now q p) = pipeline p \<and>
   scheduled (inject env i now q p) = scheduled p @ [injection_send i now q p] \<and>
   (\<exists>r. records_of (inject env i now q p) = records_of p @ [r] \<and> disposition r = Injected \<and>
        note_text r = (if injected_description q = [] then ''injected packet'' else injected_description q))"
  by (cases "from_stray_tid q")
    (auto simp: inject_def Let_def session_time_eq stray_socket_for_def injection_send_def same_routes_def
      records_of_def add_trace_def schedule_def)

lemma observe_and_relay_eq:
  "observe_and_relay env i d x socket destination p =
     (let now = clock env (clock_readings p);
          s = sessions p ! i;
          r = observed_record s d x
                (dbl_div (dbl_of_int (clock env (clock_readings p + 1) - session_started s)) 1000000);
          (result, pipe) = process d x (is_data r) now (pipeline p)
      in run_injection env (judged_record result r) i
           (add_trace (judged_record result r)
             (schedule (delivery_sends now socket destination result)
               (p\<lparr>clock_readings := clock_readings p + 2, pipeline := pipe\<rparr>))))"
  by (simp add: observe_and_relay_def read_clock_def session_time_eq Let_def case_prod_beta)

text \<open>
  The sends of one observed datagram: they go between the two ends of its session, and the trace
  records account for them, provided no script writes the note that marks a stray reply.
\<close>

definition routed :: "impairment_proxy \<Rightarrow> nat \<Rightarrow> scheduled_send \<Rightarrow> bool" where
  "routed p i x \<longleftrightarrow>
     (case send_socket x of
        ListenSocket \<Rightarrow> send_destination x = client_endpoint (sessions p ! i)
      | SessionSocket j \<Rightarrow> j = i \<and> send_destination x = server_destination (sessions p ! i)
      | StraySocket j \<Rightarrow> send_destination x = client_endpoint (sessions p ! i) \<or>
                         send_destination x = server_destination (sessions p ! i))"

definition copies :: "trace_record \<Rightarrow> nat" where
  "copies r =
     (case disposition r of
        Dropped \<Rightarrow> 0
      | Injected \<Rightarrow> if note_text r = stray_reply_note then 0 else 1
      | _ \<Rightarrow> if was_duplicated r then 2 else 1)"

definition honest_script :: "proxy_config \<Rightarrow> bool" where
  "honest_script c \<longleftrightarrow>
     (\<forall>script memory r q. injection c = Some script \<longrightarrow> q \<in> set (script memory r) \<longrightarrow>
        injected_description q \<noteq> stray_reply_note)"

definition accounted :: "nat \<Rightarrow> impairment_proxy \<Rightarrow> impairment_proxy \<Rightarrow> bool" where
  "accounted i p p' \<longleftrightarrow> same_routes p p' \<and>
     (\<exists>xs rs. scheduled p' = scheduled p @ xs \<and> records_of p' = records_of p @ rs \<and>
        (\<forall>x \<in> set xs. routed p i x) \<and>
        (honest_script (config p) \<longrightarrow> length xs = sum_list (map copies rs)))"

lemma accounted_refl [simp]: "accounted i p p"
  by (auto simp: accounted_def intro!: exI [of _ "[]"])

lemma accounted_trans: "accounted i p q \<Longrightarrow> accounted i q r \<Longrightarrow> accounted i p r"
  unfolding accounted_def same_routes_def routed_def
  by (elim conjE exE, intro conjI; (simp only: append_assoc)?)
    (auto simp: append_assoc intro!: exI)

lemma stray_reply_note_default: "stray_reply_note \<noteq> ''injected packet''"
  by (simp add: stray_reply_note_def)

lemma inject_accounted:
  assumes "honest_script (config p) \<Longrightarrow> injected_description q \<noteq> stray_reply_note"
  shows "accounted i p (inject env i now q p)"
proof -
  obtain r where r: "records_of (inject env i now q p) = records_of p @ [r]" "disposition r = Injected"
    "note_text r = (if injected_description q = [] then ''injected packet'' else injected_description q)"
    using inject_effect by blast
  have "routed p i (injection_send i now q p)" by (simp add: routed_def injection_send_def)
  moreover have "copies r = 1" if "honest_script (config p)"
    using r assms [OF that] stray_reply_note_default by (auto simp: copies_def)
  ultimately show ?thesis
    unfolding accounted_def using inject_effect [of p env i now q] r(1)
    by (auto intro!: exI [of _ "[injection_send i now q p]"] exI [of _ "[r]"])
qed

lemma injections_accounted:
  assumes "\<And>q. q \<in> set qs \<Longrightarrow> honest_script (config p) \<Longrightarrow> injected_description q \<noteq> stray_reply_note"
  shows "accounted i p (fold (inject env i now) qs p)"
  using assms
proof (induction qs arbitrary: p)
  case (Cons q qs)
  have one: "accounted i p (inject env i now q p)" using Cons.prems by (intro inject_accounted) auto
  then have c: "config (inject env i now q p) = config p" by (simp add: accounted_def same_routes_def)
  have "accounted i (inject env i now q p) (fold (inject env i now) qs (inject env i now q p))"
    using Cons.prems by (intro Cons.IH) (auto simp: c)
  from accounted_trans [OF one this] show ?case by simp
qed simp

lemma run_injection_accounted: "accounted i p (run_injection env r i p)"
proof (cases "injection (config p)")
  case (Some script)
  let ?p = "p\<lparr>clock_readings := clock_readings p + 1, script_memory := script_memory p @ [r]\<rparr>"
  have "accounted i ?p (fold (inject env i (clock env (clock_readings p))) (script (script_memory p) r) ?p)"
    using Some by (intro injections_accounted) (auto simp: honest_script_def)
  moreover have "accounted i p ?p"
    by (auto simp: accounted_def same_routes_def records_of_def intro!: exI [of _ "[]"])
  ultimately have
    "accounted i p (fold (inject env i (clock env (clock_readings p))) (script (script_memory p) r) ?p)"
    using accounted_trans by blast
  then show ?thesis using Some by (simp add: run_injection_def read_clock_def)
qed (simp add: run_injection_def)

lemma judged_copies:
  assumes "process d x isd now pipe = (result, pipe')"
  shows "copies (judged_record result r) = length (delivery_sends t socket destination result)"
  using assms
  by (cases rule: process_cases) (auto simp: judged_record_def delivery_sends_def copies_def Let_def)

lemma delivery_sends_routes:
  "z \<in> set (delivery_sends t socket destination result) \<Longrightarrow>
     send_socket z = socket \<and> send_destination z = destination"
  by (auto simp: delivery_sends_def split: if_splits)

lemma observe_accounted:
  assumes "\<And>z. send_socket z = socket \<Longrightarrow> send_destination z = destination \<Longrightarrow> routed p i z"
  shows "accounted i p (observe_and_relay env i d x socket destination p)"
proof -
  define now where "now = clock env (clock_readings p)"
  define r where "r = observed_record (sessions p ! i) d x
    (dbl_div (dbl_of_int (clock env (clock_readings p + 1) - session_started (sessions p ! i))) 1000000)"
  obtain result pipe where pr: "process d x (is_data r) now (pipeline p) = (result, pipe)" by fastforce
  let ?q = "add_trace (judged_record result r) (schedule (delivery_sends now socket destination result)
    (p\<lparr>clock_readings := clock_readings p + 2, pipeline := pipe\<rparr>))"
  have "accounted i p ?q"
    unfolding accounted_def same_routes_def
    using assms delivery_sends_routes judged_copies [OF pr, of r now socket destination]
    by (auto intro!: exI [of _ "delivery_sends now socket destination result"] exI [of _ "[judged_record result r]"])
  moreover have "observe_and_relay env i d x socket destination p = run_injection env (judged_record result r) i ?q"
    using pr by (simp add: observe_and_relay_eq Let_def now_def r_def)
  ultimately show ?thesis using accounted_trans [OF _ run_injection_accounted] by simp
qed

lemma handlers_accounted:
  "accounted i p (handle_client_datagram env i x p)"
  "accounted i p (handle_server_datagram env i x p)"
  unfolding handle_client_datagram_def handle_server_datagram_def
  by (intro observe_accounted; simp add: routed_def)+

section \<open>Invariants of the loop\<close>

text \<open>
  What a property of the proxy's state must survive to hold throughout the loop: bookkeeping that
  moves no datagram, a flush, a new session for a sender seen on the listen socket, a first reply of a
  sender seen on a session's socket, one relayed datagram, and the record of a stray reply.
\<close>

definition same_flow :: "impairment_proxy \<Rightarrow> impairment_proxy \<Rightarrow> bool" where
  "same_flow p q \<longleftrightarrow> config q = config p \<and> sessions q = sessions p \<and> scheduled q = scheduled p \<and>
     sent_datagrams q = sent_datagrams p \<and> records_of q = records_of p"

definition open_session :: "endpoint \<Rightarrow> int \<Rightarrow> impairment_proxy \<Rightarrow> impairment_proxy" where
  "open_session e now p = p\<lparr>sessions := sessions p @
     [\<lparr>client_endpoint = e, server_destination = server_endpoint (config p),
       server_tid_locked = False, session_started = now\<rparr>]\<rparr>"

definition senders :: "relay_input list \<Rightarrow> proxy_socket \<Rightarrow> endpoint set" where
  "senders inps socket = set (map (snd \<circ> snd) (filter (\<lambda>a. fst a = socket) (concat (map arrivals inps))))"

lemma received_sender: "received w inp socket = Some (x, e) \<Longrightarrow> e \<in> senders [inp] socket"
  by (force simp: received_def senders_def split: option.splits if_splits dest!: map_of_SomeD)

lemma senders_mono: "set inps \<subseteq> set inps' \<Longrightarrow> senders inps socket \<subseteq> senders inps' socket"
  by (fastforce simp: senders_def)

lemma session_index_bound: "session_index e ss = Some i \<Longrightarrow> i < length ss \<and> endpoint_eq (client_endpoint (ss ! i)) e"
  by (induction ss arbitrary: i) (auto split: if_splits)

lemma session_index_None: "session_index e ss = None \<longleftrightarrow> (\<forall>s \<in> set ss. \<not> endpoint_eq (client_endpoint s) e)"
  by (induction ss) auto

lemma serve_session_length: "length (sessions (serve_session env w inp i p)) = length (sessions p)"
proof -
  have "length (sessions (handle_server_datagram env i x q)) = length (sessions q)" for x q
    using handlers_accounted(2) [of i q env x] by (simp add: accounted_def same_routes_def)
  then show ?thesis
    by (auto simp: serve_session_def lock_tid_def Let_def split: option.splits)
qed

locale loop_invariant =
  fixes seen :: "proxy_socket \<Rightarrow> endpoint set"
    and inv :: "impairment_proxy \<Rightarrow> bool"
  assumes silent: "inv p \<Longrightarrow> same_flow p q \<Longrightarrow> inv q"
    and flush: "inv p \<Longrightarrow> inv (flush_due_sends now p)"
    and created: "inv p \<Longrightarrow> e \<in> seen ListenSocket \<Longrightarrow> session_index e (sessions p) = None \<Longrightarrow>
      inv (open_session e now p)"
    and locked: "inv p \<Longrightarrow> i < length (sessions p) \<Longrightarrow> e \<in> seen (SessionSocket i) \<Longrightarrow> inv (lock_tid i e p)"
    and relayed: "inv p \<Longrightarrow> i < length (sessions p) \<Longrightarrow> accounted i p q \<Longrightarrow> inv q"
    and strayed: "inv p \<Longrightarrow> disposition r = Injected \<Longrightarrow> note_text r = stray_reply_note \<Longrightarrow>
      inv (add_trace r p)"
begin

lemma listen_step:
  assumes "inv p" and "senders [inp] ListenSocket \<subseteq> seen ListenSocket"
  shows "inv (serve_listen env inp p)"
proof (cases "received True inp ListenSocket")
  case (Some a)
  obtain x e where a: "a = (x, e)" by (cases a)
  have e: "e \<in> seen ListenSocket" using received_sender [of True inp ListenSocket x e] Some a assms(2) by auto
  let ?p = "p\<lparr>open_attempts := open_attempts p + 1\<rparr>"
  have attempt: "inv ?p" using silent [OF assms(1), of ?p] by (simp add: same_flow_def records_of_def)
  show ?thesis
  proof (cases "session_index e (sessions p)")
    case (Some i)
    then have "i < length (sessions p)" using session_index_bound by blast
    with relayed [OF assms(1) this handlers_accounted(1)] show ?thesis
      using Some \<open>received True inp ListenSocket = Some a\<close> a
      by (simp add: serve_listen_def find_or_create_session_def)
  next
    case None
    let ?q = "?p\<lparr>clock_readings := clock_readings p + 1\<rparr>"
    let ?r = "open_session e (clock env (clock_readings p)) ?q"
    have "inv ?q" using silent [OF attempt, of ?q] by (simp add: same_flow_def records_of_def)
    then have r: "inv ?r" using created e None by simp
    have "length (sessions p) < length (sessions ?r)" by (simp add: open_session_def)
    from relayed [OF r this handlers_accounted(1)] show ?thesis
      using None attempt \<open>received True inp ListenSocket = Some a\<close> a
      by (auto simp: serve_listen_def find_or_create_session_def Let_def read_clock_def open_session_def)
  qed
qed (simp add: serve_listen_def assms(1))

lemma session_step:
  assumes "inv p" and "i < length (sessions p)" and "senders [inp] (SessionSocket i) \<subseteq> seen (SessionSocket i)"
  shows "inv (serve_session env w inp i p)"
proof (cases "received (i < w) inp (SessionSocket i)")
  case (Some a)
  obtain x e where a: "a = (x, e)" by (cases a)
  have e: "e \<in> seen (SessionSocket i)" using received_sender [of "i < w" inp "SessionSocket i" x e] Some a assms(3) by auto
  have "i < length (sessions (lock_tid i e p))" using assms(2) by (simp add: lock_tid_def Let_def)
  from relayed [OF locked [OF assms(1,2) e] this handlers_accounted(2)] show ?thesis
    using Some a by (simp add: serve_session_def)
qed (simp add: serve_session_def assms(1))

lemma sessions_step:
  assumes "inv p" and "list_all (\<lambda>i. i < length (sessions p)) js"
    and "\<And>i. senders [inp] (SessionSocket i) \<subseteq> seen (SessionSocket i)"
  shows "inv (fold (serve_session env w inp) js p)"
  using assms
proof (induction js arbitrary: p)
  case (Cons i js)
  have "length (sessions (serve_session env w inp i p)) = length (sessions p)"
    using serve_session_length by simp
  then show ?case using Cons session_step [of p i inp env w] by simp
qed simp

lemma strays_step: "inv p \<Longrightarrow> inv (fold (serve_stray env w inp) js p)"
proof (induction js arbitrary: p)
  case (Cons i js)
  have "inv (serve_stray env w inp i p)"
    using Cons.prems strayed [OF Cons.prems] by (auto simp: serve_stray_def Let_def split: option.splits)
  then show ?case using Cons.IH by simp
qed simp

lemma pass_step:
  assumes "inv p" and "\<And>socket. senders [inp] socket \<subseteq> seen socket"
  shows "inv (relay_pass env inp p)"
proof -
  let ?p = "p\<lparr>clock_readings := clock_readings p + 1\<rparr>" and ?now = "clock env (clock_readings p)"
  let ?q = "flush_due_sends ?now ?p"
  have "inv ?p" using silent [OF assms(1), of ?p] by (simp add: same_flow_def)
  from flush [OF this] have q: "inv ?q" .
  let ?r = "?q\<lparr>last_select := select_timeout (select_wait ?now (scheduled ?q))\<rparr>"
  have r: "inv ?r" using silent [OF q, of ?r] by (simp add: same_flow_def records_of_def)
  have "inv (serve_arrivals env (length (sessions ?r)) (stray_count ?r) inp ?r)"
    using listen_step [OF r, of inp env] assms(2)
    by (auto simp: serve_arrivals_def Let_def list_all_iff intro!: strays_step sessions_step)
  then show ?thesis using r by (simp add: relay_pass_def read_clock_def Let_def)
qed

lemma passes_step:
  assumes "inv p" and "\<And>socket. senders inps socket \<subseteq> seen socket"
  shows "inv (fold (relay_pass env) inps p)"
  using assms
proof (induction inps arbitrary: p)
  case (Cons inp inps)
  have "senders [inp] socket \<subseteq> seen socket" "senders inps socket \<subseteq> seen socket" for socket
    using senders_mono [of "[inp]" "inp # inps" socket] senders_mono [of inps "inp # inps" socket]
      Cons.prems(2) [of socket] by auto
  then show ?case using Cons pass_step by simp
qed simp

lemma loop_step:
  assumes "inv p" and "\<And>socket. senders inps socket \<subseteq> seen socket"
  shows "inv (relay_loop env inps p)"
proof -
  let ?p = "fold (relay_pass env) inps p"
  have "inv (?p\<lparr>clock_readings := clock_readings ?p + 1\<rparr>)"
    using silent [OF passes_step [OF assms]] by (simp add: same_flow_def)
  from flush [OF this] show ?thesis by (simp add: relay_loop_def final_flush_def read_clock_def Let_def)
qed

end

section \<open>Where datagrams go\<close>

definition sends_within :: "endpoint \<Rightarrow> relay_input list \<Rightarrow> scheduled_send \<Rightarrow> bool" where
  "sends_within server inps x \<longleftrightarrow>
     (case send_socket x of
        ListenSocket \<Rightarrow> send_destination x \<in> senders inps ListenSocket
      | SessionSocket i \<Rightarrow> send_destination x = server \<or>
                           send_destination x \<in> senders inps (SessionSocket i)
      | StraySocket i \<Rightarrow> send_destination x = server \<or>
                         send_destination x \<in> set (map (snd \<circ> snd) (concat (map arrivals inps))))"

definition confined :: "relay_input list \<Rightarrow> endpoint \<Rightarrow> impairment_proxy \<Rightarrow> bool" where
  "confined inps server p \<longleftrightarrow> server_endpoint (config p) = server \<and>
     (\<forall>i < length (sessions p). client_endpoint (sessions p ! i) \<in> senders inps ListenSocket \<and>
        (server_destination (sessions p ! i) = server \<or>
         server_destination (sessions p ! i) \<in> senders inps (SessionSocket i))) \<and>
     (\<forall>x \<in> set (sent_datagrams p @ scheduled p). sends_within server inps x)"

lemma senders_any: "e \<in> senders inps socket \<Longrightarrow> e \<in> set (map (snd \<circ> snd) (concat (map arrivals inps)))"
  by (auto simp: senders_def)

lemma routed_within:
  assumes "confined inps server p" and "i < length (sessions p)" and "routed p i x"
  shows "sends_within server inps x"
proof -
  let ?s = "sessions p ! i"
  have s: "client_endpoint ?s \<in> senders inps ListenSocket"
    "server_destination ?s = server \<or> server_destination ?s \<in> senders inps (SessionSocket i)"
    using assms(1,2) by (auto simp: confined_def)
  show ?thesis
    using assms(3) s senders_any [of "client_endpoint ?s"] senders_any [of "server_destination ?s"]
    unfolding routed_def sends_within_def by (cases "send_socket x") (auto simp del: set_map)
qed

lemma lock_tid_fields [simp]:
  "config (lock_tid i e p) = config p" "scheduled (lock_tid i e p) = scheduled p"
  "sent_datagrams (lock_tid i e p) = sent_datagrams p" "records_of (lock_tid i e p) = records_of p"
  "length (sessions (lock_tid i e p)) = length (sessions p)"
  by (simp_all add: lock_tid_def Let_def records_of_def)

lemma lock_tid_session:
  "i < length (sessions p) \<Longrightarrow> sessions (lock_tid i e p) ! j =
     (if i = j \<and> \<not> server_tid_locked (sessions p ! i)
      then (sessions p ! i)\<lparr>server_destination := e, server_tid_locked := True\<rparr> else sessions p ! j)"
  by (cases "i = j") (simp_all add: lock_tid_def Let_def)

lemma open_session_fields [simp]:
  "config (open_session e now p) = config p" "scheduled (open_session e now p) = scheduled p"
  "sent_datagrams (open_session e now p) = sent_datagrams p" "records_of (open_session e now p) = records_of p"
  "length (sessions (open_session e now p)) = Suc (length (sessions p))"
  "map client_endpoint (sessions (open_session e now p)) = map client_endpoint (sessions p) @ [e]"
  by (simp_all add: open_session_def records_of_def)

lemma open_session_session:
  "sessions (open_session e now p) ! j = (sessions p @
     [\<lparr>client_endpoint = e, server_destination = server_endpoint (config p),
       server_tid_locked = False, session_started = now\<rparr>]) ! j"
  by (simp add: open_session_def)

lemma flush_fields [simp]:
  "config (flush_due_sends now p) = config p" "sessions (flush_due_sends now p) = sessions p"
  "records_of (flush_due_sends now p) = records_of p"
  "set (sent_datagrams (flush_due_sends now p)) \<union> set (scheduled (flush_due_sends now p)) =
     set (sent_datagrams p) \<union> set (scheduled p)"
  "length (sent_datagrams (flush_due_sends now p)) + length (scheduled (flush_due_sends now p)) =
     length (sent_datagrams p) + length (scheduled p)"
  by (auto simp: flush_due_sends_def records_of_def sum_length_filter_compl)

lemma confined_sessions:
  assumes "confined inps server p" and "config q = config p"
    and "set (sent_datagrams q @ scheduled q) = set (sent_datagrams p @ scheduled p)"
    and "\<And>i. i < length (sessions q) \<Longrightarrow> client_endpoint (sessions q ! i) \<in> senders inps ListenSocket \<and>
        (server_destination (sessions q ! i) = server \<or>
         server_destination (sessions q ! i) \<in> senders inps (SessionSocket i))"
  shows "confined inps server q"
  using assms by (simp add: confined_def)

interpretation confinement: loop_invariant "senders inps" "confined inps server" for inps server
proof
  fix p q e i now and r :: trace_record
  assume p: "confined inps server p"
  then have old: "client_endpoint (sessions p ! j) \<in> senders inps ListenSocket"
    "server_destination (sessions p ! j) = server \<or> server_destination (sessions p ! j) \<in> senders inps (SessionSocket j)"
    if "j < length (sessions p)" for j using that by (auto simp: confined_def)
  show "confined inps server q" if "same_flow p q"
    using p that by (simp add: confined_def same_flow_def)
  show "confined inps server (flush_due_sends now p)"
    using old by (intro confined_sessions [OF p]) simp_all
  show "confined inps server (open_session e now p)" if "e \<in> senders inps ListenSocket"
    using old that p
    by (intro confined_sessions [OF p]) (auto simp: open_session_session nth_append less_Suc_eq confined_def)
  show "confined inps server (lock_tid i e p)"
    if "i < length (sessions p)" "e \<in> senders inps (SessionSocket i)"
    using old that by (intro confined_sessions [OF p]) (auto simp: lock_tid_session)
  show "confined inps server q" if "i < length (sessions p)" "accounted i p q"
    using p that routed_within [OF p that(1)]
    by (fastforce simp: confined_def accounted_def same_routes_def)
  show "confined inps server (add_trace r p)" using p by (simp add: confined_def)
qed

lemma start_fields:
  "start env c = Some p \<Longrightarrow> config p = c \<and> sessions p = [] \<and> scheduled p = [] \<and> sent_datagrams p = [] \<and>
     records_of p = [] \<and> script_memory p = [] \<and> clock_readings p = 2 \<and>
     pipeline p = make_pipeline (proxy_impairment c) (proxy_seed c) (clock env 0)"
  by (auto simp: start_def records_of_def split: if_splits)

text \<open>
  C23. Confinement. Whatever the client, the server, strangers and the injection script do,
  every datagram the proxy sends goes to a party of a transfer: from the listen socket only to an
  endpoint that sent to the listen socket; from the server-facing socket of a session only to the
  configured server or an endpoint that sent to that socket; and from a stray socket only to the
  server or an endpoint the proxy received from.
\<close>

theorem proxy_sends_stay_within_transfers:
  "case run_proxy env c inps of
     None \<Rightarrow> \<not> listen_binds env
   | Some p \<Rightarrow> list_all (sends_within (server_endpoint c) inps) (sent_datagrams p @ scheduled p)"
proof (cases "start env c")
  case None
  then show ?thesis by (simp add: run_proxy_def start_def split: if_splits)
next
  case (Some p)
  then have "confined inps (server_endpoint c) p" using start_fields [OF Some] by (simp add: confined_def)
  from confinement.loop_step [OF this order.refl] show ?thesis
    using Some by (simp add: run_proxy_def list_all_iff confined_def)
qed

section \<open>The trace accounts for the datagrams\<close>

definition balanced :: "impairment_proxy \<Rightarrow> bool" where
  "balanced p \<longleftrightarrow> honest_script (config p) \<and>
     length (sent_datagrams p) + length (scheduled p) = sum_list (map copies (records_of p))"

interpretation balance: loop_invariant "\<lambda>_. UNIV" balanced
proof
  fix p q e i now and r :: trace_record
  assume p: "balanced p"
  show "balanced q" if "same_flow p q" using p that by (simp add: balanced_def same_flow_def)
  show "balanced (flush_due_sends now p)" using p by (simp add: balanced_def)
  show "balanced (open_session e now p)" using p by (simp add: balanced_def)
  show "balanced (lock_tid i e p)" using p by (simp add: balanced_def)
  show "balanced q" if "accounted i p q"
    using p that by (auto simp: balanced_def accounted_def same_routes_def)
  show "balanced (add_trace r p)" if "disposition r = Injected" "note_text r = stray_reply_note"
    using p that by (simp add: balanced_def copies_def)
qed

lemma relay_loop_leftover:
  "x \<in> set (scheduled (relay_loop env inps p)) \<Longrightarrow>
     clock env (clock_readings (relay_loop env inps p) - 1) + 3600 * 1000000000 < deadline x"
  by (auto simp: relay_loop_def final_flush_def flush_due_sends_def read_clock_def Let_def)

text \<open>
  C24. Accounting. The trace the observer reads accounts for everything the proxy sent: a
  dropped datagram for nothing, a duplicated one for two sends, every other relayed or injected one
  for one send, and a reply to a stray socket for none. After the final flush the only datagrams not
  sent are those that were due more than an hour after the shutdown.
\<close>

theorem trace_accounts_for_sends:
  assumes "run_proxy env c inps = Some p" and "honest_script c"
  shows "length (sent_datagrams p) + length (scheduled p) =
      sum_list (map copies (trace_records (stop_and_take_trace p))) \<and>
    list_all (\<lambda>x. clock env (clock_readings p - 1) + 3600 * 1000000000 < deadline x) (scheduled p)"
proof -
  obtain p0 where p0: "start env c = Some p0" "p = relay_loop env inps p0"
    using assms(1) by (auto simp: run_proxy_def)
  have "balanced p0" using start_fields [OF p0(1)] assms(2) by (simp add: balanced_def)
  from balance.loop_step [OF this] show ?thesis
    using relay_loop_leftover p0(2) by (auto simp: balanced_def records_of_def stop_and_take_trace_def list_all_iff)
qed

section \<open>Sessions\<close>

definition keeps_sessions :: "impairment_proxy \<Rightarrow> impairment_proxy \<Rightarrow> bool" where
  "keeps_sessions p q \<longleftrightarrow> length (sessions p) \<le> length (sessions q) \<and>
     (\<forall>i < length (sessions p). client_endpoint (sessions q ! i) = client_endpoint (sessions p ! i) \<and>
        (server_tid_locked (sessions p ! i) \<longrightarrow> server_tid_locked (sessions q ! i) \<and>
           server_destination (sessions q ! i) = server_destination (sessions p ! i)))"

definition one_session_each :: "impairment_proxy \<Rightarrow> bool" where
  "one_session_each p \<longleftrightarrow> distinct (map client_endpoint (sessions p))"

interpretation stability: loop_invariant "\<lambda>_. UNIV" "keeps_sessions p0" for p0
proof
  fix p q e i now and r :: trace_record
  assume p: "keeps_sessions p0 p"
  show "keeps_sessions p0 q" if "same_flow p q" using p that by (simp add: keeps_sessions_def same_flow_def)
  show "keeps_sessions p0 (flush_due_sends now p)" using p by (simp add: keeps_sessions_def)
  show "keeps_sessions p0 (open_session e now p)"
    using p by (auto simp: keeps_sessions_def open_session_session nth_append)
  show "keeps_sessions p0 (lock_tid i e p)" if "i < length (sessions p)"
    using p that by (auto simp: keeps_sessions_def lock_tid_session)
  show "keeps_sessions p0 q" if "accounted i p q"
    using p that by (simp add: keeps_sessions_def accounted_def same_routes_def)
  show "keeps_sessions p0 (add_trace r p)" using p by (simp add: keeps_sessions_def)
qed

lemma lock_tid_clients [simp]:
  "i < length (sessions p) \<Longrightarrow> map client_endpoint (sessions (lock_tid i e p)) = map client_endpoint (sessions p)"
  by (rule nth_equalityI) (auto simp: lock_tid_session)

interpretation isolation: loop_invariant "\<lambda>_. {e. endpoint_valid e}" one_session_each
proof
  fix p q e i now and r :: trace_record
  assume p: "one_session_each p"
  show "one_session_each q" if "same_flow p q" using p that by (simp add: one_session_each_def same_flow_def)
  show "one_session_each (flush_due_sends now p)" using p by (simp add: one_session_each_def)
  show "one_session_each (open_session e now p)"
    if "e \<in> {e. endpoint_valid e}" "session_index e (sessions p) = None"
    using p that by (auto simp: one_session_each_def session_index_None endpoint_eq_iff)
  show "one_session_each (lock_tid i e p)" if "i < length (sessions p)"
    using p that by (simp add: one_session_each_def)
  show "one_session_each q" if "accounted i p q"
    using p that by (simp add: one_session_each_def accounted_def same_routes_def)
  show "one_session_each (add_trace r p)" using p by (simp add: one_session_each_def)
qed

text \<open>
  Sessions. Over any number of passes a session keeps its client, and once it is locked
  to the server's TID it keeps that TID, so no later sender can take a transfer over; and as long as
  datagrams come from proper endpoints, a client endpoint has one session, however often it sends.
\<close>

lemma sessions_keep_their_ends:
  fixes env :: environment and p :: impairment_proxy
  assumes "one_session_each p" and "list_all (\<lambda>inp. list_all (\<lambda>(socket, x, e). endpoint_valid e) (arrivals inp)) inps"
  defines "q \<equiv> fold (relay_pass env) inps p"
  shows "one_session_each q \<and> keeps_sessions p q"
proof -
  have "senders inps socket \<subseteq> {e. endpoint_valid e}" for socket
    using assms(2) by (fastforce simp: senders_def list_all_iff)
  from isolation.passes_step [OF assms(1) this] show ?thesis
    using stability.passes_step [of p p] by (simp add: q_def keeps_sessions_def)
qed

section \<open>The wait in select\<close>

text \<open>The loop never sleeps longer than 50 ms, nor past the deadline of a scheduled send.\<close>

lemma select_wait_fold:
  assumes "0 \<le> w"
  shows "0 \<le> fold (\<lambda>s wait. let until = deadline s - now in if until < wait then max until 0 else wait) xs w \<and>
    fold (\<lambda>s wait. let until = deadline s - now in if until < wait then max until 0 else wait) xs w \<le> w \<and>
    (\<forall>x \<in> set xs. now \<le> deadline x \<longrightarrow>
       fold (\<lambda>s wait. let until = deadline s - now in if until < wait then max until 0 else wait) xs w
         \<le> deadline x - now)"
  using assms
proof (induction xs arbitrary: w)
  case (Cons x xs)
  let ?w = "if deadline x - now < w then max (deadline x - now) 0 else w"
  show ?case using Cons.IH [of ?w] Cons.prems by (force simp: Let_def)
qed simp

lemma select_never_oversleeps:
  assumes "select_timeout (select_wait now xs) = (sec, usec)"
  shows "0 \<le> sec \<and> 0 \<le> usec \<and> usec < 1000000 \<and> 1000000 * sec + usec \<le> 50000 \<and>
    (\<forall>x \<in> set xs. now \<le> deadline x \<longrightarrow> now + 1000 * (1000000 * sec + usec) \<le> deadline x)"
proof -
  let ?w = "select_wait now xs"
  have w: "0 \<le> ?w" "?w \<le> 50000000" "\<forall>x \<in> set xs. now \<le> deadline x \<longrightarrow> ?w \<le> deadline x - now"
    using select_wait_fold [of "50 * 1000000" now xs] by (auto simp: select_wait_def)
  have eq: "1000000 * sec + usec = ?w div 1000" and us: "sec = ?w div 1000 div 1000000" "usec = ?w div 1000 mod 1000000"
    using assms by (auto simp: select_timeout_def Let_def)
  have "0 \<le> ?w div 1000" "?w div 1000 \<le> 50000" "1000 * (?w div 1000) \<le> ?w" using w(1,2) by linarith+
  then show ?thesis using w(3) eq us by (fastforce simp: pos_imp_zdiv_nonneg_iff)
qed

section \<open>A sample run\<close>

text \<open>A request from a client, the server's reply from a fresh TID, and the client's ACK.\<close>

definition sample_env :: environment where
  "sample_env = \<lparr>clock = (\<lambda>k. 1000 * int k), listen_binds = True, session_opens = (\<lambda>_. True),
     local_endpoint = (\<lambda>_. IPv4 [127, 0, 0, 1] 9000)\<rparr>"

definition sample_config :: proxy_config where
  "sample_config = \<lparr>server_endpoint = IPv4 [127, 0, 0, 1] 69, proxy_impairment = default_impairment_config,
     proxy_seed = 42, injection = None\<rparr>"

definition sample_passes :: "relay_input list" where
  "sample_passes =
     [\<lparr>select_ready = True, arrivals = [(ListenSocket, [0, 1, 65, 0, 66, 0], IPv4 [127, 0, 0, 1] 5000)]\<rparr>,
      \<lparr>select_ready = True, arrivals = [(SessionSocket 0, [0, 3, 0, 1, 7], IPv4 [127, 0, 0, 1] 6000)]\<rparr>,
      \<lparr>select_ready = True, arrivals = [(ListenSocket, [0, 4, 0, 1], IPv4 [127, 0, 0, 1] 5000)]\<rparr>]"

lemma sample_run_exists: "\<exists>p. run_proxy sample_env sample_config sample_passes = Some p"
  by (simp add: run_proxy_def start_def sample_env_def)

lemma sample_assumptions:
  "transparent (proxy_impairment sample_config)" "injection sample_config = None"
  "fixed_delay (proxy_impairment sample_config) = 0" "mono (clock sample_env)"
  "session_opens sample_env k" "honest_script sample_config"
  by (simp_all add: sample_config_def sample_env_def transparent_def default_impairment_config_def
      honest_script_def mono_def)

theorem trace_accounts_for_sends_witness:
  "\<exists>p. run_proxy sample_env sample_config sample_passes = Some p \<and>
     length (sent_datagrams p) + length (scheduled p) =
       sum_list (map copies (trace_records (stop_and_take_trace p)))"
  using sample_run_exists trace_accounts_for_sends [OF _ sample_assumptions(6)] by blast

definition sample_proxy :: impairment_proxy where
  "sample_proxy = the (start sample_env sample_config)"

lemma sessions_keep_their_ends_witness:
  "one_session_each (fold (relay_pass sample_env) sample_passes sample_proxy)"
proof -
  have "one_session_each sample_proxy"
    by (simp add: one_session_each_def sample_proxy_def start_def sample_env_def)
  moreover have "list_all (\<lambda>inp. list_all (\<lambda>(socket, x, e). endpoint_valid e) (arrivals inp)) sample_passes"
    by (simp add: sample_passes_def endpoint_valid_def)
  ultimately show ?thesis using sessions_keep_their_ends by blast
qed

end
