(* ===== verification/Plain_Relay.thy ===== *)
theory Plain_Relay
  imports Impairment_Proxy
begin

text \<open>
  What the proxy is when nothing is impaired: a relay. The theory states that relay as a small machine
  of its own (a table of clients and destinations, a list of outgoing datagrams) and proves that
  \<open>run_proxy\<close>, with its schedule, deadlines and flushes, refines it.
\<close>

section \<open>The specification\<close>

text \<open>
  The specification of a plain relay: per client the destination of its datagrams and whether a reply
  has fixed it; and the datagrams in the order in which they leave.
\<close>

type_synonym relay_state = "(endpoint \<times> endpoint \<times> bool) list \<times> (proxy_socket \<times> endpoint \<times> bytes) list"

fun plain_index :: "endpoint \<Rightarrow> (endpoint \<times> endpoint \<times> bool) list \<Rightarrow> nat option" where
  "plain_index e [] = None"
| "plain_index e ((c, s) # ss) = (if endpoint_eq c e then Some 0 else map_option Suc (plain_index e ss))"

fun plain_client :: "endpoint \<Rightarrow> bytes \<Rightarrow> endpoint \<Rightarrow> relay_state \<Rightarrow> relay_state" where
  "plain_client server x e (ss, out) =
     (case plain_index e ss of
        Some i \<Rightarrow> (ss, out @ [(SessionSocket i, fst (snd (ss ! i)), x)])
      | None \<Rightarrow> (ss @ [(e, server, False)], out @ [(SessionSocket (length ss), server, x)]))"

fun plain_server :: "nat \<Rightarrow> bytes \<Rightarrow> endpoint \<Rightarrow> relay_state \<Rightarrow> relay_state" where
  "plain_server i x e (ss, out) =
     (case ss ! i of
        (c, d, fixed) \<Rightarrow> ((if fixed then ss else ss[i := (c, e, True)]), out @ [(ListenSocket, c, x)]))"

definition plain_replies :: "relay_input \<Rightarrow> nat \<Rightarrow> nat \<Rightarrow> relay_state \<Rightarrow> relay_state" where
  "plain_replies inp n i v =
     (case received (i < n) inp (SessionSocket i) of None \<Rightarrow> v | Some (x, e) \<Rightarrow> plain_server i x e v)"

definition plain_pass :: "endpoint \<Rightarrow> relay_input \<Rightarrow> relay_state \<Rightarrow> relay_state" where
  "plain_pass server inp v =
     (if \<not> select_ready inp then v
      else let n = length (fst v);
               v = (case received True inp ListenSocket of None \<Rightarrow> v | Some (x, e) \<Rightarrow> plain_client server x e v)
           in fold (plain_replies inp n) [0..<length (fst v)] v)"

definition relay_view :: "impairment_proxy \<Rightarrow> relay_state" where
  "relay_view p =
     (map (\<lambda>s. (client_endpoint s, server_destination s, server_tid_locked s)) (sessions p),
      map (\<lambda>x. (send_socket x, send_destination x, send_bytes x)) (sent_datagrams p @ scheduled p))"

definition unimpaired :: "environment \<Rightarrow> endpoint \<Rightarrow> int \<Rightarrow> impairment_proxy \<Rightarrow> bool" where
  "unimpaired env server hold p \<longleftrightarrow>
     transparent (pipeline_config (pipeline p)) \<and> fixed_delay (pipeline_config (pipeline p)) = hold \<and>
     injection (config p) = None \<and> server_endpoint (config p) = server \<and>
     sorted (map deadline (scheduled p)) \<and>
     (\<forall>x \<in> set (scheduled p). deadline x \<le> clock env (clock_readings p) + 1000000 * hold)"

lemma unimpaired_observe:
  fixes env p i d x socket destination
  assumes "mono (clock env)" and "unimpaired env server hold p"
  defines "q \<equiv> observe_and_relay env i d x socket destination p"
  shows "unimpaired env server hold q \<and> sessions q = sessions p \<and>
    snd (relay_view q) = snd (relay_view p) @ [(socket, destination, x)] \<and>
    stray_count q = stray_count p"
proof -
  have step: "clock env (clock_readings p) \<le> clock env (Suc (Suc (clock_readings p)))"
    using assms(1) by (simp add: monoD)
  have "injection (config p) = None" "transparent (pipeline_config (pipeline p))"
    using assms(2) by (simp_all add: unimpaired_def)
  then show ?thesis
    using assms(2) step
    by (auto simp: q_def observe_and_relay_eq process_transparent run_injection_def delivery_sends_def Let_def
        unimpaired_def relay_view_def sorted_append)
qed

lemma relay_view_sessions: "sessions q = sessions p \<Longrightarrow> fst (relay_view q) = fst (relay_view p)"
  by (simp add: relay_view_def)

lemma unimpaired_client:
  assumes "mono (clock env)" and "unimpaired env server hold p"
  shows "unimpaired env server hold (handle_client_datagram env i x p)"
    and "relay_view (handle_client_datagram env i x p) =
      (fst (relay_view p), snd (relay_view p) @ [(SessionSocket i, server_destination (sessions p ! i), x)])"
  using unimpaired_observe [OF assms, of i ClientToServer x "SessionSocket i" "server_destination (sessions p ! i)"]
    relay_view_sessions [of "handle_client_datagram env i x p" p]
  by (auto simp: handle_client_datagram_def intro!: prod_eqI)

lemma unimpaired_server:
  assumes "mono (clock env)" and "unimpaired env server hold p"
  shows "unimpaired env server hold (handle_server_datagram env i x p)"
    and "relay_view (handle_server_datagram env i x p) =
      (fst (relay_view p), snd (relay_view p) @ [(ListenSocket, client_endpoint (sessions p ! i), x)])"
  using unimpaired_observe [OF assms, of i ServerToClient x ListenSocket "client_endpoint (sessions p ! i)"]
    relay_view_sessions [of "handle_server_datagram env i x p" p]
  by (auto simp: handle_server_datagram_def intro!: prod_eqI)

lemma plain_index_view: "plain_index e (fst (relay_view p)) = session_index e (sessions p)"
proof -
  have "plain_index e (map (\<lambda>s. (client_endpoint s, server_destination s, server_tid_locked s)) ss) = session_index e ss"
    for ss by (induction ss) auto
  then show ?thesis by (simp add: relay_view_def)
qed

text \<open>Opening a session and advancing the clock keep the schedule in order.\<close>

lemma unimpaired_tick:
  assumes "mono (clock env)" and "unimpaired env server hold p"
  shows "unimpaired env server hold (p\<lparr>clock_readings := clock_readings p + 1\<rparr>)"
proof -
  have "clock env (clock_readings p) \<le> clock env (Suc (clock_readings p))" using assms(1) by (simp add: monoD)
  then show ?thesis using assms(2) by (fastforce simp: unimpaired_def)
qed

lemma unimpaired_listen:
  assumes "mono (clock env)" and "unimpaired env server hold p" and "\<And>k. session_opens env k"
  shows "unimpaired env server hold (serve_listen env inp p)"
    and "relay_view (serve_listen env inp p) =
      (case received True inp ListenSocket of None \<Rightarrow> relay_view p
       | Some (x, e) \<Rightarrow> plain_client server x e (relay_view p))"
proof (atomize(full), cases "received True inp ListenSocket")
  case (Some a)
  obtain x e where a: "a = (x, e)" by (cases a)
  show "unimpaired env server hold (serve_listen env inp p) \<and> relay_view (serve_listen env inp p) =
      (case received True inp ListenSocket of None \<Rightarrow> relay_view p
       | Some (x, e) \<Rightarrow> plain_client server x e (relay_view p))"
  proof (cases "session_index e (sessions p)")
    case (Some i)
    then have i: "i < length (sessions p)" using session_index_bound by blast
    have idx: "plain_index e (fst (relay_view p)) = Some i" using Some by (simp add: plain_index_view)
    have dest: "fst (snd (fst (relay_view p) ! i)) = server_destination (sessions p ! i)"
      using i by (simp add: relay_view_def)
    have "plain_client server x e (relay_view p) =
        (fst (relay_view p), snd (relay_view p) @ [(SessionSocket i, server_destination (sessions p ! i), x)])"
      using idx dest by (cases "relay_view p") simp
    then show ?thesis
      using unimpaired_client [OF assms(1,2), of i x] Some \<open>received True inp ListenSocket = Some a\<close> a
      by (simp add: serve_listen_def find_or_create_session_def)
  next
    case None
    let ?q = "p\<lparr>open_attempts := open_attempts p + 1, clock_readings := clock_readings p + 1\<rparr>"
    let ?r = "open_session e (clock env (clock_readings p)) ?q"
    have "unimpaired env server hold ?r"
      using unimpaired_tick [OF assms(1,2)] by (simp add: unimpaired_def open_session_def)
    note c = unimpaired_client [OF assms(1) this, of "length (sessions p)" x]
    have "server_endpoint (config p) = server" using assms(2) by (simp add: unimpaired_def)
    then have "relay_view ?r = (fst (relay_view p) @ [(e, server, False)], snd (relay_view p))"
      "server_destination (sessions ?r ! length (sessions p)) = server"
      by (simp_all add: relay_view_def open_session_def)
    moreover have "plain_client server x e (relay_view p) =
        (fst (relay_view p) @ [(e, server, False)],
         snd (relay_view p) @ [(SessionSocket (length (sessions p)), server, x)])"
      using None plain_index_view [of e p] by (cases "relay_view p") (auto simp: relay_view_def)
    ultimately show ?thesis
      using c None assms(3) \<open>received True inp ListenSocket = Some a\<close> a
      by (simp add: serve_listen_def find_or_create_session_def read_clock_def open_session_def)
  qed
qed (simp add: serve_listen_def assms(2))

lemma unimpaired_reply:
  assumes "mono (clock env)" and "unimpaired env server hold p" and "i < length (sessions p)"
  shows "unimpaired env server hold (serve_session env n inp i p)"
    and "relay_view (serve_session env n inp i p) = plain_replies inp n i (relay_view p)"
proof (atomize(full), cases "received (i < n) inp (SessionSocket i)")
  case (Some a)
  obtain x e where a: "a = (x, e)" by (cases a)
  let ?q = "lock_tid i e p"
  have "unimpaired env server hold ?q" using assms(2) by (simp add: unimpaired_def lock_tid_def Let_def)
  note s = unimpaired_server [OF assms(1) this, of i x]
  have view: "plain_server i x e (relay_view p) =
      (fst (relay_view ?q), snd (relay_view ?q) @ [(ListenSocket, client_endpoint (sessions ?q ! i), x)])"
    using assms(3) by (simp add: relay_view_def lock_tid_def Let_def map_update)
  show "unimpaired env server hold (serve_session env n inp i p) \<and>
      relay_view (serve_session env n inp i p) = plain_replies inp n i (relay_view p)"
    using s Some a by (simp add: serve_session_def plain_replies_def view)
qed (simp add: serve_session_def plain_replies_def assms(2))

lemma unimpaired_replies:
  assumes "mono (clock env)" and "unimpaired env server hold p" and "list_all (\<lambda>i. i < length (sessions p)) js"
  shows "unimpaired env server hold (fold (serve_session env n inp) js p) \<and>
    relay_view (fold (serve_session env n inp) js p) = fold (plain_replies inp n) js (relay_view p)"
  using assms(2,3)
proof (induction js arbitrary: p)
  case (Cons i js)
  have i: "i < length (sessions p)" using Cons.prems(2) by simp
  note one = unimpaired_reply [OF assms(1) Cons.prems(1) i, of n inp]
  have "list_all (\<lambda>i. i < length (sessions (serve_session env n inp i p))) js"
    using Cons.prems(2) by (simp add: serve_session_length)
  from Cons.IH [OF one(1)] show ?case using one(2) Cons.prems(2) by (simp add: serve_session_length)
qed simp

lemma serve_strays_view:
  "unimpaired env server hold p \<Longrightarrow> unimpaired env server hold (fold (serve_stray env n inp) js p) \<and>
    relay_view (fold (serve_stray env n inp) js p) = relay_view p"
proof (induction js arbitrary: p)
  case (Cons i js)
  have "unimpaired env server hold (serve_stray env n inp i p) \<and> relay_view (serve_stray env n inp i p) = relay_view p"
    using Cons.prems by (auto simp: serve_stray_def Let_def unimpaired_def relay_view_def split: option.splits)
  then show ?case using Cons.IH by simp
qed simp

text \<open>With deadlines in order, a flush sends a prefix of the schedule, so the order of the output is kept.\<close>

lemma flush_prefix:
  "sorted (map deadline xs) \<Longrightarrow>
     filter (\<lambda>s. deadline s \<le> now) xs @ filter (\<lambda>s. \<not> deadline s \<le> now) xs = xs"
proof (induction xs)
  case (Cons x xs)
  show ?case
  proof (cases "deadline x \<le> now")
    case False
    then have "filter (\<lambda>s. deadline s \<le> now) xs = []" "filter (\<lambda>s. \<not> deadline s \<le> now) xs = xs"
      using Cons.prems by (fastforce simp: filter_empty_conv filter_id_conv)+
    then show ?thesis using False by simp
  qed (use Cons in simp)
qed simp

lemma unimpaired_flush:
  assumes "unimpaired env server hold p"
  shows "unimpaired env server hold (flush_due_sends now p) \<and> relay_view (flush_due_sends now p) = relay_view p"
proof -
  have "sorted (map deadline (scheduled p))" using assms by (simp add: unimpaired_def)
  from flush_prefix [OF this, of now] have
    "sent_datagrams (flush_due_sends now p) @ scheduled (flush_due_sends now p) = sent_datagrams p @ scheduled p"
    by (simp add: flush_due_sends_def)
  then have "relay_view (flush_due_sends now p) = relay_view p" by (simp add: relay_view_def)
  moreover have "unimpaired env server hold (flush_due_sends now p)"
    using assms by (auto simp: unimpaired_def flush_due_sends_def sorted_filter)
  ultimately show ?thesis by simp
qed

lemma unimpaired_arrivals:
  fixes env server hold p inp
  assumes "mono (clock env)" and "unimpaired env server hold p" and "\<And>k. session_opens env k"
  defines "v \<equiv> case received True inp ListenSocket of None \<Rightarrow> relay_view p
              | Some (x, e) \<Rightarrow> plain_client server x e (relay_view p)"
  shows "unimpaired env server hold (serve_arrivals env n m inp p)"
    and "relay_view (serve_arrivals env n m inp p) = fold (plain_replies inp n) [0..<length (fst v)] v"
proof -
  define l where "l = serve_listen env inp p"
  have l: "unimpaired env server hold l" "relay_view l = v"
    unfolding l_def v_def using unimpaired_listen [OF assms(1,2,3)] by blast+
  have len: "length (sessions l) = length (fst v)" unfolding l(2) [symmetric] by (simp add: relay_view_def)
  have "list_all (\<lambda>i. i < length (sessions l)) [0..<length (sessions l)]" by (simp add: list_all_iff)
  note r = unimpaired_replies [OF assms(1) l(1) this, of n inp]
  define q where "q = fold (serve_session env n inp) [0..<length (sessions l)] l"
  have q: "unimpaired env server hold q" "relay_view q = fold (plain_replies inp n) [0..<length (fst v)] v"
    using r unfolding q_def l(2) len by blast+
  have "serve_arrivals env n m inp p = fold (serve_stray env m inp) [0..<stray_count q] q"
    by (simp add: serve_arrivals_def Let_def q_def l_def)
  then show "unimpaired env server hold (serve_arrivals env n m inp p)"
    and "relay_view (serve_arrivals env n m inp p) = fold (plain_replies inp n) [0..<length (fst v)] v"
    using serve_strays_view [OF q(1)] q(2) by simp_all
qed

lemma unimpaired_pass:
  assumes "mono (clock env)" and "unimpaired env server hold p" and "\<And>k. session_opens env k"
  shows "unimpaired env server hold (relay_pass env inp p) \<and>
    relay_view (relay_pass env inp p) = plain_pass server inp (relay_view p)"
proof -
  let ?now = "clock env (clock_readings p)" and ?p = "p\<lparr>clock_readings := clock_readings p + 1\<rparr>"
  let ?q = "flush_due_sends ?now ?p"
  define r where "r = ?q\<lparr>last_select := select_timeout (select_wait ?now (scheduled ?q))\<rparr>"
  have "relay_view ?p = relay_view p" by (simp add: relay_view_def)
  then have q: "unimpaired env server hold ?q" "relay_view ?q = relay_view p"
    using unimpaired_flush [OF unimpaired_tick [OF assms(1,2)], of ?now] by simp_all
  then have r: "unimpaired env server hold r" "relay_view r = relay_view p"
    by (simp_all add: r_def unimpaired_def relay_view_def)
  have "length (sessions r) = length (fst (relay_view r))" by (simp add: relay_view_def)
  then have len: "length (sessions r) = length (fst (relay_view p))" by (simp only: r(2))
  have "relay_pass env inp p =
      (if select_ready inp then serve_arrivals env (length (sessions r)) (stray_count r) inp r else r)"
    by (simp add: relay_pass_def read_clock_def Let_def r_def)
  then show ?thesis
    using unimpaired_arrivals [OF assms(1) r(1) assms(3), unfolded r(2)] r by (simp add: plain_pass_def Let_def len)
qed

lemma unimpaired_passes:
  assumes "mono (clock env)" and "unimpaired env server hold p" and "\<And>k. session_opens env k"
  shows "unimpaired env server hold (fold (relay_pass env) inps p) \<and>
    relay_view (fold (relay_pass env) inps p) = fold (plain_pass server) inps (relay_view p)"
  using assms(2)
  by (induction inps arbitrary: p) (simp_all add: unimpaired_pass [OF assms(1) _ assms(3)])

text \<open>
  C22. The proxy refines a plain relay. With every impairment off and no script, a proxy that
  holds datagrams for a fixed delay of at most an hour sends, once it is stopped, exactly the datagrams
  a plain relay sends: the same bytes, from the same sockets to the same destinations, in the order in
  which they arrived, none lost and none added.
\<close>

theorem unimpaired_proxy_is_plain_relay:
  assumes "run_proxy env c inps = Some p"
    and "transparent (proxy_impairment c)" and "injection c = None"
    and "fixed_delay (proxy_impairment c) \<le> 3600000"
    and "mono (clock env)" and "\<And>k. session_opens env k"
  shows "map (\<lambda>x. (send_socket x, send_destination x, send_bytes x)) (sent_datagrams p) =
      snd (fold (plain_pass (server_endpoint c)) inps ([], [])) \<and> scheduled p = []"
proof -
  let ?hold = "fixed_delay (proxy_impairment c)" and ?server = "server_endpoint c"
  obtain p0 where p0: "start env c = Some p0" "p = relay_loop env inps p0"
    using assms(1) by (auto simp: run_proxy_def)
  note f = start_fields [OF p0(1)]
  have "unimpaired env ?server ?hold p0"
    using f assms(2,3) by (simp add: unimpaired_def make_pipeline_def)
  note loop = unimpaired_passes [OF assms(5) this assms(6), of inps]
  let ?q = "fold (relay_pass env) inps p0"
  have view: "relay_view ?q = fold (plain_pass ?server) inps ([], [])"
    using loop f by (simp add: relay_view_def)
  have due: "deadline x \<le> clock env (clock_readings ?q) + 3600 * 1000000000" if "x \<in> set (scheduled ?q)" for x
  proof -
    have "deadline x \<le> clock env (clock_readings ?q) + 1000000 * ?hold"
      using loop that by (simp add: unimpaired_def)
    then show ?thesis using assms(4) by linarith
  qed
  then have "sent_datagrams p = sent_datagrams ?q @ scheduled ?q" "scheduled p = []"
    unfolding p0(2) by (auto simp: relay_loop_def final_flush_def flush_due_sends_def read_clock_def Let_def
      filter_id_conv filter_empty_conv)
  moreover have "map (\<lambda>x. (send_socket x, send_destination x, send_bytes x)) (sent_datagrams ?q @ scheduled ?q) =
      snd (relay_view ?q)" by (simp add: relay_view_def)
  ultimately show ?thesis by (simp add: view)
qed

lemma sample_plain_relay:
  "snd (fold (plain_pass (server_endpoint sample_config)) sample_passes ([], [])) =
     [(SessionSocket 0, IPv4 [127, 0, 0, 1] 69, [0, 1, 65, 0, 66, 0]),
      (ListenSocket, IPv4 [127, 0, 0, 1] 5000, [0, 3, 0, 1, 7]),
      (SessionSocket 0, IPv4 [127, 0, 0, 1] 6000, [0, 4, 0, 1])]"
  by code_simp

theorem unimpaired_proxy_is_plain_relay_witness:
  "\<exists>p. run_proxy sample_env sample_config sample_passes = Some p \<and>
     map send_bytes (sent_datagrams p) = [[0, 1, 65, 0, 66, 0], [0, 3, 0, 1, 7], [0, 4, 0, 1]] \<and> scheduled p = []"
proof -
  obtain p where p: "run_proxy sample_env sample_config sample_passes = Some p" using sample_run_exists by blast
  note plain = unimpaired_proxy_is_plain_relay [OF p sample_assumptions(1,2) _ sample_assumptions(4,5)]
  then have sent: "map (\<lambda>x. (send_socket x, send_destination x, send_bytes x)) (sent_datagrams p) =
     [(SessionSocket 0, IPv4 [127, 0, 0, 1] 69, [0, 1, 65, 0, 66, 0]),
      (ListenSocket, IPv4 [127, 0, 0, 1] 5000, [0, 3, 0, 1, 7]),
      (SessionSocket 0, IPv4 [127, 0, 0, 1] 6000, [0, 4, 0, 1])]"
    and none: "scheduled p = []" by (simp_all add: sample_plain_relay sample_assumptions(3))
  have "map send_bytes (sent_datagrams p) = [[0, 1, 65, 0, 66, 0], [0, 3, 0, 1, 7], [0, 4, 0, 1]]"
  proof -
    have "map send_bytes (sent_datagrams p) =
        map (snd \<circ> snd) (map (\<lambda>x. (send_socket x, send_destination x, send_bytes x)) (sent_datagrams p))"
      by simp
    then show ?thesis unfolding sent by simp
  qed
  with p none show ?thesis by (intro exI [of _ p] conjI)
qed

end
