(* ===== verification/Fixtures.thy ===== *)
theory Fixtures
  imports Netascii File_System
begin

text \<open>
  \<open>src/src/fixtures/fixture_generator.{hpp,cpp}\<close>: the files the suite transfers. The generators are
  the loops of the code; \<open>materialize\<close> writes a fixture through the file system of \<open>File_System\<close>
  (creating directories is left out, a directory that cannot be created shows as a failing write).
\<close>

section \<open>Generators\<close>

fun binary_loop :: "nat \<Rightarrow> u32 \<Rightarrow> bytes" where
  "binary_loop 0 state = []"
| "binary_loop (Suc n) state =
     (let state = state * 1664525 + 1013904223 in ucast (drop_bit 24 state) # binary_loop n state)"

definition deterministic_binary :: "u64 \<Rightarrow> u32 \<Rightarrow> bytes" where
  "deterministic_binary n seed = binary_loop (unat n) (seed * 2654435761 + 1013904223)"

definition text_fragments :: "string list" where
  "text_fragments =
     [''The quick brown fox'', [CHR 0x0A], ''carriage'' @ [CHR 0x0D] @ ''return-in-the-middle'',
      [CHR 0x0D, CHR 0x0A], ''another line of netascii content'', [CHR 0x0A],
      ''tab'' @ [CHR 0x09] @ ''and more words'', [CHR 0x0A]]"

definition fragment_bytes :: "nat \<Rightarrow> bytes" where
  "fragment_bytes i = map byte_of_char (text_fragments ! (i mod 8))"

lemma fragment_length: "0 < length (fragment_bytes i) \<and> length (fragment_bytes i) \<le> 32"
proof -
  have "i mod 8 < 8" by simp
  then consider "i mod 8 = 0" | "i mod 8 = 1" | "i mod 8 = 2" | "i mod 8 = 3" | "i mod 8 = 4"
    | "i mod 8 = 5" | "i mod 8 = 6" | "i mod 8 = 7" by linarith
  then show ?thesis by cases (simp_all add: fragment_bytes_def text_fragments_def)
qed

function text_loop :: "nat \<Rightarrow> nat \<Rightarrow> bytes \<Rightarrow> bytes" where
  "text_loop wanted i out =
     (if length out < wanted then text_loop wanted (Suc i) (out @ fragment_bytes i) else out)"
  by pat_completeness auto
termination
proof (relation "measure (\<lambda>(wanted, i, out). wanted - length out)")
  fix wanted i :: nat and out :: bytes
  assume "length out < wanted"
  then show "((wanted, Suc i, out @ fragment_bytes i), wanted, i, out)
      \<in> measure (\<lambda>(wanted, i, out). wanted - length out)"
    using fragment_length [of i] by (simp del: length_greater_0_conv, linarith)
qed simp

declare text_loop.simps [simp del]

definition deterministic_netascii_text :: "u64 \<Rightarrow> bytes" where
  "deterministic_netascii_text approx_size = text_loop (unat approx_size) 0 []"

section \<open>The catalogue\<close>

datatype fixture_kind = BinaryFixture | NetasciiFixture

record fixture =
  fixture_name :: string
  fixture_size :: u64
  kind_of_fixture :: fixture_kind
  fixture_description :: string
  fixture_path :: string
  fixture_bytes :: bytes

definition materialize ::
  "file_system \<Rightarrow> string \<Rightarrow> string \<Rightarrow> fixture_kind \<Rightarrow> bytes \<Rightarrow> string \<Rightarrow> fixture \<times> file_system" where
  "materialize fs directory name kind bytes description =
     (let path = path_append directory name
      in (\<lparr>fixture_name = name, fixture_size = word_of_nat (length bytes), kind_of_fixture = kind,
           fixture_description = description, fixture_path = path, fixture_bytes = bytes\<rparr>,
          fst (write_entire_file fs path bytes)))"

definition size_specs :: "(string \<times> u64 \<times> string) list" where
  "size_specs =
     [(''empty.bin'', 0, ''zero-byte file (A-03): single final DATA of length 0''),
      (''one.bin'', 1, ''single byte''),
      (''just_under_block.bin'', 511, ''one byte under the block size (A-06)''),
      (''exact_block.bin'', 512, ''exactly one block (A-04): requires a terminating 0-length DATA''),
      (''just_over_block.bin'', 513, ''one byte over the block size (A-06)''),
      (''two_blocks_exact.bin'', 1024, ''exact multiple of the block size (A-05)''),
      (''odd_medium.bin'', 3000, ''several blocks, non-multiple size''),
      (''kib_8.bin'', 8000, ''~8 KB, 16 blocks (adversarial sweeps)''),
      (''kib_64.bin'', 65000, ''~64 KB, 127 blocks (large multi-block)'')]"

text \<open>What the catalogue holds: name, kind, content and description, in the order it is written.\<close>

definition binary_entries :: "(string \<times> fixture_kind \<times> bytes \<times> string) list" where
  "binary_entries =
     map (\<lambda>((name, n, description), seed).
            (name, BinaryFixture, deterministic_binary n seed, description))
       (zip size_specs (map word_of_nat [1..<Suc (length size_specs)]))"

definition text_entry :: "string \<times> fixture_kind \<times> bytes \<times> string" where
  "text_entry = (''netascii_mixed.txt'', NetasciiFixture, deterministic_netascii_text 4096,
     ''mixed CR / LF / CR-NUL netascii content (A-08/A-09)'')"

definition huge_entries :: "(string \<times> fixture_kind \<times> bytes \<times> string) list" where
  "huge_entries =
     [(''multi_megabyte.bin'', BinaryFixture, deterministic_binary (4 * 1024 * 1024) 101,
       ''4 MiB multi-block transfer (A-07)''),
      (''over_65535_blocks.bin'', BinaryFixture, deterministic_binary (65536 * 512 + 1024) 202,
       ''crosses the 65535-block boundary (A-40 / H-02)'')]"

fun materialize_all ::
  "string \<Rightarrow> (string \<times> fixture_kind \<times> bytes \<times> string) list \<Rightarrow> file_system \<Rightarrow> fixture list \<times> file_system" where
  "materialize_all directory [] fs = ([], fs)"
| "materialize_all directory ((name, kind, bytes, description) # es) fs =
     (let (f, fs) = materialize fs directory name kind bytes description;
          (rest, fs) = materialize_all directory es fs
      in (f # rest, fs))"

definition generate_standard_fixtures :: "file_system \<Rightarrow> string \<Rightarrow> bool \<Rightarrow> fixture list \<times> file_system" where
  "generate_standard_fixtures fs directory include_huge =
     materialize_all directory
       (binary_entries @ [text_entry] @ (if include_huge then huge_entries else [])) fs"

section \<open>Lengths\<close>

lemma length_binary_loop [simp]: "length (binary_loop n state) = n"
  by (induction n arbitrary: state) (simp_all add: Let_def)

lemma length_deterministic_binary: "length (deterministic_binary n seed) = unat n"
  by (simp add: deterministic_binary_def)

lemma text_loop_length:
  "length out < wanted + 32 \<Longrightarrow> wanted \<le> length (text_loop wanted i out) \<and> length (text_loop wanted i out) < wanted + 32"
proof (induction wanted i out rule: text_loop.induct)
  case (1 wanted i out)
  show ?case
  proof (cases "length out < wanted")
    case True
    then have "length (out @ fragment_bytes i) < wanted + 32" using fragment_length [of i] by simp
    then show ?thesis using 1 True by (simp add: text_loop.simps [of wanted i out])
  qed (use 1 in \<open>simp add: text_loop.simps [of wanted i out]\<close>)
qed

text \<open>The boundary sizes around a 512-byte block are there, and the sweep files end in a short block.\<close>

lemma binary_entries_sizes:
  "map (\<lambda>(name, kind, bytes, description). length bytes) binary_entries =
     [0, 1, 511, 512, 513, 1024, 3000, 8000, 65000]"
  by (simp add: binary_entries_def size_specs_def length_deterministic_binary upt_rec)

section \<open>What is on disk\<close>

lemma write_other: "q \<noteq> path \<Longrightarrow> contents (fst (write_entire_file fs path bytes)) q = contents fs q"
  by (simp add: write_entire_file_def split: write_behaviour.splits)

lemma write_keeps_behaviour: "write_behaviours (fst (write_entire_file fs path bytes)) = write_behaviours fs"
  by (simp add: write_entire_file_def split: write_behaviour.splits)

lemma write_stored:
  "write_behaviours fs path = WriteSucceeds \<Longrightarrow>
     contents (fst (write_entire_file fs path bytes)) path = Some bytes"
  by (simp add: write_entire_file_def)

lemma materialize_all_other:
  "q \<notin> (\<lambda>e. path_append directory (fst e)) ` set es \<Longrightarrow>
     contents (snd (materialize_all directory es fs)) q = contents fs q"
  by (induction directory es fs rule: materialize_all.induct)
    (auto simp: materialize_def Let_def write_other split: prod.splits)

lemma materialize_all_stored:
  assumes "distinct (map (\<lambda>e. path_append directory (fst e)) es)" and "\<And>q. write_behaviours fs q = WriteSucceeds"
    and "f \<in> set (fst (materialize_all directory es fs))"
  shows "contents (snd (materialize_all directory es fs)) (fixture_path f) = Some (fixture_bytes f) \<and>
    fixture_size f = word_of_nat (length (fixture_bytes f))"
  using assms
proof (induction directory es fs rule: materialize_all.induct)
  case (2 directory name kind bytes description es fs)
  let ?path = "path_append directory name"
  let ?fs = "fst (write_entire_file fs ?path bytes)"
  have ok: "write_behaviours ?fs q = WriteSucceeds" for q using 2(3) by (simp add: write_keeps_behaviour)
  have new: "?path \<notin> (\<lambda>e. path_append directory (fst e)) ` set es" using 2(2) by auto
  consider "f = fst (materialize fs directory name kind bytes description)"
    | "f \<in> set (fst (materialize_all directory es ?fs))"
    using 2(4) by (auto simp: materialize_def Let_def split: prod.splits)
  then show ?case
  proof cases
    case 1
    then show ?thesis
      using materialize_all_other [OF new, of ?fs] write_stored [OF 2(3)]
      by (auto simp: materialize_def Let_def split: prod.splits)
  next
    case 2: 2
    then show ?thesis
      using "2.IH" ok "2.prems" by (auto simp: materialize_def Let_def split: prod.splits)
  qed
qed simp

end
