(* ===== verification/Packet_Observer.thy ===== *)
theory Packet_Observer
  imports Packet_Trace
begin

text \<open>
  \<open>src/src/verify/packet_observer.{hpp,cpp}\<close>: the observer walks the trace once and reports measured
  facts about the DATA and ACK directions. The loop of \<open>observe\<close> is a fold of \<open>observe_record\<close> over
  the records; its local variables are the fields of \<open>observer_state\<close>. The locals
  \<open>data_send_count\<close> and \<open>last_data_block\<close>, which are written and never read, are left out.
  \<open>observer_counts_exactly\<close> states each reported count as a property of the whole list of records.
\<close>

section \<open>Reports\<close>

datatype transfer_direction = Download | Upload

record observer_context =
  context_direction :: transfer_direction
  context_block_size :: u32
  transfer_reported_complete :: bool

record observer_report =
  data_packets_sent :: u32
  distinct_data_blocks :: u32
  retransmitted_data_packets :: u32
  final_data_block_length :: nat
  terminating_short_block_present :: bool
  acknowledgements_sent :: u32
  duplicate_acknowledgements :: u32
  datagrams_dropped :: u32
  datagrams_corrupted :: u32
  datagrams_injected :: u32
  stray_tid_replies :: u32
  stray_tid_reply_was_error_5 :: bool
  server_selected_fresh_tid :: bool
  request_destination_tid :: u16
  server_source_tid :: u16
  highest_block_number :: u16
  block_number_wrapped :: bool
  total_records :: u32

definition empty_report :: observer_report where
  "empty_report =
     \<lparr>data_packets_sent = 0, distinct_data_blocks = 0, retransmitted_data_packets = 0,
      final_data_block_length = 0, terminating_short_block_present = False, acknowledgements_sent = 0,
      duplicate_acknowledgements = 0, datagrams_dropped = 0, datagrams_corrupted = 0,
      datagrams_injected = 0, stray_tid_replies = 0, stray_tid_reply_was_error_5 = False,
      server_selected_fresh_tid = False, request_destination_tid = 0, server_source_tid = 0,
      highest_block_number = 0, block_number_wrapped = False, total_records = 0\<rparr>"

definition data_direction :: "transfer_direction \<Rightarrow> direction" where
  "data_direction d = (if d = Download then ServerToClient else ClientToServer)"

definition ack_direction :: "transfer_direction \<Rightarrow> direction" where
  "ack_direction d = (if d = Download then ClientToServer else ServerToClient)"

definition is_peer_send :: "trace_record \<Rightarrow> bool" where
  "is_peer_send r \<longleftrightarrow> disposition r \<noteq> Injected"

section \<open>The walk\<close>

record observer_state =
  report :: observer_report
  distinct_blocks :: "u16 set"
  last_data_length :: nat
  have_data :: bool
  previous_block_for_wrap :: u16
  have_previous_block :: bool
  highest_ack :: u16
  have_ack :: bool
  found_request :: bool

definition initial_observer_state :: "nat \<Rightarrow> observer_state" where
  "initial_observer_state n =
     \<lparr>report = empty_report\<lparr>total_records := word_of_nat n\<rparr>, distinct_blocks = {},
      last_data_length = 0, have_data = False, previous_block_for_wrap = 0,
      have_previous_block = False, highest_ack = 0, have_ack = False, found_request = False\<rparr>"

definition count_disposition :: "trace_record \<Rightarrow> observer_report \<Rightarrow> observer_report" where
  "count_disposition r rep =
     (case disposition r of
        Dropped \<Rightarrow> rep\<lparr>datagrams_dropped := datagrams_dropped rep + 1\<rparr>
      | Corrupted \<Rightarrow> rep\<lparr>datagrams_corrupted := datagrams_corrupted rep + 1\<rparr>
      | Injected \<Rightarrow> rep\<lparr>datagrams_injected := datagrams_injected rep + 1\<rparr>
      | Delivered \<Rightarrow> rep)"

definition note_request :: "trace_record \<Rightarrow> observer_state \<Rightarrow> observer_state" where
  "note_request r s =
     (if \<not> found_request s \<and> is_peer_send r \<and> parseable r \<and>
         (opcode (record_packet r) = ReadRequest \<or> opcode (record_packet r) = WriteRequest)
      then s\<lparr>report := (report s)\<lparr>request_destination_tid := destination_tid r\<rparr>,
             found_request := True\<rparr>
      else s)"

definition note_server_tid :: "trace_record \<Rightarrow> observer_report \<Rightarrow> observer_report" where
  "note_server_tid r rep =
     (if server_source_tid rep = 0 \<and> is_peer_send r \<and> record_direction r = ServerToClient \<and>
         parseable r \<and>
         (opcode (record_packet r) = Data \<or> opcode (record_packet r) = OptionAcknowledgement)
      then rep\<lparr>server_source_tid := source_tid r\<rparr>
      else rep)"

definition count_stray_reply :: "trace_record \<Rightarrow> observer_report \<Rightarrow> observer_report" where
  "count_stray_reply r rep =
     (if disposition r = Injected \<and> contains_text ''reply to stray TID'' (note_text r) then
        let rep = rep\<lparr>stray_tid_replies := stray_tid_replies rep + 1\<rparr>
        in if parseable r \<and> opcode (record_packet r) = Error \<and>
              error_code (record_packet r) = UnknownTransferId
           then rep\<lparr>stray_tid_reply_was_error_5 := True\<rparr> else rep
      else rep)"

definition account_data :: "observer_context \<Rightarrow> trace_record \<Rightarrow> observer_state \<Rightarrow> observer_state" where
  "account_data ctx r s =
     (if record_direction r = data_direction (context_direction ctx) \<and> is_peer_send r \<and> is_data r then
        let block = block_number (record_packet r);
            rep = report s;
            rep = rep\<lparr>data_packets_sent := data_packets_sent rep + 1,
                      highest_block_number := max (highest_block_number rep) block\<rparr>;
            rep = (if have_previous_block s \<and> previous_block_for_wrap s = 0xFFFF \<and> block < 100
                   then rep\<lparr>block_number_wrapped := True\<rparr> else rep);
            rep = (if length (packet_data (record_packet r)) < unat (context_block_size ctx)
                   then rep\<lparr>terminating_short_block_present := True\<rparr> else rep)
        in s\<lparr>report := rep, distinct_blocks := insert block (distinct_blocks s),
             last_data_length := length (packet_data (record_packet r)), have_data := True,
             previous_block_for_wrap := block, have_previous_block := True\<rparr>
      else s)"

definition account_ack :: "observer_context \<Rightarrow> trace_record \<Rightarrow> observer_state \<Rightarrow> observer_state" where
  "account_ack ctx r s =
     (if record_direction r = ack_direction (context_direction ctx) \<and> is_peer_send r \<and> is_ack r then
        let block = block_number (record_packet r);
            rep = (report s)\<lparr>acknowledgements_sent := acknowledgements_sent (report s) + 1\<rparr>;
            rep = (if have_ack s \<and> block = highest_ack s
                   then rep\<lparr>duplicate_acknowledgements := duplicate_acknowledgements rep + 1\<rparr> else rep)
        in s\<lparr>report := rep,
             highest_ack := (if \<not> have_ack s \<or> block > highest_ack s then block else highest_ack s),
             have_ack := True\<rparr>
      else s)"

definition observe_record :: "observer_context \<Rightarrow> trace_record \<Rightarrow> observer_state \<Rightarrow> observer_state" where
  "observe_record ctx r s =
     (let s = s\<lparr>report := count_disposition r (report s)\<rparr>;
          s = note_request r s;
          s = s\<lparr>report := note_server_tid r (report s)\<rparr>;
          s = s\<lparr>report := count_stray_reply r (report s)\<rparr>;
          s = account_data ctx r s
      in account_ack ctx r s)"

definition finish_report :: "observer_state \<Rightarrow> observer_report" where
  "finish_report s =
     (let rep = report s;
          rep = rep\<lparr>distinct_data_blocks := word_of_nat (card (distinct_blocks s))\<rparr>;
          rep = rep\<lparr>retransmitted_data_packets := data_packets_sent rep - distinct_data_blocks rep\<rparr>;
          rep = (if have_data s then rep\<lparr>final_data_block_length := last_data_length s\<rparr> else rep)
      in rep\<lparr>server_selected_fresh_tid := found_request s \<and> server_source_tid rep \<noteq> 0 \<and>
               server_source_tid rep \<noteq> request_destination_tid rep\<rparr>)"

definition observe :: "packet_trace \<Rightarrow> observer_context \<Rightarrow> observer_report" where
  "observe trace ctx =
     finish_report (fold (observe_record ctx) (trace_records trace)
       (initial_observer_state (length (trace_records trace))))"

definition yes_no :: "bool \<Rightarrow> string" where
  "yes_no b = (if b then ''yes'' else ''no'')"

definition narrative :: "observer_report \<Rightarrow> string" where
  "narrative r =
     ''DATA sent='' @ to_string (unat (data_packets_sent r)) @
     '' distinct='' @ to_string (unat (distinct_data_blocks r)) @
     '' retransmit='' @ to_string (unat (retransmitted_data_packets r)) @
     ''; ACK sent='' @ to_string (unat (acknowledgements_sent r)) @
     '' dup='' @ to_string (unat (duplicate_acknowledgements r)) @
     ''; dropped='' @ to_string (unat (datagrams_dropped r)) @
     '' corrupted='' @ to_string (unat (datagrams_corrupted r)) @
     '' injected='' @ to_string (unat (datagrams_injected r)) @
     ''; final_block_len='' @ to_string (final_data_block_length r) @
     '' terminating_short='' @ yes_no (terminating_short_block_present r) @
     ''; server_fresh_tid='' @ yes_no (server_selected_fresh_tid r) @
     (if stray_tid_replies r > 0 then
        ''; stray_tid_replies='' @ to_string (unat (stray_tid_replies r)) @
        (if stray_tid_reply_was_error_5 r then '' (ERROR 5)'' else '''')
      else '''') @
     (if block_number_wrapped r then ''; block-number wraparound observed'' else '''')"

section \<open>What one record changes\<close>

definition data_send :: "observer_context \<Rightarrow> trace_record \<Rightarrow> bool" where
  "data_send ctx r \<longleftrightarrow>
     record_direction r = data_direction (context_direction ctx) \<and> is_peer_send r \<and> is_data r"

definition ack_send :: "observer_context \<Rightarrow> trace_record \<Rightarrow> bool" where
  "ack_send ctx r \<longleftrightarrow>
     record_direction r = ack_direction (context_direction ctx) \<and> is_peer_send r \<and> is_ack r"

definition request_send :: "trace_record \<Rightarrow> bool" where
  "request_send r \<longleftrightarrow> is_peer_send r \<and> parseable r \<and>
     (opcode (record_packet r) = ReadRequest \<or> opcode (record_packet r) = WriteRequest)"

definition server_reply :: "trace_record \<Rightarrow> bool" where
  "server_reply r \<longleftrightarrow> is_peer_send r \<and> record_direction r = ServerToClient \<and> parseable r \<and>
     (opcode (record_packet r) = Data \<or> opcode (record_packet r) = OptionAcknowledgement)"

definition stray_reply :: "trace_record \<Rightarrow> bool" where
  "stray_reply r \<longleftrightarrow> disposition r = Injected \<and> contains_text ''reply to stray TID'' (note_text r)"

abbreviation block_of :: "trace_record \<Rightarrow> u16" where
  "block_of r \<equiv> block_number (record_packet r)"

abbreviation data_length :: "trace_record \<Rightarrow> nat" where
  "data_length r \<equiv> length (packet_data (record_packet r))"

text \<open>Each stage leaves the fields of the others alone.\<close>

lemma count_disposition_frame [simp]:
  "data_packets_sent (count_disposition r rep) = data_packets_sent rep"
  "distinct_data_blocks (count_disposition r rep) = distinct_data_blocks rep"
  "retransmitted_data_packets (count_disposition r rep) = retransmitted_data_packets rep"
  "final_data_block_length (count_disposition r rep) = final_data_block_length rep"
  "terminating_short_block_present (count_disposition r rep) = terminating_short_block_present rep"
  "acknowledgements_sent (count_disposition r rep) = acknowledgements_sent rep"
  "duplicate_acknowledgements (count_disposition r rep) = duplicate_acknowledgements rep"
  "stray_tid_replies (count_disposition r rep) = stray_tid_replies rep"
  "stray_tid_reply_was_error_5 (count_disposition r rep) = stray_tid_reply_was_error_5 rep"
  "server_selected_fresh_tid (count_disposition r rep) = server_selected_fresh_tid rep"
  "request_destination_tid (count_disposition r rep) = request_destination_tid rep"
  "server_source_tid (count_disposition r rep) = server_source_tid rep"
  "highest_block_number (count_disposition r rep) = highest_block_number rep"
  "block_number_wrapped (count_disposition r rep) = block_number_wrapped rep"
  "total_records (count_disposition r rep) = total_records rep"
  by (simp_all add: count_disposition_def split: trace_disposition.splits)

lemma note_server_tid_frame [simp]:
  "data_packets_sent (note_server_tid r rep) = data_packets_sent rep"
  "distinct_data_blocks (note_server_tid r rep) = distinct_data_blocks rep"
  "retransmitted_data_packets (note_server_tid r rep) = retransmitted_data_packets rep"
  "final_data_block_length (note_server_tid r rep) = final_data_block_length rep"
  "terminating_short_block_present (note_server_tid r rep) = terminating_short_block_present rep"
  "acknowledgements_sent (note_server_tid r rep) = acknowledgements_sent rep"
  "duplicate_acknowledgements (note_server_tid r rep) = duplicate_acknowledgements rep"
  "datagrams_dropped (note_server_tid r rep) = datagrams_dropped rep"
  "datagrams_corrupted (note_server_tid r rep) = datagrams_corrupted rep"
  "datagrams_injected (note_server_tid r rep) = datagrams_injected rep"
  "stray_tid_replies (note_server_tid r rep) = stray_tid_replies rep"
  "stray_tid_reply_was_error_5 (note_server_tid r rep) = stray_tid_reply_was_error_5 rep"
  "server_selected_fresh_tid (note_server_tid r rep) = server_selected_fresh_tid rep"
  "request_destination_tid (note_server_tid r rep) = request_destination_tid rep"
  "highest_block_number (note_server_tid r rep) = highest_block_number rep"
  "block_number_wrapped (note_server_tid r rep) = block_number_wrapped rep"
  "total_records (note_server_tid r rep) = total_records rep"
  by (simp_all add: note_server_tid_def Let_def)

lemma count_stray_reply_frame [simp]:
  "data_packets_sent (count_stray_reply r rep) = data_packets_sent rep"
  "distinct_data_blocks (count_stray_reply r rep) = distinct_data_blocks rep"
  "retransmitted_data_packets (count_stray_reply r rep) = retransmitted_data_packets rep"
  "final_data_block_length (count_stray_reply r rep) = final_data_block_length rep"
  "terminating_short_block_present (count_stray_reply r rep) = terminating_short_block_present rep"
  "acknowledgements_sent (count_stray_reply r rep) = acknowledgements_sent rep"
  "duplicate_acknowledgements (count_stray_reply r rep) = duplicate_acknowledgements rep"
  "datagrams_dropped (count_stray_reply r rep) = datagrams_dropped rep"
  "datagrams_corrupted (count_stray_reply r rep) = datagrams_corrupted rep"
  "datagrams_injected (count_stray_reply r rep) = datagrams_injected rep"
  "server_selected_fresh_tid (count_stray_reply r rep) = server_selected_fresh_tid rep"
  "request_destination_tid (count_stray_reply r rep) = request_destination_tid rep"
  "server_source_tid (count_stray_reply r rep) = server_source_tid rep"
  "highest_block_number (count_stray_reply r rep) = highest_block_number rep"
  "block_number_wrapped (count_stray_reply r rep) = block_number_wrapped rep"
  "total_records (count_stray_reply r rep) = total_records rep"
  by (simp_all add: count_stray_reply_def Let_def)

lemma note_request_frame [simp]:
  "data_packets_sent (report (note_request r s)) = data_packets_sent (report s)"
  "distinct_data_blocks (report (note_request r s)) = distinct_data_blocks (report s)"
  "retransmitted_data_packets (report (note_request r s)) = retransmitted_data_packets (report s)"
  "final_data_block_length (report (note_request r s)) = final_data_block_length (report s)"
  "terminating_short_block_present (report (note_request r s)) = terminating_short_block_present (report s)"
  "acknowledgements_sent (report (note_request r s)) = acknowledgements_sent (report s)"
  "duplicate_acknowledgements (report (note_request r s)) = duplicate_acknowledgements (report s)"
  "datagrams_dropped (report (note_request r s)) = datagrams_dropped (report s)"
  "datagrams_corrupted (report (note_request r s)) = datagrams_corrupted (report s)"
  "datagrams_injected (report (note_request r s)) = datagrams_injected (report s)"
  "stray_tid_replies (report (note_request r s)) = stray_tid_replies (report s)"
  "stray_tid_reply_was_error_5 (report (note_request r s)) = stray_tid_reply_was_error_5 (report s)"
  "server_selected_fresh_tid (report (note_request r s)) = server_selected_fresh_tid (report s)"
  "server_source_tid (report (note_request r s)) = server_source_tid (report s)"
  "highest_block_number (report (note_request r s)) = highest_block_number (report s)"
  "block_number_wrapped (report (note_request r s)) = block_number_wrapped (report s)"
  "total_records (report (note_request r s)) = total_records (report s)"
  "distinct_blocks (note_request r s) = distinct_blocks s"
  "last_data_length (note_request r s) = last_data_length s"
  "have_data (note_request r s) = have_data s"
  "previous_block_for_wrap (note_request r s) = previous_block_for_wrap s"
  "have_previous_block (note_request r s) = have_previous_block s"
  "highest_ack (note_request r s) = highest_ack s"
  "have_ack (note_request r s) = have_ack s"
  by (simp_all add: note_request_def Let_def)

lemma account_data_frame [simp]:
  "distinct_data_blocks (report (account_data ctx r s)) = distinct_data_blocks (report s)"
  "retransmitted_data_packets (report (account_data ctx r s)) = retransmitted_data_packets (report s)"
  "final_data_block_length (report (account_data ctx r s)) = final_data_block_length (report s)"
  "acknowledgements_sent (report (account_data ctx r s)) = acknowledgements_sent (report s)"
  "duplicate_acknowledgements (report (account_data ctx r s)) = duplicate_acknowledgements (report s)"
  "datagrams_dropped (report (account_data ctx r s)) = datagrams_dropped (report s)"
  "datagrams_corrupted (report (account_data ctx r s)) = datagrams_corrupted (report s)"
  "datagrams_injected (report (account_data ctx r s)) = datagrams_injected (report s)"
  "stray_tid_replies (report (account_data ctx r s)) = stray_tid_replies (report s)"
  "stray_tid_reply_was_error_5 (report (account_data ctx r s)) = stray_tid_reply_was_error_5 (report s)"
  "server_selected_fresh_tid (report (account_data ctx r s)) = server_selected_fresh_tid (report s)"
  "request_destination_tid (report (account_data ctx r s)) = request_destination_tid (report s)"
  "server_source_tid (report (account_data ctx r s)) = server_source_tid (report s)"
  "total_records (report (account_data ctx r s)) = total_records (report s)"
  "highest_ack (account_data ctx r s) = highest_ack s"
  "have_ack (account_data ctx r s) = have_ack s"
  "found_request (account_data ctx r s) = found_request s"
  by (simp_all add: account_data_def Let_def)

lemma account_ack_frame [simp]:
  "data_packets_sent (report (account_ack ctx r s)) = data_packets_sent (report s)"
  "distinct_data_blocks (report (account_ack ctx r s)) = distinct_data_blocks (report s)"
  "retransmitted_data_packets (report (account_ack ctx r s)) = retransmitted_data_packets (report s)"
  "final_data_block_length (report (account_ack ctx r s)) = final_data_block_length (report s)"
  "terminating_short_block_present (report (account_ack ctx r s)) = terminating_short_block_present (report s)"
  "datagrams_dropped (report (account_ack ctx r s)) = datagrams_dropped (report s)"
  "datagrams_corrupted (report (account_ack ctx r s)) = datagrams_corrupted (report s)"
  "datagrams_injected (report (account_ack ctx r s)) = datagrams_injected (report s)"
  "stray_tid_replies (report (account_ack ctx r s)) = stray_tid_replies (report s)"
  "stray_tid_reply_was_error_5 (report (account_ack ctx r s)) = stray_tid_reply_was_error_5 (report s)"
  "server_selected_fresh_tid (report (account_ack ctx r s)) = server_selected_fresh_tid (report s)"
  "request_destination_tid (report (account_ack ctx r s)) = request_destination_tid (report s)"
  "server_source_tid (report (account_ack ctx r s)) = server_source_tid (report s)"
  "highest_block_number (report (account_ack ctx r s)) = highest_block_number (report s)"
  "block_number_wrapped (report (account_ack ctx r s)) = block_number_wrapped (report s)"
  "total_records (report (account_ack ctx r s)) = total_records (report s)"
  "distinct_blocks (account_ack ctx r s) = distinct_blocks s"
  "last_data_length (account_ack ctx r s) = last_data_length s"
  "have_data (account_ack ctx r s) = have_data s"
  "previous_block_for_wrap (account_ack ctx r s) = previous_block_for_wrap s"
  "have_previous_block (account_ack ctx r s) = have_previous_block s"
  "found_request (account_ack ctx r s) = found_request s"
  by (simp_all add: account_ack_def Let_def)

lemma observe_record_data:
  "data_packets_sent (report (observe_record ctx r s)) =
     data_packets_sent (report s) + (if data_send ctx r then 1 else 0)"
  "distinct_blocks (observe_record ctx r s) =
     (if data_send ctx r then insert (block_of r) (distinct_blocks s) else distinct_blocks s)"
  "last_data_length (observe_record ctx r s) =
     (if data_send ctx r then data_length r else last_data_length s)"
  "have_data (observe_record ctx r s) \<longleftrightarrow> data_send ctx r \<or> have_data s"
  "have_previous_block (observe_record ctx r s) \<longleftrightarrow> data_send ctx r \<or> have_previous_block s"
  "previous_block_for_wrap (observe_record ctx r s) =
     (if data_send ctx r then block_of r else previous_block_for_wrap s)"
  "highest_block_number (report (observe_record ctx r s)) =
     (if data_send ctx r then max (highest_block_number (report s)) (block_of r)
      else highest_block_number (report s))"
  "block_number_wrapped (report (observe_record ctx r s)) \<longleftrightarrow>
     data_send ctx r \<and> have_previous_block s \<and> previous_block_for_wrap s = 0xFFFF \<and> block_of r < 100 \<or>
     block_number_wrapped (report s)"
  "terminating_short_block_present (report (observe_record ctx r s)) \<longleftrightarrow>
     data_send ctx r \<and> data_length r < unat (context_block_size ctx) \<or>
     terminating_short_block_present (report s)"
  by (simp_all add: observe_record_def Let_def account_data_def flip: data_send_def) auto

lemma observe_record_ack:
  "acknowledgements_sent (report (observe_record ctx r s)) =
     acknowledgements_sent (report s) + (if ack_send ctx r then 1 else 0)"
  "duplicate_acknowledgements (report (observe_record ctx r s)) =
     duplicate_acknowledgements (report s) +
       (if ack_send ctx r \<and> have_ack s \<and> block_of r = highest_ack s then 1 else 0)"
  "have_ack (observe_record ctx r s) \<longleftrightarrow> ack_send ctx r \<or> have_ack s"
  "highest_ack (observe_record ctx r s) =
     (if ack_send ctx r \<and> (\<not> have_ack s \<or> block_of r > highest_ack s) then block_of r else highest_ack s)"
  by (simp_all add: observe_record_def Let_def account_ack_def flip: ack_send_def)

lemma observe_record_other:
  "found_request (observe_record ctx r s) \<longleftrightarrow> request_send r \<or> found_request s"
  "request_destination_tid (report (observe_record ctx r s)) =
     (if request_send r \<and> \<not> found_request s then destination_tid r
      else request_destination_tid (report s))"
  "server_source_tid (report (observe_record ctx r s)) =
     (if server_reply r \<and> server_source_tid (report s) = 0 then source_tid r
      else server_source_tid (report s))"
  "stray_tid_replies (report (observe_record ctx r s)) =
     stray_tid_replies (report s) + (if stray_reply r then 1 else 0)"
  "stray_tid_reply_was_error_5 (report (observe_record ctx r s)) \<longleftrightarrow>
     stray_reply r \<and> is_error r \<and> error_code (record_packet r) = UnknownTransferId \<or>
     stray_tid_reply_was_error_5 (report s)"
  "datagrams_dropped (report (observe_record ctx r s)) =
     datagrams_dropped (report s) + (if disposition r = Dropped then 1 else 0)"
  "datagrams_corrupted (report (observe_record ctx r s)) =
     datagrams_corrupted (report s) + (if disposition r = Corrupted then 1 else 0)"
  "datagrams_injected (report (observe_record ctx r s)) =
     datagrams_injected (report s) + (if disposition r = Injected then 1 else 0)"
  "total_records (report (observe_record ctx r s)) = total_records (report s)"
  "final_data_block_length (report (observe_record ctx r s)) = final_data_block_length (report s)"
  by (auto simp: observe_record_def Let_def count_disposition_def note_request_def note_server_tid_def
      count_stray_reply_def request_send_def server_reply_def stray_reply_def is_error_def
      split: trace_disposition.splits)

section \<open>The walk computes counts over the whole trace\<close>

text \<open>
  \<open>positions P xs\<close> counts the elements of a list that satisfy \<open>P\<close> together with what precedes them.
\<close>

definition positions :: "('a list \<Rightarrow> 'a \<Rightarrow> bool) \<Rightarrow> 'a list \<Rightarrow> nat" where
  "positions P xs = length (filter (\<lambda>i. P (take i xs) (xs ! i)) [0..<length xs])"

lemma positions_Nil [simp]: "positions P [] = 0"
  by (simp add: positions_def)

lemma positions_snoc [simp]: "positions P (xs @ [x]) = positions P xs + (if P xs x then 1 else 0)"
proof -
  have "filter (\<lambda>i. P (take i (xs @ [x])) ((xs @ [x]) ! i)) [0..<length xs]
      = filter (\<lambda>i. P (take i xs) (xs ! i)) [0..<length xs]"
    by (intro filter_cong) (auto simp: nth_append)
  then show ?thesis by (simp add: positions_def)
qed

definition data_sends :: "observer_context \<Rightarrow> trace_record list \<Rightarrow> trace_record list" where
  "data_sends ctx rs = filter (data_send ctx) rs"

definition ack_sends :: "observer_context \<Rightarrow> trace_record list \<Rightarrow> trace_record list" where
  "ack_sends ctx rs = filter (ack_send ctx) rs"

definition repeats_highest :: "u16 list \<Rightarrow> u16 \<Rightarrow> bool" where
  "repeats_highest pre b \<longleftrightarrow> pre \<noteq> [] \<and> b = Max (set pre)"

definition wraps_after :: "u16 list \<Rightarrow> u16 \<Rightarrow> bool" where
  "wraps_after pre b \<longleftrightarrow> pre \<noteq> [] \<and> last pre = 0xFFFF \<and> b < 100"

definition first_tid :: "u16 list \<Rightarrow> u16" where
  "first_tid tids = (case filter (\<lambda>t. t \<noteq> 0) tids of [] \<Rightarrow> 0 | t # _ \<Rightarrow> t)"

lemma first_tid_Nil [simp]: "first_tid [] = 0"
  by (simp add: first_tid_def)

lemma first_tid_snoc [simp]:
  "first_tid (ts @ [t]) = (if first_tid ts = 0 then t else first_tid ts)"
proof (cases "filter (\<lambda>t. t \<noteq> 0) ts")
  case (Cons u us)
  then have "u \<in> set (filter (\<lambda>t. t \<noteq> 0) ts)" by simp
  then have "u \<noteq> 0" by simp
  then show ?thesis using Cons by (simp add: first_tid_def)
qed (simp add: first_tid_def)

abbreviation walk :: "observer_context \<Rightarrow> nat \<Rightarrow> trace_record list \<Rightarrow> observer_state" where
  "walk ctx n rs \<equiv> fold (observe_record ctx) rs (initial_observer_state n)"

lemma walk_start [simp]:
  "report (initial_observer_state n) = empty_report\<lparr>total_records := word_of_nat n\<rparr>"
  "distinct_blocks (initial_observer_state n) = {}" "last_data_length (initial_observer_state n) = 0"
  "\<not> have_data (initial_observer_state n)" "\<not> have_previous_block (initial_observer_state n)"
  "previous_block_for_wrap (initial_observer_state n) = 0" "\<not> have_ack (initial_observer_state n)"
  "highest_ack (initial_observer_state n) = 0" "\<not> found_request (initial_observer_state n)"
  by (simp_all add: initial_observer_state_def)

lemma walk_data:
  "data_packets_sent (report (walk ctx n rs)) = word_of_nat (length (data_sends ctx rs))"
  "distinct_blocks (walk ctx n rs) = block_of ` set (data_sends ctx rs)"
  "have_data (walk ctx n rs) \<longleftrightarrow> data_sends ctx rs \<noteq> []"
  "have_previous_block (walk ctx n rs) \<longleftrightarrow> data_sends ctx rs \<noteq> []"
  "last_data_length (walk ctx n rs) =
     (if data_sends ctx rs = [] then 0 else data_length (last (data_sends ctx rs)))"
  "previous_block_for_wrap (walk ctx n rs) =
     (if data_sends ctx rs = [] then 0 else block_of (last (data_sends ctx rs)))"
  "highest_block_number (report (walk ctx n rs)) = Max (insert 0 (block_of ` set (data_sends ctx rs)))"
  "terminating_short_block_present (report (walk ctx n rs)) \<longleftrightarrow>
     (\<exists>r \<in> set (data_sends ctx rs). data_length r < unat (context_block_size ctx))"
proof (induction rs rule: rev_induct)
  case (snoc r rs)
  { case 1 then show ?case using snoc by (simp add: data_sends_def observe_record_data) }
  { case 2 then show ?case using snoc by (simp add: data_sends_def observe_record_data) }
  { case 3 then show ?case using snoc by (simp add: data_sends_def observe_record_data) }
  { case 4 then show ?case using snoc by (simp add: data_sends_def observe_record_data) }
  { case 5 then show ?case using snoc by (simp add: data_sends_def observe_record_data) }
  { case 6 then show ?case using snoc by (simp add: data_sends_def observe_record_data) }
  { case 7 then show ?case using snoc
      by (simp add: data_sends_def observe_record_data insert_commute [of 0] max.commute) }
  { case 8 then show ?case using snoc by (auto simp add: data_sends_def observe_record_data) }
qed (simp_all add: data_sends_def empty_report_def)

lemma walk_wrapped:
  "block_number_wrapped (report (walk ctx n rs)) \<longleftrightarrow>
     positions wraps_after (map block_of (data_sends ctx rs)) > 0"
proof (induction rs rule: rev_induct)
  case (snoc r rs)
  have m: "map block_of (data_sends ctx (rs @ [r])) =
      map block_of (data_sends ctx rs) @ (if data_send ctx r then [block_of r] else [])"
    by (simp add: data_sends_def)
  show ?case using snoc walk_data [of ctx rs n] unfolding m
    by (simp add: observe_record_data wraps_after_def last_map) auto
qed (simp add: data_sends_def empty_report_def)

lemma Max_insert_zero: "finite S \<Longrightarrow> Max (insert 0 (insert b S)) = max b (Max (insert (0 :: u16) S))"
  by (subst insert_commute) simp

lemma walk_ack:
  "acknowledgements_sent (report (walk ctx n rs)) = word_of_nat (length (ack_sends ctx rs))"
  "have_ack (walk ctx n rs) \<longleftrightarrow> ack_sends ctx rs \<noteq> []"
  "highest_ack (walk ctx n rs) = Max (insert 0 (block_of ` set (ack_sends ctx rs)))"
proof (induction rs rule: rev_induct)
  case (snoc r rs)
  { case 1 then show ?case using snoc by (simp add: ack_sends_def observe_record_ack) }
  { case 2 then show ?case using snoc by (simp add: ack_sends_def observe_record_ack) }
  { case 3 then show ?case
    proof (cases "ack_sends ctx rs = []")
      case True
      then show ?thesis using snoc by (auto simp add: ack_sends_def observe_record_ack max_def)
    next
      case False
      then have "highest_ack (observe_record ctx r (walk ctx n rs)) =
          (if ack_send ctx r then max (block_of r) (highest_ack (walk ctx n rs))
           else highest_ack (walk ctx n rs))"
        using snoc(2) by (auto simp: observe_record_ack max_def)
      then show ?thesis using snoc(3) by (simp add: ack_sends_def Max_insert_zero del: Max_insert)
    qed }
qed (simp_all add: ack_sends_def empty_report_def)

lemma walk_duplicates:
  "duplicate_acknowledgements (report (walk ctx n rs)) =
     word_of_nat (positions repeats_highest (map block_of (ack_sends ctx rs)))"
proof (induction rs rule: rev_induct)
  case (snoc r rs)
  have m: "map block_of (ack_sends ctx (rs @ [r])) =
      map block_of (ack_sends ctx rs) @ (if ack_send ctx r then [block_of r] else [])"
    by (simp add: ack_sends_def)
  have "Max (insert 0 (block_of ` set (ack_sends ctx rs))) = Max (set (map block_of (ack_sends ctx rs)))"
    if "ack_sends ctx rs \<noteq> []" using that by (subst Max_insert) simp_all
  then show ?case using snoc walk_ack [of ctx rs n] unfolding m
    by (auto simp add: observe_record_ack repeats_highest_def)
qed (simp add: ack_sends_def empty_report_def)

lemma walk_other:
  "found_request (walk ctx n rs) \<longleftrightarrow> filter request_send rs \<noteq> []"
  "request_destination_tid (report (walk ctx n rs)) =
     (case filter request_send rs of [] \<Rightarrow> 0 | r # _ \<Rightarrow> destination_tid r)"
  "server_source_tid (report (walk ctx n rs)) = first_tid (map source_tid (filter server_reply rs))"
  "stray_tid_replies (report (walk ctx n rs)) = word_of_nat (length (filter stray_reply rs))"
  "stray_tid_reply_was_error_5 (report (walk ctx n rs)) \<longleftrightarrow>
     (\<exists>r \<in> set rs. stray_reply r \<and> is_error r \<and> error_code (record_packet r) = UnknownTransferId)"
  "datagrams_dropped (report (walk ctx n rs)) = word_of_nat (length (filter (\<lambda>r. disposition r = Dropped) rs))"
  "datagrams_corrupted (report (walk ctx n rs)) = word_of_nat (length (filter (\<lambda>r. disposition r = Corrupted) rs))"
  "datagrams_injected (report (walk ctx n rs)) = word_of_nat (length (filter (\<lambda>r. disposition r = Injected) rs))"
  "total_records (report (walk ctx n rs)) = word_of_nat n"
  "final_data_block_length (report (walk ctx n rs)) = 0"
proof (induction rs rule: rev_induct)
  case (snoc r rs)
  { case 1 then show ?case using snoc by (simp add: observe_record_other) }
  { case 2 then show ?case using snoc by (simp add: observe_record_other split: list.splits) }
  { case 3 then show ?case using snoc by (simp add: observe_record_other) }
  { case 4 then show ?case using snoc by (simp add: observe_record_other) }
  { case 5 then show ?case using snoc by (auto simp add: observe_record_other) }
  { case 6 then show ?case using snoc by (simp add: observe_record_other) }
  { case 7 then show ?case using snoc by (simp add: observe_record_other) }
  { case 8 then show ?case using snoc by (simp add: observe_record_other) }
  { case 9 then show ?case using snoc by (simp add: observe_record_other) }
  { case 10 then show ?case using snoc by (simp add: observe_record_other) }
qed (simp_all add: empty_report_def)

lemma observed_retransmissions:
  "retransmitted_data_packets (observe trace ctx) =
     word_of_nat (length (data_sends ctx (trace_records trace)) -
       card (block_of ` set (data_sends ctx (trace_records trace))))"
proof -
  have "card (block_of ` set (data_sends ctx (trace_records trace))) \<le> length (data_sends ctx (trace_records trace))"
    by (metis card_length length_map list.set_map)
  then show ?thesis by (simp add: observe_def finish_report_def Let_def walk_data of_nat_diff)
qed

text \<open>
  C25. The observer's single pass computes what its report says, as counts over the whole trace: DATA
  and ACK datagrams sent in their directions (injected ones excluded), distinct block numbers and
  the surplus as retransmissions, the length of the last DATA, a short DATA exactly if one was sent,
  a repeat of the highest ACK so far for each duplicate, 65535 followed by a block below 100 for a
  wrap, one count per disposition, and a fresh server TID exactly if the first non-zero source of a
  DATA or OACK differs from the destination of the first request.
\<close>
theorem observer_counts_exactly:
  "let rs = trace_records trace; D = data_sends ctx rs; A = ack_sends ctx rs; rep = observe trace ctx;
       requests = filter request_send rs; tid = first_tid (map source_tid (filter server_reply rs)) in
   data_packets_sent rep = word_of_nat (length D) \<and>
   distinct_data_blocks rep = word_of_nat (card (block_of ` set D)) \<and>
   retransmitted_data_packets rep = word_of_nat (length D - card (block_of ` set D)) \<and>
   final_data_block_length rep = (if D = [] then 0 else data_length (last D)) \<and>
   terminating_short_block_present rep = (\<exists>r \<in> set D. data_length r < unat (context_block_size ctx)) \<and>
   highest_block_number rep = Max (insert 0 (block_of ` set D)) \<and>
   block_number_wrapped rep = (0 < positions wraps_after (map block_of D)) \<and>
   acknowledgements_sent rep = word_of_nat (length A) \<and>
   duplicate_acknowledgements rep = word_of_nat (positions repeats_highest (map block_of A)) \<and>
   datagrams_dropped rep = word_of_nat (length (filter (\<lambda>r. disposition r = Dropped) rs)) \<and>
   datagrams_corrupted rep = word_of_nat (length (filter (\<lambda>r. disposition r = Corrupted) rs)) \<and>
   datagrams_injected rep = word_of_nat (length (filter (\<lambda>r. disposition r = Injected) rs)) \<and>
   stray_tid_replies rep = word_of_nat (length (filter stray_reply rs)) \<and>
   stray_tid_reply_was_error_5 rep =
     (\<exists>r \<in> set rs. stray_reply r \<and> is_error r \<and> error_code (record_packet r) = UnknownTransferId) \<and>
   server_selected_fresh_tid rep =
     (requests \<noteq> [] \<and> tid \<noteq> 0 \<and> tid \<noteq> destination_tid (hd requests)) \<and>
   total_records rep = word_of_nat (length rs)"
proof -
  let ?rs = "trace_records trace" let ?w = "walk ctx (length (trace_records trace)) (trace_records trace)"
  have fresh: "server_selected_fresh_tid (finish_report ?w) \<longleftrightarrow>
      filter request_send ?rs \<noteq> [] \<and> first_tid (map source_tid (filter server_reply ?rs)) \<noteq> 0 \<and>
      first_tid (map source_tid (filter server_reply ?rs)) \<noteq> destination_tid (hd (filter request_send ?rs))"
    by (simp add: finish_report_def Let_def walk_other split: list.splits)
  show ?thesis
    unfolding Let_def observed_retransmissions unfolding observe_def fresh
    by (simp add: finish_report_def Let_def walk_data walk_wrapped walk_ack walk_duplicates walk_other
        del: Max_insert)
qed

text \<open>
  The observer tells blocks apart by their 16-bit wire number only: a sender that sends more than
  \<open>2 ^ 16\<close> blocks, each exactly once, is reported as having retransmitted all blocks beyond those.
\<close>
lemma long_transfer_reported_as_retransmitting:
  assumes "map block_of (data_sends ctx (trace_records trace)) = map (\<lambda>i. word_of_nat (Suc i)) [0..<n]"
    and "2 ^ 16 < n" and "n < 2 ^ 32"
  shows "n \<le> 2 ^ 16 + unat (retransmitted_data_packets (observe trace ctx))"
proof -
  let ?D = "data_sends ctx (trace_records trace)"
  have n: "length ?D = n" using arg_cong [OF assms(1), of length] by simp
  have "card (block_of ` set ?D) \<le> card (UNIV :: u16 set)" by (intro card_mono) simp_all
  then have c: "card (block_of ` set ?D) \<le> 2 ^ 16" by (simp add: card_word)
  have "retransmitted_data_packets (observe trace ctx) = word_of_nat (n - card (block_of ` set ?D))"
    by (simp add: observed_retransmissions n)
  then show ?thesis using c assms(3) by (simp add: unat_of_nat)
qed

definition numbered_data :: "nat \<Rightarrow> trace_record" where
  "numbered_data i = empty_record\<lparr>record_direction := ServerToClient, parseable := True,
     record_packet := empty_packet\<lparr>opcode := Data, block_number := word_of_nat (Suc i), packet_data := [1]\<rparr>\<rparr>"

definition download_context :: observer_context where
  "download_context =
     \<lparr>context_direction = Download, context_block_size = 1, transfer_reported_complete = True\<rparr>"

lemma numbered_data_sends:
  "data_sends download_context (map numbered_data xs) = map numbered_data xs"
  by (simp add: data_sends_def filter_map o_def data_send_def download_context_def numbered_data_def
      data_direction_def is_peer_send_def is_data_def empty_record_def)

lemma long_transfer_reported_as_retransmitting_witness:
  "1 \<le> unat (retransmitted_data_packets
     (observe \<lparr>trace_seed = 0, trace_records = map numbered_data [0..<65537]\<rparr> download_context))"
proof -
  let ?t = "\<lparr>trace_seed = 0, trace_records = map numbered_data [0..<65537]\<rparr>"
  have "map block_of (data_sends download_context (trace_records ?t)) =
      map (\<lambda>i. word_of_nat (Suc i)) [0..<65537]"
    by (simp add: numbered_data_sends del: upt_Suc) (simp add: numbered_data_def)
  from long_transfer_reported_as_retransmitting [OF this] show ?thesis by simp
qed

end
