(* ===== verification/Sha256.thy ===== *)
theory Sha256
  imports Prelude "HOL-Library.Monad_Syntax"
begin

unbundle bit_operations_syntax

text \<open>
  \<open>src/src/verify/sha256.{hpp,cpp}\<close>: the vendored SHA-256 behind the content oracle. The object is a
  record of its four members; \<open>update\<close> and the padding loop of \<open>finalize\<close> have no bound in the code
  (a full buffer would make \<open>take\<close> 0), so they are partial functions in the option monad, and
  \<open>sha256_implements_fips\<close> shows that they always return and compute the digest of the padded message,
  block by block.
\<close>

section \<open>The compression function\<close>

definition rotate_right :: "u32 \<Rightarrow> nat \<Rightarrow> u32" where
  "rotate_right v n = drop_bit n v OR push_bit (32 - n) v"

definition kRoundConstants :: "u32 list" where
  "kRoundConstants =
     [0x428a2f98, 0x71374491, 0xb5c0fbcf, 0xe9b5dba5, 0x3956c25b, 0x59f111f1] @
     [0x923f82a4, 0xab1c5ed5, 0xd807aa98, 0x12835b01, 0x243185be, 0x550c7dc3] @
     [0x72be5d74, 0x80deb1fe, 0x9bdc06a7, 0xc19bf174, 0xe49b69c1, 0xefbe4786] @
     [0x0fc19dc6, 0x240ca1cc, 0x2de92c6f, 0x4a7484aa, 0x5cb0a9dc, 0x76f988da] @
     [0x983e5152, 0xa831c66d, 0xb00327c8, 0xbf597fc7, 0xc6e00bf3, 0xd5a79147] @
     [0x06ca6351, 0x14292967, 0x27b70a85, 0x2e1b2138, 0x4d2c6dfc, 0x53380d13] @
     [0x650a7354, 0x766a0abb, 0x81c2c92e, 0x92722c85, 0xa2bfe8a1, 0xa81a664b] @
     [0xc24b8b70, 0xc76c51a3, 0xd192e819, 0xd6990624, 0xf40e3585, 0x106aa070] @
     [0x19a4c116, 0x1e376c08, 0x2748774c, 0x34b0bcb5, 0x391c0cb3, 0x4ed8aa4a] @
     [0x5b9cca4f, 0x682e6ff3, 0x748f82ee, 0x78a5636f, 0x84c87814, 0x8cc70208] @
     [0x90befffa, 0xa4506ceb, 0xbef9a3f7, 0xc67178f2]"

definition block_word :: "bytes \<Rightarrow> nat \<Rightarrow> u32" where
  "block_word block i =
     push_bit 24 (ucast (block ! (i * 4))) OR push_bit 16 (ucast (block ! (i * 4 + 1))) OR
     push_bit 8 (ucast (block ! (i * 4 + 2))) OR ucast (block ! (i * 4 + 3))"

definition schedule_word :: "u32 list \<Rightarrow> nat \<Rightarrow> u32" where
  "schedule_word words i =
     (let s0 = rotate_right (words ! (i - 15)) 7 XOR rotate_right (words ! (i - 15)) 18 XOR
               drop_bit 3 (words ! (i - 15));
          s1 = rotate_right (words ! (i - 2)) 17 XOR rotate_right (words ! (i - 2)) 19 XOR
               drop_bit 10 (words ! (i - 2))
      in words ! (i - 16) + s0 + words ! (i - 7) + s1)"

definition message_schedule :: "bytes \<Rightarrow> u32 list" where
  "message_schedule block =
     fold (\<lambda>i words. words @ [schedule_word words i]) [16..<64] (map (block_word block) [0..<16])"

type_synonym round_vars = "u32 \<times> u32 \<times> u32 \<times> u32 \<times> u32 \<times> u32 \<times> u32 \<times> u32"

fun sha_round :: "u32 list \<Rightarrow> nat \<Rightarrow> round_vars \<Rightarrow> round_vars" where
  "sha_round words i (a, b, c, d, e, f, g, h) =
     (let big_s1 = rotate_right e 6 XOR rotate_right e 11 XOR rotate_right e 25;
          chosen = (e AND f) XOR (NOT e AND g);
          temp1 = h + big_s1 + chosen + kRoundConstants ! i + words ! i;
          big_s0 = rotate_right a 2 XOR rotate_right a 13 XOR rotate_right a 22;
          majority = (a AND b) XOR (a AND c) XOR (b AND c);
          temp2 = big_s0 + majority
      in (temp1 + temp2, a, b, c, d + temp1, e, f, g))"

definition compress :: "u32 list \<Rightarrow> bytes \<Rightarrow> u32 list" where
  "compress st block =
     (let words = message_schedule block;
          (a, b, c, d, e, f, g, h) =
            fold (sha_round words) [0..<64]
              (st ! 0, st ! 1, st ! 2, st ! 3, st ! 4, st ! 5, st ! 6, st ! 7)
      in [st ! 0 + a, st ! 1 + b, st ! 2 + c, st ! 3 + d,
          st ! 4 + e, st ! 5 + f, st ! 6 + g, st ! 7 + h])"

section \<open>The object\<close>

record sha256 =
  sha_state :: "u32 list"
  sha_buffer :: bytes
  total_length :: u64
  buffer_length :: nat

definition initial_hash :: "u32 list" where
  "initial_hash = [0x6a09e667, 0xbb67ae85, 0x3c6ef372, 0xa54ff53a,
                   0x510e527f, 0x9b05688c, 0x1f83d9ab, 0x5be0cd19]"

definition sha_reset :: "sha256 \<Rightarrow> sha256" where
  "sha_reset s = s\<lparr>sha_state := initial_hash, total_length := 0, buffer_length := 0\<rparr>"

definition new_sha256 :: sha256 where
  "new_sha256 = sha_reset
     \<lparr>sha_state = replicate 8 0, sha_buffer = replicate 64 0, total_length = 0, buffer_length = 0\<rparr>"

definition process_block :: "bytes \<Rightarrow> sha256 \<Rightarrow> sha256" where
  "process_block block s = s\<lparr>sha_state := compress (sha_state s) block\<rparr>"

partial_function (option) update_loop :: "bytes \<Rightarrow> sha256 \<Rightarrow> sha256 option" where
  "update_loop data s =
     (if data = [] then Some s
      else let n = min (64 - buffer_length s) (length data);
               buffer = take (buffer_length s) (sha_buffer s) @ take n data @
                        drop (buffer_length s + n) (sha_buffer s);
               s = s\<lparr>sha_buffer := buffer, buffer_length := buffer_length s + n\<rparr>;
               s = (if buffer_length s = 64
                    then (process_block (sha_buffer s) s)\<lparr>buffer_length := 0\<rparr> else s)
           in update_loop (drop n data) s)"

definition sha_update :: "bytes \<Rightarrow> sha256 \<Rightarrow> sha256 option" where
  "sha_update data s =
     update_loop data (s\<lparr>total_length := total_length s + word_of_nat (length data)\<rparr>)"

partial_function (option) pad_loop :: "sha256 \<Rightarrow> sha256 option" where
  "pad_loop s =
     (if buffer_length s \<noteq> 56 then do { s \<leftarrow> sha_update [0] s; pad_loop s } else Some s)"

declare update_loop.simps [code] pad_loop.simps [code]

definition length_bytes :: "u64 \<Rightarrow> bytes" where
  "length_bytes bit_length =
     map (\<lambda>i. ucast (drop_bit (56 - i * 8) bit_length AND 0xFF)) [0..<8]"

definition digest_bytes :: "u32 list \<Rightarrow> bytes" where
  "digest_bytes st =
     concat (map (\<lambda>i. [ucast (drop_bit 24 (st ! i) AND 0xFF), ucast (drop_bit 16 (st ! i) AND 0xFF),
                       ucast (drop_bit 8 (st ! i) AND 0xFF), ucast (st ! i AND 0xFF)]) [0..<8])"

definition finalize :: "sha256 \<Rightarrow> bytes option" where
  "finalize s =
     (let bit_length = total_length s * 8
      in do {
           s \<leftarrow> sha_update [0x80] s;
           s \<leftarrow> pad_loop s;
           s \<leftarrow> sha_update (length_bytes bit_length) s;
           Some (digest_bytes (sha_state s))
         })"

definition sha256_digest :: "bytes \<Rightarrow> bytes option" where
  "sha256_digest data = do { s \<leftarrow> sha_update data new_sha256; finalize s }"

definition to_hex :: "bytes \<Rightarrow> string" where
  "to_hex digest =
     concat (map (\<lambda>b. [hex_char (unat (drop_bit 4 b)), hex_char (unat (b AND 0x0F))]) digest)"

definition sha256_hex :: "bytes \<Rightarrow> string option" where
  "sha256_hex data = map_option to_hex (sha256_digest data)"

section \<open>The message, block by block\<close>

text \<open>FIPS 180-4: fold the compression function over the whole 64-byte blocks of a message.\<close>

function hash_blocks :: "u32 list \<Rightarrow> bytes \<Rightarrow> u32 list" where
  "hash_blocks h m = (if length m < 64 then h else hash_blocks (compress h (take 64 m)) (drop 64 m))"
  by pat_completeness auto
termination by (relation "measure (\<lambda>(h, m). length m)") auto

declare hash_blocks.simps [simp del]

text \<open>The number of zero bytes that bring a message of which \<open>r\<close> bytes are in the last block to 56.\<close>

definition zeros_to_56 :: "nat \<Rightarrow> nat" where
  "zeros_to_56 r = (if r \<le> 56 then 56 - r else 120 - r)"

definition padded_message :: "bytes \<Rightarrow> bytes" where
  "padded_message m =
     m @ [0x80] @ replicate (zeros_to_56 ((length m + 1) mod 64)) 0 @
     length_bytes (word_of_nat (length m) * 8)"

definition fips_digest :: "bytes \<Rightarrow> bytes" where
  "fips_digest m = digest_bytes (hash_blocks initial_hash (padded_message m))"

lemma hash_blocks_short [simp]: "length m < 64 \<Longrightarrow> hash_blocks h m = h"
  by (simp add: hash_blocks.simps)

lemma hash_blocks_append:
  "length m mod 64 = 0 \<Longrightarrow> hash_blocks h (m @ b) = hash_blocks (hash_blocks h m) b"
proof (induction h m rule: hash_blocks.induct)
  case (1 h m)
  show ?case
  proof (cases "length m < 64")
    case True
    then show ?thesis using "1.prems" by simp
  next
    case False
    then have "length (drop 64 m) mod 64 = 0" using "1.prems" by (simp add: le_mod_geq)
    then show ?thesis
      using "1.IH" False by (simp add: hash_blocks.simps [of h "m @ b"] hash_blocks.simps [of h m])
  qed
qed

lemma hash_blocks_one: "length b = 64 \<Longrightarrow> hash_blocks h b = compress h b"
  by (simp add: hash_blocks.simps [of h b])

section \<open>The object refines the message\<close>

text \<open>
  The abstraction: an object stands for the bytes \<open>m\<close> fed so far. Their whole blocks are hashed, the
  rest is at the front of the buffer.
\<close>

definition whole_blocks :: "bytes \<Rightarrow> bytes" where
  "whole_blocks m = take (64 * (length m div 64)) m"

definition remainder :: "bytes \<Rightarrow> bytes" where
  "remainder m = drop (64 * (length m div 64)) m"

definition represents :: "sha256 \<Rightarrow> bytes \<Rightarrow> bool" where
  "represents s m \<longleftrightarrow>
     length (sha_buffer s) = 64 \<and> buffer_length s = length m mod 64 \<and>
     take (buffer_length s) (sha_buffer s) = remainder m \<and>
     sha_state s = hash_blocks initial_hash (whole_blocks m)"

lemma represents_new: "represents new_sha256 []"
  by (simp add: represents_def new_sha256_def sha_reset_def remainder_def whole_blocks_def)

lemma represents_total_length [simp]: "represents (s\<lparr>total_length := n\<rparr>) m = represents s m"
  by (simp add: represents_def)

lemma split_message: "whole_blocks m @ remainder m = m"
  by (simp add: whole_blocks_def remainder_def)

lemma length_remainder: "length (remainder m) = length m mod 64"
  by (simp add: remainder_def minus_mult_div_eq_mod)

lemma length_whole_blocks: "length (whole_blocks m) = 64 * (length m div 64)"
  by (simp add: whole_blocks_def)

lemma quotient_remainder_64:
  "r < 64 \<Longrightarrow> (64 * q + r) div 64 = q" "r < 64 \<Longrightarrow> (64 * q + r) mod 64 = (r :: nat)"
  by simp_all

text \<open>Appending at most what the buffer has room for either leaves a remainder or completes a block.\<close>

lemma append_partial:
  assumes "length m mod 64 + length d < 64"
  shows "whole_blocks (m @ d) = whole_blocks m" and "remainder (m @ d) = remainder m @ d"
    and "length (m @ d) mod 64 = length m mod 64 + length d"
proof -
  have l: "length (m @ d) = 64 * (length m div 64) + (length m mod 64 + length d)"
    using mult_div_mod_eq [of 64 "length m"] unfolding length_append by linarith
  have q: "length (m @ d) div 64 = length m div 64"
    unfolding l by (rule quotient_remainder_64(1) [OF assms])
  show "length (m @ d) mod 64 = length m mod 64 + length d"
    unfolding l by (rule quotient_remainder_64(2) [OF assms])
  have "64 * (length m div 64) - length m = 0" by simp
  then show "whole_blocks (m @ d) = whole_blocks m" "remainder (m @ d) = remainder m @ d"
    unfolding whole_blocks_def remainder_def q take_append drop_append by (simp_all only: take_0 drop_0 append_Nil2)
qed

lemma append_completing:
  assumes "length m mod 64 + length d = 64"
  shows "whole_blocks (m @ d) = m @ d" and "remainder (m @ d) = []" and "length (m @ d) mod 64 = 0"
    and "hash_blocks h (m @ d) = compress (hash_blocks h (whole_blocks m)) (remainder m @ d)"
proof -
  have l: "length (m @ d) = 64 * (length m div 64) + 64"
    using assms mult_div_mod_eq [of 64 "length m"] unfolding length_append by linarith
  have q: "64 * (length (m @ d) div 64) = length (m @ d)" unfolding l by simp
  show "length (m @ d) mod 64 = 0" unfolding l by simp
  show "whole_blocks (m @ d) = m @ d" "remainder (m @ d) = []"
    unfolding whole_blocks_def remainder_def q by (rule take_all, rule order_refl, rule drop_all, rule order_refl)
  have "hash_blocks h (m @ d) = hash_blocks h (whole_blocks m @ (remainder m @ d))"
    by (simp add: split_message flip: append_assoc)
  also have "\<dots> = compress (hash_blocks h (whole_blocks m)) (remainder m @ d)"
    using assms by (simp add: hash_blocks_append hash_blocks_one length_remainder length_whole_blocks)
  finally show "hash_blocks h (m @ d) = compress (hash_blocks h (whole_blocks m)) (remainder m @ d)" .
qed

lemma update_loop_represents:
  assumes "represents s m"
  shows "\<exists>s'. update_loop data s = Some s' \<and> represents s' (m @ data) \<and> total_length s' = total_length s"
  using assms
proof (induction "length data" arbitrary: data s m rule: less_induct)
  case less
  show ?case
  proof (cases "data = []")
    case True
    then show ?thesis using less.prems by (subst update_loop.simps) simp
  next
    case False
    let ?bl = "buffer_length s"
    define n where "n = min (64 - ?bl) (length data)"
    define b where "b = take ?bl (sha_buffer s) @ take n data @ drop (?bl + n) (sha_buffer s)"
    define s1 where "s1 = (if ?bl + n = 64
      then s\<lparr>sha_buffer := b, sha_state := compress (sha_state s) b, buffer_length := 0\<rparr>
      else s\<lparr>sha_buffer := b, buffer_length := ?bl + n\<rparr>)"
    have rep: "length (sha_buffer s) = 64" "?bl = length m mod 64"
      "take ?bl (sha_buffer s) = remainder m" "sha_state s = hash_blocks initial_hash (whole_blocks m)"
      using less.prems unfolding represents_def by blast+
    have "?bl < 64" using rep(2) by simp
    then have n: "0 < n" "n \<le> length data" "?bl + n \<le> 64" using False by (auto simp: n_def)
    have lb: "length b = 64" using n rep(1) by (simp add: b_def)
    have "length (remainder m) = ?bl" using length_remainder [of m] rep(2) by simp
    then have front: "take (?bl + n) b = remainder m @ take n data"
      using n rep(1,3) by (simp add: b_def)
    have "represents s1 (m @ take n data)"
    proof (cases "?bl + n = 64")
      case True
      then have full: "length m mod 64 + length (take n data) = 64" using n(2) rep(2) by simp
      have "b = remainder m @ take n data" using front lb True by simp
      then show ?thesis
        using append_completing [OF full] lb rep(4) True by (simp add: represents_def s1_def)
    next
      case False
      then have part: "length m mod 64 + length (take n data) < 64" using n(2,3) rep(2) by simp
      show ?thesis using append_partial [OF part] lb rep(2,4) front False n(2)
        by (simp add: represents_def s1_def)
    qed
    then obtain s' where s': "update_loop (drop n data) s1 = Some s'"
      "represents s' ((m @ take n data) @ drop n data)" "total_length s' = total_length s1"
      using less.hyps [of "drop n data" s1 "m @ take n data"] n(1,2) by fastforce
    have "update_loop data s = update_loop (drop n data) s1"
      using False by (subst update_loop.simps)
        (simp add: Let_def s1_def process_block_def b_def flip: n_def)
    moreover have "total_length s1 = total_length s" by (simp add: s1_def)
    ultimately show ?thesis using s' by simp
  qed
qed

lemma sha_update_represents:
  assumes "represents s m"
  shows "\<exists>s'. sha_update data s = Some s' \<and> represents s' (m @ data) \<and>
    total_length s' = total_length s + word_of_nat (length data)"
  unfolding sha_update_def
  using update_loop_represents [of "s\<lparr>total_length := total_length s + word_of_nat (length data)\<rparr>" m data]
    assms by fastforce

section \<open>Padding\<close>

lemma zeros_step:
  assumes "r < 64" and "r \<noteq> 56"
  shows "zeros_to_56 r = Suc (zeros_to_56 ((r + 1) mod 64))"
  using assms by (cases "r = 63") (auto simp: zeros_to_56_def)

lemma pad_loop_represents:
  assumes "represents s m"
  shows "\<exists>s'. pad_loop s = Some s' \<and> represents s' (m @ replicate (zeros_to_56 (length m mod 64)) 0)"
  using assms
proof (induction "zeros_to_56 (length m mod 64)" arbitrary: s m rule: less_induct)
  case less
  have bl: "buffer_length s = length m mod 64" using less.prems by (simp add: represents_def)
  show ?case
  proof (cases "length m mod 64 = 56")
    case True
    then show ?thesis using less.prems bl by (subst pad_loop.simps) (simp add: zeros_to_56_def)
  next
    case False
    have len: "length (m @ [0 :: u8]) mod 64 = (length m mod 64 + 1) mod 64" by (simp add: mod_Suc_eq)
    have step: "zeros_to_56 (length m mod 64) = Suc (zeros_to_56 (length (m @ [0 :: u8]) mod 64))"
      unfolding len by (rule zeros_step [OF _ False]) simp
    obtain s1 where s1: "sha_update [0] s = Some s1" "represents s1 (m @ [0])"
      using sha_update_represents [OF less.prems, of "[0]"] by blast
    have "zeros_to_56 (length (m @ [0 :: u8]) mod 64) < zeros_to_56 (length m mod 64)" unfolding step by simp
    from less.hyps [OF this s1(2)] obtain s' where s': "pad_loop s1 = Some s'"
      "represents s' ((m @ [0]) @ replicate (zeros_to_56 (length (m @ [0 :: u8]) mod 64)) 0)" by blast
    have "pad_loop s = pad_loop s1" using False bl s1(1) by (subst pad_loop.simps) simp
    then show ?thesis using s' unfolding step by (simp del: length_append)
  qed
qed

lemma padded_message_blocks: "\<exists>k. length (padded_message m) = 64 * k"
proof -
  let ?r = "(length m + 1) mod 64"
  have l: "length (padded_message m) = length m + 1 + zeros_to_56 ?r + 8"
    by (simp add: padded_message_def length_bytes_def)
  have "length m + 1 = 64 * ((length m + 1) div 64) + ?r" by simp
  moreover have "?r < 64" by simp
  moreover have "zeros_to_56 ?r + ?r + 8 = 64 \<or> zeros_to_56 ?r + ?r + 8 = 128"
    using \<open>?r < 64\<close> by (cases "?r \<le> 56") (simp_all only: zeros_to_56_def if_True if_False, linarith+)
  ultimately have "length (padded_message m) = 64 * ((length m + 1) div 64) + 64 \<or>
      length (padded_message m) = 64 * ((length m + 1) div 64) + 128" unfolding l by linarith
  then show ?thesis
    by (elim disjE) (auto intro: exI [of _ "(length m + 1) div 64 + 1"] exI [of _ "(length m + 1) div 64 + 2"])
qed

lemma finalize_represents:
  assumes "represents s m" and "total_length s = word_of_nat (length m)"
  shows "finalize s = Some (fips_digest m)"
proof -
  obtain s1 where s1: "sha_update [0x80] s = Some s1" "represents s1 (m @ [0x80])"
    using sha_update_represents [OF assms(1), of "[0x80]"] by blast
  let ?z = "replicate (zeros_to_56 (length (m @ [0x80 :: u8]) mod 64)) (0 :: u8)"
  obtain s2 where s2: "pad_loop s1 = Some s2" "represents s2 ((m @ [0x80]) @ ?z)"
    using pad_loop_represents [OF s1(2)] by blast
  obtain s3 where s3: "sha_update (length_bytes (total_length s * 8)) s2 = Some s3"
    "represents s3 (((m @ [0x80]) @ ?z) @ length_bytes (total_length s * 8))"
    using sha_update_represents [OF s2(2)] by blast
  have msg: "((m @ [0x80]) @ ?z) @ length_bytes (total_length s * 8) = padded_message m"
    by (simp add: padded_message_def assms(2))
  have "whole_blocks (padded_message m) = padded_message m"
    using padded_message_blocks [of m] by (auto simp: whole_blocks_def)
  then have "sha_state s3 = hash_blocks initial_hash (padded_message m)"
    using s3(2) unfolding msg by (simp add: represents_def)
  then show ?thesis
    using s1(1) s2(1) s3(1) by (simp add: finalize_def Let_def fips_digest_def)
qed

lemma sha256_digest_eq: "sha256_digest m = Some (fips_digest m)"
proof -
  obtain s where "sha_update m new_sha256 = Some s" "represents s m" "total_length s = word_of_nat (length m)"
    using sha_update_represents [OF represents_new, of m] by (auto simp: new_sha256_def sha_reset_def)
  then show ?thesis using finalize_represents by (simp add: sha256_digest_def)
qed

text \<open>
  C27. The streaming SHA-256 refines the FIPS 180-4 digest of the padded message: fed any sequence of
  chunks, the object's loops (refill of the buffer, padding) return, and \<open>finalize\<close> yields the bytes of
  the compression function folded over the 64-byte blocks of the concatenated message with its
  padding. In particular the digest does not depend on how the data was split into chunks.
\<close>
theorem sha256_implements_fips:
  "\<exists>s. fold (\<lambda>chunk so. so \<bind> sha_update chunk) chunks (Some new_sha256) = Some s \<and>
     finalize s = Some (fips_digest (concat chunks)) \<and>
     sha256_digest (concat chunks) = Some (fips_digest (concat chunks))"
proof -
  have feed: "\<exists>s'. fold (\<lambda>chunk so. so \<bind> sha_update chunk) chunks (Some s) = Some s' \<and>
      represents s' (m @ concat chunks) \<and>
      total_length s' = total_length s + word_of_nat (length (concat chunks))"
    if "represents s m" for s m
    using that
  proof (induction chunks arbitrary: s m)
    case (Cons c cs)
    obtain s1 where s1: "sha_update c s = Some s1" "represents s1 (m @ c)"
      "total_length s1 = total_length s + word_of_nat (length c)"
      using sha_update_represents [OF Cons.prems] by blast
    from Cons.IH [OF s1(2)] s1(1,3) show ?case by (simp add: add.assoc)
  qed simp
  have fin: "finalize s = Some (fips_digest m)"
    if "represents s m" "total_length s = word_of_nat (length m)" for s m
    using finalize_represents [OF that] .
  obtain s where s: "fold (\<lambda>chunk so. so \<bind> sha_update chunk) chunks (Some new_sha256) = Some s"
    "represents s (concat chunks)" "total_length s = word_of_nat (length (concat chunks))"
    using feed [OF represents_new] by (auto simp: new_sha256_def sha_reset_def)
  show ?thesis using s fin [OF s(2,3)] by (simp add: sha256_digest_eq)
qed

section \<open>The published test vector\<close>

definition abc_block :: bytes where
  "abc_block =
     [97, 98, 99, 128, 0, 0, 0, 0, 0, 0, 0, 0, 0, 0, 0, 0,
      0, 0, 0, 0, 0, 0, 0, 0, 0, 0, 0, 0, 0, 0, 0, 0,
      0, 0, 0, 0, 0, 0, 0, 0, 0, 0, 0, 0, 0, 0, 0, 0,
      0, 0, 0, 0, 0, 0, 0, 0, 0, 0, 0, 0, 0, 0, 0, 24]"

definition abc_schedule :: "u32 list" where
  "abc_schedule =
     [1633837952, 0, 0, 0, 0, 0, 0, 0,
      0, 0, 0, 0, 0, 0, 0, 24,
      1633837952, 983040, 2108187653, 1610613702, 1050508152, 25426944, 316456923, 3806512014,
      3357629466, 3073800610, 3854317833, 845560923, 2636160359, 3968280267, 1881225380, 3552024379,
      2482346367, 996719219, 2952069057, 4043988066, 176896406, 1924104970, 2483675966, 610538786,
      2672279444, 4037431130, 1042573945, 657669027, 206005234, 2215296807, 2049510749, 106709978,
      4215179723, 3430291419, 3118885940, 2845390439, 2226839261, 3256115900, 344409900, 2987358873,
      4015503821, 3957764664, 2682456414, 2025622859, 2755645205, 1720397816, 4004225740, 313650667]"

lemma abc_padded: "padded_message [97, 98, 99] = abc_block"
  by code_simp

lemma abc_message_schedule: "message_schedule abc_block = abc_schedule"
  by code_simp

lemma abc_rounds:
  "fold (sha_round abc_schedule) [0..<16]
     (1779033703, 3144134277, 1013904242, 2773480762, 1359893119, 2600822924, 528734635, 1541459225) =
     (2969183118, 3227803614, 3643992854, 2274437520, 123276749, 194179596, 1952073950, 509051416)"
  "fold (sha_round abc_schedule) [16..<32]
     (2969183118, 3227803614, 3643992854, 2274437520, 123276749, 194179596, 1952073950, 509051416) =
     (1941126133, 3935906338, 2684750640, 909411017, 3126399250, 17410874, 2917635127, 1628611511)"
  "fold (sha_round abc_schedule) [32..<48]
     (1941126133, 3935906338, 2684750640, 909411017, 3126399250, 17410874, 2917635127, 1628611511) =
     (1098003085, 2706117808, 1923828625, 643991573, 4274981830, 3581645993, 3077922209, 2819559920)"
  "fold (sha_round abc_schedule) [48..<64]
     (1098003085, 2706117808, 1923828625, 643991573, 4274981830, 3581645993, 3077922209, 2819559920) =
     (1349398616, 3550093669, 80891244, 3093179625, 1593118500, 4212265488, 2492278198, 2518632596)"
  by code_simp+

lemma abc_compress:
  "compress initial_hash abc_block = [3128432319, 2399260650, 1094795486, 1571693091,
     2953011619, 2518121116, 3021012833, 4060091821]"
proof -
  have parts: "[0..<64] = [0..<16] @ [16..<32] @ [32..<48] @ [48..<64]" by (simp add: upt_conv_Cons)
  have start: "(initial_hash ! 0, initial_hash ! 1, initial_hash ! 2, initial_hash ! 3, initial_hash ! 4,
      initial_hash ! 5, initial_hash ! 6, initial_hash ! 7) =
     (1779033703, 3144134277, 1013904242, 2773480762, 1359893119, 2600822924, 528734635, 1541459225)"
    by (simp add: initial_hash_def)
  have rounds: "fold (sha_round abc_schedule) [0..<64]
     (1779033703, 3144134277, 1013904242, 2773480762, 1359893119, 2600822924, 528734635, 1541459225) =
     (1349398616, 3550093669, 80891244, 3093179625, 1593118500, 4212265488, 2492278198, 2518632596)"
    unfolding parts fold_append o_apply abc_rounds by (rule refl)
  show ?thesis
    unfolding compress_def abc_message_schedule Let_def start rounds by (simp add: initial_hash_def)
qed

text \<open>
  The NIST test vector: the code's digest of the three bytes \<open>abc\<close>, in the hexadecimal form the
  oracle compares, is the published one.
\<close>
lemma sha256_of_abc:
  "sha256_hex [97, 98, 99] =
     Some ''ba7816bf8f01cfea414140de5dae2223b00361a396177a9cb410ff61f20015ad''"
proof -
  have "fips_digest [97, 98, 99] = digest_bytes (compress initial_hash abc_block)"
    by (simp add: fips_digest_def abc_padded hash_blocks_one abc_block_def)
  moreover have "to_hex (digest_bytes (compress initial_hash abc_block)) =
      ''ba7816bf8f01cfea414140de5dae2223b00361a396177a9cb410ff61f20015ad''"
    unfolding abc_compress by code_simp
  ultimately show ?thesis by (simp only: sha256_hex_def sha256_digest_eq option.map)
qed

end
