(* ===== verification/Content_Oracle.thy ===== *)
theory Content_Oracle
  imports Sha256 Netascii File_System
begin

text \<open>
  \<open>src/src/verify/content_oracle.{hpp,cpp}\<close>: the verdict on a transfer, from the SHA-256 fingerprints
  of the source (normalised for netascii) and the delivered bytes. A result is an option because the
  hash is a partial function in the model; \<open>sha256_digest_eq\<close> shows it is always there. Paths are
  strings, and the files are those of \<open>File_System\<close>.
\<close>

datatype integrity_verdict = Match | Mismatch | MissingArtifact

record integrity_result =
  verdict :: integrity_verdict
  source_hash :: string
  delivered_hash :: string
  source_size :: nat
  delivered_size :: nat
  detail :: string

definition empty_integrity_result :: integrity_result where
  "empty_integrity_result =
     \<lparr>verdict = MissingArtifact, source_hash = [], delivered_hash = [], source_size = 0,
      delivered_size = 0, detail = []\<rparr>"

definition result_matches :: "integrity_result \<Rightarrow> bool" where
  "result_matches r \<longleftrightarrow> verdict r = Match"

definition oracle_reference :: "bytes \<Rightarrow> bool \<Rightarrow> bytes" where
  "oracle_reference source netascii =
     (if netascii then decode_netascii_to_local (encode_local_to_netascii source) else source)"

definition compare_bytes :: "bytes \<Rightarrow> bytes \<Rightarrow> bool \<Rightarrow> integrity_result option" where
  "compare_bytes source delivered netascii =
     (let expected = oracle_reference source netascii
      in do {
           hs \<leftarrow> sha256_hex expected;
           hd \<leftarrow> sha256_hex delivered;
           Some (let r = empty_integrity_result\<lparr>source_hash := hs, delivered_hash := hd,
                           source_size := length expected, delivered_size := length delivered\<rparr>
                 in if hs = hd then
                      r\<lparr>verdict := Match, detail := ''delivered bytes match the source fingerprint''\<rparr>
                    else
                      r\<lparr>verdict := Mismatch,
                        detail := ''delivered bytes DIFFER from the source ('' @
                          to_string (source_size r) @ '' source bytes vs '' @
                          to_string (delivered_size r) @ '' delivered bytes)''\<rparr>)
         })"

definition compare_files ::
  "file_system \<Rightarrow> string \<Rightarrow> string \<Rightarrow> bool \<Rightarrow> integrity_result option" where
  "compare_files fs source_path delivered_path netascii =
     (case (contents fs source_path, contents fs delivered_path) of
        (Some source, Some delivered) \<Rightarrow> compare_bytes source delivered netascii
      | (None, _) \<Rightarrow>
          Some (empty_integrity_result\<lparr>detail := ''source artifact missing: '' @ source_path\<rparr>)
      | (Some _, None) \<Rightarrow>
          Some (empty_integrity_result\<lparr>detail := ''delivered artifact missing: '' @ delivered_path\<rparr>))"

section \<open>The hexadecimal form is faithful\<close>

lemma hex_char_inject: "m < 16 \<Longrightarrow> n < 16 \<Longrightarrow> hex_char m = hex_char n \<longleftrightarrow> m = n"
proof -
  have "distinct ''0123456789abcdef''" by simp
  then show "m < 16 \<Longrightarrow> n < 16 \<Longrightarrow> hex_char m = hex_char n \<longleftrightarrow> m = n"
    unfolding hex_char_def by (intro nth_eq_iff_index_eq) simp_all
qed

lemma byte_nibbles:
  "unat (drop_bit 4 (b :: u8)) = unat b div 16" "unat (b AND 0x0F) = unat b mod 16"
proof -
  show "unat (drop_bit 4 b) = unat b div 16" by (simp add: unat_drop_bit_eq drop_bit_eq_div unat_div)
  have "b AND 0x0F = take_bit 4 b" by (simp add: take_bit_eq_mask mask_eq_exp_minus_1)
  then show "unat (b AND 0x0F) = unat b mod 16" by (simp add: unsigned_take_bit_eq take_bit_eq_mod unat_mod_distrib)
qed

lemma to_hex_inject: "to_hex a = to_hex b \<longleftrightarrow> a = b"
proof (induction a arbitrary: b)
  case Nil
  then show ?case by (cases b) (simp_all add: to_hex_def)
next
  case (Cons x xs)
  have nib: "unat (y :: u8) div 16 < 16" "unat y mod 16 < 16" for y
    using unat_width_less(1) [of y] by (simp_all add: less_mult_imp_div_less)
  show ?case
  proof (cases b)
    case Nil
    then show ?thesis by (simp add: to_hex_def)
  next
    case (Cons y ys)
    have "hex_char (unat x div 16) = hex_char (unat y div 16) \<and> hex_char (unat x mod 16) = hex_char (unat y mod 16)
        \<longleftrightarrow> x = y"
      using hex_char_inject [OF nib(1) nib(1)] hex_char_inject [OF nib(2) nib(2)]
      by (metis div_mult_mod_eq word_unat_eq_iff)
    then show ?thesis using Cons.IH [of ys] Cons by (simp add: to_hex_def byte_nibbles) blast
  qed
qed

lemma compare_bytes_verdict:
  "\<exists>r. compare_bytes source delivered netascii = Some r \<and> verdict r \<noteq> MissingArtifact \<and>
     (verdict r = Match \<longleftrightarrow> fips_digest (oracle_reference source netascii) = fips_digest delivered)"
  by (simp add: compare_bytes_def sha256_hex_def sha256_digest_eq to_hex_inject Let_def)

text \<open>Two different byte strings with one SHA-256 digest.\<close>

definition sha256_collision :: "bytes \<Rightarrow> bytes \<Rightarrow> bool" where
  "sha256_collision x y \<longleftrightarrow> x \<noteq> y \<and> fips_digest x = fips_digest y"

lemma oracle_reference_eq:
  "oracle_reference source netascii = (if netascii then normalize_eol source else source)"
  by (simp add: oracle_reference_def decode_encode_normalizes)

text \<open>
  C28. The oracle's verdict is right: it always returns; it reports a missing artifact exactly if one
  file cannot be read; a mismatch only if the delivered bytes differ from the source (for netascii:
  from the source with its CR LF pairs collapsed); and a match only if they are equal, or the two
  are a collision of SHA-256.
\<close>
theorem integrity_verdict_sound:
  "\<exists>r. compare_files fs source_path delivered_path netascii = Some r \<and>
     (case (contents fs source_path, contents fs delivered_path) of
        (Some source, Some delivered) \<Rightarrow>
          let expected = (if netascii then normalize_eol source else source) in
          (verdict r = Match \<and> (delivered = expected \<or> sha256_collision expected delivered)) \<noteq>
          (verdict r = Mismatch \<and> delivered \<noteq> expected)
      | (_, _) \<Rightarrow> verdict r = MissingArtifact)"
proof (cases "contents fs source_path"; cases "contents fs delivered_path")
  fix source delivered
  assume c: "contents fs source_path = Some source" "contents fs delivered_path = Some delivered"
  obtain r where r: "compare_bytes source delivered netascii = Some r" "verdict r \<noteq> MissingArtifact"
    "verdict r = Match \<longleftrightarrow> fips_digest (oracle_reference source netascii) = fips_digest delivered"
    using compare_bytes_verdict by blast
  have "verdict r = Match \<or> verdict r = Mismatch" using r(2) by (cases "verdict r") auto
  then show ?thesis
    using c r(1,3) by (auto simp: compare_files_def Let_def sha256_collision_def oracle_reference_eq)
qed (auto simp: compare_files_def empty_integrity_result_def)

end
