(* ===== verification/Transfer_Driver.thy ===== *)
theory Transfer_Driver
  imports Fixtures Impairment_Proxy Packet_Observer Content_Oracle
begin

text \<open>
  \<open>src/src/runner/transfer_driver.{hpp,cpp}\<close> and the structures of
  \<open>src/include/tftp_test_harness/adapter_interface.hpp\<close>: one transfer end to end. The files are
  staged, the server under test is started, the impairment proxy is put in front of it, the client
  under test runs, and the trace, the observer's report and the oracle's verdict are collected.

  The implementations under test are behind an abstract interface, so they are arguments: what the
  server's \<open>start\<close> returns (an address, parsed), what the client's transfer returns and leaves on disk
  (server and client together), the world the proxy runs in, and what the watchdog loop sees each time
  it looks: whether the client has finished and how many milliseconds have passed. Both adapter
  pointers are taken to be set, as \<open>run_suite\<close> sets them.
\<close>

section \<open>Structures\<close>

datatype transfer_mode = OctetMode | NetasciiMode

record requested_options =
  wanted_block_size :: "u32 option"
  wanted_timeout_seconds :: "u32 option"
  wanted_transfer_size :: "u64 option"
  wanted_window_size :: "u16 option"

definition no_options :: requested_options where
  "no_options = \<lparr>wanted_block_size = None, wanted_timeout_seconds = None, wanted_transfer_size = None,
     wanted_window_size = None\<rparr>"

record transfer_result =
  reported_complete :: bool
  reported_error_code :: "u16 option"
  reported_error_message :: string
  process_exit_code :: "int option"
  wall_clock_duration :: int
  options_confirmed_in_use :: requested_options
  unsupported_configuration :: bool

definition empty_transfer_result :: transfer_result where
  "empty_transfer_result = \<lparr>reported_complete = False, reported_error_code = None,
     reported_error_message = [], process_exit_code = None, wall_clock_duration = 0,
     options_confirmed_in_use = no_options, unsupported_configuration = False\<rparr>"

record drive_request =
  drive_direction :: transfer_direction
  drive_fixture :: "fixture option"
  drive_options :: requested_options
  drive_mode :: transfer_mode
  drive_impairment :: impairment_config
  drive_seed :: u64
  drive_injection :: "injection_script option"
  drive_work_root :: string
  drive_watchdog :: int
  effective_block_size :: u32
  remote_filename :: string
  plant_existing_destination :: bool
  stage_served_fixture :: bool

definition default_drive_request :: drive_request where
  "default_drive_request = \<lparr>drive_direction = Download, drive_fixture = None, drive_options = no_options,
     drive_mode = OctetMode, drive_impairment = default_impairment_config, drive_seed = 0,
     drive_injection = None, drive_work_root = [], drive_watchdog = 20000, effective_block_size = 512,
     remote_filename = [], plant_existing_destination = False, stage_served_fixture = True\<rparr>"

record drive_result =
  setup_failed :: bool
  setup_error :: string
  app_result :: transfer_result
  drive_trace :: packet_trace
  drive_observer :: observer_report
  drive_integrity :: integrity_result
  watchdog_fired :: bool
  duration_ms :: double

definition empty_drive_result :: drive_result where
  "empty_drive_result = \<lparr>setup_failed = False, setup_error = [], app_result = empty_transfer_result,
     drive_trace = \<lparr>trace_seed = 0, trace_records = []\<rparr>, drive_observer = empty_report,
     drive_integrity = empty_integrity_result, watchdog_fired = False, duration_ms = 0\<rparr>"

text \<open>The two calls of the client adapter, with the specification each gets.\<close>

datatype client_call =
    ReadRequestCall string string transfer_mode requested_options
  | WriteRequestCall string string transfer_mode requested_options

record drive_world =
  files_before :: file_system
  start_server :: "string \<Rightarrow> file_system \<Rightarrow> endpoint option"
  run_client :: "endpoint \<Rightarrow> client_call \<Rightarrow> file_system \<Rightarrow> transfer_result \<times> file_system"
  proxy_world :: environment
  proxy_inputs :: "relay_input list"
  watchdog_polls :: "(bool \<times> int) list"
  elapsed_nanoseconds :: int

section \<open>Operations\<close>

text \<open>\<open>write_bytes\<close> opens, truncates and writes as the engine's \<open>write_entire_file\<close> does.\<close>

definition write_bytes :: "file_system \<Rightarrow> string \<Rightarrow> bytes \<Rightarrow> file_system \<times> bool" where
  "write_bytes fs path bytes = write_entire_file fs path bytes"

definition served_directory :: "drive_request \<Rightarrow> string" where
  "served_directory req = path_append (drive_work_root req) ''served''"

definition download_destination :: "drive_request \<Rightarrow> string" where
  "download_destination req = path_append (path_append (drive_work_root req) ''local'') ''download.out''"

definition upload_source :: "drive_request \<Rightarrow> string" where
  "upload_source req = path_append (path_append (drive_work_root req) ''local'') ''upload_source.bin''"

definition remote_name :: "drive_request \<Rightarrow> fixture \<Rightarrow> string" where
  "remote_name req f = (if remote_filename req = [] then fixture_name f else remote_filename req)"

definition stage_files :: "drive_request \<Rightarrow> fixture \<Rightarrow> file_system \<Rightarrow> string + file_system" where
  "stage_files req f fs =
     (let served_file = path_append (served_directory req) (remote_name req f)
      in case drive_direction req of
           Download \<Rightarrow>
             if stage_served_fixture req then
               let (fs, ok) = write_bytes fs served_file (fixture_bytes f)
               in if ok then Inr fs else Inl ''could not stage served fixture''
             else Inr fs
         | Upload \<Rightarrow>
             let (fs, ok) = write_bytes fs (upload_source req) (fixture_bytes f)
             in if \<not> ok then Inl ''could not stage upload source''
                else if plant_existing_destination req
                then Inr (fst (write_bytes fs served_file (map byte_of_char ''old'')))
                else Inr fs)"

definition client_call_of :: "drive_request \<Rightarrow> fixture \<Rightarrow> client_call" where
  "client_call_of req f =
     (case drive_direction req of
        Download \<Rightarrow> ReadRequestCall (remote_name req f) (download_destination req) (drive_mode req) (drive_options req)
      | Upload \<Rightarrow> WriteRequestCall (upload_source req) (remote_name req f) (drive_mode req) (drive_options req))"

text \<open>The watchdog loop; the client has finished when there is nothing more to look at.\<close>

fun watchdog_fires :: "int \<Rightarrow> (bool \<times> int) list \<Rightarrow> bool" where
  "watchdog_fires watchdog [] = False"
| "watchdog_fires watchdog ((finished, elapsed) # looks) =
     (if finished then False else if elapsed > watchdog then True else watchdog_fires watchdog looks)"

definition proxy_config_of :: "drive_request \<Rightarrow> endpoint \<Rightarrow> proxy_config" where
  "proxy_config_of req server =
     \<lparr>server_endpoint = server, proxy_impairment = drive_impairment req, proxy_seed = drive_seed req,
      injection = drive_injection req\<rparr>"

definition judged_integrity :: "drive_request \<Rightarrow> fixture \<Rightarrow> file_system \<Rightarrow> integrity_result" where
  "judged_integrity req f fs =
     (let netascii = (drive_mode req = NetasciiMode);
          served_file = path_append (served_directory req) (remote_name req f);
          r = (case drive_direction req of
                 Download \<Rightarrow> compare_files fs served_file (download_destination req) netascii
               | Upload \<Rightarrow> compare_files fs (upload_source req) served_file netascii)
      in case r of Some v \<Rightarrow> v | None \<Rightarrow> empty_integrity_result)"

definition failed_setup :: "string \<Rightarrow> drive_result" where
  "failed_setup reason = empty_drive_result\<lparr>setup_failed := True, setup_error := reason\<rparr>"

definition drive_transfer :: "drive_world \<Rightarrow> drive_request \<Rightarrow> drive_result" where
  "drive_transfer w req =
     (case drive_fixture req of
        None \<Rightarrow> failed_setup ''null adapter or fixture''
      | Some f \<Rightarrow>
      (case stage_files req f (files_before w) of
        Inl reason \<Rightarrow> failed_setup reason
      | Inr fs \<Rightarrow>
      (case start_server w (served_directory req) fs of
        None \<Rightarrow> failed_setup ''server returned an unparseable endpoint''
      | Some server \<Rightarrow>
      (case run_proxy (proxy_world w) (proxy_config_of req server) (proxy_inputs w) of
        None \<Rightarrow> failed_setup ''impairment proxy failed to bind''
      | Some p \<Rightarrow>
          let target = local_endpoint (proxy_world w) ListenSocket;
              (answer, fs) = run_client w target (client_call_of req f) fs;
              trace = stop_and_take_trace p;
              context = \<lparr>context_direction = drive_direction req,
                context_block_size = effective_block_size req,
                transfer_reported_complete = reported_complete answer\<rparr>
          in empty_drive_result\<lparr>
               watchdog_fired := watchdog_fires (drive_watchdog req) (watchdog_polls w),
               drive_trace := trace,
               duration_ms := dbl_div (dbl_of_int (elapsed_nanoseconds w)) 1000000,
               app_result := answer,
               drive_observer := observe trace context,
               drive_integrity := judged_integrity req f fs\<rparr>))))"

section \<open>What a result says\<close>

text \<open>The oracle always answers, so its verdict is the one of \<open>compare_files\<close>.\<close>

lemma compare_files_total: "\<exists>r. compare_files fs a b n = Some r"
  using compare_bytes_verdict by (auto simp: compare_files_def split: option.splits) blast

text \<open>A transfer that could not be set up reports nothing: no completion, no packet, no match.\<close>

lemma failed_setup_reports_nothing:
  "setup_failed (failed_setup reason)" "setup_error (failed_setup reason) = reason"
  "\<not> reported_complete (app_result (failed_setup reason))"
  "\<not> unsupported_configuration (app_result (failed_setup reason))"
  "verdict (drive_integrity (failed_setup reason)) = MissingArtifact"
  "\<not> watchdog_fired (failed_setup reason)" "drive_observer (failed_setup reason) = empty_report"
  by (simp_all add: failed_setup_def empty_drive_result_def empty_transfer_result_def empty_integrity_result_def)

text \<open>The early returns and the one way through.\<close>

lemma drive_transfer_cases:
  obtains (failed) reason where "drive_transfer w req = failed_setup reason"
  | (driven) f fs server p answer fs' where "drive_fixture req = Some f"
      "stage_files req f (files_before w) = Inr fs"
      "start_server w (served_directory req) fs = Some server"
      "run_proxy (proxy_world w) (proxy_config_of req server) (proxy_inputs w) = Some p"
      "run_client w (local_endpoint (proxy_world w) ListenSocket) (client_call_of req f) fs = (answer, fs')"
      "\<not> setup_failed (drive_transfer w req)"
      "app_result (drive_transfer w req) = answer"
      "drive_trace (drive_transfer w req) = stop_and_take_trace p"
      "drive_integrity (drive_transfer w req) = judged_integrity req f fs'"
      "watchdog_fired (drive_transfer w req) \<longleftrightarrow> watchdog_fires (drive_watchdog req) (watchdog_polls w)"
proof (cases "drive_fixture req")
  case None
  then show ?thesis using failed by (simp add: drive_transfer_def)
next
  case fx: (Some f)
  show ?thesis
  proof (cases "stage_files req f (files_before w)")
    case (Inl e)
    then show ?thesis using failed fx by (simp add: drive_transfer_def)
  next
    case st: (Inr fs)
    show ?thesis
    proof (cases "start_server w (served_directory req) fs")
      case None
      then show ?thesis using failed fx st by (simp add: drive_transfer_def)
    next
      case sv: (Some server)
      show ?thesis
      proof (cases "run_proxy (proxy_world w) (proxy_config_of req server) (proxy_inputs w)")
        case None
        then show ?thesis using failed fx st sv by (simp add: drive_transfer_def)
      next
        case px: (Some p)
        obtain answer fs' where
          "run_client w (local_endpoint (proxy_world w) ListenSocket) (client_call_of req f) fs = (answer, fs')"
          by fastforce
        then show ?thesis using fx st sv px
          by (intro driven [of f fs server p answer fs']) (simp_all add: drive_transfer_def empty_drive_result_def Let_def)
      qed
    qed
  qed
qed

text \<open>The watchdog does not fire before its time.\<close>

lemma watchdog_not_early:
  "list_all (\<lambda>(finished, elapsed). elapsed \<le> watchdog) looks \<Longrightarrow> \<not> watchdog_fires watchdog looks"
  by (induction watchdog looks rule: watchdog_fires.induct) auto

end
