(* ===== verification/Json_Lines.thy ===== *)
theory Json_Lines
  imports Json_Round_Trip
begin

text \<open>
  Why one JSON object per line is a safe file format: a compact text holds no line feed, and no proper
  prefix of a written object is a JSON text, so a line that was only partly written is not mistaken
  for a record.
\<close>

section \<open>Compact text is one line\<close>

lemma hex_char_not_newline: "n < 16 \<Longrightarrow> hex_char n \<noteq> CHR 0x0A"
proof -
  assume "n < 16"
  then have "hex_char n \<in> set ''0123456789abcdef''" unfolding hex_char_def by (intro nth_mem) simp
  then show ?thesis by auto
qed

lemma escape_char_one_line: "CHR 0x0A \<notin> set (escape_char c)"
proof (cases "(of_char c :: nat) = 10")
  case False
  then have "c \<noteq> CHR 0x0A" by auto
  then show ?thesis
    using hex_char_not_newline [of "of_char c div 4096 mod 16"] hex_char_not_newline [of "of_char c div 256 mod 16"]
      hex_char_not_newline [of "of_char c div 16 mod 16"] hex_char_not_newline [of "of_char c mod 16"]
    by (auto simp: escape_char_def Let_def hex4_def)
qed (simp add: escape_char_def)

lemma escape_one_line: "CHR 0x0A \<notin> set (escape_json_string s)"
  using escape_char_one_line by (auto simp: escape_json_string_def)

lemma number_one_line: "CHR 0x0A \<notin> set (format_number v b)"
  using format_number_text [of v b] by (auto simp: number_text_def is_number_char_def is_digit_char_def)

lemma comma_join_one_line: "(\<And>s. s \<in> set ss \<Longrightarrow> c \<notin> set s) \<Longrightarrow> c \<noteq> CHR '','' \<Longrightarrow> c \<notin> set (comma_join ss)"
  by (induction ss rule: comma_join.induct) auto

lemma serialize_one_line: "CHR 0x0A \<notin> set (serialize_into False d j)"
proof (induction j arbitrary: d)
  case (JArray vs)
  have "CHR 0x0A \<notin> set (comma_join (map (\<lambda>v. indent False (d + 1) @ serialize_into False (d + 1) v) vs))"
    using JArray by (intro comma_join_one_line) (auto simp: indent_def)
  then show ?case by (simp add: indent_def)
next
  case (JObject ms)
  have "CHR 0x0A \<notin> set (comma_join (map (\<lambda>(k, v). indent False (d + 1) @ escape_json_string k @ '':'' @
      serialize_into False (d + 1) v) ms))"
    using JObject by (intro comma_join_one_line) (auto simp: indent_def escape_one_line)
  then show ?case by (simp add: indent_def)
qed (simp_all add: escape_one_line number_one_line)

section \<open>Text after a complete value does not change it\<close>

lemma skip_whitespace_append: "skip_whitespace s = c # cs \<Longrightarrow> skip_whitespace (s @ t) = c # cs @ t"
  by (induction s) (auto simp: skip_whitespace_def split: if_splits)

lemma parse_string_body_append:
  "parse_string_body s = Some (x, r) \<Longrightarrow> parse_string_body (s @ t) = Some (x, r @ t)"
proof (induction "length s" arbitrary: s x r rule: less_induct)
  case less
  obtain c cs where s: "s = c # cs" using less.prems by (cases s) auto
  consider "c = CHR 0x22" | "c \<noteq> CHR 0x22" "c \<noteq> CHR 0x5C" | "c = CHR 0x5C" by blast
  then show ?case
  proof cases
    case 1
    then show ?thesis using less.prems s by simp
  next
    case 2
    then obtain y where "parse_string_body cs = Some (y, r)" "x = c # y" using less.prems s by auto
    then show ?thesis using less.hyps [of cs y r] 2 s by simp
  next
    case 3
    obtain e es where cs: "cs = e # es" using less.prems s 3 by (cases cs) auto
    show ?thesis
    proof (cases "e = CHR ''u''")
      case False
      then obtain z y where "unescape e = Some z" "parse_string_body es = Some (y, r)" "x = z # y"
        using less.prems s 3 cs by (auto split: option.splits)
      then show ?thesis using less.hyps [of es y r] False 3 s cs by simp
    next
      case True
      obtain h1 h2 h3 h4 rest where es: "es = h1 # h2 # h3 # h4 # rest"
        using less.prems s 3 cs True by (auto split: list.splits)
      obtain code y where "hex_code 0 [h1, h2, h3, h4] = Some code" "parse_string_body rest = Some (y, r)"
        "x = utf8 code @ y"
        using less.prems s 3 cs True es by (auto split: option.splits simp del: hex_code.simps)
      then show ?thesis using less.hyps [of rest y r] True 3 s cs es by (simp del: hex_code.simps)
    qed
  qed
qed

lemma parse_string_append: "parse_string s = Some (x, r) \<Longrightarrow> parse_string (s @ t) = Some (x, r @ t)"
  by (auto simp: parse_string_def parse_string_body_append split: list.splits if_splits)

lemma parse_word_append:
  assumes "take n s = w" and "length w = n"
  shows "take n (s @ t) = w" and "drop n (s @ t) = drop n s @ t"
proof -
  have "n \<le> length s" using assms by (metis length_take min.cobounded1)
  then show "take n (s @ t) = w" "drop n (s @ t) = drop n s @ t" using assms by simp_all
qed

lemma parse_bool_append: "parse_bool s = Some (v, r) \<Longrightarrow> parse_bool (s @ t) = Some (v, r @ t)"
proof -
  assume a: "parse_bool s = Some (v, r)"
  consider "take 4 s = ''true''" | "take 4 s \<noteq> ''true''" "take 5 s = ''false''"
    using a by (auto simp: parse_bool_def split: if_splits)
  then show ?thesis
  proof cases
    case 1
    then show ?thesis using a parse_word_append [OF 1, of t] by (simp add: parse_bool_def)
  next
    case 2
    have "take 4 s = ''fals''" using arg_cong [OF 2(2), of "take 4"] by (simp add: min_def)
    then have "take 4 (s @ t) = ''fals''" by (rule parse_word_append(1)) simp
    then show ?thesis using a 2 parse_word_append [OF 2(2), of t] by (simp add: parse_bool_def)
  qed
qed

lemma parse_null_append: "parse_null s = Some (v, r) \<Longrightarrow> parse_null (s @ t) = Some (v, r @ t)"
  using parse_word_append [of 4 s "''null''" t] by (simp add: parse_null_def split: if_splits)

lemma parse_number_append:
  assumes "parse_number s = Some (v, r)" and "r \<noteq> []"
  shows "parse_number (s @ t) = Some (v, r @ t)"
proof -
  have r: "r = dropWhile is_number_char s"
    using assms(1) by (auto simp: parse_number_def Let_def split: if_splits option.splits)
  then obtain x where "x \<in> set s" "\<not> is_number_char x" using assms(2) by (auto simp: dropWhile_eq_Nil_conv)
  then have "takeWhile is_number_char (s @ t) = takeWhile is_number_char s"
    "dropWhile is_number_char (s @ t) = dropWhile is_number_char s @ t"
    by (simp_all add: takeWhile_append1 dropWhile_append1)
  then show ?thesis
    using assms(1) by (auto simp: parse_number_def Let_def split: if_splits option.splits)
qed

lemma parse_scalar_append:
  assumes "parse_scalar s = Some (v, r)" and "s \<noteq> []" and "r \<noteq> []"
  shows "parse_scalar (s @ t) = Some (v, r @ t)"
proof -
  have hd: "hd (s @ t) = hd s" using assms(2) by simp
  show ?thesis
    using assms(1) parse_string_append [of s _ r t] parse_bool_append [of s v r t]
      parse_null_append [of s v r t] parse_number_append [OF _ assms(3), of s v t]
    unfolding parse_scalar_def hd by (auto split: if_splits)
qed

definition bracketed :: "string \<Rightarrow> bool" where
  "bracketed s \<longleftrightarrow> (\<exists>cs. skip_whitespace s = CHR ''{'' # cs \<or> skip_whitespace s = CHR ''['' # cs)"

lemma parse_value_append:
  "\<forall>v r. parse_value n s = Some (v, r) \<longrightarrow> r \<noteq> [] \<or> bracketed s \<longrightarrow> parse_value n (s @ t) = Some (v, r @ t)"
  "\<forall>v r. parse_members n ms s = Some (v, r) \<longrightarrow> parse_members n ms (s @ t) = Some (v, r @ t)"
  "\<forall>v r. parse_elements n vs s = Some (v, r) \<longrightarrow> parse_elements n vs (s @ t) = Some (v, r @ t)"
proof (induction n s and n ms s and n vs s rule: parser_induct)
  case (at_value n s)
  show ?case
  proof (intro allI impI)
    fix v r assume p: "parse_value n s = Some (v, r)" and e: "r \<noteq> [] \<or> bracketed s"
    from p show "parse_value n (s @ t) = Some (v, r @ t)"
    proof (cases rule: parse_value_cases)
      case (empty_object m cs)
      then show ?thesis by (simp add: skip_whitespace_append)
    next
      case (object m cs d ds)
      have "parse_members m [] ((d # ds) @ t) = Some (v, r @ t)" using at_value(1) object(1,5) by blast
      then show ?thesis using object by (simp add: skip_whitespace_append)
    next
      case (empty_array m cs)
      then show ?thesis by (simp add: skip_whitespace_append)
    next
      case (array m cs d ds)
      have "parse_elements m [] ((d # ds) @ t) = Some (v, r @ t)" using at_value(2) array(1,5) by blast
      then show ?thesis using array by (simp add: skip_whitespace_append)
    next
      case (scalar m c cs)
      then have "r \<noteq> []" using e by (auto simp: bracketed_def)
      then have "parse_scalar ((c # cs) @ t) = Some (v, r @ t)" using parse_scalar_append scalar(5) by blast
      then show ?thesis
        using parse_value_scalar [OF skip_whitespace_append [OF scalar(2)] scalar(3,4)] scalar(1) by simp
    qed
  qed
next
  case (at_members n ms s)
  show ?case
  proof (intro allI impI)
    fix v r assume "parse_members n ms s = Some (v, r)"
    then show "parse_members n ms (s @ t) = Some (v, r @ t)"
    proof (cases rule: parse_members_cases)
      case (more m key s1 s2 w s3 s4)
      have "s3 \<noteq> []" using more(5) by auto
      then have "parse_value m (s2 @ t) = Some (w, s3 @ t)" using at_members(1) more(1,4) by blast
      moreover have "parse_members m (set_member ms key w) (s4 @ t) = Some (v, r @ t)"
        using at_members(2) more(1,6) by blast
      moreover have "skip_whitespace (s @ t) = skip_whitespace s @ t"
        using parse_string_shorter [OF more(2)] by (cases "skip_whitespace s") (simp_all add: skip_whitespace_append)
      ultimately show ?thesis
        using more(1,3,5) parse_string_append [OF more(2)] by (simp add: skip_whitespace_append)
    next
      case (final m key s1 s2 w s3)
      have "s3 \<noteq> []" using final(5) by auto
      then have "parse_value m (s2 @ t) = Some (w, s3 @ t)" using at_members(1) final(1,4) by blast
      moreover have "skip_whitespace (s @ t) = skip_whitespace s @ t"
        using parse_string_shorter [OF final(2)] by (cases "skip_whitespace s") (simp_all add: skip_whitespace_append)
      ultimately show ?thesis
        using final(1,3,5,6) parse_string_append [OF final(2)] by (simp add: skip_whitespace_append)
    qed
  qed
next
  case (at_elements n vs s)
  show ?case
  proof (intro allI impI)
    fix v r assume "parse_elements n vs s = Some (v, r)"
    then show "parse_elements n vs (s @ t) = Some (v, r @ t)"
    proof (cases rule: parse_elements_cases)
      case (more m w s1 s2)
      have "s1 \<noteq> []" using more(3) by auto
      then have "parse_value m (s @ t) = Some (w, s1 @ t)" using at_elements(1) more(1,2) by blast
      moreover have "parse_elements m (vs @ [w]) (s2 @ t) = Some (v, r @ t)"
        using at_elements(2) more(1,4) by blast
      ultimately show ?thesis using more(1,3) by (simp add: skip_whitespace_append)
    next
      case (final m w s1)
      have "s1 \<noteq> []" using final(3) by auto
      then have "parse_value m (s @ t) = Some (w, s1 @ t)" using at_elements(1) final(1,2) by blast
      then show ?thesis using final(1,3,4) by (simp add: skip_whitespace_append)
    qed
  qed
qed

text \<open>A proper prefix of a written object is not a JSON text.\<close>

lemma serialize_object_prefix:
  assumes "readable_json (JObject ms)" and "serialize (JObject ms) False = p @ t" and "t \<noteq> []"
  shows "parse_json p = None"
proof (rule ccontr)
  assume "parse_json p \<noteq> None"
  then obtain v r where p: "parse_value (parse_fuel p) p = Some (v, r)" "skip_whitespace r = []"
    by (auto simp: parse_json_def split: option.splits prod.splits if_splits)
  have "p \<noteq> []" using p(1) by (auto simp: parse_fuel_def)
  then obtain q where q: "p = CHR ''{'' # q" using assms(2) by (cases p) (auto simp: serialize_def split: if_splits)
  then have "bracketed p" by (auto simp: bracketed_def)
  then have "parse_value (parse_fuel p) (p @ t) = Some (v, r @ t)" using parse_value_append(1) p(1) by blast
  then have a: "parse_value (parse_fuel (p @ t)) (p @ t) = Some (v, r @ t)" by (rule parse_value_enough)
  obtain N where "parse_value N (p @ t) = Some (reread_json (JObject ms), [])"
    using serialize_reads [OF assms(1), of "[]" "[]" False 0] assms(2)
    by (auto simp: reads_def serialize_def starts_no_number_def simp del: parse_value.simps)
  then have "parse_value (parse_fuel (p @ t)) (p @ t) = Some (reread_json (JObject ms), [])"
    by (rule parse_value_enough)
  then show False using a assms(3) by simp
qed

end
