(* ===== verification/Json_Numbers.thy ===== *)
theory Json_Numbers
  imports Json_Lines
begin

text \<open>
  Which numbers survive in JSON text at all: the conversion \<open>%.6g\<close> of a double writes a text that
  \<open>std::stod\<close> accepts, unless the double is close to the limits of the format (below \<open>10 ^ -290\<close> or
  above \<open>10 ^ 300\<close>). The smallest doubles really do not survive: rounded to six digits they may drop
  below the normal range, where \<open>std::stod\<close> throws.
\<close>

section \<open>Powers of ten\<close>

lemma pow10_power_int: "pow10 e = 10 powi e"
  by (simp add: pow10_def power_int_def inverse_eq_divide power_one_over)

lemma pow10_pos [simp]: "0 < pow10 e"
  by (simp add: pow10_power_int)

lemma pow10_add: "pow10 (a + b) = pow10 a * pow10 b"
  by (simp add: pow10_power_int power_int_add)

lemma pow10_mono: "a \<le> b \<Longrightarrow> pow10 a \<le> pow10 b"
  by (simp add: pow10_power_int power_int_increasing)

lemma pow10_less_iff: "pow10 a < pow10 b \<longleftrightarrow> a < b"
proof
  assume "pow10 a < pow10 b"
  then show "a < b" using pow10_mono [of b a] by (cases "a < b") auto
next
  assume "a < b"
  then show "pow10 a < pow10 b" unfolding pow10_power_int by (intro power_int_strict_increasing) simp_all
qed

lemma pow10_le_iff: "pow10 a \<le> pow10 b \<longleftrightarrow> a \<le> b"
  using pow10_less_iff [of b a] by (simp flip: not_less)

lemma pow10_nat: "pow10 (int n) = of_nat (10 ^ n)"
  by (simp add: pow10_def)

lemma to_string_length:
  "n < 10 ^ length (to_string n)" "0 < n \<Longrightarrow> 10 ^ (length (to_string n) - 1) \<le> n"
proof (induction n rule: to_string.induct)
  case (1 n)
  {
    case 1
    show ?case
    proof (cases "n < 10")
      case False
      then have "n div 10 < 10 ^ length (to_string (n div 10))" using "1.IH"(1) by blast
      then have "n < 10 * 10 ^ length (to_string (n div 10))" by linarith
      then show ?thesis using False by (subst to_string.simps) simp
    qed (subst to_string.simps, simp)
  next
    case 2
    show ?case
    proof (cases "n < 10")
      case True
      then show ?thesis using 2 by (subst to_string.simps) simp
    next
      case False
      then have "10 ^ (length (to_string (n div 10)) - 1) \<le> n div 10" using "1.IH"(2) by simp
      then have "10 * 10 ^ (length (to_string (n div 10)) - 1) \<le> n" by linarith
      moreover have "0 < length (to_string (n div 10))" by simp
      ultimately show ?thesis using False
        by (subst to_string.simps) (simp del: length_greater_0_conv flip: power_Suc)
    qed
  }
qed

lemma to_string_short: "n < 10 ^ k \<Longrightarrow> 0 < k \<Longrightarrow> length (to_string n) \<le> k"
proof (rule ccontr)
  assume n: "n < 10 ^ k" "0 < k" "\<not> length (to_string n) \<le> k"
  show False
  proof (cases "n = 0")
    case True
    then show False using n(2,3) by (simp add: to_string.simps)
  next
    case False
    then have "10 ^ (length (to_string n) - 1) \<le> n" using to_string_length(2) by simp
    moreover have "(10 :: nat) ^ k \<le> 10 ^ (length (to_string n) - 1)" using n(3) by (intro power_increasing) auto
    ultimately show False using n(1) by linarith
  qed
qed

text \<open>The decimal exponent of a positive rational.\<close>

lemma decimal_exponent_bounds:
  assumes "0 < x"
  shows "pow10 (decimal_exponent x) \<le> x" "x < pow10 (decimal_exponent x + 1)"
proof -
  obtain p q where pq: "quotient_of x = (p, q)" by (cases "quotient_of x")
  have q: "0 < q" using quotient_of_denom_pos [OF pq] .
  have x: "x = of_int p / of_int q" using quotient_of_div [OF pq] .
  have p: "0 < p" using assms q by (simp add: x zero_less_divide_iff)
  define lp lq where "lp = length (to_string (nat p))" and "lq = length (to_string (nat q))"
  have P: "of_int p < pow10 (int lp)" "pow10 (int lp - 1) \<le> of_int p"
    and Q: "of_int q < pow10 (int lq)" "pow10 (int lq - 1) \<le> of_int q"
  proof -
    have bounds: "of_int k < pow10 (int (length (to_string (nat k))))"
      "pow10 (int (length (to_string (nat k))) - 1) \<le> of_int k" if "0 < k" for k
    proof -
      have "of_nat (nat k) < (of_nat (10 ^ length (to_string (nat k))) :: rat)"
        using to_string_length(1) of_nat_less_iff by blast
      then show "of_int k < pow10 (int (length (to_string (nat k))))"
        using that by (simp add: pow10_nat)
      define l where "l = length (to_string (nat k))"
      have "0 < l" by (simp add: l_def)
      then have l: "int l - 1 = int (l - 1)" by linarith
      have "10 ^ (l - 1) \<le> nat k" using to_string_length(2) [of "nat k"] that unfolding l_def by simp
      then have "(of_nat (10 ^ (l - 1)) :: rat) \<le> of_nat (nat k)" by (rule of_nat_mono)
      moreover have "(of_nat (nat k) :: rat) = of_int k" using that by simp
      ultimately have "pow10 (int l - 1) \<le> of_int k" unfolding l pow10_nat by simp
      then show "pow10 (int (length (to_string (nat k))) - 1) \<le> of_int k" unfolding l_def .
    qed
    show "of_int p < pow10 (int lp)" "pow10 (int lp - 1) \<le> of_int p"
      unfolding lp_def by (rule bounds [OF p])+
    show "of_int q < pow10 (int lq)" "pow10 (int lq - 1) \<le> of_int q"
      unfolding lq_def by (rule bounds [OF q])+
  qed
  have low: "pow10 (int lp - int lq - 1) \<le> x"
  proof -
    have "pow10 (int lp - int lq - 1) * of_int q \<le> pow10 (int lp - int lq - 1) * pow10 (int lq)"
      using Q(1) by (intro mult_left_mono) (auto intro: less_imp_le)
    also have "\<dots> = pow10 (int lp - 1)" by (simp flip: pow10_add)
    finally show ?thesis using P(2) q by (simp add: x pos_le_divide_eq)
  qed
  have high: "x < pow10 (int lp - int lq + 1)"
  proof -
    have "of_int p < pow10 (int lp - int lq + 1) * pow10 (int lq - 1)" using P(1) by (simp flip: pow10_add)
    also have "\<dots> \<le> pow10 (int lp - int lq + 1) * of_int q"
      using Q(2) by (intro mult_left_mono) (auto intro: less_imp_le)
    finally show ?thesis using q by (simp add: x pos_divide_less_eq)
  qed
  have e: "decimal_exponent x = (if pow10 (int lp - int lq) \<le> x then int lp - int lq else int lp - int lq - 1)"
    by (simp add: decimal_exponent_def pq lp_def lq_def Let_def)
  show "pow10 (decimal_exponent x) \<le> x" "x < pow10 (decimal_exponent x + 1)"
    using low high by (auto simp: e not_le)
qed

section \<open>Texts \<open>std::stod\<close> accepts\<close>

text \<open>A number as it is written: a sign, digits, perhaps a point with more digits, perhaps an exponent.\<close>

definition decimal_text :: "bool \<Rightarrow> string \<Rightarrow> string \<Rightarrow> string \<Rightarrow> string" where
  "decimal_text negative w f ex =
     (if negative then [CHR ''-''] else []) @ w @ (if f = [] then [] else CHR ''.'' # f) @ ex"

lemma stod_decimal_text:
  assumes "w \<noteq> []" "list_all is_digit_char w" "list_all is_digit_char f"
    "\<And>c cs. ex = c # cs \<Longrightarrow> c \<noteq> CHR ''.'' \<and> \<not> is_digit_char c"
  shows "stod (decimal_text negative w f ex) =
     (let x = of_nat (digits_value 0 (w @ f)) * pow10 (take_exponent ex - int (length f)); v = rnd x
      in if v \<ge> pow2 1024 \<or> (x \<noteq> 0 \<and> x < pow2 (- 1022)) then None else Some (if negative then - v else v))"
proof -
  let ?frac = "if f = [] then [] else CHR ''.'' # f"
  have ex: "takeWhile is_digit_char ex = []" "dropWhile is_digit_char ex = ex"
    using assms(4) by (cases ex; simp)+
  have point: "\<not> is_digit_char CHR ''.''" by (simp add: is_digit_char_def)
  have digits: "\<forall>c \<in> set w. is_digit_char c" "\<forall>c \<in> set f. is_digit_char c"
    using assms(2,3) by (simp_all add: list_all_iff)
  obtain d ds where d: "w = d # ds" "is_digit_char d" using assms(1) digits by (cases w) auto
  have sign: "take_sign (decimal_text negative w f ex) = (negative, w @ ?frac @ ex)"
    using digit_facts [OF d(2)] by (simp add: take_sign_def decimal_text_def d(1))
  have w: "takeWhile is_digit_char (w @ ?frac @ ex) = w" "dropWhile is_digit_char (w @ ?frac @ ex) = ?frac @ ex"
    using digits(1) ex point by (auto simp: takeWhile_append2 dropWhile_append2)
  have f: "(case ?frac @ ex of c # cs \<Rightarrow> if c = CHR ''.'' then (takeWhile is_digit_char cs, dropWhile is_digit_char cs)
         else ([], ?frac @ ex) | [] \<Rightarrow> ([], [])) = (f, ex)"
  proof (cases "f = []")
    case True
    then show ?thesis using assms(4) by (cases ex) auto
  next
    case False
    then show ?thesis using digits(2) ex by (simp add: takeWhile_append2 dropWhile_append2)
  qed
  show ?thesis
    unfolding stod_def Let_def sign prod.case w f using assms(1) by simp
qed

lemma digits_value_bound:
  "list_all is_digit_char s \<Longrightarrow> digits_value acc s < (acc + 1) * 10 ^ length s"
proof (induction s arbitrary: acc)
  case (Cons c cs)
  have "digits_value (10 * acc + (of_char c - 48)) cs < (10 * acc + (of_char c - 48) + 1) * 10 ^ length cs"
    using Cons by simp
  moreover have "is_digit_char c" using Cons.prems by simp
  then have "of_char c - 48 \<le> (9 :: nat)" unfolding is_digit_char_def by linarith
  then have "10 * acc + (of_char c - 48) + 1 \<le> 10 * (acc + 1)" by simp
  then have "(10 * acc + (of_char c - 48) + 1) * 10 ^ length cs \<le> 10 * (acc + 1) * 10 ^ length cs"
    by (rule mult_le_mono1)
  ultimately have "digits_value (10 * acc + (of_char c - 48)) cs < 10 * (acc + 1) * 10 ^ length cs"
    by (rule less_le_trans)
  also have "\<dots> = (acc + 1) * 10 ^ length (c # cs)" by (simp add: algebra_simps)
  finally show ?case by simp
qed simp

lemma double_range:
  "pow10 306 \<le> pow2 1023" "pow2 (- 1022) \<le> pow10 (- 306)" "pow2 1023 < pow2 1024" "rnd (pow2 1023) = pow2 1023"
proof -
  show "pow10 306 \<le> pow2 1023" by (simp add: pow10_def pow2_def)
  have "(10 :: rat) ^ 306 \<le> 2 ^ 1022" by simp
  then show "pow2 (- 1022) \<le> pow10 (- 306)" by (simp add: pow10_def pow2_def frac_le)
  show "pow2 1023 < pow2 1024" by (simp add: pow2_def)
  show "rnd (pow2 1023) = pow2 1023" using rnd_scale [of 1 1023] rnd_of_int [of 1] by simp
qed

lemma stod_in_range:
  assumes "w \<noteq> []" "list_all is_digit_char w" "list_all is_digit_char f"
    "\<And>c cs. ex = c # cs \<Longrightarrow> c \<noteq> CHR ''.'' \<and> \<not> is_digit_char c"
    "take_exponent ex + int (length w) \<le> 306" "- 306 \<le> take_exponent ex - int (length f)"
  shows "stod (decimal_text negative w f ex) \<noteq> None"
proof -
  define e n where "e = take_exponent ex - int (length f)" and "n = digits_value 0 (w @ f)"
  have "n < 10 ^ (length w + length f)"
    using digits_value_bound [of "w @ f" 0] assms(2,3) by (simp add: n_def)
  then have "(of_nat n :: rat) < of_nat (10 ^ (length w + length f))" by (rule of_nat_less_iff [THEN iffD2])
  then have "of_nat n < pow10 (int (length w + length f))" unfolding pow10_nat .
  then have "of_nat n * pow10 e < pow10 (int (length w + length f)) * pow10 e" by (rule mult_strict_right_mono) simp
  also have "\<dots> = pow10 (take_exponent ex + int (length w))" by (simp add: e_def algebra_simps flip: pow10_add)
  also have "\<dots> \<le> pow2 1023" using pow10_mono [OF assms(5)] double_range(1) by linarith
  finally have "rnd (of_nat n * pow10 e) \<le> pow2 1023"
    using rnd_mono [of "of_nat n * pow10 e" "pow2 1023"] double_range(4) by simp
  then have high: "rnd (of_nat n * pow10 e) < pow2 1024" using double_range(3) by linarith
  have low: "of_nat n * pow10 e = 0 \<or> pow2 (- 1022) \<le> of_nat n * pow10 e"
  proof (cases "n = 0")
    case False
    have "1 * pow10 e \<le> of_nat n * pow10 e" using False by (intro mult_right_mono) (auto intro: less_imp_le)
    moreover have "pow10 (- 306) \<le> pow10 e" using assms(6) by (intro pow10_mono) (simp add: e_def)
    ultimately show ?thesis using double_range(2) by linarith
  qed simp
  have "stod (decimal_text negative w f ex) =
      Some (if negative then - rnd (of_nat n * pow10 e) else rnd (of_nat n * pow10 e))"
    using stod_decimal_text [OF assms(1-3), of ex negative] assms(4) high low
    by (auto simp: Let_def e_def n_def)
  then show ?thesis by simp
qed

section \<open>The six digits\<close>

text \<open>A text \<open>std::stod\<close> accepts because its exponent is far from the limits.\<close>

definition safe_text :: "string \<Rightarrow> bool" where
  "safe_text s \<longleftrightarrow> (\<exists>w f ex. s = decimal_text False w f ex \<and> w \<noteq> [] \<and> list_all is_digit_char w \<and>
     list_all is_digit_char f \<and> (\<forall>c cs. ex = c # cs \<longrightarrow> c \<noteq> CHR ''.'' \<and> \<not> is_digit_char c) \<and>
     take_exponent ex + int (length w) \<le> 306 \<and> - 306 \<le> take_exponent ex - int (length f))"

lemma safe_text_stod: "safe_text s \<Longrightarrow> stod s \<noteq> None \<and> stod (CHR ''-'' # s) \<noteq> None"
proof -
  assume "safe_text s"
  then obtain w f ex where s: "s = decimal_text False w f ex" "w \<noteq> []" "list_all is_digit_char w"
    "list_all is_digit_char f" "\<And>c cs. ex = c # cs \<Longrightarrow> c \<noteq> CHR ''.'' \<and> \<not> is_digit_char c"
    "take_exponent ex + int (length w) \<le> 306" "- 306 \<le> take_exponent ex - int (length f)"
    by (auto simp: safe_text_def)
  have "CHR ''-'' # s = decimal_text True w f ex" by (simp add: s(1) decimal_text_def)
  then show ?thesis using stod_in_range [OF s(2-7), where negative = False] stod_in_range [OF s(2-7), where negative = True] s(1) by simp
qed

lemma digits_value_zeros: "digits_value 0 (replicate n CHR ''0'' @ s) = digits_value 0 s"
  by (induction n) simp_all

lemma to_string_all_digits: "list_all is_digit_char (to_string n)"
  using to_string_digits by (simp add: list_all_iff)

lemma pad_left_digits: "list_all is_digit_char (pad_left k (to_string n))"
  using to_string_digits by (auto simp: pad_left_def list_all_iff is_digit_char_def)

lemma strip_zeros_digits: "list_all is_digit_char s \<Longrightarrow> list_all is_digit_char (strip_zeros s)"
  using strip_zeros_subset [of s] by (auto simp: list_all_iff)

lemma strip_zeros_length: "length (strip_zeros s) \<le> length s"
  using length_dropWhile_le [of "\<lambda>c. c = CHR ''0''" "rev s"] by (simp add: strip_zeros_def)

lemma written_exponent:
  "take_exponent (''e'' @ (if e < 0 then ''-'' else ''+'') @ pad_left 2 (to_string (nat \<bar>e\<bar>))) = e"
proof -
  have digits: "takeWhile is_digit_char (pad_left 2 (to_string n)) = pad_left 2 (to_string n)" for n
    using pad_left_digits [of 2 n] by (simp add: list_all_iff)
  have number: "digits_value 0 (pad_left 2 (to_string n)) = n" for n
    by (simp add: pad_left_def digits_value_zeros)
  show ?thesis by (simp add: take_exponent_def take_sign_def digits number)
qed

lemma six_digits:
  assumes "0 < x" "m = nat (round_half_even (x / pow10 (decimal_exponent x - 5)))"
  shows "100000 \<le> m \<and> m \<le> 1000000"
proof -
  let ?y = "x / pow10 (decimal_exponent x - 5)"
  note b = decimal_exponent_bounds [OF assms(1)]
  have "pow10 5 * pow10 (decimal_exponent x - 5) \<le> x" using b(1) by (simp flip: pow10_add)
  then have low: "100000 \<le> ?y" by (simp add: pos_le_divide_eq pow10_def [of 5])
  have "x < pow10 6 * pow10 (decimal_exponent x - 5)" using b(2) by (simp add: add.commute flip: pow10_add)
  then have high: "?y < 1000000" by (simp add: pos_divide_less_eq pow10_def [of 6])
  have "100000 \<le> round_half_even ?y" "round_half_even ?y \<le> 1000000"
    using low high round_half_even_ge [of 100000 ?y] round_half_even_le [of ?y 1000000] by simp_all
  then show ?thesis using assms(2) by auto
qed

lemma with_fraction_decimal: "with_fraction i f @ ex = decimal_text False i (strip_zeros f) ex"
  by (simp add: with_fraction_def decimal_text_def)

text \<open>Both notations of \<open>%g\<close>.\<close>

lemma safe_fixed:
  assumes "m < 1000000" "places \<le> 9"
  shows "safe_text (with_fraction (to_string (m div 10 ^ places)) (pad_left places (to_string (m mod 10 ^ places))))"
proof -
  let ?w = "to_string (m div 10 ^ places)" and ?f = "strip_zeros (pad_left places (to_string (m mod 10 ^ places)))"
  have "m div 10 ^ places \<le> m" "m mod 10 ^ places \<le> m" by simp_all
  then have "m div 10 ^ places < 1000000" "m mod 10 ^ places < 1000000" using assms(1) by linarith+
  then have w: "length ?w \<le> 6" and f: "length (to_string (m mod 10 ^ places)) \<le> 6"
    using to_string_short [of _ 6] by simp_all
  have "length ?f \<le> max places (length (to_string (m mod 10 ^ places)))"
    by (rule order_trans [OF strip_zeros_length]) (simp add: pad_left_def)
  then have "length ?f \<le> 9" using f assms(2) by simp
  then show ?thesis
    using w with_fraction_decimal [of ?w _ "[]"] to_string_all_digits strip_zeros_digits [OF pad_left_digits]
    unfolding safe_text_def
    by (intro exI [of _ ?w] exI [of _ ?f] exI [of _ "[]"]) (simp add: take_exponent_def)
qed

lemma safe_exponent:
  assumes "m < 1000000" "- 295 \<le> e" "e \<le> 301"
  shows "safe_text (with_fraction (to_string (m div 100000)) (pad_left 5 (to_string (m mod 100000))) @
     ''e'' @ (if e < 0 then ''-'' else ''+'') @ pad_left 2 (to_string (nat \<bar>e\<bar>)))"
proof -
  let ?w = "to_string (m div 100000)" and ?f = "strip_zeros (pad_left 5 (to_string (m mod 100000)))"
  let ?ex = "''e'' @ (if e < 0 then ''-'' else ''+'') @ pad_left 2 (to_string (nat \<bar>e\<bar>))"
  have "m div 100000 < 10 ^ 1" "m mod 100000 < 10 ^ 5" using assms(1) by simp_all
  then have w: "length ?w \<le> 1" and f: "length (to_string (m mod 100000)) \<le> 5"
    using to_string_short [of _ 1] to_string_short [of _ 5] by simp_all
  have "length ?f \<le> max 5 (length (to_string (m mod 100000)))"
    by (rule order_trans [OF strip_zeros_length]) (simp add: pad_left_def)
  then have "length ?f \<le> 5" using f by simp
  moreover have "\<not> is_digit_char CHR ''e''" by (simp add: is_digit_char_def)
  ultimately show ?thesis
    using w with_fraction_decimal [of ?w _ ?ex] to_string_all_digits strip_zeros_digits [OF pad_left_digits]
      written_exponent [of e] assms(2,3)
    unfolding safe_text_def
    by (intro exI [of _ ?w] exI [of _ ?f] exI [of _ ?ex]) auto
qed

lemma safe_g6:
  assumes "pow10 (- 290) \<le> x" "x \<le> pow10 300"
  shows "safe_text (format_g6_positive x)"
proof -
  have x: "0 < x" using assms(1) pow10_pos [of "- 290"] by linarith
  define e0 where "e0 = decimal_exponent x"
  define m0 where "m0 = nat (round_half_even (x / pow10 (e0 - 5)))"
  define m e where "m = (if m0 = 1000000 then 100000 else m0)" and "e = (if m0 = 1000000 then e0 + 1 else e0)"
  have m: "m < 1000000" using six_digits [OF x, of m0] by (auto simp: m_def m0_def e0_def)
  have "pow10 e0 \<le> pow10 300" using decimal_exponent_bounds(1) [OF x] assms(2) by (simp add: e0_def)
  then have high: "e0 \<le> 300" unfolding pow10_le_iff .
  have "pow10 (- 290) < pow10 (e0 + 1)" using decimal_exponent_bounds(2) [OF x] assms(1) by (simp add: e0_def)
  then have low: "- 291 < e0" unfolding pow10_less_iff by simp
  have range: "- 295 \<le> e" "e \<le> 301" using low high by (simp_all add: e_def)
  have g6: "format_g6_positive x =
      (if - 4 \<le> e \<and> e < 6
       then with_fraction (to_string (m div 10 ^ nat (5 - e))) (pad_left (nat (5 - e)) (to_string (m mod 10 ^ nat (5 - e))))
       else with_fraction (to_string (m div 100000)) (pad_left 5 (to_string (m mod 100000))) @
         ''e'' @ (if e < 0 then ''-'' else ''+'') @ pad_left 2 (to_string (nat \<bar>e\<bar>)))"
    by (simp add: format_g6_positive_def Let_def m_def e_def m0_def e0_def)
  show ?thesis
  proof (cases "- 4 \<le> e \<and> e < 6")
    case True
    then show ?thesis using safe_fixed [OF m, of "nat (5 - e)"] by (simp add: g6 nat_le_iff)
  next
    case False
    then show ?thesis using safe_exponent [OF m range] by (simp only: g6 if_False)
  qed
qed

text \<open>So a double is written as a text that is read back, unless it is near the limits.\<close>

definition ordinary_number :: "double \<Rightarrow> bool" where
  "ordinary_number v \<longleftrightarrow> v = 0 \<or> pow10 (- 290) \<le> \<bar>v\<bar> \<and> \<bar>v\<bar> \<le> pow10 300"

lemma ordinary_number_readable:
  assumes "ordinary_number v"
  shows "readable_number v b"
proof (cases "whole v b")
  case True
  then have "exact_number v b" by (simp add: exact_number_def)
  then show ?thesis using exact_number_reread by blast
next
  case False
  have small: "whole v b" if "of_int \<lfloor>v\<rfloor> = v" "\<bar>v\<bar> < (if b then 9007199254740992 else 1000000000000000)"
  proof -
    have "of_int \<bar>\<lfloor>v\<rfloor>\<bar> = \<bar>v\<bar>" by (simp add: that(1))
    then have "of_int \<bar>\<lfloor>v\<rfloor>\<bar> < (of_int (if b then 9007199254740992 else 1000000000000000) :: rat)"
      using that(2) by (cases b) simp_all
    then show ?thesis unfolding of_int_less_iff whole_def using that(1) by metis
  qed
  have g6: "format_number v b = format_g6 v"
  proof (cases "of_int \<lfloor>v\<rfloor> = v")
    case True
    then have "\<not> \<bar>v\<bar> < (if b then 9007199254740992 else 1000000000000000)" using small False by blast
    then show ?thesis by (cases b) (simp_all add: format_number_def)
  qed (simp add: format_number_def)
  have "v \<noteq> 0" using False small by (cases b) auto
  then consider "0 < v" "safe_text (format_g6_positive v)" | "v < 0" "safe_text (format_g6_positive (- v))"
    using assms safe_g6 [of v] safe_g6 [of "- v"] by (cases "0 < v") (auto simp: ordinary_number_def)
  then show ?thesis
    unfolding readable_number_def g6 using safe_text_stod by cases (auto simp: format_g6_def)
qed

end
