(* ===== verification/Metrics_Store.thy ===== *)
theory Metrics_Store
  imports Json_Numbers "HOL-Library.Sublist" "HOL-Library.List_Lexorder" "HOL-Library.Char_ord"
begin

unbundle bit_operations_syntax

text \<open>
  \<open>src/src/metrics/metrics_store.{hpp,cpp}\<close>: metric records, their JSON form, and the append-only store
  of one JSON object per line. A \<open>std::map<std::string, double>\<close> is the list of its entries in key
  order. The files the store touches are \<open>text_files\<close>: what each path holds, and whether it can be
  opened for writing.
\<close>

section \<open>Records\<close>

datatype outcome = Pass | Fail | Skipped
datatype severity = Critical | Major | Minor | Info

fun outcome_name :: "outcome \<Rightarrow> string" where
  "outcome_name Pass = ''PASS''"
| "outcome_name Fail = ''FAIL''"
| "outcome_name Skipped = ''SKIPPED''"

fun severity_name :: "severity \<Rightarrow> string" where
  "severity_name Critical = ''CRITICAL''"
| "severity_name Major = ''MAJOR''"
| "severity_name Minor = ''MINOR''"
| "severity_name Info = ''INFO''"

definition outcome_from_name :: "string \<Rightarrow> outcome" where
  "outcome_from_name name =
     (if name = ''PASS'' then Pass else if name = ''FAIL'' then Fail else Skipped)"

definition severity_from_name :: "string \<Rightarrow> severity" where
  "severity_from_name name =
     (if name = ''CRITICAL'' then Critical else if name = ''MAJOR'' then Major
      else if name = ''MINOR'' then Minor else Info)"

record metric_record =
  test_id :: string
  title :: string
  rfc_clause :: string
  record_severity :: severity
  record_outcome :: outcome
  intensity :: "double option"
  intensity_label :: string
  record_seed :: u64
  record_narrative :: string
  integrity_violation :: bool
  ungraceful_failure :: bool
  counters :: "(string \<times> double) list"
  record_implementation :: string

definition empty_metric_record :: metric_record where
  "empty_metric_record =
     \<lparr>test_id = [], title = [], rfc_clause = [], record_severity = Info, record_outcome = Skipped,
      intensity = None, intensity_label = [], record_seed = 0, record_narrative = [],
      integrity_violation = False, ungraceful_failure = False, counters = [],
      record_implementation = []\<rparr>"

text \<open>\<open>counters[key] = value\<close> on the ordered map.\<close>

fun set_counter :: "(string \<times> double) list \<Rightarrow> string \<Rightarrow> double \<Rightarrow> (string \<times> double) list" where
  "set_counter [] key v = [(key, v)]"
| "set_counter ((k, w) # cs) key v =
     (if k = key then (k, v) # cs
      else if key < k then (key, v) # (k, w) # cs
      else (k, w) # set_counter cs key v)"

definition counters_to_json :: "(string \<times> double) list \<Rightarrow> json" where
  "counters_to_json cs = fold (\<lambda>(k, v) j. json_set j k (json_number v)) cs (JObject [])"

definition to_json :: "metric_record \<Rightarrow> json" where
  "to_json r =
     (let j = json_set (JObject []) ''type'' (JString ''metric'');
          j = json_set j ''test_id'' (JString (test_id r));
          j = json_set j ''title'' (JString (title r));
          j = json_set j ''rfc_clause'' (JString (rfc_clause r));
          j = json_set j ''severity'' (JString (severity_name (record_severity r)));
          j = json_set j ''outcome'' (JString (outcome_name (record_outcome r)));
          j = (case intensity r of Some v \<Rightarrow> json_set j ''intensity'' (json_number v) | None \<Rightarrow> j);
          j = json_set j ''intensity_label'' (JString (intensity_label r));
          j = json_set j ''seed'' (json_integer (sint (record_seed r)));
          j = json_set j ''narrative'' (JString (record_narrative r));
          j = json_set j ''integrity_violation'' (JBool (integrity_violation r));
          j = json_set j ''ungraceful_failure'' (JBool (ungraceful_failure r));
          j = json_set j ''implementation_name'' (JString (record_implementation r))
      in json_set j ''counters'' (counters_to_json (counters r)))"

definition counters_from_json :: "json \<Rightarrow> (string \<times> double) list" where
  "counters_from_json j = fold (\<lambda>(k, v) cs. set_counter cs k (as_number v)) (members j) []"

definition is_json_number :: "json \<Rightarrow> bool" where
  "is_json_number j = (case j of JNumber _ _ \<Rightarrow> True | _ \<Rightarrow> False)"

definition from_json :: "json \<Rightarrow> metric_record" where
  "from_json j =
     (let d = empty_metric_record
      in \<lparr>test_id = (if json_has j ''test_id'' then as_string (json_at j ''test_id'') else test_id d),
          title = (if json_has j ''title'' then as_string (json_at j ''title'') else title d),
          rfc_clause = (if json_has j ''rfc_clause'' then as_string (json_at j ''rfc_clause'')
                        else rfc_clause d),
          record_severity = (if json_has j ''severity''
                             then severity_from_name (as_string (json_at j ''severity''))
                             else record_severity d),
          record_outcome = (if json_has j ''outcome''
                            then outcome_from_name (as_string (json_at j ''outcome''))
                            else record_outcome d),
          intensity = (if json_has j ''intensity'' \<and> is_json_number (json_at j ''intensity'')
                       then Some (as_number (json_at j ''intensity'')) else intensity d),
          intensity_label = (if json_has j ''intensity_label''
                             then as_string (json_at j ''intensity_label'') else intensity_label d),
          record_seed = (if json_has j ''seed'' then word_of_int (as_integer (json_at j ''seed''))
                         else record_seed d),
          record_narrative = (if json_has j ''narrative'' then as_string (json_at j ''narrative'')
                              else record_narrative d),
          integrity_violation = (if json_has j ''integrity_violation''
                                 then as_bool (json_at j ''integrity_violation'')
                                 else integrity_violation d),
          ungraceful_failure = (if json_has j ''ungraceful_failure''
                                then as_bool (json_at j ''ungraceful_failure'')
                                else ungraceful_failure d),
          counters = (if json_has j ''counters'' then counters_from_json (json_at j ''counters'')
                      else counters d),
          record_implementation = (if json_has j ''implementation_name''
                                   then as_string (json_at j ''implementation_name'')
                                   else record_implementation d)\<rparr>)"

section \<open>The store\<close>

record text_files =
  text_of :: "string \<Rightarrow> string option"
  can_write :: "string \<Rightarrow> bool"

record metrics_store =
  store_path :: string
  store_implementation :: string
  store_records :: "metric_record list"
  store_is_open :: bool

definition empty_store :: metrics_store where
  "empty_store = \<lparr>store_path = [], store_implementation = [], store_records = [], store_is_open = False\<rparr>"

definition header_json :: "string \<Rightarrow> json" where
  "header_json implementation =
     json_set (json_set (json_set (JObject []) ''type'' (JString ''header''))
       ''format'' (JString ''tftp-test-harness-metrics/1''))
       ''implementation_name'' (JString implementation)"

definition store_open ::
  "text_files \<Rightarrow> string \<Rightarrow> string \<Rightarrow> metrics_store \<Rightarrow> bool \<times> text_files \<times> metrics_store" where
  "store_open files path implementation st =
     (let st = st\<lparr>store_path := path, store_implementation := implementation, store_records := []\<rparr>
      in if \<not> can_write files path then (False, files, st)
         else (True,
               files\<lparr>text_of := (text_of files)(path \<mapsto>
                 serialize (header_json implementation) False @ [CHR 0x0A])\<rparr>,
               st\<lparr>store_is_open := True\<rparr>))"

definition record_line :: "metric_record \<Rightarrow> string" where
  "record_line r = serialize (to_json r) False @ [CHR 0x0A]"

definition store_append ::
  "metric_record \<Rightarrow> text_files \<times> metrics_store \<Rightarrow> text_files \<times> metrics_store" where
  "store_append r fs_st =
     (let (files, st) = fs_st;
          st = st\<lparr>store_records := store_records st @ [r]\<rparr>;
          before = (case text_of files (store_path st) of None \<Rightarrow> [] | Some t \<Rightarrow> t)
      in if \<not> store_is_open st then (files, st)
         else if can_write files (store_path st)
         then (files\<lparr>text_of := (text_of files)(store_path st \<mapsto> before @ record_line r)\<rparr>, st)
         else (files, st))"

definition store_close :: "metrics_store \<Rightarrow> metrics_store" where
  "store_close st = st\<lparr>store_is_open := False\<rparr>"

text \<open>\<open>std::getline\<close> until the end of the file.\<close>

function lines_of :: "string \<Rightarrow> string list" where
  "lines_of s =
     (if s = [] then []
      else let line = takeWhile (\<lambda>c. c \<noteq> CHR 0x0A) s; rest = dropWhile (\<lambda>c. c \<noteq> CHR 0x0A) s
           in line # lines_of (tl rest))"
  by pat_completeness auto
termination
proof (relation "measure length")
  fix s :: string and line rest
  assume s: "s \<noteq> []" and rest: "rest = dropWhile (\<lambda>c. c \<noteq> CHR 0x0A) s"
  have "length rest \<le> length s" by (simp add: rest length_dropWhile_le)
  then show "(tl rest, s) \<in> measure length" using s by (cases rest) auto
qed simp

declare lines_of.simps [simp del]

definition load_line :: "string \<Rightarrow> metrics_store \<Rightarrow> metrics_store" where
  "load_line line st =
     (if line = [] then st
      else case parse_json line of
             None \<Rightarrow> st
           | Some value \<Rightarrow>
               if \<not> json_has value ''type'' then st
               else
                 let kind = as_string (json_at value ''type'')
                 in if kind = ''header'' then
                      (if json_has value ''implementation_name''
                       then st\<lparr>store_implementation := as_string (json_at value ''implementation_name'')\<rparr>
                       else st)
                    else if kind = ''metric'' then
                      st\<lparr>store_records := store_records st @ [from_json value]\<rparr>
                    else st)"

definition store_load :: "text_files \<Rightarrow> string \<Rightarrow> metrics_store \<Rightarrow> bool \<times> metrics_store" where
  "store_load files path out =
     (case text_of files path of
        None \<Rightarrow> (False, out)
      | Some t \<Rightarrow>
          (True, fold load_line (lines_of t) (out\<lparr>store_path := path, store_records := []\<rparr>)))"

section \<open>A record survives its JSON form\<close>

definition sorted_counters :: "(string \<times> double) list \<Rightarrow> bool" where
  "sorted_counters cs \<longleftrightarrow> sorted_wrt (<) (map fst cs)"

lemma set_counter_last:
  "\<forall>k \<in> fst ` set cs. k < key \<Longrightarrow> set_counter cs key v = cs @ [(key, v)]"
  by (induction cs key v rule: set_counter.induct) auto

lemma fold_set_counter:
  "sorted_counters (acc @ cs) \<Longrightarrow> fold (\<lambda>(k, v) cs. set_counter cs k v) cs acc = acc @ cs"
proof (induction cs arbitrary: acc)
  case (Cons c cs)
  obtain k v where c: "c = (k, v)" by (cases c)
  have "\<forall>k' \<in> fst ` set acc. k' < k" using Cons.prems by (auto simp: c sorted_counters_def sorted_wrt_append)
  then have "set_counter acc k v = acc @ [c]" by (simp add: set_counter_last c)
  then show ?case using Cons.IH [of "acc @ [c]"] Cons.prems by (simp add: c)
qed simp

lemma sorted_counters_distinct: "sorted_counters cs \<Longrightarrow> distinct (map fst cs)"
  by (simp add: sorted_counters_def strict_sorted_iff)

lemma counters_to_json_eq:
  assumes "distinct (map fst cs)"
  shows "counters_to_json cs = JObject (map (\<lambda>(k, v). (k, json_number v)) cs)"
proof -
  have "fold (\<lambda>(k, v) j. json_set j k (json_number v)) cs (JObject acc) =
      JObject (acc @ map (\<lambda>(k, v). (k, json_number v)) cs)"
    if "distinct (map fst acc @ map fst cs)" for acc
    using that assms
  proof (induction cs arbitrary: acc)
    case (Cons c cs)
    obtain k v where c: "c = (k, v)" by (cases c)
    have "k \<notin> fst ` set acc" using Cons.prems(1) by (auto simp: c)
    then have "json_set (JObject acc) k (json_number v) = JObject (acc @ [(k, json_number v)])"
      by (simp add: json_set_def members_def set_member_new)
    then show ?case using Cons.IH [of "acc @ [(k, json_number v)]"] Cons.prems by (simp add: c)
  qed simp
  from this [of "[]"] show ?thesis using assms by (simp add: counters_to_json_def)
qed

text \<open>
  The records the store keeps exactly: the seed's signed value is below \<open>2 ^ 53\<close> in size, and the
  intensity and the counters are numbers that JSON text keeps.
\<close>

definition exact_record :: "metric_record \<Rightarrow> bool" where
  "exact_record r \<longleftrightarrow>
     sorted_counters (counters r) \<and> (\<forall>c \<in> set (counters r). exact_number (snd c) False) \<and>
     (\<forall>v. intensity r = Some v \<longrightarrow> exact_number v False) \<and> \<bar>sint (record_seed r)\<bar> < 9007199254740992"

definition record_members :: "metric_record \<Rightarrow> (string \<times> json) list" where
  "record_members r =
     [(''type'', JString ''metric''), (''test_id'', JString (test_id r)), (''title'', JString (title r)),
      (''rfc_clause'', JString (rfc_clause r)), (''severity'', JString (severity_name (record_severity r))),
      (''outcome'', JString (outcome_name (record_outcome r)))] @
     (case intensity r of Some v \<Rightarrow> [(''intensity'', json_number v)] | None \<Rightarrow> []) @
     [(''intensity_label'', JString (intensity_label r)), (''seed'', json_integer (sint (record_seed r))),
      (''narrative'', JString (record_narrative r)),
      (''integrity_violation'', JBool (integrity_violation r)),
      (''ungraceful_failure'', JBool (ungraceful_failure r)),
      (''implementation_name'', JString (record_implementation r)),
      (''counters'', counters_to_json (counters r))]"

lemma to_json_members: "to_json r = JObject (record_members r)"
  by (cases "intensity r") (simp_all add: to_json_def record_members_def Let_def json_set_def members_def)

lemma json_integer_exact: "\<bar>n\<bar> < 9007199254740992 \<Longrightarrow> json_integer n = JNumber (of_int n) True"
  using rnd_of_int [of n] by (simp add: json_integer_def dbl_of_int_def)

lemma as_integer_exact: "\<bar>n\<bar> < 9007199254740992 \<Longrightarrow> as_integer (canonical_json (json_integer n)) = n"
  by (simp add: json_integer_exact as_integer_def as_number_def)

lemma exact_record_json: "exact_record r \<Longrightarrow> exact_json (to_json r)"
  unfolding to_json_members
  by (cases "intensity r")
    (auto simp: record_members_def exact_record_def json_integer_exact json_number_def exact_number_def
      whole_def counters_to_json_eq sorted_counters_distinct o_def split_beta)

lemma names_read_back [simp]:
  "outcome_from_name (outcome_name o') = o'" "severity_from_name (severity_name sv) = sv"
  by (cases o'; simp add: outcome_from_name_def) (cases sv; simp add: severity_from_name_def)

lemma from_json_to_json:
  assumes "exact_record r"
  shows "from_json (canonical_json (to_json r)) = r"
proof -
  have dist: "distinct (map fst (counters r))" and sort: "sorted_counters (counters r)"
    and seed: "\<bar>sint (record_seed r)\<bar> < 9007199254740992"
    using assms sorted_counters_distinct by (auto simp: exact_record_def)
  have cs: "counters_from_json (canonical_json (counters_to_json (counters r))) = counters r"
    using fold_set_counter [of "[]" "counters r"] sort
    by (simp add: counters_from_json_def counters_to_json_eq [OF dist] members_def json_number_def fold_map
        o_def case_prod_unfold as_number_def)
  have sd: "word_of_int (as_integer (canonical_json (json_integer (sint (record_seed r))))) = record_seed r"
    unfolding as_integer_exact [OF seed] by simp
  show ?thesis
    unfolding to_json_members
    by (cases "intensity r")
      (simp_all add: from_json_def record_members_def json_has_def json_at_def members_def as_string_def
        as_bool_def is_json_number_def as_number_def json_number_def cs sd empty_metric_record_def Let_def)
qed

text \<open>
  The records the store keeps at all: every intensity and counter is written as a text that denotes a
  double. \<open>reloaded\<close> is what comes back: everything but the numbers, which are those of the text.
\<close>

definition storable_record :: "metric_record \<Rightarrow> bool" where
  "storable_record r \<longleftrightarrow>
     sorted_counters (counters r) \<and> (\<forall>c \<in> set (counters r). readable_number (snd c) False) \<and>
     (\<forall>v. intensity r = Some v \<longrightarrow> readable_number v False)"

definition reloaded :: "metric_record \<Rightarrow> metric_record" where
  "reloaded r = from_json (reread_json (to_json r))"

definition same_but_numbers :: "metric_record \<Rightarrow> metric_record \<Rightarrow> bool" where
  "same_but_numbers r r' \<longleftrightarrow>
     r' = r\<lparr>intensity := intensity r', record_seed := record_seed r', counters := counters r'\<rparr> \<and>
     map fst (counters r') = map fst (counters r) \<and> (intensity r' = None \<longleftrightarrow> intensity r = None)"

lemma exact_record_storable: "exact_record r \<Longrightarrow> storable_record r"
  using exact_number_reread by (auto simp: exact_record_def storable_record_def)

lemma exact_record_reloaded: "exact_record r \<Longrightarrow> reloaded r = r"
  using from_json_to_json exact_json_reread [OF exact_record_json] by (simp add: reloaded_def)

text \<open>A seed is a 64-bit number, so the text written for it is always accepted.\<close>

lemma seed_readable: "readable_number (dbl_of_int (sint (seed :: u64))) True"
proof (rule ordinary_number_readable)
  have "- (2 ^ 63) \<le> sint seed" "sint seed \<le> 2 ^ 63" using sint_range_size [of seed] by (simp_all add: word_size)
  then have "of_int (- (2 ^ 63)) \<le> (of_int (sint seed) :: rat)" "(of_int (sint seed) :: rat) \<le> of_int (2 ^ 63)"
    unfolding of_int_le_iff by simp_all
  then have "rnd (- (2 ^ 63)) \<le> dbl_of_int (sint seed)" "dbl_of_int (sint seed) \<le> rnd (2 ^ 63)"
    unfolding dbl_of_int_def by (intro rnd_mono; simp)+
  moreover have "rnd (2 ^ 63) = 2 ^ 63" "rnd (- (2 ^ 63)) = - (2 ^ 63)" by code_simp+
  ultimately have "\<bar>dbl_of_int (sint seed)\<bar> \<le> 2 ^ 63" by (simp add: abs_le_iff)
  moreover have "(2 :: rat) ^ 63 \<le> pow10 300" by (simp add: pow10_def)
  ultimately have high: "\<bar>dbl_of_int (sint seed)\<bar> \<le> pow10 300" by (rule order_trans)
  have unit: "rnd 1 = 1" "rnd (- 1) = - 1" using rnd_of_int [of 1] rnd_of_int [of "- 1"] by simp_all
  have "1 \<le> \<bar>dbl_of_int (sint seed)\<bar>" if "sint seed \<noteq> 0"
  proof (cases "0 < sint seed")
    case True
    then have "of_int 1 \<le> (of_int (sint seed) :: rat)" unfolding of_int_le_iff by simp
    then have "1 \<le> rnd (of_int (sint seed))" using rnd_mono [of 1 "of_int (sint seed)"] unit by simp
    then show ?thesis by (simp add: dbl_of_int_def)
  next
    case False
    then have "(of_int (sint seed) :: rat) \<le> of_int (- 1)" using that unfolding of_int_le_iff by simp
    then have "rnd (of_int (sint seed)) \<le> - 1" using rnd_mono [of "of_int (sint seed)" "- 1"] unit by simp
    then show ?thesis by (simp add: dbl_of_int_def)
  qed
  moreover have "pow10 (- 290) \<le> 1" by (simp add: pow10_def)
  ultimately show "ordinary_number (dbl_of_int (sint seed))"
    using high by (cases "sint seed = 0") (auto simp: ordinary_number_def dbl_of_int_def)
qed

lemma storable_record_json: "storable_record r \<Longrightarrow> readable_json (to_json r)"
  unfolding to_json_members
  by (cases "intensity r")
    (auto simp: record_members_def storable_record_def json_integer_def json_number_def seed_readable
      counters_to_json_eq sorted_counters_distinct o_def split_beta)

lemma reread_number_is_number: "readable_number v b \<Longrightarrow> is_json_number (reread_number v b)"
  by (auto simp: readable_number_def reread_number_def is_json_number_def json_number_def json_integer_def
      split: option.splits)

lemma reloaded_same_but_numbers:
  assumes "storable_record r"
  shows "same_but_numbers r (reloaded r)"
proof -
  have sort: "sorted_counters (counters r)" and dist: "distinct (map fst (counters r))"
    using assms sorted_counters_distinct by (auto simp: storable_record_def)
  let ?cs = "map (\<lambda>(k, v). (k, as_number (reread_number v False))) (counters r)"
  have "sorted_counters ?cs" using sort by (simp add: sorted_counters_def o_def split_beta)
  then have cs: "counters_from_json (reread_json (counters_to_json (counters r))) = ?cs"
    using fold_set_counter [of "[]" ?cs]
    by (simp add: counters_from_json_def counters_to_json_eq [OF dist] members_def json_number_def fold_map
        o_def case_prod_unfold)
  have "is_json_number (reread_number v False)" if "intensity r = Some v" for v
    using assms that reread_number_is_number by (simp add: storable_record_def)
  then show ?thesis
    unfolding same_but_numbers_def reloaded_def to_json_members
    by (cases "intensity r")
      (simp_all add: from_json_def record_members_def json_has_def json_at_def members_def as_string_def
        as_bool_def json_number_def json_integer_def cs empty_metric_record_def Let_def o_def split_beta)
qed

section \<open>The file is read back, even when it is cut short\<close>

definition store_text :: "string \<Rightarrow> metric_record list \<Rightarrow> string" where
  "store_text implementation rs =
     serialize (header_json implementation) False @ [CHR 0x0A] @ concat (map record_line rs)"

lemma lines_of_Nil [simp]: "lines_of [] = []"
  by (simp add: lines_of.simps)

lemma lines_of_line: "CHR 0x0A \<notin> set line \<Longrightarrow> lines_of (line @ CHR 0x0A # rest) = line # lines_of rest"
proof -
  assume n: "CHR 0x0A \<notin> set line"
  have all: "c \<in> set line \<Longrightarrow> c \<noteq> CHR 0x0A" for c using n by auto
  have "takeWhile (\<lambda>c. c \<noteq> CHR 0x0A) (line @ CHR 0x0A # rest) = line"
    "dropWhile (\<lambda>c. c \<noteq> CHR 0x0A) (line @ CHR 0x0A # rest) = CHR 0x0A # rest"
    by (subst takeWhile_append2 dropWhile_append2; simp add: all)+
  then show ?thesis by (subst lines_of.simps) (simp add: Let_def)
qed

lemma lines_of_last: "CHR 0x0A \<notin> set line \<Longrightarrow> line \<noteq> [] \<Longrightarrow> lines_of line = [line]"
proof -
  assume n: "CHR 0x0A \<notin> set line" "line \<noteq> []"
  then have all: "\<forall>c \<in> set line. c \<noteq> CHR 0x0A" by auto
  have t: "takeWhile (\<lambda>c. c \<noteq> CHR 0x0A) line = line" using all by (simp add: takeWhile_eq_all_conv)
  have d: "dropWhile (\<lambda>c. c \<noteq> CHR 0x0A) line = []" using all by simp
  show ?thesis using n(2) by (subst lines_of.simps) (simp only: t d Let_def if_False list.sel lines_of_Nil)
qed

lemma load_record_line:
  assumes "storable_record r"
  shows "load_line (serialize (to_json r) False) st = st\<lparr>store_records := store_records st @ [reloaded r]\<rparr>"
proof -
  have "parse_json (serialize (to_json r) False) = Some (reread_json (to_json r))"
    by (rule parse_json_serialize [OF storable_record_json [OF assms]])
  moreover have "json_has (reread_json (to_json r)) ''type''"
    "as_string (json_at (reread_json (to_json r)) ''type'') = ''metric''"
    by (simp_all add: to_json_members record_members_def json_has_def json_at_def members_def as_string_def)
  moreover have "serialize (to_json r) False \<noteq> []"
    by (simp add: to_json_members serialize_def record_members_def)
  ultimately show ?thesis by (simp add: load_line_def reloaded_def)
qed

lemma load_header_line:
  "load_line (serialize (header_json n) False) st = st\<lparr>store_implementation := n\<rparr>"
proof -
  have h: "header_json n = JObject [(''type'', JString ''header''),
      (''format'', JString ''tftp-test-harness-metrics/1''), (''implementation_name'', JString n)]"
    by (simp add: header_json_def json_set_def members_def)
  have "parse_json (serialize (header_json n) False) = Some (reread_json (header_json n))"
    by (rule parse_json_serialize) (simp add: h)
  then show ?thesis
    by (simp add: load_line_def h json_has_def json_at_def members_def as_string_def serialize_def)
qed

lemma load_partial_line:
  assumes "readable_json (JObject ms)" and "serialize (JObject ms) False = p @ t" and "t \<noteq> []"
  shows "load_line p st = st"
  using serialize_object_prefix [OF assms] by (simp add: load_line_def)

lemma partial_line_lines:
  assumes "serialize j False = p @ t"
  shows "lines_of p = (if p = [] then [] else [p])"
  using lines_of_last [of p] serialize_one_line [of 0 j] assms by (auto simp: serialize_def)

lemma load_prefix:
  assumes "\<forall>r \<in> set rs. storable_record r" and "prefix p (concat (map record_line rs))"
  shows "\<exists>k. fold load_line (lines_of p) st = st\<lparr>store_records := store_records st @ take k (map reloaded rs)\<rparr> \<and>
    (\<forall>m \<le> length rs. prefix (concat (map record_line (take m rs))) p \<longrightarrow> m \<le> k)"
  using assms
proof (induction rs arbitrary: p st)
  case Nil
  then show ?case by (intro exI [of _ 0]) simp
next
  case (Cons r rs)
  let ?line = "serialize (to_json r) False"
  have r: "storable_record r" using Cons.prems(1) by simp
  have line: "record_line r = ?line @ [CHR 0x0A]" by (simp add: record_line_def)
  have one: "CHR 0x0A \<notin> set ?line" using serialize_one_line by (simp add: serialize_def)
  show ?case
  proof (cases "prefix (record_line r) p")
    case True
    then obtain p' where p': "p = record_line r @ p'" by (auto simp: prefix_def)
    then have pre: "prefix p' (concat (map record_line rs))" using Cons.prems(2) by simp
    let ?st = "st\<lparr>store_records := store_records st @ [reloaded r]\<rparr>"
    obtain k where k: "fold load_line (lines_of p') ?st = ?st\<lparr>store_records := store_records ?st @ take k (map reloaded rs)\<rparr>"
      "\<forall>m \<le> length rs. prefix (concat (map record_line (take m rs))) p' \<longrightarrow> m \<le> k"
      using Cons.IH [OF _ pre, of ?st] Cons.prems(1) by auto
    have "lines_of p = ?line # lines_of p'" using lines_of_line [OF one, of p'] by (simp add: p' line)
    then have "fold load_line (lines_of p) st = st\<lparr>store_records := store_records st @ take (Suc k) (map reloaded (r # rs))\<rparr>"
      using k(1) load_record_line [OF r] by simp
    moreover have "m \<le> Suc k" if "m \<le> length (r # rs)" "prefix (concat (map record_line (take m (r # rs)))) p" for m
      using that k(2) by (cases m) (auto simp: p')
    ultimately show ?thesis by blast
  next
    case False
    then have "prefix p (record_line r)" using Cons.prems(2) by (auto simp: prefix_append dest: prefix_same_cases)
    then have "prefix p ?line" using False line by (auto simp: prefix_snoc)
    then obtain t where t: "?line = p @ t" by (auto simp: prefix_def)
    have none: "m \<le> 0" if "prefix (concat (map record_line (take m (r # rs)))) p" for m
      using that False by (cases m) (auto dest: append_prefixD)
    show ?thesis
    proof (cases "t = []")
      case True
      then have p: "p = ?line" using t by simp
      have "p \<noteq> []" unfolding p by (simp add: to_json_members serialize_def record_members_def)
      then have "fold load_line (lines_of p) st = st\<lparr>store_records := store_records st @ take 1 (map reloaded (r # rs))\<rparr>"
        using lines_of_last [of p] one load_record_line [OF r] by (simp add: p)
      then show ?thesis using none by (metis le_0_eq le_SucI One_nat_def)
    next
      case nonempty: False
      have "load_line p st = st"
        using load_partial_line [OF _ _ nonempty] storable_record_json [OF r] t by (simp add: to_json_members)
      then have "fold load_line (lines_of p) st = st\<lparr>store_records := store_records st @ take 0 (map reloaded (r # rs))\<rparr>"
        using partial_line_lines [OF t] by simp
      then show ?thesis using none by blast
    qed
  qed
qed

lemma open_and_append:
  assumes "can_write files path"
  shows "\<exists>files' st'. fold store_append rs (snd (store_open files path implementation st)) = (files', st') \<and>
    store_records st' = rs \<and> store_path st' = path \<and>
    text_of files' path = Some (store_text implementation rs)"
proof (induction rs rule: rev_induct)
  case Nil
  then show ?case using assms by (simp add: store_open_def Let_def store_text_def)
next
  case (snoc r rs)
  then obtain files' st' where IH:
    "fold store_append rs (snd (store_open files path implementation st)) = (files', st')"
    "store_records st' = rs" "store_path st' = path" "text_of files' path = Some (store_text implementation rs)"
    by blast
  have keep: "store_is_open (snd (fold store_append rs fs)) = store_is_open (snd fs) \<and>
      can_write (fst (fold store_append rs fs)) = can_write (fst fs)" for fs rs
    by (induction rs arbitrary: fs) (auto simp: store_append_def Let_def split: prod.splits)
  have "store_is_open st'" "can_write files' = can_write files"
    using keep [of rs "snd (store_open files path implementation st)"] IH(1) assms
    by (auto simp: store_open_def Let_def)
  then have "store_append r (files', st') =
      (files'\<lparr>text_of := (text_of files')(path \<mapsto> store_text implementation (rs @ [r]))\<rparr>,
       st'\<lparr>store_records := rs @ [r]\<rparr>)"
    using IH(2,3,4) assms by (simp add: store_append_def Let_def store_text_def)
  then show ?case using IH(1,3) by simp
qed

lemma load_cut_store:
  assumes "\<forall>r \<in> set rs. storable_record r"
    and "prefix p (store_text implementation rs)" and "prefix (store_text implementation []) p"
    and "text_of files path = Some p"
  shows "\<exists>k. store_load files path out =
      (True, out\<lparr>store_path := path, store_implementation := implementation,
         store_records := take k (map reloaded rs)\<rparr>) \<and>
    (\<forall>m \<le> length rs. prefix (store_text implementation (take m rs)) p \<longrightarrow> m \<le> k)"
proof -
  obtain q where q: "p = serialize (header_json implementation) False @ CHR 0x0A # q"
    using assms(3) by (auto simp: store_text_def prefix_def)
  then have pre: "prefix q (concat (map record_line rs))" using assms(2) by (simp add: store_text_def)
  have "CHR 0x0A \<notin> set (serialize (header_json implementation) False)"
    using serialize_one_line by (simp add: serialize_def)
  then have lines: "lines_of p = serialize (header_json implementation) False # lines_of q"
    unfolding q by (rule lines_of_line)
  let ?st = "out\<lparr>store_path := path, store_records := [], store_implementation := implementation\<rparr>"
  obtain k where k: "fold load_line (lines_of q) ?st = ?st\<lparr>store_records := store_records ?st @ take k (map reloaded rs)\<rparr>"
    "\<forall>m \<le> length rs. prefix (concat (map record_line (take m rs))) q \<longrightarrow> m \<le> k"
    using load_prefix [OF assms(1) pre] by blast
  have "store_load files path out =
      (True, out\<lparr>store_path := path, store_implementation := implementation, store_records := take k (map reloaded rs)\<rparr>)"
    using k(1) by (simp add: store_load_def assms(4) lines load_header_line)
  moreover have "m \<le> k" if "m \<le> length rs" "prefix (store_text implementation (take m rs)) p" for m
    using that k(2) by (simp add: q store_text_def)
  ultimately show ?thesis by blast
qed

text \<open>A store that was not cut comes back as a whole.\<close>

lemma load_whole_store:
  assumes "\<forall>r \<in> set rs. storable_record r" and "text_of files path = Some (store_text implementation rs)"
  shows "store_load files path out =
    (True, out\<lparr>store_path := path, store_implementation := implementation, store_records := map reloaded rs\<rparr>)"
proof -
  have "prefix (store_text implementation []) (store_text implementation rs)" by (simp add: store_text_def)
  from load_cut_store [OF assms(1) prefix_order.refl this assms(2), of out] obtain k where
    "store_load files path out = (True, out\<lparr>store_path := path, store_implementation := implementation,
       store_records := take k (map reloaded rs)\<rparr>)" "length rs \<le> k"
    by auto
  then show ?thesis by simp
qed

text \<open>
  C30. The store is crash-safe: records appended to a store that was opened are in memory and on disk,
  and if the file is later found cut off at any point after its header line, loading it succeeds and
  gives back the records in order: all those whose line is complete, none that is only partly there.
  Each comes back with everything but its numbers unchanged (identity, texts, outcome, flags, the names
  of its counters), and whole if the text can hold its numbers.
\<close>
theorem store_survives_truncation:
  assumes "can_write files path" and "\<forall>r \<in> set rs. storable_record r"
    and "prefix p (store_text implementation rs)" and "prefix (store_text implementation []) p"
  shows "\<exists>files' st' k.
    fold store_append rs (snd (store_open files path implementation st)) = (files', st') \<and>
    store_records st' = rs \<and> text_of files' path = Some (store_text implementation rs) \<and>
    store_load (files'\<lparr>text_of := (text_of files')(path \<mapsto> p)\<rparr>) path out =
      (True, out\<lparr>store_path := path, store_implementation := implementation,
         store_records := take k (map reloaded rs)\<rparr>) \<and>
    (\<forall>m \<le> length rs. prefix (store_text implementation (take m rs)) p \<longrightarrow> m \<le> k) \<and>
    (\<forall>r \<in> set rs. same_but_numbers r (reloaded r) \<and> (exact_record r \<longrightarrow> reloaded r = r))"
proof -
  obtain files' st' where written: "fold store_append rs (snd (store_open files path implementation st)) = (files', st')"
    "store_records st' = rs" "text_of files' path = Some (store_text implementation rs)"
    using open_and_append [OF assms(1)] by metis
  have cut: "text_of (files'\<lparr>text_of := (text_of files')(path \<mapsto> p)\<rparr>) path = Some p" by simp
  have records: "\<forall>r \<in> set rs. same_but_numbers r (reloaded r) \<and> (exact_record r \<longrightarrow> reloaded r = r)"
    using assms(2) reloaded_same_but_numbers exact_record_reloaded by blast
  obtain k where "store_load (files'\<lparr>text_of := (text_of files')(path \<mapsto> p)\<rparr>) path out =
      (True, out\<lparr>store_path := path, store_implementation := implementation, store_records := take k (map reloaded rs)\<rparr>)"
    "\<forall>m \<le> length rs. prefix (store_text implementation (take m rs)) p \<longrightarrow> m \<le> k"
    using load_cut_store [OF assms(2-4) cut] by blast
  with written records show ?thesis by (intro exI [of _ files'] exI [of _ st'] exI [of _ k]) simp
qed

definition sample_record :: metric_record where
  "sample_record = empty_metric_record\<lparr>test_id := ''A-01'', record_outcome := Pass, record_seed := 7,
     record_narrative := [CHR 0x0A], counters := [(''data_packets_sent'', 3)]\<rparr>"

lemma sample_record_exact: "exact_record sample_record"
proof -
  have "whole 3 False" by (auto simp: whole_def intro: exI [of _ 3])
  then show ?thesis
    by (simp add: exact_record_def sample_record_def empty_metric_record_def sorted_counters_def exact_number_def)
qed

theorem store_survives_truncation_witness:
  "\<exists>files' st'. fold store_append [sample_record]
      (snd (store_open \<lparr>text_of = \<lambda>_. None, can_write = \<lambda>_. True\<rparr> ''m'' ''ref'' empty_store)) = (files', st') \<and>
    store_records (snd (store_load files' ''m'' empty_store)) = [sample_record]"
proof -
  let ?files = "\<lparr>text_of = \<lambda>_. None, can_write = \<lambda>_. True\<rparr> :: text_files"
  let ?p = "store_text ''ref'' [sample_record]"
  have "prefix (store_text ''ref'' []) ?p" by (simp add: store_text_def)
  have storable: "\<forall>r \<in> set [sample_record]. storable_record r"
    using exact_record_storable [OF sample_record_exact] by simp
  have same: "map reloaded [sample_record] = [sample_record]"
    using exact_record_reloaded [OF sample_record_exact] by simp
  have writable: "can_write ?files ''m''" by simp
  obtain files' st' k where r:
    "fold store_append [sample_record] (snd (store_open ?files ''m'' ''ref'' empty_store)) = (files', st')"
    "text_of files' ''m'' = Some ?p"
    "store_load (files'\<lparr>text_of := (text_of files')(''m'' \<mapsto> ?p)\<rparr>) ''m'' empty_store =
       (True, empty_store\<lparr>store_path := ''m'', store_implementation := ''ref'', store_records := take k [sample_record]\<rparr>)"
    "\<forall>m \<le> length [sample_record]. prefix (store_text ''ref'' (take m [sample_record])) ?p \<longrightarrow> m \<le> k"
    using store_survives_truncation [OF writable storable prefix_order.refl \<open>prefix (store_text ''ref'' []) ?p\<close>,
        of empty_store empty_store, unfolded same] by blast
  have "files'\<lparr>text_of := (text_of files')(''m'' \<mapsto> ?p)\<rparr> = files'" using r(2) by (simp add: fun_upd_idem)
  moreover have "1 \<le> k" using r(4) by (metis One_nat_def le_refl list.size(3,4) add_0 plus_1_eq_Suc take_all prefix_order.refl)
  ultimately show ?thesis using r(1,3) by simp
qed

section \<open>Seeds\<close>

text \<open>\<open>seed_for\<close> of \<open>src/src/runner/test_registry.cpp\<close>: the base seed mixed with a hash of the test.\<close>

definition seed_for :: "u64 \<Rightarrow> string \<Rightarrow> u32 \<Rightarrow> u64" where
  "seed_for base_seed test index =
     (let fnv_prime = 1099511628211;
          hash = fold (\<lambda>c h. (h XOR ucast (byte_of_char c)) * fnv_prime) test 1469598103934665603;
          hash = (hash XOR ucast index) * fnv_prime
      in base_seed XOR hash)"

lemma seed_F01: "seed_for 0xC0FFEE1234 ''F-01'' 0 = 2683300415117717551"
  by (simp add: seed_for_def byte_of_char_def)

lemma seed_F01_doubles: "dbl_of_int 2683300415117717551 = dbl_of_int 2683300415117717550"
  by code_simp

text \<open>
  A stored seed does not identify the run: the seeds the suite derives are 64-bit hashes, and the
  JSON of a record goes through a double. With the default base seed, the record of test F-01 has the
  same JSON form as the record of another seed, so the seed that reproduces the run cannot be read
  back from the store.
\<close>
lemma stored_seed_ambiguous:
  "\<exists>s. s \<noteq> seed_for 0xC0FFEE1234 ''F-01'' 0 \<and>
     (\<forall>r. to_json (r\<lparr>record_seed := s\<rparr>) = to_json (r\<lparr>record_seed := seed_for 0xC0FFEE1234 ''F-01'' 0\<rparr>))"
proof -
  have "sint (2683300415117717551 :: u64) = 2683300415117717551" "sint (2683300415117717550 :: u64) = 2683300415117717550" by simp_all
  then have "to_json (r\<lparr>record_seed := 2683300415117717550\<rparr>) = to_json (r\<lparr>record_seed := 2683300415117717551\<rparr>)" for r
    by (simp add: to_json_members record_members_def json_integer_def seed_F01_doubles)
  then show ?thesis unfolding seed_F01 by (intro exI [of _ 2683300415117717550]) simp
qed

end
