(* ===== verification/Test_Cases.thy ===== *)
theory Test_Cases
  imports Transfer_Driver Metrics_Store
begin

text \<open>
  \<open>src/src/runner/test_case.hpp\<close> and the judging functions of \<open>src/src/runner/test_registry.cpp\<close>:
  what a test needs, the request each kind of test makes, and the record it makes of what
  \<open>drive_transfer\<close> reports. The adapters of the context are what \<open>Transfer_Driver\<close> keeps of them: the
  world a transfer runs in. \<open>context_transfers\<close> gives that world for the \<open>k\<close>-th transfer of a test, so
  every operation that drives takes the number of its first transfer. A \<open>std::map\<close> of fixtures is a
  map; \<open>seed_for\<close> is in \<open>Metrics_Store\<close>.
\<close>

section \<open>Context\<close>

record test_context =
  context_transfers :: "string \<Rightarrow> nat \<Rightarrow> drive_world"
  context_fixtures :: "string \<Rightarrow> fixture option"
  context_work_root :: string
  base_seed :: u64
  implementation_under_test :: string
  context_watchdog :: int

record test_info =
  info_id :: string
  info_title :: string
  info_clause :: string
  info_severity :: severity
  required_capabilities :: "string list"

type_synonym test_body = "test_context \<Rightarrow> test_info \<Rightarrow> metric_record list"

definition work_dir_for :: "test_context \<Rightarrow> string \<Rightarrow> string" where
  "work_dir_for c test = path_append (context_work_root c) test"

definition fixture_for :: "test_context \<Rightarrow> string \<Rightarrow> fixture option" where
  "fixture_for c key = context_fixtures c key"

section \<open>Shared helpers\<close>

definition base_record :: "test_info \<Rightarrow> test_context \<Rightarrow> metric_record" where
  "base_record t c = empty_metric_record\<lparr>test_id := info_id t, title := info_title t,
     rfc_clause := info_clause t, record_severity := info_severity t,
     record_implementation := implementation_under_test c\<rparr>"

definition dbl_of_word :: "u32 \<Rightarrow> double" where
  "dbl_of_word w = dbl_of_int (uint w)"

definition fill_counters :: "drive_result \<Rightarrow> metric_record \<Rightarrow> metric_record" where
  "fill_counters result r =
     (let rep = drive_observer result;
          bytes = dbl_of_int (int (delivered_size (drive_integrity result)));
          cs = counters r;
          cs = set_counter cs ''data_packets_sent'' (dbl_of_word (data_packets_sent rep));
          cs = set_counter cs ''distinct_data_blocks'' (dbl_of_word (distinct_data_blocks rep));
          cs = set_counter cs ''retransmissions'' (dbl_of_word (retransmitted_data_packets rep));
          cs = set_counter cs ''duplicate_acks'' (dbl_of_word (duplicate_acknowledgements rep));
          cs = set_counter cs ''datagrams_dropped'' (dbl_of_word (datagrams_dropped rep));
          cs = set_counter cs ''datagrams_corrupted'' (dbl_of_word (datagrams_corrupted rep));
          cs = set_counter cs ''datagrams_injected'' (dbl_of_word (datagrams_injected rep));
          cs = set_counter cs ''duration_ms'' (duration_ms result);
          cs = set_counter cs ''bytes'' bytes;
          cs = (if duration_ms result > 0
                then set_counter cs ''throughput_bytes_per_second''
                       (dbl_div bytes (dbl_div (duration_ms result) 1000))
                else cs)
      in r\<lparr>counters := cs\<rparr>)"

definition make_request ::
  "test_context \<Rightarrow> test_info \<Rightarrow> string \<Rightarrow> transfer_direction \<Rightarrow> nat \<Rightarrow> drive_request" where
  "make_request c t key direction seed_index = default_drive_request\<lparr>
     drive_direction := direction,
     drive_fixture := fixture_for c key,
     drive_seed := seed_for (base_seed c) (info_id t) (word_of_nat seed_index),
     drive_work_root := path_append (work_dir_for c (info_id t)) (to_string seed_index),
     effective_block_size := 512,
     drive_watchdog := context_watchdog c\<rparr>"

definition with_block_size :: "u32 \<Rightarrow> requested_options" where
  "with_block_size n = no_options\<lparr>wanted_block_size := Some n\<rparr>"

definition with_window_size :: "u16 \<Rightarrow> requested_options" where
  "with_window_size n = no_options\<lparr>wanted_window_size := Some n\<rparr>"

definition drive :: "test_context \<Rightarrow> test_info \<Rightarrow> nat \<Rightarrow> drive_request \<Rightarrow> drive_result" where
  "drive c t k req = drive_transfer (context_transfers c (info_id t) k) req"

definition byte_exact :: "drive_result \<Rightarrow> bool" where
  "byte_exact result \<longleftrightarrow>
     reported_complete (app_result result) \<and> result_matches (drive_integrity result)"

definition corrupt_success :: "drive_result \<Rightarrow> bool" where
  "corrupt_success result \<longleftrightarrow>
     reported_complete (app_result result) \<and> verdict (drive_integrity result) = Mismatch"

definition message_or :: "string \<Rightarrow> drive_result \<Rightarrow> string" where
  "message_or fallback result =
     (if reported_error_message (app_result result) = [] then fallback
      else reported_error_message (app_result result))"

definition passing :: "string \<Rightarrow> metric_record \<Rightarrow> metric_record" where
  "passing reason r = r\<lparr>record_outcome := Pass, record_narrative := reason\<rparr>"

definition failing :: "string \<Rightarrow> metric_record \<Rightarrow> metric_record" where
  "failing reason r = r\<lparr>record_outcome := Fail, record_narrative := reason\<rparr>"

definition hanging :: "string \<Rightarrow> metric_record \<Rightarrow> metric_record" where
  "hanging reason r = failing reason (r\<lparr>ungraceful_failure := True\<rparr>)"

definition rated :: "severity \<Rightarrow> metric_record \<Rightarrow> metric_record" where
  "rated sv r = r\<lparr>record_severity := sv\<rparr>"

definition corrupting :: "string \<Rightarrow> metric_record \<Rightarrow> metric_record" where
  "corrupting reason r = failing reason (r\<lparr>integrity_violation := True\<rparr>)"

definition judge_byte_exact :: "drive_result \<Rightarrow> metric_record \<Rightarrow> metric_record" where
  "judge_byte_exact result r =
     (let r = fill_counters result r
      in if unsupported_configuration (app_result result) then
           r\<lparr>record_outcome := Skipped,
             record_narrative := ''unsupported by this implementation: '' @
               message_or ''the requested transfer cannot be configured'' result\<rparr>
         else if setup_failed result then
           hanging (''harness setup failed: '' @ setup_error result) r
         else if watchdog_fired result then
           hanging ''transfer hung past the watchdog (no clean termination)'' r
         else if corrupt_success result then
           rated Critical (corrupting (''reported SUCCESS but '' @ detail (drive_integrity result)) r)
         else if \<not> reported_complete (app_result result) then
           failing (''transfer did not complete: '' @ message_or ''no error surfaced'' result) r
         else if \<not> result_matches (drive_integrity result) then
           corrupting (detail (drive_integrity result)) r
         else passing (''byte-exact transfer completed. '' @ narrative (drive_observer result)) r)"

text \<open>The record a test starts from: its own data and the seed of its request.\<close>

definition seeded_record :: "test_info \<Rightarrow> test_context \<Rightarrow> drive_request \<Rightarrow> metric_record" where
  "seeded_record t c req = (base_record t c)\<lparr>record_seed := drive_seed req\<rparr>"

section \<open>Positive transfers\<close>

definition basic_download ::
  "nat \<Rightarrow> test_context \<Rightarrow> test_info \<Rightarrow> string \<Rightarrow> requested_options \<Rightarrow> u32 \<Rightarrow> transfer_mode \<Rightarrow>
   metric_record list" where
  "basic_download k c t key wanted block mode =
     (let req = (make_request c t key Download 0)\<lparr>drive_options := wanted, drive_mode := mode,
                  effective_block_size := block\<rparr>
      in [judge_byte_exact (drive c t k req) (seeded_record t c req)])"

definition basic_upload ::
  "nat \<Rightarrow> test_context \<Rightarrow> test_info \<Rightarrow> string \<Rightarrow> requested_options \<Rightarrow> transfer_mode \<Rightarrow>
   metric_record list" where
  "basic_upload k c t key wanted mode =
     (let req = (make_request c t key Upload 0)\<lparr>drive_options := wanted, drive_mode := mode\<rparr>
      in [judge_byte_exact (drive c t k req) (seeded_record t c req)])"

definition judge_final_block :: "drive_result \<Rightarrow> metric_record \<Rightarrow> metric_record" where
  "judge_final_block result r =
     (let r = fill_counters result r
      in if watchdog_fired result \<or> setup_failed result then
           hanging (if setup_failed result then ''setup failed: '' @ setup_error result
                    else ''transfer hung past the watchdog'') r
         else if \<not> terminating_short_block_present (drive_observer result) then
           rated Critical (failing
             (''no terminating DATA block shorter than the block size was sent; '' @
              ''the final-block rule (RFC 1350 section 2) is violated. '' @
              narrative (drive_observer result)) r)
         else if reported_complete (app_result result) \<and> \<not> result_matches (drive_integrity result) then
           corrupting (''reported success but '' @ detail (drive_integrity result)) r
         else if \<not> reported_complete (app_result result) then failing ''transfer did not complete'' r
         else passing (''terminating short/empty DATA present; byte-exact. '' @
                narrative (drive_observer result)) r)"

definition final_block_rule :: "test_context \<Rightarrow> test_info \<Rightarrow> string \<Rightarrow> metric_record list" where
  "final_block_rule c t key =
     (let req = make_request c t key Download 0
      in [judge_final_block (drive c t 0 req) (seeded_record t c req)])"

section \<open>Refused requests\<close>

definition got_error :: "u16 \<Rightarrow> drive_result \<Rightarrow> bool" where
  "got_error code result \<longleftrightarrow> reported_error_code (app_result result) = Some code"

definition judge_file_not_found :: "drive_result \<Rightarrow> metric_record \<Rightarrow> metric_record" where
  "judge_file_not_found result r =
     (let r = fill_counters result r
      in if watchdog_fired result then hanging ''server hung instead of returning ERROR 1'' r
         else if got_error FileNotFound result then
           passing ''server returned ERROR code 1 (file not found)'' r
         else if \<not> reported_complete (app_result result) then
           rated Minor (passing ''missing file rejected cleanly (error code was not 1)'' r)
         else failing ''server did not reject a request for a missing file'' r)"

definition file_not_found :: "test_context \<Rightarrow> test_info \<Rightarrow> metric_record list" where
  "file_not_found c t =
     (let req = (make_request c t ''empty'' Download 0)\<lparr>
            remote_filename := ''definitely-not-present-9137.bin'', stage_served_fixture := False\<rparr>
      in [judge_file_not_found (drive c t 0 req) (seeded_record t c req)])"

definition judge_file_exists :: "drive_result \<Rightarrow> metric_record \<Rightarrow> metric_record" where
  "judge_file_exists result r =
     (let r = fill_counters result r
      in if watchdog_fired result then hanging ''hung instead of returning ERROR 6'' r
         else if got_error FileAlreadyExists result then
           passing ''server returned ERROR code 6 (file already exists)'' r
         else if \<not> reported_complete (app_result result) then
           rated Minor (passing ''overwrite refused (error code was not 6)'' r)
         else rated Minor
           (passing ''server allows overwriting an existing file (a MAY-level policy)'' r))"

definition file_exists_test :: "test_context \<Rightarrow> test_info \<Rightarrow> metric_record list" where
  "file_exists_test c t =
     (let req = (make_request c t ''one'' Upload 0)\<lparr>
            plant_existing_destination := True, remote_filename := ''already-there.bin''\<rparr>
      in [judge_file_exists (drive c t 0 req) (seeded_record t c req)])"

definition judge_access_violation :: "drive_result \<Rightarrow> metric_record \<Rightarrow> metric_record" where
  "judge_access_violation result r =
     (let r = fill_counters result r
      in if watchdog_fired result then hanging ''hung on a path-traversal request'' r
         else if \<not> reported_complete (app_result result) then
           passing (''path-traversal request refused (error code '' @
             (case reported_error_code (app_result result) of
                Some code \<Rightarrow> to_string (unat code) | None \<Rightarrow> ''none'') @ '')'') r
         else rated Critical (failing ''served a file outside the served directory'' r))"

definition access_violation :: "test_context \<Rightarrow> test_info \<Rightarrow> metric_record list" where
  "access_violation c t =
     (let req = (make_request c t ''empty'' Download 0)\<lparr>
            remote_filename := ''../../etc/hosts'', stage_served_fixture := False\<rparr>
      in [judge_access_violation (drive c t 0 req) (seeded_record t c req)])"

section \<open>Injections\<close>

definition make_injection :: "bytes \<Rightarrow> bool \<Rightarrow> bool \<Rightarrow> string \<Rightarrow> injected_packet" where
  "make_injection bytes client stray description =
     \<lparr>injected_bytes = bytes, toward_client = client, injected_delay = 0, from_stray_tid = stray,
      injected_description = description\<rparr>"

text \<open>The lambda with the shared \<open>fired\<close> flag: it answers the first DATA it is shown.\<close>

definition triggers :: "trace_record \<Rightarrow> bool" where
  "triggers observed \<longleftrightarrow> is_data observed \<and> disposition observed \<noteq> Injected"

definition inject_once :: "injected_packet \<Rightarrow> injection_script" where
  "inject_once q seen observed = (if \<not> list_ex triggers seen \<and> triggers observed then [q] else [])"

definition judge_illegal_opcode :: "drive_result \<Rightarrow> metric_record \<Rightarrow> metric_record" where
  "judge_illegal_opcode result r =
     (let r = fill_counters result r
      in if watchdog_fired result then hanging ''crashed/hung on an illegal opcode'' r
         else if byte_exact result then
           passing ''illegal opcode tolerated; transfer completed byte-exact'' r
         else failing ''an injected illegal opcode disrupted the transfer'' r)"

definition illegal_opcode :: "test_context \<Rightarrow> test_info \<Rightarrow> metric_record list" where
  "illegal_opcode c t =
     (let req = (make_request c t ''kib_8'' Download 0)\<lparr>
            drive_injection := Some (inject_once
              (make_injection [0x00, 0x09, 0x00, 0x01] True True ''illegal opcode 9 injected''))\<rparr>
      in [judge_illegal_opcode (drive c t 0 req) (seeded_record t c req)])"

definition judge_malformed :: "string \<Rightarrow> drive_result \<Rightarrow> metric_record \<Rightarrow> metric_record" where
  "judge_malformed what result r =
     (let r = fill_counters result r
      in if watchdog_fired result then hanging (''crashed/hung on '' @ what) r
         else if byte_exact result then passing (what @ '' tolerated; transfer completed byte-exact'') r
         else failing (what @ '' disrupted the transfer'') r)"

definition malformed_packet :: "test_context \<Rightarrow> test_info \<Rightarrow> bytes \<Rightarrow> string \<Rightarrow> metric_record list" where
  "malformed_packet c t bytes what =
     (let req = (make_request c t ''kib_8'' Download 0)\<lparr>
            drive_injection := Some (inject_once (make_injection bytes True True what))\<rparr>
      in [judge_malformed what (drive c t 0 req) (seeded_record t c req)])"

definition judge_fresh_tid :: "drive_result \<Rightarrow> metric_record \<Rightarrow> metric_record" where
  "judge_fresh_tid result r =
     (let r = fill_counters result r
      in if server_selected_fresh_tid (drive_observer result) then
           passing (''server replied from a fresh TID distinct from the request port. '' @
             narrative (drive_observer result)) r
         else failing ''server did not select a fresh TID for the transfer'' r)"

definition fresh_tid :: "test_context \<Rightarrow> test_info \<Rightarrow> metric_record list" where
  "fresh_tid c t =
     (let req = make_request c t ''odd_medium'' Download 0
      in [judge_fresh_tid (drive c t 0 req) (seeded_record t c req)])"

definition judge_stray_tid :: "string \<Rightarrow> drive_result \<Rightarrow> metric_record \<Rightarrow> metric_record" where
  "judge_stray_tid what result r =
     (let r = fill_counters result r
      in if watchdog_fired result then hanging (''aborted/hung after '' @ what) r
         else if byte_exact result then
           passing (what @ '' ignored; transfer completed byte-exact'' @
             (if stray_tid_reply_was_error_5 (drive_observer result)
              then '' (stray TID rebuffed with ERROR 5)'' else [])) r
         else rated Critical (failing (what @ '' derailed the legitimate transfer'') r))"

definition stray_tid ::
  "test_context \<Rightarrow> test_info \<Rightarrow> bytes \<Rightarrow> bool \<Rightarrow> string \<Rightarrow> metric_record list" where
  "stray_tid c t bytes client what =
     (let req = (make_request c t ''kib_8'' Download 0)\<lparr>
            drive_injection := Some (inject_once (make_injection bytes client True what))\<rparr>
      in [judge_stray_tid what (drive c t 0 req) (seeded_record t c req)])"

definition duplicate_ack_script :: injection_script where
  "duplicate_ack_script seen observed =
     (if record_direction observed = ServerToClient \<and> is_data observed \<and>
         disposition observed \<noteq> Injected
      then [make_injection (serialize_acknowledgement (block_number (record_packet observed)))
              False False ''duplicate ACK (Sorcerer's Apprentice probe)'']
      else [])"

definition judge_sorcerers_apprentice :: "drive_result \<Rightarrow> metric_record \<Rightarrow> metric_record" where
  "judge_sorcerers_apprentice result r =
     (let r = fill_counters result r; rep = drive_observer result
      in if watchdog_fired result then hanging ''hung under duplicate-ACK injection'' r
         else if retransmitted_data_packets rep = 0 then
           passing (''no retransmission from duplicate ACKs; no amplification '' @
             ''(RFC 1123 section 4.2). '' @ narrative rep) r
         else rated Critical (failing
           (''sender retransmitted DATA in response to duplicate ACKs '' @ em_dash @
            '' Sorcerer's Apprentice amplification ('' @
            to_string (unat (retransmitted_data_packets rep)) @
            '' needless retransmissions). '' @ narrative rep) r))"

definition sorcerers_apprentice :: "test_context \<Rightarrow> test_info \<Rightarrow> metric_record list" where
  "sorcerers_apprentice c t =
     (let req = (make_request c t ''kib_8'' Download 0)\<lparr>drive_injection := Some duplicate_ack_script\<rparr>
      in [judge_sorcerers_apprentice (drive c t 0 req) (seeded_record t c req)])"

section \<open>Sweeps\<close>

text \<open>The conversion \<open>%.4g\<close>, for a positive number, and the 63 characters the label's buffer holds.\<close>

definition format_g4_positive :: "rat \<Rightarrow> string" where
  "format_g4_positive x =
     (let e0 = decimal_exponent x;
          m0 = nat (round_half_even (x / pow10 (e0 - 3)));
          (m, e) = (if m0 = 10000 then (1000, e0 + 1) else (m0, e0))
      in if - 4 \<le> e \<and> e < 4 then
           let places = nat (3 - e)
           in with_fraction (to_string (m div 10 ^ places))
                (pad_left places (to_string (m mod 10 ^ places)))
         else
           with_fraction (to_string (m div 1000)) (pad_left 3 (to_string (m mod 1000))) @
           ''e'' @ (if e < 0 then ''-'' else ''+'') @ pad_left 2 (to_string (nat \<bar>e\<bar>)))"

definition format_g4 :: "double \<Rightarrow> string" where
  "format_g4 x =
     (if x = 0 then ''0'' else if x < 0 then CHR ''-'' # format_g4_positive (- x)
      else format_g4_positive x)"

definition sweep_label :: "string \<Rightarrow> double \<Rightarrow> string" where
  "sweep_label test x = take 63 (test @ ''='' @ format_g4 x)"

definition success_counter :: "drive_result \<Rightarrow> metric_record \<Rightarrow> metric_record" where
  "success_counter result r =
     r\<lparr>counters := set_counter (counters r) ''success'' (if byte_exact result then 1 else 0)\<rparr>"

definition judge_resilience :: "drive_result \<Rightarrow> metric_record \<Rightarrow> metric_record" where
  "judge_resilience result r =
     (let r = success_counter result (fill_counters result r)
      in if corrupt_success result then
           rated Critical (corrupting
             (''reported SUCCESS but delivered corrupted bytes under impairment '' @ em_dash @ '' '' @
              detail (drive_integrity result)) r)
         else if watchdog_fired result then hanging ''hung under impairment (no clean termination)'' r
         else if byte_exact result then
           passing (''completed byte-exact under impairment. '' @ narrative (drive_observer result)) r
         else passing
           (''did not complete at this intensity, but failed cleanly (no corruption, no hang). '' @
            narrative (drive_observer result)) r)"

definition judge_corruption :: "drive_result \<Rightarrow> metric_record \<Rightarrow> metric_record" where
  "judge_corruption result r =
     (let r = success_counter result (fill_counters result r)
      in if corrupt_success result then
           rated Critical (corrupting
             (''SILENTLY accepted corrupted data as valid '' @ em_dash @ '' '' @
              detail (drive_integrity result)) r)
         else if watchdog_fired result then hanging ''hung under corruption (no clean termination)'' r
         else if byte_exact result then
           passing (''dropped corrupted datagrams and completed byte-exact. '' @
             narrative (drive_observer result)) r
         else passing
           (''detected corruption and refused to deliver invalid data '' @
            ''(failed cleanly, no silent corruption). '' @ narrative (drive_observer result)) r)"

definition sweep_record :: "test_info \<Rightarrow> test_context \<Rightarrow> drive_request \<Rightarrow> double \<Rightarrow> metric_record" where
  "sweep_record t c req x = (seeded_record t c req)\<lparr>
     intensity := Some x, intensity_label := sweep_label (info_id t) x\<rparr>"

definition sweep_request ::
  "test_context \<Rightarrow> test_info \<Rightarrow> string \<Rightarrow> nat \<Rightarrow> impairment_config \<Rightarrow> requested_options \<Rightarrow> int \<Rightarrow>
   drive_request" where
  "sweep_request c t key index cfg wanted least_watchdog =
     (make_request c t key Download index)\<lparr>drive_impairment := cfg, drive_options := wanted,
        drive_watchdog := max (context_watchdog c) least_watchdog\<rparr>"

definition resilience_sweep ::
  "test_context \<Rightarrow> test_info \<Rightarrow> string \<Rightarrow> (double \<times> impairment_config) list \<Rightarrow> requested_options \<Rightarrow>
   metric_record list" where
  "resilience_sweep c t key points wanted =
     map (\<lambda>(index, x, cfg).
            let req = sweep_request c t key index cfg wanted 45000
            in judge_resilience (drive c t index req) (sweep_record t c req x))
         (List.enumerate 0 points)"

definition integrity_under_corruption ::
  "test_context \<Rightarrow> test_info \<Rightarrow> string \<Rightarrow> (double \<times> impairment_config) list \<Rightarrow> metric_record list" where
  "integrity_under_corruption c t key points =
     map (\<lambda>(index, x, cfg).
            let req = sweep_request c t key index cfg no_options 25000
            in judge_corruption (drive c t index req) (sweep_record t c req x))
         (List.enumerate 0 points)"

definition loss_config :: "double \<Rightarrow> impairment_config" where
  "loss_config p = default_impairment_config\<lparr>uniform_loss_probability := p\<rparr>"

definition dup_config :: "double \<Rightarrow> impairment_config" where
  "dup_config p = default_impairment_config\<lparr>duplication_probability := p\<rparr>"

definition reorder_config :: "double \<Rightarrow> int \<Rightarrow> impairment_config" where
  "reorder_config p extra_delay_ms =
     default_impairment_config\<lparr>reorder_probability := p, reorder_extra_delay := extra_delay_ms\<rparr>"

definition delay_config :: "int \<Rightarrow> int \<Rightarrow> impairment_config" where
  "delay_config fixed_ms jitter_ms =
     default_impairment_config\<lparr>fixed_delay := fixed_ms, jitter := jitter_ms\<rparr>"

definition corruption_config :: "double \<Rightarrow> corruption_target \<Rightarrow> impairment_config" where
  "corruption_config p target =
     default_impairment_config\<lparr>corruption_probability := p, config_corruption_target := target\<rparr>"

text \<open>The two tests that cut the network off: what differs is when, and the two narratives.\<close>

definition judge_blackout :: "string \<Rightarrow> string \<Rightarrow> drive_result \<Rightarrow> metric_record \<Rightarrow> metric_record" where
  "judge_blackout endless clean result r =
     (let r = fill_counters result r
      in if watchdog_fired result then hanging endless r else passing clean r)"

definition blackout_test ::
  "test_context \<Rightarrow> test_info \<Rightarrow> u32 \<Rightarrow> string \<Rightarrow> string \<Rightarrow> metric_record list" where
  "blackout_test c t blocks endless clean =
     (let cfg = default_impairment_config\<lparr>blackout_enabled := True, blackout_after_data_packets := blocks\<rparr>;
          req = (make_request c t ''kib_8'' Download 0)\<lparr>drive_impairment := cfg,
                  drive_watchdog := max (context_watchdog c) 20000\<rparr>
      in [judge_blackout endless clean (drive c t 0 req) (seeded_record t c req)])"

section \<open>What a judge leaves alone\<close>

lemma fill_counters_fields [simp]:
  "test_id (fill_counters d r) = test_id r" "title (fill_counters d r) = title r"
  "rfc_clause (fill_counters d r) = rfc_clause r" "record_severity (fill_counters d r) = record_severity r"
  "record_outcome (fill_counters d r) = record_outcome r" "intensity (fill_counters d r) = intensity r"
  "intensity_label (fill_counters d r) = intensity_label r" "record_seed (fill_counters d r) = record_seed r"
  "integrity_violation (fill_counters d r) = integrity_violation r"
  "ungraceful_failure (fill_counters d r) = ungraceful_failure r"
  "record_implementation (fill_counters d r) = record_implementation r"
  by (simp_all add: fill_counters_def Let_def)

lemmas record_steps = passing_def failing_def hanging_def rated_def corrupting_def success_counter_def

lemmas judges = judge_byte_exact_def judge_final_block_def judge_file_not_found_def judge_file_exists_def
  judge_access_violation_def judge_illegal_opcode_def judge_malformed_def judge_fresh_tid_def
  judge_stray_tid_def judge_sorcerers_apprentice_def judge_resilience_def judge_corruption_def
  judge_blackout_def

text \<open>
  A fresh record names its test and carries no verdict yet; a finished one names the same test, and its
  verdict is consistent: what passes violates nothing, and only a failure is ungraceful or corrupt.
\<close>

definition names_test :: "test_context \<Rightarrow> test_info \<Rightarrow> metric_record \<Rightarrow> bool" where
  "names_test c t r \<longleftrightarrow> test_id r = info_id t \<and> title r = info_title t \<and> rfc_clause r = info_clause t \<and>
     record_implementation r = implementation_under_test c"

definition consistent_record :: "metric_record \<Rightarrow> bool" where
  "consistent_record r \<longleftrightarrow> (integrity_violation r \<or> ungraceful_failure r \<longrightarrow> record_outcome r = Fail)"

definition fresh_record :: "test_context \<Rightarrow> test_info \<Rightarrow> metric_record \<Rightarrow> bool" where
  "fresh_record c t r \<longleftrightarrow> names_test c t r \<and> \<not> integrity_violation r \<and> \<not> ungraceful_failure r"

definition judged :: "test_context \<Rightarrow> test_info \<Rightarrow> metric_record \<Rightarrow> bool" where
  "judged c t r \<longleftrightarrow> names_test c t r \<and> consistent_record r"

lemma seeded_record_fresh [simp]: "fresh_record c t (seeded_record t c req)"
  by (simp add: fresh_record_def names_test_def seeded_record_def base_record_def empty_metric_record_def)

lemma sweep_record_fresh [simp]: "fresh_record c t (sweep_record t c req x)"
  using seeded_record_fresh [of c t req]
  by (simp add: sweep_record_def fresh_record_def names_test_def)

text \<open>Every judge turns a fresh record into a judged one; whatever it says, it names the test it is about.\<close>

lemma judges_judge:
  assumes "fresh_record c t r"
  shows "judged c t (judge_byte_exact d r)" "judged c t (judge_final_block d r)"
    "judged c t (judge_file_not_found d r)" "judged c t (judge_file_exists d r)"
    "judged c t (judge_access_violation d r)" "judged c t (judge_illegal_opcode d r)"
    "judged c t (judge_malformed what d r)" "judged c t (judge_fresh_tid d r)"
    "judged c t (judge_stray_tid what d r)" "judged c t (judge_sorcerers_apprentice d r)"
    "judged c t (judge_resilience d r)" "judged c t (judge_corruption d r)"
    "judged c t (judge_blackout endless clean d r)"
  using assms
  by (simp_all add: judges record_steps judged_def fresh_record_def names_test_def consistent_record_def
      Let_def del: split_paired_All)

definition all_judged :: "test_body \<Rightarrow> bool" where
  "all_judged body \<longleftrightarrow> (\<forall>c t. body c t \<noteq> [] \<and> list_all (judged c t) (body c t))"

lemma bodies_judged:
  "all_judged (\<lambda>c t. basic_download k c t key wanted block mode)"
  "all_judged (\<lambda>c t. basic_upload k c t key wanted mode)"
  "all_judged (\<lambda>c t. final_block_rule c t key)" "all_judged file_not_found" "all_judged file_exists_test"
  "all_judged access_violation" "all_judged illegal_opcode" "all_judged (\<lambda>c t. malformed_packet c t bytes what)"
  "all_judged fresh_tid" "all_judged (\<lambda>c t. stray_tid c t bytes client what)" "all_judged sorcerers_apprentice"
  "all_judged (\<lambda>c t. blackout_test c t n endless clean)"
  by (simp_all add: all_judged_def basic_download_def basic_upload_def final_block_rule_def file_not_found_def
      file_exists_test_def access_violation_def illegal_opcode_def malformed_packet_def fresh_tid_def
      stray_tid_def sorcerers_apprentice_def blackout_test_def Let_def judges_judge)

lemma sweeps_judged:
  assumes "points \<noteq> []"
  shows "all_judged (\<lambda>c t. resilience_sweep c t key points wanted)"
    "all_judged (\<lambda>c t. integrity_under_corruption c t key points)"
  using assms
  by (auto simp: all_judged_def resilience_sweep_def integrity_under_corruption_def Let_def list_all_iff
      judges_judge enumerate_eq_zip)

lemma appended_judged: "all_judged f \<Longrightarrow> all_judged g \<Longrightarrow> all_judged (\<lambda>c t. f c t @ g c t)"
  by (simp add: all_judged_def)

section \<open>A pass of the byte-exact judge\<close>

lemma result_matches_not: "corrupt_success d \<or> byte_exact d \<or> \<not> reported_complete (app_result d) \<or>
    verdict (drive_integrity d) = MissingArtifact"
  by (cases "verdict (drive_integrity d)") (auto simp: corrupt_success_def byte_exact_def result_matches_def)

text \<open>
  The byte-exact judge says what happened: it passes a transfer exactly if it was set up, was
  expressible, ended before the watchdog, was reported complete by the client and was found equal by
  the oracle; it skips exactly what the implementation cannot express; it calls a failure ungraceful
  exactly for a hang or a failed set-up; and it records an integrity violation exactly if the client
  reported success and the oracle did not find the bytes equal, a critical one if they differ.
\<close>
lemma byte_exact_judgement:
  "let run = \<not> unsupported_configuration (app_result d) \<and> \<not> setup_failed d \<and> \<not> watchdog_fired d;
       r = judge_byte_exact d (seeded_record t c req)
   in (record_outcome r = Pass \<longleftrightarrow> run \<and> byte_exact d) \<and>
    (record_outcome r = Skipped \<longleftrightarrow> unsupported_configuration (app_result d)) \<and>
    (ungraceful_failure r \<longleftrightarrow>
       \<not> unsupported_configuration (app_result d) \<and> (setup_failed d \<or> watchdog_fired d)) \<and>
    (integrity_violation r \<longleftrightarrow> run \<and> reported_complete (app_result d) \<and> \<not> byte_exact d) \<and>
    record_severity r = (if run \<and> corrupt_success d then Critical else info_severity t)"
  by (auto simp: judge_byte_exact_def record_steps corrupt_success_def byte_exact_def result_matches_def
      seeded_record_def base_record_def empty_metric_record_def Let_def)

section \<open>What a pass means for the bytes\<close>

lemma judged_pass:
  "record_outcome (judge_byte_exact d r) = Pass \<longleftrightarrow>
     \<not> unsupported_configuration (app_result d) \<and> \<not> setup_failed d \<and> \<not> watchdog_fired d \<and> byte_exact d"
  by (auto simp: judge_byte_exact_def record_steps corrupt_success_def byte_exact_def result_matches_def Let_def)

definition download_request :: "test_context \<Rightarrow> test_info \<Rightarrow> string \<Rightarrow> requested_options \<Rightarrow> u32 \<Rightarrow>
    transfer_mode \<Rightarrow> drive_request" where
  "download_request c t key wanted block mode = (make_request c t key Download 0)\<lparr>drive_options := wanted,
     drive_mode := mode, effective_block_size := block\<rparr>"

definition served_copy :: "test_context \<Rightarrow> test_info \<Rightarrow> fixture \<Rightarrow> string" where
  "served_copy c t f =
     path_append (path_append (path_append (work_dir_for c (info_id t)) ''0'') ''served'') (fixture_name f)"

definition downloaded_file :: "test_context \<Rightarrow> test_info \<Rightarrow> string" where
  "downloaded_file c t =
     path_append (path_append (path_append (work_dir_for c (info_id t)) ''0'') ''local'') ''download.out''"

lemma to_string_zero: "to_string 0 = ''0''"
  by code_simp

lemma download_request_fields [simp]:
  "drive_direction (download_request c t key wanted block mode) = Download"
  "drive_fixture (download_request c t key wanted block mode) = context_fixtures c key"
  "drive_mode (download_request c t key wanted block mode) = mode"
  "stage_served_fixture (download_request c t key wanted block mode)"
  "drive_injection (download_request c t key wanted block mode) = None"
  "remote_name (download_request c t key wanted block mode) f = fixture_name f"
  "path_append (served_directory (download_request c t key wanted block mode)) (fixture_name f) = served_copy c t f"
  "download_destination (download_request c t key wanted block mode) = downloaded_file c t"
  by (simp_all add: download_request_def make_request_def default_drive_request_def fixture_for_def
      remote_name_def served_directory_def download_destination_def served_copy_def downloaded_file_def to_string_zero)

lemma basic_download_alt:
  "basic_download k c t key wanted block mode =
     (let req = download_request c t key wanted block mode
      in [judge_byte_exact (drive c t k req) (seeded_record t c req)])"
  by (simp add: basic_download_def download_request_def)

lemma staged_download:
  "stage_files (download_request c t key wanted block mode) f fs = Inr fs' \<Longrightarrow>
     contents fs' (served_copy c t f) = Some (fixture_bytes f)"
  using write_entire_file_success [of fs "served_copy c t f" "fixture_bytes f"]
  by (auto simp: stage_files_def write_bytes_def Let_def split: if_splits prod.splits)

lemma staged_keeps:
  "stage_files (download_request c t key wanted block mode) f fs = Inr fs' \<Longrightarrow> q \<noteq> served_copy c t f \<Longrightarrow>
     contents fs' q = contents fs q"
  using write_entire_file_other [of q "served_copy c t f" fs "fixture_bytes f"]
  by (auto simp: stage_files_def write_bytes_def Let_def split: if_splits prod.splits)

lemma oracle_match:
  assumes "contents fs a = Some source" and "compare_files fs a b n = Some r" and "verdict r = Match"
  shows "\<exists>delivered. contents fs b = Some delivered \<and>
    (delivered = oracle_reference source n \<or> sha256_collision (oracle_reference source n) delivered)"
proof (cases "contents fs b")
  case (Some delivered)
  then have "compare_bytes source delivered n = Some r" using assms(1,2) by (simp add: compare_files_def)
  then show ?thesis using compare_bytes_verdict [of source delivered n] assms(3) Some
    by (auto simp: sha256_collision_def)
qed (use assms in \<open>auto simp: compare_files_def empty_integrity_result_def\<close>)

text \<open>
  C34. A passing download record means the bytes arrived. If a download test passes, its fixture exists
  in the catalogue, the client was run against the proxy and reported success, and the file it left
  behind is the fixture, byte for byte (for netascii, with its CR LF pairs collapsed), or a collision of
  SHA-256. The one assumption is that client and server leave the served copy of the file alone.
\<close>
theorem passed_download_is_exact:
  assumes "r \<in> set (basic_download k c t key wanted block mode)" and "record_outcome r = Pass"
    and "\<And>f target call fs. context_fixtures c key = Some f \<Longrightarrow>
      contents (snd (run_client (context_transfers c (info_id t) k) target call fs))
      (served_copy c t f) = contents fs (served_copy c t f)"
  shows "\<exists>f answer fs fs' delivered. context_fixtures c key = Some f \<and>
    run_client (context_transfers c (info_id t) k)
      (local_endpoint (proxy_world (context_transfers c (info_id t) k)) ListenSocket)
      (ReadRequestCall (fixture_name f) (downloaded_file c t) mode wanted) fs = (answer, fs') \<and>
    reported_complete answer \<and> contents fs' (downloaded_file c t) = Some delivered \<and>
    (let expected = if mode = NetasciiMode then normalize_eol (fixture_bytes f) else fixture_bytes f
     in delivered = expected \<or> sha256_collision expected delivered)"
proof -
  let ?w = "context_transfers c (info_id t) k" and ?req = "download_request c t key wanted block mode"
  have wanted: "drive_options ?req = wanted" by (simp add: download_request_def)
  have ok: "\<not> setup_failed (drive_transfer ?w ?req)" "byte_exact (drive_transfer ?w ?req)"
    using assms(1,2) by (auto simp: basic_download_alt Let_def judged_pass drive_def)
  show ?thesis
  proof (cases rule: drive_transfer_cases [of ?w ?req])
    case (failed reason)
    then show ?thesis using ok(1) failed_setup_reports_nothing(1) by simp
  next
    case (driven f fs server p answer fs')
    have source: "contents fs' (served_copy c t f) = Some (fixture_bytes f)"
      using staged_download [OF driven(2)] assms(3) [of f _ _ fs] driven(1,5) by (metis download_request_fields(2) snd_conv)
    obtain v where v: "compare_files fs' (served_copy c t f) (downloaded_file c t) (mode = NetasciiMode) = Some v"
      using compare_files_total by blast
    then have "verdict v = Match"
      using ok(2) driven(9) by (auto simp: byte_exact_def result_matches_def judged_integrity_def Let_def)
    from oracle_match [OF source v this] obtain delivered where
      "contents fs' (downloaded_file c t) = Some delivered"
      "delivered = oracle_reference (fixture_bytes f) (mode = NetasciiMode) \<or>
       sha256_collision (oracle_reference (fixture_bytes f) (mode = NetasciiMode)) delivered" by blast
    moreover have "client_call_of ?req f = ReadRequestCall (fixture_name f) (downloaded_file c t) mode wanted"
      by (simp add: client_call_of_def wanted)
    moreover have "reported_complete answer" using ok(2) driven(7) by (simp add: byte_exact_def)
    ultimately show ?thesis using driven(1,5)
      by (intro exI [of _ f] exI [of _ answer] exI [of _ fs] exI [of _ fs'] exI [of _ delivered])
        (simp add: oracle_reference_eq Let_def)
  qed
qed

text \<open>A suite whose client writes the one byte of its fixture.\<close>

definition one_byte :: fixture where
  "one_byte = \<lparr>fixture_name = ''one.bin'', fixture_size = 1, kind_of_fixture = BinaryFixture,
     fixture_description = [], fixture_path = ''/f/one.bin'', fixture_bytes = [7]\<rparr>"

definition copying_client :: "endpoint \<Rightarrow> client_call \<Rightarrow> file_system \<Rightarrow> transfer_result \<times> file_system" where
  "copying_client target call fs =
     (empty_transfer_result\<lparr>reported_complete := True\<rparr>, fs\<lparr>contents := (contents fs)(''/w/A-01/0/local/download.out'' \<mapsto> [7])\<rparr>)"

definition sample_world :: drive_world where
  "sample_world = \<lparr>files_before = plain_file_system Map.empty,
     start_server = (\<lambda>_ _. Some (IPv4 [127, 0, 0, 1] 69)), run_client = copying_client,
     proxy_world = sample_env, proxy_inputs = [], watchdog_polls = [(True, 5)],
     elapsed_nanoseconds = 5000000\<rparr>"

definition sample_context :: test_context where
  "sample_context = \<lparr>context_transfers = (\<lambda>_ _. sample_world), context_fixtures = [''one'' \<mapsto> one_byte],
     context_work_root = ''/w'', base_seed = 0xC0FFEE1234, implementation_under_test = ''sample'',
     context_watchdog = 20000\<rparr>"

definition sample_info :: test_info where
  "sample_info = \<lparr>info_id = ''A-01'', info_title = [], info_clause = [], info_severity = Critical,
     required_capabilities = []\<rparr>"

lemma sample_paths:
  "downloaded_file sample_context sample_info = ''/w/A-01/0/local/download.out''"
  "fixture_name f = ''one.bin'' \<Longrightarrow> served_copy sample_context sample_info f = ''/w/A-01/0/served/one.bin''"
  by (simp_all add: downloaded_file_def served_copy_def work_dir_for_def sample_context_def sample_info_def
      path_append_def)

lemma sample_driven_download:
  "\<not> setup_failed (drive_transfer sample_world (download_request sample_context sample_info ''one'' no_options 512 OctetMode))"
  "byte_exact (drive_transfer sample_world (download_request sample_context sample_info ''one'' no_options 512 OctetMode))"
  "\<not> watchdog_fired (drive_transfer sample_world (download_request sample_context sample_info ''one'' no_options 512 OctetMode))"
  "\<not> unsupported_configuration (app_result (drive_transfer sample_world
     (download_request sample_context sample_info ''one'' no_options 512 OctetMode)))"
proof -
  let ?req = "download_request sample_context sample_info ''one'' no_options 512 OctetMode"
  let ?fs = "fst (write_bytes (plain_file_system Map.empty) ''/w/A-01/0/served/one.bin'' [7])"
  have fx: "drive_fixture ?req = Some one_byte" "context_fixtures sample_context ''one'' = Some one_byte"
    by (simp_all add: sample_context_def)
  have name: "fixture_name one_byte = ''one.bin''" "fixture_bytes one_byte = [7]" by (simp_all add: one_byte_def)
  have served: "path_append (served_directory ?req) ''one.bin'' = ''/w/A-01/0/served/one.bin''"
    using download_request_fields(7) [of sample_context sample_info "''one''" no_options 512 OctetMode one_byte]
    by (simp only: name sample_paths(2))
  have st: "stage_files ?req one_byte (files_before sample_world) = Inr ?fs"
    by (simp add: stage_files_def served name sample_world_def write_bytes_def write_entire_file_def
        plain_file_system_def)
  obtain p where px: "run_proxy sample_env (proxy_config_of ?req (IPv4 [127, 0, 0, 1] 69)) [] = Some p"
    by (auto simp: run_proxy_def start_def sample_env_def)
  have c: "contents ?fs ''/w/A-01/0/served/one.bin'' = Some [7]"
    by (simp add: write_bytes_def write_entire_file_def plain_file_system_def)
  let ?fs' = "?fs\<lparr>contents := (contents ?fs)(''/w/A-01/0/local/download.out'' \<mapsto> [7])\<rparr>"
  have judged: "verdict (judged_integrity ?req one_byte ?fs') = Match"
    using compare_bytes_verdict [of "[7]" "[7]" False] c
    by (auto simp: judged_integrity_def compare_files_def name served sample_paths(1) oracle_reference_def Let_def)
  have "drive_transfer sample_world ?req = empty_drive_result\<lparr>
      watchdog_fired := watchdog_fires (drive_watchdog ?req) [(True, 5)],
      drive_trace := stop_and_take_trace p, duration_ms := dbl_div (dbl_of_int 5000000) 1000000,
      app_result := empty_transfer_result\<lparr>reported_complete := True\<rparr>,
      drive_observer := observe (stop_and_take_trace p) \<lparr>context_direction = Download,
        context_block_size = effective_block_size ?req, transfer_reported_complete = True\<rparr>,
      drive_integrity := judged_integrity ?req one_byte ?fs'\<rparr>"
    using fx st px by (simp add: drive_transfer_def sample_world_def copying_client_def Let_def)
  then show "\<not> setup_failed (drive_transfer sample_world ?req)" "byte_exact (drive_transfer sample_world ?req)"
    "\<not> watchdog_fired (drive_transfer sample_world ?req)"
    "\<not> unsupported_configuration (app_result (drive_transfer sample_world ?req))"
    using judged
    by (simp_all add: empty_drive_result_def byte_exact_def result_matches_def empty_transfer_result_def)
qed

theorem passed_download_is_exact_witness:
  "\<exists>r (fs' :: file_system). r \<in> set (basic_download 0 sample_context sample_info ''one'' no_options 512 OctetMode) \<and>
     record_outcome r = Pass \<and>
     contents fs' ''/w/A-01/0/local/download.out'' = Some [7]"
proof -
  let ?c = sample_context and ?t = sample_info
  obtain r where r: "r \<in> set (basic_download 0 ?c ?t ''one'' no_options 512 OctetMode)" "record_outcome r = Pass"
    using sample_driven_download by (simp add: basic_download_alt Let_def judged_pass drive_def sample_context_def)
  have keeps: "contents (snd (run_client (context_transfers ?c (info_id ?t) 0) target call fs)) (served_copy ?c ?t f)
      = contents fs (served_copy ?c ?t f)" if "context_fixtures ?c ''one'' = Some f" for f target call fs
  proof -
    have "served_copy ?c ?t f = ''/w/A-01/0/served/one.bin''"
      using that by (intro sample_paths) (auto simp: sample_context_def one_byte_def)
    then show ?thesis by (simp add: sample_context_def sample_world_def copying_client_def)
  qed
  from passed_download_is_exact [OF r keeps] have "\<exists>(f :: fixture) answer fs fs'. run_client (context_transfers ?c (info_id ?t) 0)
      (local_endpoint (proxy_world (context_transfers ?c (info_id ?t) 0)) ListenSocket)
      (ReadRequestCall (fixture_name f) (downloaded_file ?c ?t) OctetMode no_options) fs = (answer, fs')"
    by simp blast
  then obtain fs fs' answer and f :: fixture where
    "run_client (context_transfers ?c (info_id ?t) 0) (local_endpoint (proxy_world (context_transfers ?c (info_id ?t) 0))
       ListenSocket) (ReadRequestCall (fixture_name f) (downloaded_file ?c ?t) OctetMode no_options) fs = (answer, fs')"
    by blast
  then have "contents fs' ''/w/A-01/0/local/download.out'' = Some [7]"
    by (auto simp: sample_context_def sample_world_def copying_client_def)
  then show ?thesis using r by blast
qed

text \<open>
  The work directory of a test depends on its id and index only, so the transfers of a test that drives
  several with one index (E-02 and H-03 download the same file three and five times) share it: a client
  that writes nothing and reports success is found byte-exact when an earlier transfer left its file.
\<close>

lemma stale_download_judged_exact:
  assumes "\<not> setup_failed (drive_transfer w (download_request c t key wanted block OctetMode))"
    and "context_fixtures c key = Some f" and "served_copy c t f \<noteq> downloaded_file c t"
    and "contents (files_before w) (downloaded_file c t) = Some (fixture_bytes f)"
    and "\<And>target call fs. run_client w target call fs = (answer, fs)" and "reported_complete answer"
  shows "byte_exact (drive_transfer w (download_request c t key wanted block OctetMode))"
proof (cases rule: drive_transfer_cases [of w "download_request c t key wanted block OctetMode"])
  case (failed reason)
  then show ?thesis using assms(1) failed_setup_reports_nothing(1) by simp
next
  case (driven f' fs server p answer' fs')
  have same: "f' = f" "fs' = fs" "answer' = answer" using driven(1,5) assms(2,5) by auto
  have "contents fs (downloaded_file c t) = Some (fixture_bytes f)"
    using staged_keeps [OF driven(2) [unfolded same]] assms(3,4) by simp
  moreover have "contents fs (served_copy c t f) = Some (fixture_bytes f)"
    using staged_download driven(2) by (simp add: same)
  moreover obtain r where "compare_bytes (fixture_bytes f) (fixture_bytes f) False = Some r" "verdict r = Match"
    using compare_bytes_verdict [of "fixture_bytes f" "fixture_bytes f" False] by (auto simp: oracle_reference_def)
  ultimately have "verdict (judged_integrity (download_request c t key wanted block OctetMode) f fs) = Match"
    by (simp add: judged_integrity_def compare_files_def Let_def)
  then show ?thesis
    using driven(7,9) assms(6) by (simp add: byte_exact_def result_matches_def same)
qed

section \<open>Sweeps and injections\<close>

lemma map_of_set_counter:
  "map_of (set_counter cs key v) k = (if k = key then Some v else map_of cs k)"
  by (induction cs key v rule: set_counter.induct) auto

lemma resilience_sweep_nth:
  "i < length points \<Longrightarrow> resilience_sweep c t key points wanted ! i =
     (let req = sweep_request c t key i (snd (points ! i)) wanted 45000
      in judge_resilience (drive c t i req) (sweep_record t c req (fst (points ! i))))"
  by (simp add: resilience_sweep_def enumerate_eq_zip split_beta)

lemma sweep_record_fields [simp]:
  "intensity (sweep_record t c req x) = Some x" "intensity_label (sweep_record t c req x) = sweep_label (info_id t) x"
  "record_seed (sweep_record t c req x) = drive_seed req" "\<not> integrity_violation (sweep_record t c req x)"
  by (simp_all add: sweep_record_def seeded_record_def base_record_def empty_metric_record_def)

lemma sweep_request_seed [simp]:
  "drive_seed (sweep_request c t key i cfg wanted n) = seed_for (base_seed c) (info_id t) (word_of_nat i)"
  by (simp add: sweep_request_def make_request_def)

lemma resilience_judgement:
  "intensity (judge_resilience d r) = intensity r" "intensity_label (judge_resilience d r) = intensity_label r"
  "record_seed (judge_resilience d r) = record_seed r"
  "record_outcome (judge_resilience d r) = Fail \<longleftrightarrow> corrupt_success d \<or> watchdog_fired d"
  "integrity_violation (judge_resilience d r) \<longleftrightarrow> corrupt_success d \<or> integrity_violation r"
  "corrupt_success d \<Longrightarrow> record_severity (judge_resilience d r) = Critical"
  "map_of (counters (judge_resilience d r)) ''success'' = Some (if byte_exact d then 1 else 0)"
  by (simp_all add: judge_resilience_def record_steps map_of_set_counter Let_def)

text \<open>
  A resilience sweep makes one record per intensity, in order, each from its own transfer with its
  own seed, and says the same thing about each: it fails exactly if the client reported success for
  corrupted bytes, which is then a critical integrity violation, or if it hung; and the success counter,
  from which the resilience curve is drawn, is 1 exactly for a byte-exact transfer.
\<close>
lemma resilience_sweep_records:
  "length (resilience_sweep c t key points wanted) = length points \<and>
   (\<forall>i < length points.
      let r = resilience_sweep c t key points wanted ! i;
          d = drive c t i (sweep_request c t key i (snd (points ! i)) wanted 45000)
      in intensity r = Some (fst (points ! i)) \<and>
         intensity_label r = sweep_label (info_id t) (fst (points ! i)) \<and>
         record_seed r = seed_for (base_seed c) (info_id t) (word_of_nat i) \<and>
         (record_outcome r = Fail \<longleftrightarrow> corrupt_success d \<or> watchdog_fired d) \<and>
         (integrity_violation r \<longleftrightarrow> corrupt_success d) \<and>
         (corrupt_success d \<longrightarrow> record_severity r = Critical) \<and>
         map_of (counters r) ''success'' = Some (if byte_exact d then 1 else 0))"
  by (simp add: resilience_sweep_nth resilience_judgement Let_def)
    (simp add: resilience_sweep_def enumerate_eq_zip)

lemma resilience_sweep_records_witness:
  "\<exists>r. resilience_sweep sample_context sample_info ''one'' [(0, default_impairment_config)] no_options = [r] \<and>
     intensity r = Some 0 \<and> record_seed r = seed_for 0xC0FFEE1234 ''A-01'' 0"
proof -
  let ?rs = "resilience_sweep sample_context sample_info ''one'' [(0, default_impairment_config)] no_options"
  note sweep = resilience_sweep_records [of sample_context sample_info "''one''"
      "[(0, default_impairment_config)]" no_options]
  then obtain r where r: "?rs = [r]" by (auto simp: length_Suc_conv)
  have "intensity (?rs ! 0) = Some 0 \<and> record_seed (?rs ! 0) = seed_for 0xC0FFEE1234 ''A-01'' 0"
    using sweep by (auto simp: Let_def sample_context_def sample_info_def)
  then show ?thesis using r by simp
qed

text \<open>What a script injects while the proxy shows it a run of records.\<close>

fun script_output :: "injection_script \<Rightarrow> trace_record list \<Rightarrow> trace_record list \<Rightarrow> injected_packet list" where
  "script_output script seen [] = []"
| "script_output script seen (r # rs) = script seen r @ script_output script (seen @ [r]) rs"

lemma inject_once_fires_once:
  "script_output (inject_once q) seen rs =
     (if \<not> list_ex triggers seen \<and> list_ex triggers rs then [q] else [])"
  by (induction rs arbitrary: seen) (auto simp: inject_once_def)

lemma scripts_honest:
  "injected_description q \<noteq> stray_reply_note \<Longrightarrow> injection p = Some (inject_once q) \<Longrightarrow> honest_script p"
  "injection p = Some duplicate_ack_script \<Longrightarrow> honest_script p"
  by (auto simp: honest_script_def inject_once_def duplicate_ack_script_def make_injection_def
      stray_reply_note_def split: if_splits)

text \<open>
  Six of the judges record PASS for a transfer that never took place: when the set-up failed (a
  missing fixture, a file that could not be staged, a server or proxy that did not start), nothing was
  sent, no client ran, and yet the sweeps, the corruption, missing-file, path-traversal,
  duplicate-ACK and blackout tests pass.
\<close>
lemma failed_setup_recorded_as_pass:
  "record_outcome (judge_resilience (failed_setup reason) r) = Pass \<and>
   record_outcome (judge_corruption (failed_setup reason) r) = Pass \<and>
   record_outcome (judge_file_not_found (failed_setup reason) r) = Pass \<and>
   record_outcome (judge_access_violation (failed_setup reason) r) = Pass \<and>
   record_outcome (judge_sorcerers_apprentice (failed_setup reason) r) = Pass \<and>
   record_outcome (judge_blackout endless clean (failed_setup reason) r) = Pass \<and>
   record_outcome (judge_byte_exact (failed_setup reason) r) = Fail"
  using failed_setup_reports_nothing [of reason]
  by (simp add: judges record_steps corrupt_success_def byte_exact_def got_error_def failed_setup_def
      empty_drive_result_def empty_transfer_result_def empty_report_def Let_def)

end
