(* ===== verification/Test_Registry.thy ===== *)
theory Test_Registry
  imports Test_Cases
begin

unbundle bit_operations_syntax

text \<open>
  \<open>build_test_registry\<close> of \<open>src/src/runner/test_registry.cpp\<close>: the suite, in its order, each test with
  its data and its body. A test is the pair of both, since a body is given the data of its own test.
  The lambdas of the source are the bodies here; the registry is the concatenation of its groups.
\<close>

section \<open>Capability names\<close>

definition rrq :: string where "rrq = ''rfc1350_rrq''"
definition wrq :: string where "wrq = ''rfc1350_wrq''"
definition opt :: string where "opt = ''rfc2347_option_negotiation''"
definition blk :: string where "blk = ''rfc2348_blksize''"
definition win :: string where "win = ''rfc7440_windowsize''"
definition tsz :: string where "tsz = ''rfc2349_tsize''"
definition tmo :: string where "tmo = ''rfc2349_timeout''"
definition net_ascii :: string where "net_ascii = ''rfc1350_netascii''"

section \<open>Bodies that are not one call\<close>

type_synonym test_case = "test_info \<times> test_body"

definition add_test ::
  "string \<Rightarrow> string \<Rightarrow> string \<Rightarrow> severity \<Rightarrow> string list \<Rightarrow> test_body \<Rightarrow> test_case" where
  "add_test name what clause sv caps body =
     (\<lparr>info_id = name, info_title = what, info_clause = clause, info_severity = sv,
       required_capabilities = caps\<rparr>, body)"

definition percent :: "int \<Rightarrow> double" where
  "percent n = rnd (of_int n / 100)"

definition plain_download :: "nat \<Rightarrow> test_context \<Rightarrow> test_info \<Rightarrow> string \<Rightarrow> metric_record list" where
  "plain_download k c t key = basic_download k c t key no_options 512 OctetMode"

definition burst_config :: "double \<Rightarrow> impairment_config" where
  "burst_config p = default_impairment_config\<lparr>gilbert_elliott_enabled := True,
     good_to_bad_probability := p, bad_to_good_probability := percent 40, loss_in_bad_state := 1\<rparr>"

definition throttle_config :: "double \<Rightarrow> impairment_config" where
  "throttle_config bps =
     default_impairment_config\<lparr>throttle_enabled := True, throttle_bytes_per_second := bps\<rparr>"

definition compound_config :: impairment_config where
  "compound_config = default_impairment_config\<lparr>uniform_loss_probability := percent 10,
     reorder_probability := percent 10, reorder_extra_delay := 40, fixed_delay := 20, jitter := 20\<rparr>"

text \<open>Five downloads, collapsed into one record that passes if all of them passed.\<close>

definition rapid_churn :: "test_context \<Rightarrow> test_info \<Rightarrow> metric_record list" where
  "rapid_churn c t =
     (let out = concat (map (\<lambda>i. plain_download i c t ''one'') [0..<5]);
          all_ok = list_all (\<lambda>r. record_outcome r = Pass) out
      in [(base_record t c)\<lparr>record_seed := (if out = [] then 0 else record_seed (hd out)),
            record_outcome := (if all_ok then Pass else Fail),
            record_narrative := (if all_ok then ''5 rapid start/stop transfers all clean''
                                 else ''a transfer failed under rapid churn'')\<rparr>])"

section \<open>The suite\<close>

text \<open>A: the base protocol of RFC 1350.\<close>

definition base_protocol_tests :: "test_case list" where
  "base_protocol_tests =
    [add_test ''A-01'' ''RRQ octet transfer, small file'' ''RFC 1350 sections 1, 5'' Critical [rrq]
      (\<lambda>c t. plain_download 0 c t ''one''),
     add_test ''A-02'' ''WRQ octet transfer, small file'' ''RFC 1350 sections 1, 5'' Critical [wrq]
      (\<lambda>c t. basic_upload 0 c t ''one'' no_options OctetMode),
     add_test ''A-03'' ''Zero-byte file'' ''RFC 1350 section 2'' Major [rrq]
      (\<lambda>c t. plain_download 0 c t ''empty''),
     add_test ''A-04'' ''File length exactly 512 bytes'' ''RFC 1350 section 2'' Critical [rrq]
      (\<lambda>c t. final_block_rule c t ''exact_block''),
     add_test ''A-05'' ''File length exact multiple of block size'' ''RFC 1350 section 2'' Critical [rrq]
      (\<lambda>c t. final_block_rule c t ''two_blocks_exact''),
     add_test ''A-06'' ''File length 511 / 513 bytes'' ''RFC 1350 section 2'' Major [rrq]
      (\<lambda>c t. plain_download 0 c t ''just_under_block'' @ plain_download 1 c t ''just_over_block''),
     add_test ''A-07'' ''Large multi-block file'' ''RFC 1350 section 2'' Critical [rrq]
      (\<lambda>c t. plain_download 0 c t ''kib_64''),
     add_test ''A-08'' ''netascii CR LF line endings'' ''RFC 1350 section 1, App.'' Major [rrq, net_ascii]
      (\<lambda>c t. basic_download 0 c t ''netascii_mixed'' no_options 512 NetasciiMode),
     add_test ''A-09'' ''netascii bare CR must be CR NUL'' ''RFC 1350 App. (netascii)'' Major [wrq, net_ascii]
      (\<lambda>c t. basic_upload 0 c t ''netascii_mixed'' no_options NetasciiMode),
     add_test ''A-10'' ''Lock-step ACK discipline'' ''RFC 1350 section 2'' Major [rrq]
      (\<lambda>c t. plain_download 0 c t ''odd_medium''),
     add_test ''A-11'' ''Error 1: file not found on RRQ'' ''RFC 1350 section 5'' Major [rrq]
      file_not_found,
     add_test ''A-12'' ''Error 6: file already exists on WRQ'' ''RFC 1350 section 5'' Major [wrq]
      file_exists_test,
     add_test ''A-13'' ''Error 2: access violation'' ''RFC 1350 section 5'' Minor [rrq]
      access_violation,
     add_test ''A-14'' ''Illegal opcode received'' ''RFC 1350 section 5'' Major [rrq]
      illegal_opcode,
     add_test ''A-15'' ''Malformed RRQ/WRQ (missing NUL terminator)'' ''RFC 1350 section 5'' Major [rrq]
      (\<lambda>c t. malformed_packet c t [0x00, 0x02, 0x78, 0x79, 0x7A] ''unterminated request string'')]"

text \<open>A, continued: transfer identifiers, retransmission, Sorcerer's Apprentice, blackout.\<close>

definition transfer_id_tests :: "test_case list" where
  "transfer_id_tests =
    [add_test ''A-20'' ''Server selects a fresh TID'' ''RFC 1350 section 4'' Major [rrq]
      fresh_tid,
     add_test ''A-21'' ''Packet from an unexpected TID'' ''RFC 1350 section 4'' Critical [rrq]
      (\<lambda>c t. stray_tid c t (serialize_acknowledgement 1) True ''stray-TID ACK''),
     add_test ''A-22'' ''Injected spoofed ERROR from wrong TID'' ''RFC 1350 section 4'' Critical [rrq]
      (\<lambda>c t. stray_tid c t (serialize_error NotDefined ''spoofed'') True
       ''spoofed ERROR from stray TID''),
     add_test ''A-30'' ''DATA lost, sender times out and retransmits'' ''RFC 1350 section 2'' Major [rrq]
      (\<lambda>c t. resilience_sweep c t ''kib_8'' [(percent 10, loss_config (percent 10))] no_options),
     add_test ''A-31'' ''ACK lost, receiver discards duplicate DATA and re-ACKs'' ''RFC 1350 section 2'' Major [rrq]
      (\<lambda>c t. resilience_sweep c t ''kib_8'' [(percent 10, loss_config (percent 10))] no_options),
     add_test ''A-32'' ''Duplicate ACK (Sorcerer's Apprentice)'' ''RFC 1123 section 4.2'' Critical [rrq]
      sorcerers_apprentice,
     add_test ''A-33'' ''Retransmit only on timeout, never on duplicate'' ''RFC 1123 section 4.2'' Critical [rrq]
      sorcerers_apprentice,
     add_test ''A-34'' ''Retry cap / give-up behavior'' ''RFC 1350 section 2'' Major [rrq]
      (\<lambda>c t. blackout_test c t 3 ''did not terminate after total blackout (infinite loop)''
       ''bounded termination after blackout (gave up cleanly)''),
     add_test ''A-41'' ''Block-number desync injection (corrupted block number)'' ''RFC 1350 section 2'' Critical [rrq]
      (\<lambda>c t. integrity_under_corruption c t ''odd_medium''
       [(percent 5, corruption_config (percent 5) BlockNumber)])]"

text \<open>B, C, D and E: option negotiation and the options.\<close>

definition option_tests :: "test_case list" where
  "option_tests =
    [add_test ''B-01'' ''Client requests an option; server supports it'' ''RFC 2347 section 2'' Major [rrq, opt, blk]
      (\<lambda>c t. basic_download 0 c t ''kib_8'' (with_block_size 1024) 1024 OctetMode),
     add_test ''B-04'' ''Option names are case-insensitive'' ''RFC 2347 section 2'' Minor [rrq, opt, blk]
      (\<lambda>c t. basic_download 0 c t ''odd_medium'' (with_block_size 700) 700 OctetMode),
     add_test ''C-01'' ''blksize = 512 (default)'' ''RFC 2348'' Minor [rrq, opt, blk]
      (\<lambda>c t. basic_download 0 c t ''kib_8'' (with_block_size 512) 512 OctetMode),
     add_test ''C-02'' ''blksize = 8 (minimum)'' ''RFC 2348'' Major [rrq, opt, blk]
      (\<lambda>c t. basic_download 0 c t ''just_over_block'' (with_block_size 8) 8 OctetMode),
     add_test ''C-03'' ''blksize = 1428 (Ethernet-friendly)'' ''RFC 2348'' Major [rrq, opt, blk]
      (\<lambda>c t. basic_download 0 c t ''kib_8'' (with_block_size 1428) 1428 OctetMode),
     add_test ''C-04'' ''blksize = 65464 (maximum)'' ''RFC 2348'' Major [rrq, opt, blk]
      (\<lambda>c t. basic_download 0 c t ''kib_8'' (with_block_size 65464) 65464 OctetMode),
     add_test ''C-07'' ''blksize exceeds path MTU'' ''RFC 2348; UDP/IP fragmentation'' Major [rrq, opt, blk]
      (\<lambda>c t. basic_download 0 c t ''kib_8'' (with_block_size 9000) 9000 OctetMode),
     add_test ''D-01'' ''timeout option negotiated'' ''RFC 2349 section 2'' Major [rrq, opt, tmo]
      (\<lambda>c t. basic_download 0 c t ''odd_medium'' (no_options\<lparr>wanted_timeout_seconds := Some 2\<rparr>) 512 OctetMode),
     add_test ''D-03'' ''tsize = 0 on RRQ returns file size'' ''RFC 2349 section 3'' Major [rrq, opt, tsz]
      (\<lambda>c t. basic_download 0 c t ''kib_8'' (no_options\<lparr>wanted_transfer_size := Some 0\<rparr>) 512 OctetMode),
     add_test ''E-01'' ''windowsize = 1 (lock-step)'' ''RFC 7440 section 2'' Major [rrq, opt, win]
      (\<lambda>c t. basic_download 0 c t ''kib_8'' (with_window_size 1) 512 OctetMode),
     add_test ''E-02'' ''windowsize = 4/16/64'' ''RFC 7440 section 2'' Major [rrq, opt, win]
      (\<lambda>c t. basic_download 0 c t ''kib_8'' (with_window_size 4) 512 OctetMode @
       basic_download 1 c t ''kib_8'' (with_window_size 16) 512 OctetMode @
       basic_download 2 c t ''kib_8'' (with_window_size 64) 512 OctetMode),
     add_test ''E-03'' ''Single block lost within a window (rollback)'' ''RFC 7440 section 4'' Critical [rrq, opt, win]
      (\<lambda>c t. resilience_sweep c t ''kib_8'' [(percent 10, loss_config (percent 10))] (with_window_size 8)),
     add_test ''E-04'' ''Reordering within a window'' ''RFC 7440 section 4'' Critical [rrq, opt, win]
      (\<lambda>c t. resilience_sweep c t ''kib_8'' [(percent 20, reorder_config (percent 20) 40)] (with_window_size 8)),
     add_test ''E-05'' ''Duplicate ACK within windowed transfer'' ''RFC 7440 section 4; RFC 1123 section 4.2'' Critical [rrq, opt, win]
      (\<lambda>c t. resilience_sweep c t ''kib_8'' [(percent 25, dup_config (percent 25))] (with_window_size 8)),
     add_test ''E-07'' ''Sustained loss forcing repeated rollback'' ''RFC 7440 section 4'' Critical [rrq, opt, win]
      (\<lambda>c t. resilience_sweep c t ''kib_8'' [(percent 30, loss_config (percent 30))] (with_window_size 16))]"

text \<open>F: adversarial network conditions.\<close>

definition adversarial_tests :: "test_case list" where
  "adversarial_tests =
    [add_test ''F-01'' ''Uniform packet loss'' ''RFC 1350 section 2 (retransmission)'' Critical [rrq]
      (\<lambda>c t. resilience_sweep c t ''kib_8'' (map (\<lambda>p. (p, loss_config p))
       [percent 1, percent 5, percent 10, percent 25, percent 50, percent 75, percent 90]) no_options),
     add_test ''F-02'' ''Bursty (Gilbert-Elliott) loss'' ''correlated loss'' Major [rrq]
      (\<lambda>c t. resilience_sweep c t ''kib_8'' (map (\<lambda>p. (p, burst_config p)) [percent 5, percent 15, percent 30]) no_options),
     add_test ''F-03'' ''Packet duplication'' ''RFC 1123 section 4.2 (SAS resistance)'' Critical [rrq]
      (\<lambda>c t. resilience_sweep c t ''kib_8'' (map (\<lambda>p. (p, dup_config p)) [percent 5, percent 25, percent 50]) no_options),
     add_test ''F-04'' ''Reordering'' ''sequence handling'' Critical [rrq]
      (\<lambda>c t. resilience_sweep c t ''kib_8''
       [(percent 10, reorder_config (percent 10) 30), (percent 30, reorder_config (percent 30) 80)] no_options),
     add_test ''F-05'' ''Fixed delay + jitter'' ''timeout tuning'' Major [rrq]
      (\<lambda>c t. resilience_sweep c t ''kib_8''
       [(50, delay_config 50 50), (200, delay_config 200 100)] no_options),
     add_test ''F-06'' ''Corruption passing UDP checksum'' ''application-level validation'' Critical [rrq]
      (\<lambda>c t. integrity_under_corruption c t ''odd_medium''
       (map (\<lambda>p. (p, corruption_config p OpcodeField)) [percent 5, percent 15, percent 30])),
     add_test ''F-07'' ''Bandwidth saturation / throttle'' ''progress under starvation'' Major [rrq]
      (\<lambda>c t. resilience_sweep c t ''odd_medium''
       (map (\<lambda>bps. (bps, throttle_config bps)) [50000, 10000, 2000]) no_options),
     add_test ''F-08'' ''Combined loss + reorder + delay'' ''compound-failure resilience'' Critical [rrq]
      (\<lambda>c t. resilience_sweep c t ''kib_8'' [(1, compound_config)] no_options),
     add_test ''F-09'' ''Total blackout after N blocks'' ''bounded termination'' Major [rrq]
      (\<lambda>c t. blackout_test c t 5 ''infinite loop after blackout'' ''terminated cleanly after blackout'')]"

text \<open>G and H: malformed input, and resource edges.\<close>

definition robustness_tests :: "test_case list" where
  "robustness_tests =
    [add_test ''G-01'' ''Truncated packet (< 4 bytes)'' ''robustness'' Major [rrq]
      (\<lambda>c t. malformed_packet c t [0x00, 0x03] ''truncated 2-byte datagram''),
     add_test ''G-03'' ''Invalid opcode (0, 9, 65535)'' ''robustness'' Major [rrq]
      illegal_opcode,
     add_test ''G-04'' ''Invalid/undefined error code in ERROR packet'' ''robustness'' Minor [rrq]
      (\<lambda>c t. malformed_packet c t [0x00, 0x05, 0x00, 0x63, 0x78, 0x00] ''undefined error code 99''),
     add_test ''G-06'' ''Second server responding (TID confusion)'' ''RFC 1350 section 4'' Critical [rrq]
      (\<lambda>c t. stray_tid c t (serialize_data 2 [0xDE, 0xAD]) True
       ''spoofed DATA from a second server''),
     add_test ''G-08'' ''ACK for a future/never-sent block'' ''robustness'' Critical [rrq]
      (\<lambda>c t. stray_tid c t (serialize_acknowledgement 60000) False
       ''ACK for a never-sent block''),
     add_test ''H-03'' ''Rapid start/stop churn'' ''resource edges'' Minor [rrq]
      rapid_churn]"

definition build_test_registry :: "test_case list" where
  "build_test_registry =
     base_protocol_tests @ transfer_id_tests @ option_tests @ adversarial_tests @ robustness_tests"

section \<open>The suite is well formed\<close>

lemmas suite = build_test_registry_def base_protocol_tests_def transfer_id_tests_def option_tests_def
  adversarial_tests_def robustness_tests_def add_test_def

definition suite_ids :: "string list" where
  "suite_ids =
     [''A-01'', ''A-02'', ''A-03'', ''A-04'', ''A-05'', ''A-06'', ''A-07'', ''A-08'', ''A-09'', ''A-10'',
      ''A-11'', ''A-12'', ''A-13'', ''A-14'', ''A-15'', ''A-20'', ''A-21'', ''A-22'', ''A-30'', ''A-31'',
      ''A-32'', ''A-33'', ''A-34'', ''A-41'', ''B-01'', ''B-04'', ''C-01'', ''C-02'', ''C-03'', ''C-04'',
      ''C-07'', ''D-01'', ''D-03'', ''E-01'', ''E-02'', ''E-03'', ''E-04'', ''E-05'', ''E-07'', ''F-01'',
      ''F-02'', ''F-03'', ''F-04'', ''F-05'', ''F-06'', ''F-07'', ''F-08'', ''F-09'', ''G-01'', ''G-03'',
      ''G-04'', ''G-06'', ''G-08'', ''H-03'']"

lemma registry_ids: "map (info_id \<circ> fst) build_test_registry = suite_ids"
  by (simp add: suite suite_ids_def)

lemma set_suite_ids: "set suite_ids = (info_id \<circ> fst) ` set build_test_registry"
  by (simp only: registry_ids [symmetric] list.set_map)

lemma registry_has: "s \<in> set suite_ids \<Longrightarrow> \<exists>t body. (t, body) \<in> set build_test_registry \<and> info_id t = s"
  unfolding set_suite_ids by force

lemma suite_ids_sample: "''A-01'' \<in> set suite_ids" "''H-03'' \<in> set suite_ids"
  by (simp_all add: suite_ids_def)

lemma rapid_churn_judged: "all_judged rapid_churn"
  by (simp add: all_judged_def rapid_churn_def judged_def names_test_def consistent_record_def base_record_def
      empty_metric_record_def Let_def)

lemma registry_bodies_judged: "list_all (all_judged \<circ> snd) build_test_registry"
  by (simp add: suite plain_download_def bodies_judged sweeps_judged appended_judged rapid_churn_judged)

lemma registry_capabilities:
  "list_all (\<lambda>(t, body). rrq \<in> set (required_capabilities t) \<or> wrq \<in> set (required_capabilities t))
     build_test_registry"
  by (simp add: suite)

text \<open>
  Every record leads back to its test. Whatever the transfers of a run do, each test of the suite
  makes at least one record, and each of its records carries the test's id, title and RFC clause and
  the name of the implementation; and no record contradicts itself: one that reports an integrity
  violation or an ungraceful end is a failure.
\<close>
lemma suite_records_traceable:
  assumes "(t, body) \<in> set build_test_registry"
  shows "body c t \<noteq> [] \<and> (\<forall>r \<in> set (body c t). names_test c t r \<and> consistent_record r)"
  using registry_bodies_judged assms by (auto simp: list_all_iff all_judged_def judged_def)

lemma suite_records_traceable_witness:
  "\<exists>t body r. (t, body) \<in> set build_test_registry \<and> info_id t = ''H-03'' \<and>
     r \<in> set (body sample_context t) \<and> test_id r = ''H-03''"
proof -
  obtain t body where t: "(t, body) \<in> set build_test_registry" "info_id t = ''H-03''"
    using registry_has [OF suite_ids_sample(2)] by blast
  note trace = suite_records_traceable [OF t(1), of sample_context]
  then have "hd (body sample_context t) \<in> set (body sample_context t)" by simp
  then show ?thesis
    using t trace by (intro exI [of _ t] exI [of _ body] exI [of _ "hd (body sample_context t)"])
      (simp add: names_test_def)
qed

section \<open>Seeds\<close>

definition test_hash :: "string \<Rightarrow> u64" where
  "test_hash test = fold (\<lambda>c h. (h XOR ucast (byte_of_char c)) * 1099511628211) test 1469598103934665603"

lemma seed_for_hash: "seed_for b test i = b XOR ((test_hash test XOR ucast i) * 1099511628211)"
  by (simp add: seed_for_def test_hash_def Let_def)

lemma times_prime_inject: "(x :: u64) * 1099511628211 = y * 1099511628211 \<longleftrightarrow> x = y"
proof
  assume "x * 1099511628211 = y * 1099511628211"
  then have "x * (1099511628211 * 14886173955864302971) = y * (1099511628211 * 14886173955864302971)"
    by (simp only: mult.assoc [symmetric])
  moreover have "(1099511628211 :: u64) * 14886173955864302971 = 1" by simp
  ultimately show "x = y" by (simp only: mult_1_right)
qed simp

lemma xor_cancel: "(b :: u64) XOR x = b XOR y \<longleftrightarrow> x = y"
  by (metis xor.left_neutral xor_self_eq bit.xor_left_self)

lemma drop_index: "i < 256 \<Longrightarrow> drop_bit 8 (h XOR ucast (i :: u32) :: u64) = drop_bit 8 h"
proof -
  assume i: "i < 256"
  have "uint i < 256" using i by (simp add: word_less_def)
  then have "uint (drop_bit 8 (ucast i :: u64)) = 0"
    by (simp only: unsigned_drop_bit_eq unsigned_ucast_eq) (simp add: drop_bit_eq_div take_bit_eq_mod)
  then have "drop_bit 8 (ucast i :: u64) = 0" by (simp add: word_uint_eq_iff)
  then show ?thesis by (simp add: drop_bit_xor)
qed

lemma ucast_ucast_id_up: "ucast (ucast (i :: u32) :: u64) = i"
  by (simp add: ucast_up_ucast_id is_up)

lemma seed_for_inject:
  assumes "i < 256" "j < 256" and "seed_for b s i = seed_for b t j"
  shows "drop_bit 8 (test_hash s) = drop_bit 8 (test_hash t)" and "s = t \<Longrightarrow> i = j"
proof -
  have eq: "test_hash s XOR ucast i = test_hash t XOR (ucast j :: u64)"
    using assms(3) by (simp add: seed_for_hash xor_cancel times_prime_inject)
  then have "drop_bit 8 (test_hash s XOR ucast i) = drop_bit 8 (test_hash t XOR ucast j)" by simp
  then show "drop_bit 8 (test_hash s) = drop_bit 8 (test_hash t)" by (simp only: drop_index assms(1,2))
  show "i = j" if "s = t"
    using eq unfolding that xor_cancel by (metis ucast_ucast_id_up)
qed

lemma suite_hashes:
  "map (\<lambda>s. uint (drop_bit 8 (test_hash s))) suite_ids =
    [46585563250743505, 46585558955776208, 46585554660808910, 46585584725579994, 46585580430612696, 46585576135645398,
     46585571840678101, 46585601905449185, 46585597610481887, 46582243241023123, 46582247535990421, 46582251830957718,
     46582256125925016, 46582260420892314, 46582264715859612, 46593315666714374, 46593311371747076, 46593324256648970,
     46589441606212589, 46589445901179886, 46589433016277993, 46589437311245291, 46589424426343398, 46600509736936542,
     16184307122967312, 16184285648130824, 60014310821047599, 60014323705949492, 60014319410982194, 60014297936145706,
     60014302231113003, 50926332776730193, 50926341366664788, 30158482136714433, 30158477841747136, 30158473546779838,
     30158469251812540, 30158464956845242, 30158456366910647, 65971190612878169, 65971177727976276, 65971182022943574,
     65971203497780063, 65971207792747360, 65971194907845467, 65971199202812765, 65971220677649253, 65971224972616551,
     37743187956169941, 37743196546104536, 37743209431006429, 37743218020941025, 37743157891398857, 34379413485184370]"
  by code_simp

lemma suite_hashes_distinct: "distinct (map (\<lambda>s. drop_bit 8 (test_hash s)) suite_ids)"
proof -
  have "distinct (map (\<lambda>s. uint (drop_bit 8 (test_hash s))) suite_ids)" unfolding suite_hashes by simp
  then show ?thesis by (auto simp: distinct_map inj_on_def)
qed

text \<open>
  Every test and intensity of the suite draws its own seed, whatever the base seed of the run: two
  draws with a different test id or a different index (below 256, the longest sweep has seven) differ.
\<close>
lemma suite_seeds_distinct:
  assumes "(t, body) \<in> set build_test_registry" and "(t', body') \<in> set build_test_registry"
    and "i < 256" and "j < 256" and "(info_id t, i) \<noteq> (info_id t', j)"
  shows "seed_for base (info_id t) i \<noteq> seed_for base (info_id t') j"
proof
  assume same: "seed_for base (info_id t) i = seed_for base (info_id t') j"
  have ids: "info_id t \<in> set suite_ids" "info_id t' \<in> set suite_ids"
    using imageI [OF assms(1), of "info_id \<circ> fst"] imageI [OF assms(2), of "info_id \<circ> fst"]
    by (simp_all add: set_suite_ids)
  have "info_id t = info_id t'"
    using seed_for_inject(1) [OF assms(3,4) same] suite_hashes_distinct ids
    by (auto simp: distinct_map dest: inj_onD)
  then show False using seed_for_inject(2) [OF assms(3,4) same] assms(5) by simp
qed

lemma suite_seeds_distinct_witness:
  "seed_for 0xC0FFEE1234 ''A-01'' 0 \<noteq> seed_for 0xC0FFEE1234 ''H-03'' 0"
proof -
  obtain t body where t: "(t, body) \<in> set build_test_registry" "info_id t = ''A-01''"
    using registry_has [OF suite_ids_sample(1)] by blast
  obtain t' body' where t': "(t', body') \<in> set build_test_registry" "info_id t' = ''H-03''"
    using registry_has [OF suite_ids_sample(2)] by blast
  show ?thesis using suite_seeds_distinct [OF t(1) t'(1), of 0 0] t(2) t'(2) by simp
qed

end
