(* ===== verification/Runner.thy ===== *)
theory Runner
  imports Test_Registry
begin

text \<open>
  \<open>src/src/runner/runner.{hpp,cpp}\<close>: the suite runner. It walks the registry, records a test whose
  capabilities are missing as SKIPPED, runs the others, turns an exception into a failed record, and
  streams every record into the metrics store while it counts them.

  What the runner takes from outside is \<open>suite_world\<close>: the adapters' names and answers about
  capabilities, the machine's files, the worlds of the transfers, whether a test's adapters throw (and
  what \<open>what()\<close> says), the temporary directory and the clock reading that makes its name unique. The
  calls of the progress callback are collected. Counters of type \<open>size_t\<close> are natural numbers.
\<close>

section \<open>Data\<close>

record runner_options =
  metrics_output_path :: string
  run_base_seed :: u64
  run_work_root :: string
  include_huge_fixtures :: bool
  run_watchdog :: int
  id_filter :: string

definition default_runner_options :: runner_options where
  "default_runner_options =
     \<lparr>metrics_output_path = ''results.tftp-metrics.json'', run_base_seed = 0xC0FFEE1234,
      run_work_root = [], include_huge_fixtures = False, run_watchdog = 20000, id_filter = []\<rparr>"

record run_summary =
  summary_total :: nat
  summary_passed :: nat
  summary_failed :: nat
  summary_skipped :: nat
  summary_integrity_violations :: nat
  summary_ungraceful_failures :: nat

definition empty_summary :: run_summary where
  "empty_summary = \<lparr>summary_total = 0, summary_passed = 0, summary_failed = 0, summary_skipped = 0,
     summary_integrity_violations = 0, summary_ungraceful_failures = 0\<rparr>"

record suite_world =
  client_name :: string
  server_name :: string
  client_supports :: "string \<Rightarrow> bool"
  server_supports :: "string \<Rightarrow> bool"
  machine_files :: file_system
  store_files :: text_files
  suite_transfers :: "string \<Rightarrow> nat \<Rightarrow> drive_world"
  test_throws :: "string \<Rightarrow> string option"
  temp_directory :: string
  run_clock :: int

record run_state =
  run_files :: text_files
  run_store :: metrics_store
  summary :: run_summary
  progress_calls :: "(string \<times> nat \<times> nat \<times> string) list"

section \<open>Operations\<close>

definition both_support :: "suite_world \<Rightarrow> string \<Rightarrow> bool" where
  "both_support w capability \<longleftrightarrow> client_supports w capability \<and> server_supports w capability"

definition fixture_key :: "string \<Rightarrow> string" where
  "fixture_key name = takeWhile (\<lambda>c. c \<noteq> CHR ''.'') name"

definition build_fixture_map :: "file_system \<Rightarrow> string \<Rightarrow> bool \<Rightarrow> string \<Rightarrow> fixture option" where
  "build_fixture_map fs directory include_huge =
     fold (\<lambda>f m. m(fixture_key (fixture_name f) \<mapsto> f))
       (fst (generate_standard_fixtures fs directory include_huge)) Map.empty"

definition work_root_of :: "suite_world \<Rightarrow> runner_options \<Rightarrow> string" where
  "work_root_of w opts =
     (if run_work_root opts = []
      then path_append (temp_directory w) (''tftp_harness_run_'' @ int_to_string (run_clock w))
      else run_work_root opts)"

definition run_implementation :: "suite_world \<Rightarrow> string" where
  "run_implementation w = client_name w @ '' / '' @ server_name w"

definition context_of :: "suite_world \<Rightarrow> runner_options \<Rightarrow> test_context" where
  "context_of w opts =
     \<lparr>context_transfers = suite_transfers w,
      context_fixtures = build_fixture_map (machine_files w)
        (path_append (work_root_of w opts) ''fixtures'') (include_huge_fixtures opts),
      context_work_root = path_append (work_root_of w opts) ''tests'',
      base_seed = run_base_seed opts, implementation_under_test = run_implementation w,
      context_watchdog = run_watchdog opts\<rparr>"

definition selected :: "runner_options \<Rightarrow> test_info \<Rightarrow> bool" where
  "selected opts t \<longleftrightarrow> id_filter opts = [] \<or> contains_text (id_filter opts) (info_id t)"

definition missing_capability :: "suite_world \<Rightarrow> test_info \<Rightarrow> string option" where
  "missing_capability w t = List.find (\<lambda>cap. \<not> both_support w cap) (required_capabilities t)"

definition skip_narrative :: "string \<Rightarrow> string" where
  "skip_narrative missing =
     ''capability '' @ [CHR 0x27] @ missing @ [CHR 0x27] @ '' not supported by the implementation under test''"

definition skipped_record :: "suite_world \<Rightarrow> test_info \<Rightarrow> string \<Rightarrow> metric_record" where
  "skipped_record w t missing = empty_metric_record\<lparr>test_id := info_id t, title := info_title t,
     rfc_clause := info_clause t, record_severity := Info, record_outcome := Skipped,
     record_implementation := run_implementation w,
     record_narrative := skip_narrative missing\<rparr>"

definition thrown_record :: "suite_world \<Rightarrow> test_info \<Rightarrow> string \<Rightarrow> metric_record" where
  "thrown_record w t what = empty_metric_record\<lparr>test_id := info_id t, title := info_title t,
     rfc_clause := info_clause t, record_severity := info_severity t, record_outcome := Fail,
     ungraceful_failure := True, record_implementation := run_implementation w,
     record_narrative := ''test threw an exception: '' @ what\<rparr>"

definition run_body :: "suite_world \<Rightarrow> test_context \<Rightarrow> test_case \<Rightarrow> metric_record list" where
  "run_body w c test =
     (case test of (t, body) \<Rightarrow>
        (case test_throws w (info_id t) of
           Some what \<Rightarrow> [thrown_record w t what]
         | None \<Rightarrow> body c t))"

definition with_implementation :: "suite_world \<Rightarrow> metric_record \<Rightarrow> metric_record" where
  "with_implementation w r =
     (if record_implementation r = [] then r\<lparr>record_implementation := run_implementation w\<rparr> else r)"

definition count_record :: "metric_record \<Rightarrow> run_summary \<Rightarrow> run_summary" where
  "count_record r s =
     (let s = s\<lparr>summary_total := summary_total s + 1\<rparr>;
          s = (case record_outcome r of
                 Pass \<Rightarrow> s\<lparr>summary_passed := summary_passed s + 1\<rparr>
               | Fail \<Rightarrow> s\<lparr>summary_failed := summary_failed s + 1\<rparr>
               | Skipped \<Rightarrow> s\<lparr>summary_skipped := summary_skipped s + 1\<rparr>);
          s = (if integrity_violation r
               then s\<lparr>summary_integrity_violations := summary_integrity_violations s + 1\<rparr> else s)
      in if ungraceful_failure r
         then s\<lparr>summary_ungraceful_failures := summary_ungraceful_failures s + 1\<rparr> else s)"

definition worse :: "metric_record \<Rightarrow> string \<Rightarrow> string" where
  "worse r worst =
     (case record_outcome r of
        Pass \<Rightarrow> worst
      | Fail \<Rightarrow> ''FAIL''
      | Skipped \<Rightarrow> if worst = ''PASS'' then ''SKIPPED'' else worst)"

definition append_record :: "metric_record \<Rightarrow> run_state \<Rightarrow> run_state" where
  "append_record r s =
     (let (files, st) = store_append r (run_files s, run_store s)
      in s\<lparr>run_files := files, run_store := st\<rparr>)"

definition record_skip :: "suite_world \<Rightarrow> test_info \<Rightarrow> string \<Rightarrow> run_state \<Rightarrow> run_state" where
  "record_skip w t missing s =
     (let s = append_record (skipped_record w t missing) s;
          m = summary s
      in s\<lparr>summary := m\<lparr>summary_total := summary_total m + 1, summary_skipped := summary_skipped m + 1\<rparr>\<rparr>)"

definition record_result :: "suite_world \<Rightarrow> metric_record \<Rightarrow> run_state \<Rightarrow> run_state" where
  "record_result w r s =
     (let r = with_implementation w r; s = append_record r s
      in s\<lparr>summary := count_record r (summary s)\<rparr>)"

definition report_progress :: "string \<Rightarrow> nat \<Rightarrow> nat \<Rightarrow> string \<Rightarrow> run_state \<Rightarrow> run_state" where
  "report_progress test index count result s =
     s\<lparr>progress_calls := progress_calls s @ [(test, index, count, result)]\<rparr>"

definition run_test ::
  "suite_world \<Rightarrow> runner_options \<Rightarrow> test_context \<Rightarrow> nat \<Rightarrow> nat \<times> test_case \<Rightarrow> run_state \<Rightarrow> run_state" where
  "run_test w opts c count entry s =
     (case entry of (index, test) \<Rightarrow>
        let t = fst test
        in if \<not> selected opts t then s
           else case missing_capability w t of
                  Some missing \<Rightarrow>
                    report_progress (info_id t) index count ''SKIPPED'' (record_skip w t missing s)
                | None \<Rightarrow>
                    let rs = run_body w c test
                    in report_progress (info_id t) index count (fold worse rs ''PASS'')
                         (fold (record_result w) rs s))"

definition run_tests :: "suite_world \<Rightarrow> runner_options \<Rightarrow> test_case list \<Rightarrow> run_state" where
  "run_tests w opts tests =
     (let (opened, files, st) =
            store_open (store_files w) (metrics_output_path opts) (run_implementation w) empty_store;
          s = fold (run_test w opts (context_of w opts) (length tests)) (List.enumerate 1 tests)
                \<lparr>run_files = files, run_store = st, summary = empty_summary, progress_calls = []\<rparr>
      in s\<lparr>run_store := store_close (run_store s)\<rparr>)"

definition run_suite :: "suite_world \<Rightarrow> runner_options \<Rightarrow> run_state" where
  "run_suite w opts = run_tests w opts build_test_registry"

section \<open>What a run records\<close>

definition test_records :: "suite_world \<Rightarrow> test_context \<Rightarrow> test_case \<Rightarrow> metric_record list" where
  "test_records w c test =
     (case missing_capability w (fst test) of
        Some missing \<Rightarrow> [skipped_record w (fst test) missing]
      | None \<Rightarrow> map (with_implementation w) (run_body w c test))"

definition suite_records :: "suite_world \<Rightarrow> runner_options \<Rightarrow> test_case list \<Rightarrow> metric_record list" where
  "suite_records w opts tests =
     concat (map (test_records w (context_of w opts)) (filter (selected opts \<circ> fst) tests))"

text \<open>The state the records leave: all appended to the store, all counted.\<close>

definition recorded :: "run_state \<Rightarrow> metric_record list \<Rightarrow> run_state \<Rightarrow> bool" where
  "recorded s rs s' \<longleftrightarrow>
     (run_files s', run_store s') = fold store_append rs (run_files s, run_store s) \<and>
     summary s' = fold count_record rs (summary s)"

lemma recorded_refl: "recorded s [] s"
  by (simp add: recorded_def)

lemma recorded_trans: "recorded s rs s' \<Longrightarrow> recorded s' rs' s'' \<Longrightarrow> recorded s (rs @ rs') s''"
  by (simp add: recorded_def)

lemma recorded_progress: "recorded s rs s' \<Longrightarrow> recorded s rs (report_progress t i n result s')"
  by (simp add: recorded_def report_progress_def)

lemma recorded_skip: "recorded s [skipped_record w t missing] (record_skip w t missing s)"
  by (simp add: recorded_def record_skip_def append_record_def skipped_record_def empty_metric_record_def
      count_record_def Let_def split: prod.split)

lemma recorded_results: "recorded s (map (with_implementation w) rs) (fold (record_result w) rs s)"
proof (induction rs arbitrary: s)
  case (Cons r rs)
  have "recorded s [with_implementation w r] (record_result w r s)"
    by (simp add: recorded_def record_result_def append_record_def Let_def split: prod.split)
  from recorded_trans [OF this Cons.IH] show ?case by simp
qed (simp add: recorded_refl)

lemma run_test_records:
  "recorded s (if selected opts (fst test) then test_records w c test else [])
     (run_test w opts c n (index, test) s)"
  by (auto simp: run_test_def test_records_def Let_def recorded_refl recorded_progress recorded_skip
      recorded_results split: option.split)

lemma fold_run_test:
  "recorded s (concat (map (test_records w c) (filter (selected opts \<circ> fst) tests)))
     (fold (run_test w opts c n) (List.enumerate k tests) s)"
proof (induction tests arbitrary: s k)
  case (Cons test tests)
  show ?case
    using recorded_trans [OF run_test_records [of s opts test w c n k] Cons.IH [of _ "Suc k"]]
    by (simp split: if_splits)
qed (simp add: recorded_refl)

lemma count_record_simps [simp]:
  "summary_total (count_record r s) = summary_total s + 1"
  "summary_passed (count_record r s) = summary_passed s + (if record_outcome r = Pass then 1 else 0)"
  "summary_failed (count_record r s) = summary_failed s + (if record_outcome r = Fail then 1 else 0)"
  "summary_skipped (count_record r s) = summary_skipped s + (if record_outcome r = Skipped then 1 else 0)"
  "summary_integrity_violations (count_record r s) =
     summary_integrity_violations s + (if integrity_violation r then 1 else 0)"
  "summary_ungraceful_failures (count_record r s) =
     summary_ungraceful_failures s + (if ungraceful_failure r then 1 else 0)"
  by (simp_all add: count_record_def Let_def split: outcome.split)

lemma tally:
  "fold count_record rs empty_summary =
     \<lparr>summary_total = length rs, summary_passed = length (filter (\<lambda>r. record_outcome r = Pass) rs),
      summary_failed = length (filter (\<lambda>r. record_outcome r = Fail) rs),
      summary_skipped = length (filter (\<lambda>r. record_outcome r = Skipped) rs),
      summary_integrity_violations = length (filter integrity_violation rs),
      summary_ungraceful_failures = length (filter ungraceful_failure rs)\<rparr>"
  by (induction rs rule: rev_induct) (simp add: empty_summary_def, rule run_summary.equality, simp_all)

lemma store_append_records: "store_records (snd (fold store_append rs fs)) = store_records (snd fs) @ rs"
  by (induction rs arbitrary: fs) (auto simp: store_append_def Let_def split: prod.split)

lemma run_tests_recorded:
  "store_records (run_store (run_tests w opts tests)) = suite_records w opts tests"
  "summary (run_tests w opts tests) = fold count_record (suite_records w opts tests) empty_summary"
  "can_write (store_files w) (metrics_output_path opts) \<Longrightarrow>
     text_of (run_files (run_tests w opts tests)) (metrics_output_path opts) =
       Some (store_text (run_implementation w) (suite_records w opts tests))"
  "\<not> store_is_open (run_store (run_tests w opts tests))"
  "can_write (run_files (run_tests w opts tests)) = can_write (store_files w)"
proof -
  obtain opened files st where o:
    "store_open (store_files w) (metrics_output_path opts) (run_implementation w) empty_store = (opened, files, st)"
    by (metis prod_cases3)
  let ?s = "\<lparr>run_files = files, run_store = st, summary = empty_summary, progress_calls = []\<rparr>"
  let ?s' = "fold (run_test w opts (context_of w opts) (length tests)) (List.enumerate 1 tests) ?s"
  have run: "run_tests w opts tests = ?s'\<lparr>run_store := store_close (run_store ?s')\<rparr>"
    by (simp add: run_tests_def o Let_def)
  have rec: "(run_files ?s', run_store ?s') = fold store_append (suite_records w opts tests) (files, st)"
    "summary ?s' = fold count_record (suite_records w opts tests) empty_summary"
    using fold_run_test [of ?s w "context_of w opts" opts tests "length tests" 1]
    by (simp_all add: recorded_def suite_records_def)
  have "store_records st = []" using o by (auto simp: store_open_def Let_def split: if_splits)
  then show "store_records (run_store (run_tests w opts tests)) = suite_records w opts tests"
    using store_append_records [of "suite_records w opts tests" "(files, st)"] rec(1) [symmetric]
    by (simp add: run store_close_def)
  show "summary (run_tests w opts tests) = fold count_record (suite_records w opts tests) empty_summary"
    using rec(2) by (simp add: run)
  show "\<not> store_is_open (run_store (run_tests w opts tests))" by (simp add: run store_close_def)
  show "text_of (run_files (run_tests w opts tests)) (metrics_output_path opts) =
      Some (store_text (run_implementation w) (suite_records w opts tests))"
    if "can_write (store_files w) (metrics_output_path opts)"
    using open_and_append [OF that, of "suite_records w opts tests" "run_implementation w" empty_store]
      o rec(1) by (auto simp: run)
  have keep: "can_write (fst (fold store_append rs fs)) = can_write (fst fs)" for rs fs
    by (induction rs arbitrary: fs) (auto simp: store_append_def Let_def split: prod.splits)
  have "can_write files = can_write (store_files w)" using o by (auto simp: store_open_def Let_def split: if_splits)
  then show "can_write (run_files (run_tests w opts tests)) = can_write (store_files w)"
    using keep [of "suite_records w opts tests" "(files, st)"] rec(1) [symmetric] by (simp add: run)
qed

text \<open>The records of one test among those of the run.\<close>

lemma with_implementation_id: "names_test (context_of w opts) t r \<Longrightarrow> with_implementation w r = r"
  by (simp add: with_implementation_def names_test_def context_of_def run_implementation_def)

lemma test_records_of_suite:
  assumes "(t, body) \<in> set build_test_registry"
  shows "test_records w (context_of w opts) (t, body) =
      (case missing_capability w t of Some missing \<Rightarrow> [skipped_record w t missing]
       | None \<Rightarrow> (case test_throws w (info_id t) of Some what \<Rightarrow> [thrown_record w t what]
                 | None \<Rightarrow> body (context_of w opts) t))"
    "\<forall>r \<in> set (test_records w (context_of w opts) (t, body)).
       names_test (context_of w opts) t r \<and> consistent_record r"
proof -
  have body: "\<forall>r \<in> set (body (context_of w opts) t). names_test (context_of w opts) t r \<and> consistent_record r"
    using registry_bodies_judged assms by (auto simp: list_all_iff all_judged_def judged_def)
  have thrown: "names_test (context_of w opts) t (thrown_record w t what) \<and> consistent_record (thrown_record w t what)"
    and skipped: "names_test (context_of w opts) t (skipped_record w t missing) \<and>
      consistent_record (skipped_record w t missing)" for what missing
    by (simp_all add: names_test_def consistent_record_def thrown_record_def skipped_record_def context_of_def
        empty_metric_record_def)
  have same: "map (with_implementation w) rs = rs"
    if "\<forall>r \<in> set rs. names_test (context_of w opts) t r \<and> consistent_record r" for rs
    using that with_implementation_id by (intro map_idI) blast
  show eq: "test_records w (context_of w opts) (t, body) =
      (case missing_capability w t of Some missing \<Rightarrow> [skipped_record w t missing]
       | None \<Rightarrow> (case test_throws w (info_id t) of Some what \<Rightarrow> [thrown_record w t what]
                 | None \<Rightarrow> body (context_of w opts) t))"
    using same [of "[thrown_record w t what]" for what] thrown same [OF body]
    by (auto simp: test_records_def run_body_def split: option.split)
  show "\<forall>r \<in> set (test_records w (context_of w opts) (t, body)).
      names_test (context_of w opts) t r \<and> consistent_record r"
    using body thrown skipped by (auto simp: eq split: option.split)
qed

lemma suite_records_consistent:
  "r \<in> set (suite_records w opts build_test_registry) \<Longrightarrow> consistent_record r"
  using test_records_of_suite(2) by (fastforce simp: suite_records_def)

lemma filter_concat_own:
  assumes "distinct (map f xs)" and "\<And>x r. x \<in> set xs \<Longrightarrow> r \<in> set (g x) \<Longrightarrow> key r = f x" and "x \<in> set xs"
  shows "filter (\<lambda>r. key r = f x) (concat (map g xs)) = g x"
  using assms
proof (induction xs)
  case (Cons y ys)
  have none: "filter (\<lambda>r. key r = f x) (concat (map g ys)) = []" if "f x \<notin> f ` set ys"
    using that Cons.prems(2) by (auto simp: filter_empty_conv) (metis image_eqI list.set_intros(2))
  show ?case
  proof (cases "x = y")
    case True
    then have "filter (\<lambda>r. key r = f x) (g y) = g x" using Cons.prems(2) by (simp add: filter_id_conv)
    then show ?thesis using none Cons.prems(1) True by simp
  next
    case False
    then have x: "x \<in> set ys" using Cons.prems(3) by simp
    then have "f y \<noteq> f x" using Cons.prems(1) by (auto simp: image_iff)
    then have "filter (\<lambda>r. key r = f x) (g y) = []"
      using Cons.prems(2) [of y] by (auto simp: filter_empty_conv)
    then show ?thesis using Cons.IH [OF _ _ x] Cons.prems(1,2) by simp
  qed
qed simp

lemma suite_ids_distinct: "distinct (map (info_id \<circ> fst) build_test_registry)"
  unfolding registry_ids by (simp add: suite_ids_def)

text \<open>
  C36. What a run stores and what it reports are the same: after \<open>run_suite\<close> the store, in memory and, if
  its file could be opened, on disk, holds the records of the selected tests in the order of the
  registry, and the summary counts exactly these records, by outcome, by integrity violation and by
  ungraceful end; every record is counted once as passed, failed or skipped.
\<close>
theorem run_summary_counts_store:
  "let s = run_suite w opts; rs = store_records (run_store s)
   in rs = suite_records w opts build_test_registry \<and>
      (can_write (store_files w) (metrics_output_path opts) \<longrightarrow>
         text_of (run_files s) (metrics_output_path opts) = Some (store_text (run_implementation w) rs)) \<and>
      summary s = \<lparr>summary_total = length rs,
        summary_passed = length (filter (\<lambda>r. record_outcome r = Pass) rs),
        summary_failed = length (filter (\<lambda>r. record_outcome r = Fail) rs),
        summary_skipped = length (filter (\<lambda>r. record_outcome r = Skipped) rs),
        summary_integrity_violations = length (filter integrity_violation rs),
        summary_ungraceful_failures = length (filter ungraceful_failure rs)\<rparr> \<and>
      summary_total (summary s) =
        summary_passed (summary s) + summary_failed (summary s) + summary_skipped (summary s)"
proof -
  have "length rs = length (filter (\<lambda>r. record_outcome r = Pass) rs) +
      length (filter (\<lambda>r. record_outcome r = Fail) rs) + length (filter (\<lambda>r. record_outcome r = Skipped) rs)"
    for rs
    by (induction rs) (auto split: outcome.splits, metis outcome.exhaust)
  then show ?thesis by (simp add: run_suite_def run_tests_recorded tally Let_def)
qed

text \<open>
  What happens to each test: the records of a selected test are, if a capability it requires is
  missing at either end, one SKIPPED record (so that what is unsupported never counts as failed); if it
  throws, one ungraceful failure; and otherwise exactly the records of its own judgement.
\<close>
lemma records_of_one_test:
  assumes "(t, body) \<in> set build_test_registry" and "selected opts t"
  shows "filter (\<lambda>r. test_id r = info_id t) (store_records (run_store (run_suite w opts))) =
     (case missing_capability w t of
        Some missing \<Rightarrow> [skipped_record w t missing]
      | None \<Rightarrow> (case test_throws w (info_id t) of
                  Some what \<Rightarrow> [thrown_record w t what]
                | None \<Rightarrow> body (context_of w opts) t))"
proof -
  let ?tests = "filter (selected opts \<circ> fst) build_test_registry" and ?g = "test_records w (context_of w opts)"
  have "distinct (map (info_id \<circ> fst) ?tests)" by (rule distinct_map_filter [OF suite_ids_distinct])
  moreover have "test_id r = (info_id \<circ> fst) x" if "x \<in> set ?tests" "r \<in> set (?g x)" for x r
    using that test_records_of_suite(2) [of "fst x" "snd x" w opts] by (simp add: names_test_def)
  moreover have "(t, body) \<in> set ?tests" using assms by simp
  ultimately have "filter (\<lambda>r. test_id r = (info_id \<circ> fst) (t, body)) (concat (map ?g ?tests)) = ?g (t, body)"
    by (rule filter_concat_own)
  then show ?thesis
    using test_records_of_suite(1) [OF assms(1), of w opts]
    by (simp add: run_suite_def run_tests_recorded(1) suite_records_def)
qed

text \<open>A machine and two adapters that support nothing.\<close>

definition idle_world :: suite_world where
  "idle_world = \<lparr>client_name = ''c'', server_name = ''s'', client_supports = (\<lambda>_. False),
     server_supports = (\<lambda>_. False), machine_files = plain_file_system Map.empty,
     store_files = \<lparr>text_of = (\<lambda>_. None), can_write = (\<lambda>_. True)\<rparr>, suite_transfers = (\<lambda>_ _. sample_world),
     test_throws = (\<lambda>_. None), temp_directory = ''/tmp'', run_clock = 0\<rparr>"

theorem run_summary_counts_store_witness:
  "text_of (run_files (run_suite idle_world default_runner_options)) ''results.tftp-metrics.json'' =
     Some (store_text ''c / s'' (store_records (run_store (run_suite idle_world default_runner_options))))"
  using run_summary_counts_store [of idle_world default_runner_options]
  by (simp add: idle_world_def default_runner_options_def run_implementation_def Let_def)

lemma records_of_one_test_witness:
  "\<exists>r. filter (\<lambda>r. test_id r = ''A-01'') (store_records (run_store (run_suite idle_world default_runner_options))) = [r] \<and>
     record_outcome r = Skipped"
proof -
  obtain t body where t: "(t, body) \<in> set build_test_registry" "info_id t = ''A-01''"
    using registry_has [OF suite_ids_sample(1)] by blast
  have "required_capabilities t \<noteq> []" using registry_capabilities t(1) by (auto simp: list_all_iff)
  then have "missing_capability idle_world t = Some (hd (required_capabilities t))"
    by (cases "required_capabilities t") (simp_all add: missing_capability_def both_support_def idle_world_def)
  then show ?thesis
    using records_of_one_test [OF t(1), of default_runner_options idle_world] t(2)
    by (simp add: selected_def default_runner_options_def skipped_record_def)
qed

end
