(* ===== verification/Reference_Adapters.thy ===== *)
theory Reference_Adapters
  imports Reference_Client Runner
begin

text \<open>
  \<open>src/adapters/reference/reference_adapters.{hpp,cpp}\<close>: the adapters that plug the reference engine
  into the harness, in three personalities. A call of the client adapter is the engine's operation on
  the socket it opens, between two readings of the clock, with the outcome translated; as in
  \<open>Reference_Client\<close> it ends in \<open>Raised\<close> when a number in an OACK makes the engine throw. The server adapter's
  \<open>start\<close> and \<open>stop\<close> are in \<open>Server_Threads\<close>.
\<close>

section \<open>Personalities\<close>

datatype reference_personality = CorrectPersonality | BuggyPersonality | OptionsUnsupported

definition make_engine_config :: "reference_personality \<Rightarrow> engine_config" where
  "make_engine_config p =
     (let c = default_engine_config\<lparr>retransmission_timeout := 400, maximum_retransmissions := 8\<rparr>
      in case p of
           CorrectPersonality \<Rightarrow> c
         | BuggyPersonality \<Rightarrow> c\<lparr>quirks := \<lparr>retransmit_on_duplicate_ack = True,
             omit_terminating_empty_block = True, accept_out_of_sequence_data = True\<rparr>\<rparr>
         | OptionsUnsupported \<Rightarrow> c\<lparr>support_option_negotiation := False,
             support_block_size_option := False, support_timeout_option := False,
             support_transfer_size_option := False, support_window_size_option := False\<rparr>)"

fun personality_name :: "reference_personality \<Rightarrow> string" where
  "personality_name CorrectPersonality = ''reference-correct''"
| "personality_name BuggyPersonality = ''reference-buggy''"
| "personality_name OptionsUnsupported = ''reference-base-only''"

definition mode_string :: "transfer_mode \<Rightarrow> string" where
  "mode_string m = (if m = NetasciiMode then ''netascii'' else ''octet'')"

definition convert_options :: "requested_options \<Rightarrow> client_requested_options" where
  "convert_options r =
     \<lparr>requested_block_size = wanted_block_size r, requested_timeout_seconds = wanted_timeout_seconds r,
      requested_transfer_size = wanted_transfer_size r, requested_window_size = wanted_window_size r\<rparr>"

definition config_supports :: "engine_config \<Rightarrow> string \<Rightarrow> bool" where
  "config_supports c name =
     (if name = rrq \<or> name = wrq \<or> name = net_ascii then name \<noteq> net_ascii \<or> support_netascii c
      else if name = opt then support_option_negotiation c
      else if name = blk then support_block_size_option c
      else if name = tmo then support_timeout_option c
      else if name = tsz then support_transfer_size_option c
      else if name = win then support_window_size_option c
      else False)"

definition to_transfer_result :: "transfer_outcome \<Rightarrow> int \<Rightarrow> transfer_result" where
  "to_transfer_result outcome elapsed =
     (let n = negotiated outcome
      in empty_transfer_result\<lparr>
           reported_complete := completed_successfully outcome,
           reported_error_code := outcome_error_code outcome,
           reported_error_message := outcome_error_message outcome,
           wall_clock_duration := elapsed,
           options_confirmed_in_use :=
             \<lparr>wanted_block_size = Some (block_size n), wanted_timeout_seconds = timeout_seconds n,
              wanted_transfer_size = transfer_size n,
              wanted_window_size = (if window_size n > 1 then Some (window_size n) else None)\<rparr>\<rparr>)"

section \<open>The adapters\<close>

definition client_adapter_name :: "reference_personality \<Rightarrow> string" where
  "client_adapter_name p = personality_name p @ ''-client''"

definition server_adapter_name :: "reference_personality \<Rightarrow> string" where
  "server_adapter_name p = personality_name p @ ''-server''"

definition client_adapter_supports :: "reference_personality \<Rightarrow> string \<Rightarrow> bool" where
  "client_adapter_supports p name = config_supports (make_engine_config p) name"

definition server_adapter_supports :: "reference_personality \<Rightarrow> string \<Rightarrow> bool" where
  "server_adapter_supports p name = config_supports (make_engine_config p) name"

text \<open>A duration in nanoseconds, cast to milliseconds.\<close>

definition elapsed_ms :: "int \<Rightarrow> int \<Rightarrow> int" where
  "elapsed_ms started ended = (ended - started) div 1000000"

definition perform_read_request ::
  "reference_personality \<Rightarrow> file_system \<Rightarrow> udp_socket option \<Rightarrow> int \<times> int \<Rightarrow> endpoint \<Rightarrow>
   string \<Rightarrow> string \<Rightarrow> transfer_mode \<Rightarrow> requested_options \<Rightarrow> (transfer_result \<times> file_system) result" where
  "perform_read_request p fs opened clocked server remote destination mode wanted =
     bind_result (read_file (make_engine_config p) fs opened server remote destination
         (mode_string mode) (convert_options wanted))
       (\<lambda>(outcome, fs) sk.
          Returned (to_transfer_result outcome (elapsed_ms (fst clocked) (snd clocked)), fs) sk)"

definition perform_write_request ::
  "reference_personality \<Rightarrow> file_system \<Rightarrow> udp_socket option \<Rightarrow> int \<times> int \<Rightarrow> endpoint \<Rightarrow>
   string \<Rightarrow> string \<Rightarrow> transfer_mode \<Rightarrow> requested_options \<Rightarrow> transfer_result result" where
  "perform_write_request p fs opened clocked server source remote mode wanted =
     bind_result (write_file (make_engine_config p) fs opened server source remote
         (mode_string mode) (convert_options wanted))
       (\<lambda>outcome sk.
          Returned (to_transfer_result outcome (elapsed_ms (fst clocked) (snd clocked))) sk)"

section \<open>Which tests a personality is given\<close>

definition reference_world :: "reference_personality \<Rightarrow> suite_world \<Rightarrow> suite_world" where
  "reference_world p w = w\<lparr>client_name := client_adapter_name p, server_name := server_adapter_name p,
     client_supports := client_adapter_supports p, server_supports := server_adapter_supports p\<rparr>"

lemma reference_support:
  "both_support (reference_world p w) cap \<longleftrightarrow> config_supports (make_engine_config p) cap"
  by (simp add: both_support_def reference_world_def client_adapter_supports_def server_adapter_supports_def)

lemma full_support:
  "p \<noteq> OptionsUnsupported \<Longrightarrow> cap \<in> {rrq, wrq, net_ascii, opt, blk, tmo, tsz, win} \<Longrightarrow>
     config_supports (make_engine_config p) cap"
  by (cases p) (auto simp: config_supports_def make_engine_config_def default_engine_config_def Let_def)

lemma base_support:
  "config_supports (make_engine_config OptionsUnsupported) cap \<longleftrightarrow> cap \<in> {rrq, wrq, net_ascii}"
  by (auto simp: config_supports_def make_engine_config_def default_engine_config_def Let_def)

text \<open>Every capability the suite asks for is one of the eight names.\<close>

lemma suite_requirements:
  "list_all (\<lambda>(t, body). set (required_capabilities t) \<subseteq> {rrq, wrq, net_ascii, opt, blk, tmo, tsz, win}) build_test_registry"
  by (simp add: suite)

section \<open>What an adapter call does\<close>

lemma to_transfer_result_faithful:
  "reported_complete (to_transfer_result outcome n) = completed_successfully outcome"
  "reported_error_code (to_transfer_result outcome n) = outcome_error_code outcome"
  "\<not> unsupported_configuration (to_transfer_result outcome n)"
  by (simp_all add: to_transfer_result_def empty_transfer_result_def Let_def)

lemma mode_string_netascii: "mode_is_netascii (mode_string m) \<longleftrightarrow> m = NetasciiMode"
proof -
  have "mode_is_netascii ''netascii''" "\<not> mode_is_netascii ''octet''" by code_simp+
  then show ?thesis by (simp add: mode_string_def)
qed

end
