(* ===== verification/Subprocess_Adapter.thy ===== *)
theory Subprocess_Adapter
  imports Runner "HOL-Library.Sublist"
begin

text \<open>
  \<open>src/adapters/subprocess_client_adapter.{hpp,cpp}\<close>, the base adapter for a client that is an
  external program, and the two adapters built on it: \<open>src/adapters/example_system_tftp_client.hpp\<close>
  and \<open>src/adapters/tftpclient/tftpclient_adapter.hpp\<close>.

  The program is not part of the repository. What a run of it is to the adapter is a
  \<open>program_run\<close>: all it writes to the pipe, when the last descriptor of the pipe's write end is closed
  (perhaps never, and perhaps by a descendant), and when it can be waited for with which status
  (perhaps never). Times are nanoseconds since the reading of the clock before \<open>fork\<close>; a nap may take
  longer than asked for, the other calls take no time of their own. \<open>None\<close> is a call that does not return.
\<close>

section \<open>Running a program\<close>

datatype wait_status = Exited int | Signaled int

record program_run =
  program_output :: string
  output_closed :: "int option"
  program_ended :: "(int \<times> wait_status) option"

record host_system =
  pipe_works :: bool
  fork_works :: bool
  enterable :: "string \<Rightarrow> bool"
  program_for :: "string list \<Rightarrow> string \<Rightarrow> program_run option"
  overslept :: "nat \<Rightarrow> nat"

record subprocess_result =
  exit_code :: int
  hit_timeout :: bool
  launch_failed :: bool
  captured_output :: string
  run_duration :: int

definition empty_subprocess_result :: subprocess_result where
  "empty_subprocess_result = \<lparr>exit_code = -1, hit_timeout = False, launch_failed = False,
     captured_output = [], run_duration = 0\<rparr>"

definition exits_at_once :: "int \<Rightarrow> program_run" where
  "exits_at_once n = \<lparr>program_output = [], output_closed = Some 0, program_ended = Some (0, Exited n)\<rparr>"

text \<open>The child after \<open>fork\<close>: a failed \<open>chdir\<close> or \<open>execvp\<close> ends it with 127.\<close>

definition child_of :: "host_system \<Rightarrow> string list \<Rightarrow> string \<Rightarrow> program_run" where
  "child_of os argv directory =
     (if directory \<noteq> [] \<and> \<not> enterable os directory then exits_at_once 127
      else case program_for os argv directory of
             None \<Rightarrow> exits_at_once 127
           | Some run \<Rightarrow> run)"

definition waited :: "program_run \<Rightarrow> int \<Rightarrow> wait_status option" where
  "waited run now =
     (case program_ended run of
        None \<Rightarrow> None
      | Some (ended, status) \<Rightarrow> if ended \<le> now then Some status else None)"

definition nap_ns :: int where "nap_ns = 5 * 1000 * 1000"

text \<open>
  The parent's loop. The pipe is in blocking mode, so the inner loop ends only when \<open>read\<close> sees the end
  of the file; after that it returns at once. The answer is the status, none if the child was killed,
  the time and what was captured.
\<close>

function poll_child ::
  "program_run \<Rightarrow> (nat \<Rightarrow> nat) \<Rightarrow> int \<Rightarrow> nat \<Rightarrow> int \<Rightarrow> string \<Rightarrow> string \<Rightarrow>
   (wait_status option \<times> int \<times> string) option" where
  "poll_child run naps limit i now pending captured =
     (let finished = waited run now;
          rested = (if finished = None then now + nap_ns + int (naps i) else now)
      in case output_closed run of
           None \<Rightarrow> None
         | Some closing \<Rightarrow>
             let drained = max rested closing; captured = captured @ pending
             in if finished \<noteq> None then Some (finished, drained, captured)
                else if drained > limit then Some (None, drained, captured)
                else poll_child run naps limit (Suc i) drained [] captured)"
  by pat_completeness auto
termination
  by (relation "measure (\<lambda>(run, naps, limit, i, now, pending, captured). nat (limit + 1 - now))")
    (auto simp: nap_ns_def)

declare poll_child.simps [simp del]

definition run_subprocess ::
  "host_system \<Rightarrow> string list \<Rightarrow> string \<Rightarrow> int \<Rightarrow> subprocess_result option" where
  "run_subprocess os argv directory timeout =
     (if argv = [] \<or> \<not> pipe_works os \<or> \<not> fork_works os
      then Some (empty_subprocess_result\<lparr>launch_failed := True\<rparr>)
      else let run = child_of os argv directory
           in case poll_child run (overslept os) (timeout * 1000000) 0 0 (program_output run) [] of
                None \<Rightarrow> None
              | Some (status, elapsed, captured) \<Rightarrow>
                  Some (empty_subprocess_result\<lparr>
                    hit_timeout := (status = None),
                    run_duration := elapsed div 1000000,
                    captured_output := captured,
                    exit_code := (case status of Some (Exited n) \<Rightarrow> n | _ \<Rightarrow> -1)\<rparr>))"

section \<open>The adapter\<close>

text \<open>\<open>path::parent_path\<close>: up to the last separator, without trailing separators unless it is the root.\<close>

definition parent_path :: "string \<Rightarrow> string" where
  "parent_path path =
     (let directory = rev (dropWhile (\<lambda>c. c \<noteq> CHR ''/'') (rev path));
          stripped = rev (dropWhile (\<lambda>c. c = CHR ''/'') (rev directory))
      in if stripped = [] then directory else stripped)"

text \<open>What a subclass supplies. Both builders get host, port, remote name, local path, mode and options.\<close>

record cli_client =
  cli_name :: string
  cli_version :: string
  cli_supports :: "string \<Rightarrow> bool"
  build_read_arguments ::
    "string \<Rightarrow> u16 \<Rightarrow> string \<Rightarrow> string \<Rightarrow> transfer_mode \<Rightarrow> requested_options \<Rightarrow> string list"
  build_write_arguments ::
    "string \<Rightarrow> u16 \<Rightarrow> string \<Rightarrow> string \<Rightarrow> transfer_mode \<Rightarrow> requested_options \<Rightarrow> string list"
  transfer_timeout :: int

definition default_transfer_timeout :: int where "default_transfer_timeout = 20 * 1000"

definition subprocess_transfer_result :: "subprocess_result \<Rightarrow> transfer_result" where
  "subprocess_transfer_result run = empty_transfer_result\<lparr>
     process_exit_code := Some (exit_code run),
     wall_clock_duration := run_duration run,
     reported_error_message := captured_output run,
     reported_complete := (\<not> hit_timeout run \<and> \<not> launch_failed run \<and> exit_code run = 0)\<rparr>"

definition perform_cli_read ::
  "host_system \<Rightarrow> cli_client \<Rightarrow> string \<Rightarrow> u16 \<Rightarrow> string \<Rightarrow> string \<Rightarrow> transfer_mode \<Rightarrow> requested_options \<Rightarrow>
   transfer_result option" where
  "perform_cli_read os cl host port remote destination mode wanted =
     map_option subprocess_transfer_result
       (run_subprocess os (build_read_arguments cl host port remote destination mode wanted)
         (parent_path destination) (transfer_timeout cl))"

definition perform_cli_write ::
  "host_system \<Rightarrow> cli_client \<Rightarrow> string \<Rightarrow> u16 \<Rightarrow> string \<Rightarrow> string \<Rightarrow> transfer_mode \<Rightarrow> requested_options \<Rightarrow>
   transfer_result option" where
  "perform_cli_write os cl host port remote source mode wanted =
     map_option subprocess_transfer_result
       (run_subprocess os (build_write_arguments cl host port remote source mode wanted)
         (parent_path source) (transfer_timeout cl))"

section \<open>The system's client\<close>

definition cli_mode_string :: "transfer_mode \<Rightarrow> string" where
  "cli_mode_string mode = (if mode = NetasciiMode then ''netascii'' else ''octet'')"

definition system_tftp_supports :: "string \<Rightarrow> bool" where
  "system_tftp_supports capability \<longleftrightarrow> capability = rrq \<or> capability = wrq \<or> capability = net_ascii"

definition system_tftp_read_arguments ::
  "string \<Rightarrow> string \<Rightarrow> u16 \<Rightarrow> string \<Rightarrow> string \<Rightarrow> transfer_mode \<Rightarrow> requested_options \<Rightarrow> string list" where
  "system_tftp_read_arguments binary host port remote destination mode wanted =
     [binary, host, to_string (unat port), ''-m'', cli_mode_string mode, ''-c'', ''get'', remote, destination]"

definition system_tftp_write_arguments ::
  "string \<Rightarrow> string \<Rightarrow> u16 \<Rightarrow> string \<Rightarrow> string \<Rightarrow> transfer_mode \<Rightarrow> requested_options \<Rightarrow> string list" where
  "system_tftp_write_arguments binary host port remote source mode wanted =
     [binary, host, to_string (unat port), ''-m'', cli_mode_string mode, ''-c'', ''put'', source, remote]"

definition system_tftp_client :: "string \<Rightarrow> cli_client" where
  "system_tftp_client binary = \<lparr>cli_name = ''system-tftp-hpa-client'', cli_version = ''unknown'',
     cli_supports = system_tftp_supports,
     build_read_arguments = system_tftp_read_arguments binary,
     build_write_arguments = system_tftp_write_arguments binary,
     transfer_timeout = default_transfer_timeout\<rparr>"

section \<open>tftpClient\<close>

text \<open>The environment of the process is a map from names to values.\<close>

definition tftpclient_from_environment :: "(string \<Rightarrow> string option) \<Rightarrow> string + string" where
  "tftpclient_from_environment env =
     (case env ''TFTPCLIENT_BIN'' of
        None \<Rightarrow> Inl ''tftpClient adapter: TFTPCLIENT_BIN is not set''
      | Some binary \<Rightarrow>
          if binary = [] then Inl ''tftpClient adapter: TFTPCLIENT_BIN is not set'' else Inr binary)"

definition tftpclient_supports :: "string \<Rightarrow> bool" where
  "tftpclient_supports capability =
     (if capability = net_ascii then False
      else capability = rrq \<or> capability = wrq \<or> capability = opt \<or> capability = blk \<or>
        capability = tmo \<or> capability = tsz \<or> capability = win)"

definition value_or :: "'a option \<Rightarrow> 'a \<Rightarrow> 'a" where
  "value_or x d = (case x of Some v \<Rightarrow> v | None \<Rightarrow> d)"

definition tftpclient_options :: "(string \<Rightarrow> string option) \<Rightarrow> requested_options \<Rightarrow> string list" where
  "tftpclient_options env wanted =
     [''--blksize'', to_string (unat (value_or (wanted_block_size wanted) 512)),
      ''--windowsize'', to_string (unat (value_or (wanted_window_size wanted) 1)),
      ''--timeout'', to_string (unat (value_or (wanted_timeout_seconds wanted) 1))]
     @ (case env ''TFTPCLIENT_RETRIES'' of Some retries \<Rightarrow> [''--retries'', retries] | None \<Rightarrow> [])"

definition tftpclient_read_arguments ::
  "(string \<Rightarrow> string option) \<Rightarrow> string \<Rightarrow> string \<Rightarrow> u16 \<Rightarrow> string \<Rightarrow> string \<Rightarrow> transfer_mode \<Rightarrow>
   requested_options \<Rightarrow> string list" where
  "tftpclient_read_arguments env binary host port remote destination mode wanted =
     [binary, ''get'', host, to_string (unat port)] @ tftpclient_options env wanted @ [remote, destination]"

definition tftpclient_write_arguments ::
  "(string \<Rightarrow> string option) \<Rightarrow> string \<Rightarrow> string \<Rightarrow> u16 \<Rightarrow> string \<Rightarrow> string \<Rightarrow> transfer_mode \<Rightarrow>
   requested_options \<Rightarrow> string list" where
  "tftpclient_write_arguments env binary host port remote source mode wanted =
     [binary, ''put'', host, to_string (unat port)] @ tftpclient_options env wanted @ [source, remote]"

definition tftpclient :: "(string \<Rightarrow> string option) \<Rightarrow> string \<Rightarrow> cli_client" where
  "tftpclient env binary = \<lparr>cli_name = ''tftpClient'', cli_version = ''1.0.0'',
     cli_supports = tftpclient_supports,
     build_read_arguments = tftpclient_read_arguments env binary,
     build_write_arguments = tftpclient_write_arguments env binary,
     transfer_timeout = default_transfer_timeout\<rparr>"

section \<open>What a run of a program is reported as\<close>

lemma poll_child_blocked: "output_closed run = None \<Longrightarrow> poll_child run naps limit i now pending captured = None"
  by (simp add: poll_child.simps)

text \<open>One pass of the loop once the output ends: it goes round again, or it is the last.\<close>

definition drained_at :: "program_run \<Rightarrow> (nat \<Rightarrow> nat) \<Rightarrow> nat \<Rightarrow> int \<Rightarrow> int \<Rightarrow> int" where
  "drained_at run naps i now c = max (if waited run now = None then now + nap_ns + int (naps i) else now) c"

lemma poll_child_again:
  "output_closed run = Some c \<Longrightarrow> waited run now = None \<Longrightarrow> drained_at run naps i now c \<le> limit \<Longrightarrow>
     poll_child run naps limit i now pending captured =
       poll_child run naps limit (Suc i) (drained_at run naps i now c) [] (captured @ pending)"
  by (subst poll_child.simps) (auto simp: Let_def drained_at_def)

lemma poll_child_last:
  "output_closed run = Some c \<Longrightarrow> waited run now \<noteq> None \<or> limit < drained_at run naps i now c \<Longrightarrow>
     poll_child run naps limit i now pending captured =
       Some (waited run now, drained_at run naps i now c, captured @ pending)"
  by (subst poll_child.simps) (auto simp: Let_def drained_at_def)

lemma poll_child_induct [consumes 1, case_names last again]:
  assumes c: "output_closed run = Some c"
    and last: "\<And>i now pending captured. waited run now \<noteq> None \<or> limit < drained_at run naps i now c \<Longrightarrow>
      P i now pending captured (waited run now) (drained_at run naps i now c) (captured @ pending)"
    and again: "\<And>i now pending captured status t out.
      waited run now = None \<Longrightarrow> drained_at run naps i now c \<le> limit \<Longrightarrow>
      P (Suc i) (drained_at run naps i now c) [] (captured @ pending) status t out \<Longrightarrow>
      P i now pending captured status t out"
  shows "\<exists>status t out. poll_child run naps limit i now pending captured = Some (status, t, out) \<and>
    P i now pending captured status t out"
proof (induction "nat (limit + 1 - now)" arbitrary: i now pending captured rule: less_induct)
  case less
  show ?case
  proof (cases "waited run now = None \<and> drained_at run naps i now c \<le> limit")
    case True
    then have "nat (limit + 1 - drained_at run naps i now c) < nat (limit + 1 - now)"
      by (auto simp: drained_at_def nap_ns_def)
    from less [OF this, of "Suc i" "[]" "captured @ pending"] obtain status t out where
      "poll_child run naps limit (Suc i) (drained_at run naps i now c) [] (captured @ pending) = Some (status, t, out)"
      "P (Suc i) (drained_at run naps i now c) [] (captured @ pending) status t out" by blast
    then show ?thesis using again poll_child_again [OF c] True by auto
  next
    case False
    then have stop: "waited run now \<noteq> None \<or> limit < drained_at run naps i now c" by auto
    show ?thesis using last [OF stop] poll_child_last [OF c stop] by blast
  qed
qed

lemma waited_Some: "waited run now = Some s \<longleftrightarrow> (\<exists>e. program_ended run = Some (e, s) \<and> e \<le> now)"
  by (auto simp: waited_def split: option.splits)

text \<open>
  The loop returns with all the output. Not having waited for the child it has exceeded the limit; a
  nap taking at most \<open>late\<close> nanoseconds longer than asked for, it exceeds the limit by one nap at most
  unless the output ends later.
\<close>

lemma poll_child_returns:
  assumes "output_closed run = Some c" "\<forall>i. naps i \<le> late" "now \<le> limit"
  shows "\<exists>status t. poll_child run naps limit i now pending captured = Some (status, t, captured @ pending) \<and>
    (status = None \<longrightarrow> limit < t) \<and> t \<le> max (limit + nap_ns + int late) c"
proof -
  have nap: "int (naps i) \<le> int late" for i using assms(2) by simp
  have "\<exists>status t out. poll_child run naps limit i now pending captured = Some (status, t, out) \<and>
     (now \<le> limit \<longrightarrow> out = captured @ pending \<and> (status = None \<longrightarrow> limit < t) \<and>
       t \<le> max (limit + nap_ns + int late) c)"
    using assms(1)
  proof (induction rule: poll_child_induct)
    case (last i now pending captured)
    then show ?case using nap [of i] by (auto simp: drained_at_def nap_ns_def)
  qed auto
  then show ?thesis using assms(3) by auto
qed

lemma poll_child_in_time:
  assumes "output_closed run = Some c" "\<forall>i. naps i \<le> late" "program_ended run = Some (e, s)"
    "c \<le> limit" "e + nap_ns + int late \<le> limit" "now \<le> limit"
  shows "\<exists>t out. poll_child run naps limit i now pending captured = Some (Some s, t, out) \<and> t \<le> limit"
proof -
  have nap: "int (naps i) \<le> int late" for i using assms(2) by simp
  have "\<exists>status t out. poll_child run naps limit i now pending captured = Some (status, t, out) \<and>
     (now \<le> limit \<longrightarrow> status = Some s \<and> t \<le> limit)"
    using assms(1)
  proof (induction rule: poll_child_induct)
    case (last i now pending captured)
    then show ?case using nap [of i] assms(3-5) by (auto simp: drained_at_def waited_def)
  qed auto
  then show ?thesis using assms(6) by auto
qed

lemma poll_child_late:
  assumes "output_closed run = Some c" "\<forall>e s. program_ended run = Some (e, s) \<longrightarrow> limit < e" "now \<le> limit"
  shows "\<exists>t out. poll_child run naps limit i now pending captured = Some (None, t, out)"
proof -
  have "\<exists>status t out. poll_child run naps limit i now pending captured = Some (status, t, out) \<and>
     (now \<le> limit \<longrightarrow> status = None)"
    using assms(1)
  proof (induction rule: poll_child_induct)
    case (last i now pending captured)
    then show ?case using assms(2) by (auto simp: waited_def split: option.splits)
  qed auto
  then show ?thesis using assms(3) by auto
qed

definition status_code :: "wait_status \<Rightarrow> int" where
  "status_code s = (case s of Exited n \<Rightarrow> n | Signaled _ \<Rightarrow> -1)"


text \<open>A program that runs 12 ms, writes a word and exits with 0, on a machine that naps on time.\<close>

definition sample_host :: "program_run \<Rightarrow> host_system" where
  "sample_host run = \<lparr>pipe_works = True, fork_works = True, enterable = (\<lambda>_. True),
     program_for = (\<lambda>argv directory. Some run), overslept = (\<lambda>_. 0)\<rparr>"

definition sample_program :: program_run where
  "sample_program = \<lparr>program_output = ''ok'', output_closed = Some 12000000,
     program_ended = Some (12000000, Exited 0)\<rparr>"


text \<open>
  So the timeout does not bound a program that keeps its output open: the adapter's call does not return,
  whatever the timeout.
\<close>

lemma open_output_blocks:
  assumes "argv \<noteq> []" "pipe_works os" "fork_works os" "output_closed (child_of os argv directory) = None"
  shows "run_subprocess os argv directory timeout = None"
  using assms by (simp add: run_subprocess_def poll_child_blocked Let_def)

section \<open>What a command line must name\<close>

text \<open>
  The harness asks that a client talk to the host and port it is given. For a command line that is: the
  program first, then host and port next to each other, and the two file names after them.
\<close>

definition names_transfer :: "string \<Rightarrow> string \<Rightarrow> u16 \<Rightarrow> string list \<Rightarrow> string list \<Rightarrow> bool" where
  "names_transfer binary host port files argv \<longleftrightarrow>
     (\<exists>front back. argv = binary # front @ [host, to_string (unat port)] @ back \<and> subseq files back)"

lemma names_transferI:
  "argv = binary # front @ [host, to_string (unat port)] @ back \<Longrightarrow> subseq files back \<Longrightarrow>
     names_transfer binary host port files argv"
  by (auto simp: names_transfer_def)

lemma poll_child_success:
  "poll_child run naps limit i now pending captured = Some (Some s, t, out) \<Longrightarrow>
     \<exists>e. program_ended run = Some (e, s) \<and> e \<le> t"
proof -
  assume p: "poll_child run naps limit i now pending captured = Some (Some s, t, out)"
  then obtain c where c: "output_closed run = Some c"
    by (cases "output_closed run") (auto simp: poll_child_blocked)
  have "\<exists>status t out. poll_child run naps limit i now pending captured = Some (status, t, out) \<and>
     (\<forall>s. status = Some s \<longrightarrow> (\<exists>e. program_ended run = Some (e, s) \<and> e \<le> t))"
    using c
  proof (induction rule: poll_child_induct)
    case (last i now pending captured)
    then show ?case by (auto simp: waited_Some drained_at_def nap_ns_def)
  qed auto
  then show ?thesis using p by auto
qed

text \<open>A call reports completion only for a program that was started and exited with 0.\<close>

lemma subprocess_success:
  assumes "run_subprocess os argv directory timeout = Some r"
    "reported_complete (subprocess_transfer_result r)"
  shows "\<exists>run e. program_for os argv directory = Some run \<and> program_ended run = Some (e, Exited 0)"
proof -
  have r: "\<not> hit_timeout r" "\<not> launch_failed r" "exit_code r = 0"
    using assms(2) by (simp_all add: subprocess_transfer_result_def)
  obtain s t out where p: "poll_child (child_of os argv directory) (overslept os) (timeout * 1000000) 0 0
      (program_output (child_of os argv directory)) [] = Some (Some s, t, out)" "s = Exited 0"
    using assms(1) r
    by (auto simp: run_subprocess_def empty_subprocess_result_def Let_def split: if_splits option.splits wait_status.splits)
  have "\<exists>e. program_ended (child_of os argv directory) = Some (e, Exited 0)"
    using poll_child_success [OF p(1)] p(2) by auto
  then show ?thesis by (auto simp: child_of_def exits_at_once_def split: if_splits option.splits)
qed

locale command_line =
  fixes binary :: string and cl :: cli_client
  assumes read_names: "names_transfer binary host port [remote, destination]
      (build_read_arguments cl host port remote destination mode wanted)"
    and write_names: "names_transfer binary host port [source, remote]
      (build_write_arguments cl host port remote source mode wanted)"
begin

lemma arguments_not_empty:
  "build_read_arguments cl host port remote destination mode wanted \<noteq> []"
  "build_write_arguments cl host port remote source mode wanted \<noteq> []"
  using read_names [of host port remote destination mode wanted]
    write_names [of host port source remote mode wanted]
  by (auto simp: names_transfer_def)

lemma completed_read:
  assumes "perform_cli_read os cl host port remote destination mode wanted = Some r" "reported_complete r"
  shows "\<exists>argv run e. names_transfer binary host port [remote, destination] argv \<and>
    program_for os argv (parent_path destination) = Some run \<and> program_ended run = Some (e, Exited 0)"
proof -
  obtain r' where "run_subprocess os (build_read_arguments cl host port remote destination mode wanted)
      (parent_path destination) (transfer_timeout cl) = Some r'" "r = subprocess_transfer_result r'"
    using assms(1) by (auto simp: perform_cli_read_def)
  then show ?thesis using subprocess_success assms(2) read_names by fastforce
qed

lemma completed_write:
  assumes "perform_cli_write os cl host port remote source mode wanted = Some r" "reported_complete r"
  shows "\<exists>argv run e. names_transfer binary host port [source, remote] argv \<and>
    program_for os argv (parent_path source) = Some run \<and> program_ended run = Some (e, Exited 0)"
proof -
  obtain r' where "run_subprocess os (build_write_arguments cl host port remote source mode wanted)
      (parent_path source) (transfer_timeout cl) = Some r'" "r = subprocess_transfer_result r'"
    using assms(1) by (auto simp: perform_cli_write_def)
  then show ?thesis using subprocess_success assms(2) write_names by fastforce
qed

lemma open_output_stalls_transfer:
  assumes "pipe_works os" "fork_works os"
    "\<And>argv directory. output_closed (child_of os argv directory) = None"
  shows "perform_cli_read os cl host port remote destination mode wanted = None"
    "perform_cli_write os cl host port remote source mode wanted = None"
  using assms by (simp_all add: perform_cli_read_def perform_cli_write_def open_output_blocks arguments_not_empty)

end

interpretation system_tftp: command_line binary "system_tftp_client binary" for binary
proof
  fix host port remote destination mode wanted
  show "names_transfer binary host port [remote, destination]
      (build_read_arguments (system_tftp_client binary) host port remote destination mode wanted)"
    by (rule names_transferI [of _ _ "[]" _ _ "[''-m'', cli_mode_string mode, ''-c'', ''get'', remote, destination]"])
      (auto simp: system_tftp_client_def system_tftp_read_arguments_def intro: list_emb_append2)
next
  fix host port source remote mode wanted
  show "names_transfer binary host port [source, remote]
      (build_write_arguments (system_tftp_client binary) host port remote source mode wanted)"
    by (rule names_transferI [of _ _ "[]" _ _ "[''-m'', cli_mode_string mode, ''-c'', ''put'', source, remote]"])
      (auto simp: system_tftp_client_def system_tftp_write_arguments_def intro: list_emb_append2)
qed

interpretation tftp_client: command_line binary "tftpclient env binary" for env binary
proof
  fix host port remote destination mode wanted
  show "names_transfer binary host port [remote, destination]
      (build_read_arguments (tftpclient env binary) host port remote destination mode wanted)"
    by (rule names_transferI [of _ _ "[''get'']" _ _ "tftpclient_options env wanted @ [remote, destination]"])
      (auto simp: tftpclient_def tftpclient_read_arguments_def intro: list_emb_append2)
next
  fix host port source remote mode wanted
  show "names_transfer binary host port [source, remote]
      (build_write_arguments (tftpclient env binary) host port remote source mode wanted)"
    by (rule names_transferI [of _ _ "[''put'']" _ _ "tftpclient_options env wanted @ [source, remote]"])
      (auto simp: tftpclient_def tftpclient_write_arguments_def intro: list_emb_append2)
qed

text \<open>
  The two shipped command lines: a transfer reported complete was a run of the configured program, on
  the proxy's host and port and the right two names, that exited with 0; and the parameters a test leaves
  open are pinned to those of RFC 1350 for tftpClient.
\<close>

lemma tftpclient_pins_defaults:
  "tftpclient_options (\<lambda>_. None) no_options =
     [''--blksize'', ''512'', ''--windowsize'', ''1'', ''--timeout'', ''1'']"
  by code_simp

end
