(* ===== verification/Tftpd64_Process.thy ===== *)
theory Tftpd64_Process
  imports Subprocess_Adapter
begin

text \<open>
  \<open>src/adapters/tftpd64/tftpd64_process.{hpp,cpp}\<close>: running Tftpd64, a Windows program, under Wine.
  A Windows process does not keep the pid that was forked, so the adapters find it by the value of
  \<open>TFTPD32_INI_DIR\<close> in its environment, as \<open>/proc\<close> shows it.

  The machine is a record: its processes with what \<open>/proc\<close> shows of them, its directories and text
  files below the temporary directory, and the harness's own pid, environment and working directory.
  What the system answers (sockets, \<open>fork\<close>, \<open>execl\<close>, the processes Wine starts) is an argument.
\<close>

section \<open>The environment\<close>

type_synonym env_vars = "string \<Rightarrow> string option"

definition require_environment :: "string \<Rightarrow> env_vars \<Rightarrow> string \<Rightarrow> string + string" where
  "require_environment adapter env name =
     (let missing = Inl (adapter @ '': environment variable '' @ name @ '' is not set'')
      in case env name of
           None \<Rightarrow> missing
         | Some v \<Rightarrow> if v = [] then missing else Inr v)"

record wine_environment =
  wine_binary :: string
  wine_executable :: string
  wine_prefix :: string

definition wine_from_environment :: "env_vars \<Rightarrow> string + wine_environment" where
  "wine_from_environment env =
     (case require_environment ''tftpd64 adapter'' env ''TFTPD64_WINE'' of
        Inl e \<Rightarrow> Inl e
      | Inr binary \<Rightarrow>
          (case require_environment ''tftpd64 adapter'' env ''TFTPD64_EXE'' of
             Inl e \<Rightarrow> Inl e
           | Inr executable \<Rightarrow>
               (case require_environment ''tftpd64 adapter'' env ''TFTPD64_WINEPREFIX'' of
                  Inl e \<Rightarrow> Inl e
                | Inr prefix_directory \<Rightarrow>
                    Inr \<lparr>wine_binary = binary, wine_executable = executable, wine_prefix = prefix_directory\<rparr>)))"

text \<open>
  Decimal text with an optional sign, as \<open>strtol\<close> reads it: none if there is no digit. \<open>std::stoi\<close> throws
  there and outside \<open>int\<close>; \<open>atoi\<close> gives 0 and the low half of a value clamped to \<open>long\<close>, as glibc does.
\<close>

definition signed_text :: "string \<Rightarrow> int option" where
  "signed_text s =
     (let body = dropWhile is_space_char s;
          negative = (case body of c # _ \<Rightarrow> c = CHR ''-'' | [] \<Rightarrow> False);
          unsigned = (case body of
                        c # cs \<Rightarrow> if c = CHR ''-'' \<or> c = CHR ''+'' then cs else body
                      | [] \<Rightarrow> []);
          digits = takeWhile is_digit_char unsigned;
          v = int (digits_value 0 digits)
      in if digits = [] then None else Some (if negative then - v else v))"

definition stoi :: "string \<Rightarrow> exn + int" where
  "stoi s =
     (case signed_text s of
        None \<Rightarrow> Inl InvalidArgument
      | Some v \<Rightarrow> if v < - (2 ^ 31) \<or> 2 ^ 31 \<le> v then Inl OutOfRange else Inr v)"

definition atoi :: "string \<Rightarrow> int" where
  "atoi s =
     (case signed_text s of
        None \<Rightarrow> 0
      | Some v \<Rightarrow> sint (word_of_int (max (- (2 ^ 63)) (min v (2 ^ 63 - 1))) :: 32 word))"

section \<open>The machine\<close>

record os_process =
  process_pid :: int
  process_environ :: "string option"
  process_cmdline :: "string option"

record wine_machine =
  os_processes :: "os_process list"
  proc_readable :: bool
  has_directory :: "string \<Rightarrow> bool"
  text_at :: "string \<Rightarrow> string option"
  instance_counter :: u32
  harness_pid :: int
  harness_environ :: "(string \<times> string) list"
  working_directory :: string
  temporary_directory :: string

definition to_windows_path :: "wine_machine \<Rightarrow> string \<Rightarrow> string" where
  "to_windows_path m path =
     ''Z:'' @ map (\<lambda>c. if c = CHR ''/'' then CHR 0x5C else c) (path_append (working_directory m) path)"

text \<open>What \<open>socket\<close>, \<open>bind\<close> and \<open>getsockname\<close> answer.\<close>

definition pick_free_udp_port :: "bool \<Rightarrow> bool \<Rightarrow> u16 option \<Rightarrow> string + u16" where
  "pick_free_udp_port opened bound named =
     (if \<not> opened then Inl ''tftpd64 adapter: socket() failed''
      else if \<not> bound then Inl ''tftpd64 adapter: bind() failed''
      else case named of
             None \<Rightarrow> Inl ''tftpd64 adapter: getsockname() failed''
           | Some port \<Rightarrow> Inr port)"

definition port_is_free :: "bool \<Rightarrow> bool \<Rightarrow> bool" where
  "port_is_free opened bound = (if \<not> opened then False else bound)"

text \<open>
  Each look at the clock and, if the deadline is ahead, at the predicate; after the deadline the
  predicate is asked once more. The list ends with a look past the deadline.
\<close>

fun wait_until :: "(bool \<times> bool) list \<Rightarrow> bool" where
  "wait_until [] = False"
| "wait_until ((ahead, answer) # looks) = (if ahead then answer \<or> wait_until looks else answer)"

definition find_processes_with_marker :: "string \<Rightarrow> wine_machine \<Rightarrow> int list" where
  "find_processes_with_marker marker m =
     (if \<not> proc_readable m then []
      else map process_pid (filter (\<lambda>p. process_pid p > 0 \<and>
        (case process_environ p of Some shown \<Rightarrow> contains_text marker shown | None \<Rightarrow> False)) (os_processes m)))"

definition find_processes_with_cmdline :: "string \<Rightarrow> wine_machine \<Rightarrow> int list" where
  "find_processes_with_cmdline fragment m =
     (if \<not> proc_readable m then []
      else map process_pid (filter (\<lambda>p. process_pid p > 0 \<and>
        (case process_cmdline p of Some shown \<Rightarrow> contains_text fragment shown | None \<Rightarrow> False)) (os_processes m)))"

definition kill_process :: "int \<Rightarrow> wine_machine \<Rightarrow> wine_machine" where
  "kill_process pid m = m\<lparr>os_processes := filter (\<lambda>p. process_pid p \<noteq> pid) (os_processes m)\<rparr>"

text \<open>\<open>setenv\<close> with overwriting, and the text of an environment in \<open>/proc\<close>.\<close>

fun set_environment :: "string \<Rightarrow> string \<Rightarrow> (string \<times> string) list \<Rightarrow> (string \<times> string) list" where
  "set_environment name v [] = [(name, v)]"
| "set_environment name v ((n, old) # vars) =
     (if n = name then (n, v) # vars else (n, old) # set_environment name v vars)"

definition environ_text :: "(string \<times> string) list \<Rightarrow> string" where
  "environ_text vars = concat (map (\<lambda>(n, v). n @ ''='' @ v @ [CHR 0x00]) vars)"

definition wine_environ :: "wine_environment \<Rightarrow> string \<Rightarrow> (string \<times> string) list \<Rightarrow> (string \<times> string) list" where
  "wine_environ wine ini vars =
     set_environment ''WINEDLLOVERRIDES'' ''mscoree,mshtml=''
      (set_environment ''WINEDEBUG'' ''-all''
       (set_environment ''TFTPD32_INI_DIR'' ini
        (set_environment ''WINEPREFIX'' (wine_prefix wine) vars)))"

text \<open>
  What the system does with a launch: the pid of \<open>fork\<close> (negative if it fails), whether \<open>execl\<close> works
  and which processes Wine starts from the launcher. A child whose \<open>execl\<close> fails is a zombie, of which
  \<open>/proc\<close> shows nothing.
\<close>

record launch_answers =
  fork_pid :: int
  exec_works :: bool
  wine_starts :: "os_process \<Rightarrow> os_process list"

definition launcher_process :: "int \<Rightarrow> wine_environment \<Rightarrow> string \<Rightarrow> wine_machine \<Rightarrow> os_process" where
  "launcher_process pid wine ini m =
     \<lparr>process_pid = pid,
      process_environ = Some (environ_text (wine_environ wine ini (harness_environ m))),
      process_cmdline = Some (wine_binary wine @ [CHR 0x00] @ wine_executable wine @ [CHR 0x00])\<rparr>"

definition launched :: "launch_answers \<Rightarrow> wine_environment \<Rightarrow> string \<Rightarrow> wine_machine \<Rightarrow> os_process list" where
  "launched w wine ini m =
     (let launcher = launcher_process (fork_pid w) wine ini m
      in if exec_works w then launcher # wine_starts w launcher
         else [launcher\<lparr>process_environ := Some [], process_cmdline := Some []\<rparr>])"

definition launch_tftpd64 ::
  "launch_answers \<Rightarrow> wine_environment \<Rightarrow> string \<Rightarrow> wine_machine \<Rightarrow> int \<times> wine_machine" where
  "launch_tftpd64 w wine ini m =
     (if fork_pid w < 0 then (-1, m)
      else (fork_pid w, m\<lparr>os_processes := os_processes m @ launched w wine ini m\<rparr>))"

definition kill_tftpd64 :: "int \<Rightarrow> string \<Rightarrow> wine_machine \<Rightarrow> wine_machine" where
  "kill_tftpd64 launcher marker m =
     (let m = (if marker \<noteq> [] then fold kill_process (find_processes_with_marker marker m) m else m)
      in if launcher > 0 then kill_process launcher m else m)"

section \<open>Directories\<close>

definition create_directories :: "string \<Rightarrow> wine_machine \<Rightarrow> wine_machine" where
  "create_directories path m = m\<lparr>has_directory := (has_directory m)(path := True)\<rparr>"

definition write_text :: "string \<Rightarrow> string \<Rightarrow> wine_machine \<Rightarrow> wine_machine" where
  "write_text path body m = m\<lparr>text_at := (text_at m)(path \<mapsto> body)\<rparr>"

definition below :: "string \<Rightarrow> string \<Rightarrow> bool" where
  "below directory path \<longleftrightarrow> path = directory \<or> prefix (directory @ ''/'') path"

definition remove_all :: "string \<Rightarrow> wine_machine \<Rightarrow> wine_machine" where
  "remove_all directory m = m\<lparr>has_directory := (\<lambda>d. has_directory m d \<and> \<not> below directory d),
     text_at := (\<lambda>f. if below directory f then None else text_at m f)\<rparr>"

section \<open>Finding and killing an instance\<close>

lemma contains_text_iff: "contains_text pat s \<longleftrightarrow> (\<exists>xs ys. s = xs @ pat @ ys)"
proof (induction pat s rule: contains_text.induct)
  case (2 pat c cs)
  have "take (length pat) (c # cs) = pat \<longleftrightarrow> (\<exists>ys. c # cs = pat @ ys)"
    by (metis append_eq_conv_conj)
  then show ?case using 2 by (auto simp: Cons_eq_append_conv)
qed simp

lemma contains_text_append [intro]: "contains_text pat s \<Longrightarrow> contains_text pat (xs @ s @ ys)"
  by (metis append.assoc contains_text_iff)

lemma set_environment_sets: "(name, v) \<in> set (set_environment name v vars)"
  by (induction name v vars rule: set_environment.induct) auto

lemma set_environment_keeps:
  "n \<noteq> name \<Longrightarrow> (n, w) \<in> set vars \<Longrightarrow> (n, w) \<in> set (set_environment name v vars)"
  by (induction name v vars rule: set_environment.induct) auto

lemma environ_text_shows: "(n, v) \<in> set vars \<Longrightarrow> contains_text v (environ_text vars)"
proof -
  assume "(n, v) \<in> set vars"
  then obtain before after where "vars = before @ (n, v) # after" by (meson split_list)
  then have "environ_text vars = (environ_text before @ n @ ''='') @ v @ ([CHR 0x00] @ environ_text after)"
    by (simp add: environ_text_def)
  then show ?thesis unfolding contains_text_iff by blast
qed

text \<open>The launcher carries the marker.\<close>

lemma launcher_marked: "contains_text ini (environ_text (wine_environ wine ini vars))"
  by (rule environ_text_shows [of "''TFTPD32_INI_DIR''"])
    (auto simp: wine_environ_def intro!: set_environment_keeps set_environment_sets)

definition marked :: "string \<Rightarrow> os_process \<Rightarrow> bool" where
  "marked marker p \<longleftrightarrow> process_pid p > 0 \<and>
     (case process_environ p of Some shown \<Rightarrow> contains_text marker shown | None \<Rightarrow> False)"

lemma found_iff:
  "proc_readable m \<Longrightarrow> pid \<in> set (find_processes_with_marker marker m) \<longleftrightarrow>
     (\<exists>p \<in> set (os_processes m). process_pid p = pid \<and> marked marker p)"
  by (auto simp: find_processes_with_marker_def marked_def)

lemma fold_kill:
  "fold kill_process pids m = m\<lparr>os_processes := filter (\<lambda>p. process_pid p \<notin> set pids) (os_processes m)\<rparr>"
  by (induction pids arbitrary: m) (auto simp: kill_process_def intro!: arg_cong [of _ _ "\<lambda>f. filter f _"])

text \<open>Killing an instance leaves exactly the processes that are neither the launcher nor marked.\<close>

lemma kill_tftpd64_exact:
  assumes "proc_readable m" "marker \<noteq> []" "distinct (map process_pid (os_processes m))"
  shows "kill_tftpd64 launcher marker m = m\<lparr>os_processes :=
     filter (\<lambda>p. \<not> marked marker p \<and> \<not> (launcher > 0 \<and> process_pid p = launcher)) (os_processes m)\<rparr>"
proof -
  have same: "process_pid p \<in> set (find_processes_with_marker marker m) \<longleftrightarrow> marked marker p"
    if "p \<in> set (os_processes m)" for p
    using that assms(3) by (auto simp: found_iff [OF assms(1)] distinct_map dest: inj_onD)
  have "filter (\<lambda>p. process_pid p \<notin> set (find_processes_with_marker marker m)) (os_processes m) =
      filter (\<lambda>p. \<not> marked marker p) (os_processes m)"
    by (rule filter_cong) (simp_all add: same)
  then show ?thesis
    by (auto simp: kill_tftpd64_def fold_kill kill_process_def assms(2) Let_def conj_commute
        intro!: arg_cong [of _ _ "\<lambda>f. filter f _"])
qed

text \<open>
  A launch is orderly if \<open>fork\<close> gives a new pid or fails, and the processes Wine starts have new pids
  and inherit the environment, so that the marker is in it.
\<close>

definition orderly_launch :: "launch_answers \<Rightarrow> wine_environment \<Rightarrow> string \<Rightarrow> wine_machine \<Rightarrow> bool" where
  "orderly_launch w wine marker m \<longleftrightarrow>
     (let launcher = launcher_process (fork_pid w) wine marker m
      in fork_pid w \<noteq> 0 \<and> (0 < fork_pid w \<longrightarrow>
         distinct (map process_pid (os_processes m @ launcher # wine_starts w launcher)) \<and>
         (\<forall>p \<in> set (wine_starts w launcher). marked marker p)))"

lemma launched_killed:
  assumes "orderly_launch w wine marker m" "0 < fork_pid w" "p \<in> set (launched w wine marker m)"
  shows "marked marker p \<or> process_pid p = fork_pid w"
  using assms launcher_marked [of marker wine "harness_environ m"]
  by (auto simp: orderly_launch_def launched_def launcher_process_def Let_def split: if_splits)

lemma launched_pids:
  assumes "orderly_launch w wine marker m" "0 < fork_pid w"
  shows "distinct (map process_pid (os_processes m @ launched w wine marker m))"
    "fork_pid w \<notin> process_pid ` set (os_processes m)"
  using assms by (auto simp: orderly_launch_def launched_def launcher_process_def Let_def)

text \<open>
  The marker is searched as a part of the text, so an instance whose directory name begins with
  another's is taken for it: killing the client instance of pid 12 kills that of pid 123.
\<close>

lemma longer_marker_killed:
  assumes "contains_text marker longer" "process_pid p > 0" "process_environ p = Some (environ_text vars)"
    "(''TFTPD32_INI_DIR'', longer) \<in> set vars"
  shows "marked marker p"
proof -
  have "contains_text longer (environ_text vars)" by (rule environ_text_shows [OF assms(4)])
  then obtain xs ys where "environ_text vars = xs @ longer @ ys" by (auto simp: contains_text_iff)
  then have "contains_text marker (environ_text vars)" using contains_text_append [OF assms(1)] by metis
  then show ?thesis using assms by (simp add: marked_def)
qed

section \<open>Setting an instance up and tearing it down\<close>

text \<open>Nothing on the machine has to do with the directory yet.\<close>

definition fresh_directory :: "wine_machine \<Rightarrow> string \<Rightarrow> bool" where
  "fresh_directory m directory \<longleftrightarrow> directory \<noteq> [] \<and> List.last directory \<noteq> CHR ''/'' \<and>
     (\<forall>path. below directory path \<longrightarrow> \<not> has_directory m path \<and> text_at m path = None) \<and>
     (\<forall>p \<in> set (os_processes m). \<not> marked (to_windows_path m directory) p)"

definition instance_set_up :: "string \<Rightarrow> string \<Rightarrow> wine_machine \<Rightarrow> wine_machine" where
  "instance_set_up directory ini m =
     write_text (path_append directory ''Tftpd32.ini'') ini (create_directories directory m)"

lemma below_append: "fresh_directory m directory \<Longrightarrow> below directory (path_append directory ''Tftpd32.ini'')"
  by (auto simp: fresh_directory_def path_append_def below_def)

lemma windows_path_not_empty [simp]: "to_windows_path m path \<noteq> []"
  by (simp add: to_windows_path_def)

lemma remove_all_set_up:
  assumes "fresh_directory m directory"
  shows "remove_all directory (instance_set_up directory ini m) = m" (is "?m = m")
proof -
  have directories: "has_directory ?m = has_directory m"
    using assms by (intro ext) (auto simp: fresh_directory_def below_def remove_all_def instance_set_up_def
        write_text_def create_directories_def)
  have texts: "text_at ?m = text_at m"
    using assms below_append [OF assms] by (intro ext) (auto simp: fresh_directory_def remove_all_def
        instance_set_up_def write_text_def create_directories_def)
  have rest: "?m = m\<lparr>has_directory := has_directory ?m, text_at := text_at ?m\<rparr>"
    by (simp add: remove_all_def instance_set_up_def write_text_def create_directories_def)
  show ?thesis by (subst rest) (simp only: directories texts, simp)
qed

lemma instance_torn_down:
  assumes fresh: "fresh_directory m directory" and "proc_readable m"
    and pids: "distinct (map process_pid (os_processes m @ new))"
    and new: "\<forall>p \<in> set new. marked (to_windows_path m directory) p \<or> (0 < launcher \<and> process_pid p = launcher)"
    and old: "0 < launcher \<Longrightarrow> launcher \<notin> process_pid ` set (os_processes m)"
  shows "remove_all directory (kill_tftpd64 launcher (to_windows_path m directory)
     ((instance_set_up directory ini m)\<lparr>os_processes := os_processes m @ new\<rparr>)) = m"
proof -
  let ?m = "instance_set_up directory ini m"
  let ?keep = "\<lambda>p. \<not> marked (to_windows_path m directory) p \<and> \<not> (0 < launcher \<and> process_pid p = launcher)"
  have same: "os_processes ?m = os_processes m" "proc_readable ?m = proc_readable m"
    by (simp_all add: instance_set_up_def write_text_def create_directories_def)
  have "filter ?keep (os_processes m) = os_processes m"
    using fresh old by (auto simp: fresh_directory_def filter_id_conv)
  moreover have "filter ?keep new = []" using new by (auto simp: filter_empty_conv)
  ultimately have "filter ?keep (os_processes m @ new) = os_processes ?m" by (simp add: same)
  moreover have "kill_tftpd64 launcher (to_windows_path m directory) (?m\<lparr>os_processes := os_processes m @ new\<rparr>) =
      ?m\<lparr>os_processes := filter ?keep (os_processes m @ new)\<rparr>"
    using assms(2) pids by (subst kill_tftpd64_exact) (simp_all add: same)
  ultimately show ?thesis using remove_all_set_up [OF fresh] by simp
qed

end
