(* ===== verification/Tftpd64_Adapters.thy ===== *)
theory Tftpd64_Adapters
  imports Tftpd64_Process
begin

text \<open>
  \<open>src/adapters/tftpd64/tftpd64_server_adapter.{hpp,cpp}\<close> and \<open>tftpd64_client_adapter.{hpp,cpp}\<close>: Tftpd64
  as server and as client under test. An adapter object is a record that its operations return changed,
  next to the machine. The server adapter owns a process per transfer; the client adapter starts one
  process and then runs a driver program, through \<open>run_subprocess\<close>, for each transfer.

  Waiting for the port of a killed server is left out of \<open>stop\<close>: its answer is not used.
\<close>

section \<open>The server adapter\<close>

record tftpd64_config =
  config_wine :: wine_environment
  timeout_setting :: int
  max_retransmit :: int
  security_level :: int
  negotiate_options :: bool

definition default_tftpd64_config :: "wine_environment \<Rightarrow> tftpd64_config" where
  "default_tftpd64_config wine = \<lparr>config_wine = wine, timeout_setting = 1, max_retransmit = 6,
     security_level = 1, negotiate_options = True\<rparr>"

definition config_from_environment :: "env_vars \<Rightarrow> string + tftpd64_config" where
  "config_from_environment env =
     (case wine_from_environment env of
        Inl e \<Rightarrow> Inl e
      | Inr wine \<Rightarrow>
          let c = default_tftpd64_config wine;
              c = (case env ''TFTPD64_TIMEOUT'' of Some t \<Rightarrow> c\<lparr>timeout_setting := atoi t\<rparr> | None \<Rightarrow> c);
              c = (case env ''TFTPD64_MAXRETRANSMIT'' of Some r \<Rightarrow> c\<lparr>max_retransmit := atoi r\<rparr> | None \<Rightarrow> c)
          in Inr c)"

definition tftpd64_server_name :: string where "tftpd64_server_name = ''Tftpd64 (Wine)''"
definition tftpd64_server_version :: string where "tftpd64_server_version = ''4.74''"

definition tftpd64_server_supports :: "tftpd64_config \<Rightarrow> string \<Rightarrow> bool" where
  "tftpd64_server_supports c capability =
     (if capability = win then False
      else if capability = opt then negotiate_options c
      else if capability = blk \<or> capability = tmo \<or> capability = tsz then negotiate_options c
      else if capability = rrq \<or> capability = wrq \<or> capability = net_ascii then True
      else False)"

record server_adapter =
  server_config :: tftpd64_config
  instance_directory :: string
  ini_directory_marker :: string
  launcher_pid :: int
  server_port :: u16

definition idle_server :: "tftpd64_config \<Rightarrow> server_adapter" where
  "idle_server c = \<lparr>server_config = c, instance_directory = [], ini_directory_marker = [],
     launcher_pid = -1, server_port = 0\<rparr>"

definition server_stop :: "server_adapter \<times> wine_machine \<Rightarrow> server_adapter \<times> wine_machine" where
  "server_stop am =
     (let (a, m) = am
      in if launcher_pid a < 0 \<and> ini_directory_marker a = [] then (a, m)
         else
           let m = kill_tftpd64 (launcher_pid a) (ini_directory_marker a) m;
               a = a\<lparr>launcher_pid := -1, server_port := 0\<rparr>;
               (a, m) = (if instance_directory a \<noteq> []
                         then (a\<lparr>instance_directory := []\<rparr>, remove_all (instance_directory a) m)
                         else (a, m))
           in (a\<lparr>ini_directory_marker := []\<rparr>, m))"

definition newline :: string where "newline = [CHR 0x0A]"

definition server_ini :: "tftpd64_config \<Rightarrow> string \<Rightarrow> u16 \<Rightarrow> string" where
  "server_ini c base port =
     ''[TFTPD32]'' @ newline
     @ ''BaseDirectory='' @ base @ newline
     @ ''TftpPort='' @ to_string (unat port) @ newline
     @ ''LocalIP=127.0.0.1'' @ newline
     @ ''Services=15'' @ newline
     @ ''Negociate='' @ to_string (if negotiate_options c then 1 else 0) @ newline
     @ ''Timeout='' @ int_to_string (timeout_setting c) @ newline
     @ ''MaxRetransmit='' @ int_to_string (max_retransmit c) @ newline
     @ ''SecurityLevel='' @ int_to_string (security_level c) @ newline
     @ ''UnixStrings=1'' @ newline
     @ ''VirtualRoot=0'' @ newline
     @ ''PXECompatibility=0'' @ newline
     @ ''Hide=1'' @ newline
     @ ''Beep=0'' @ newline
     @ ''MD5=0'' @ newline
     @ ''WinSize=0'' @ newline
     @ ''Enable IPv6=0'' @ newline
     @ ''Ignore ack for last TFTP packet=0'' @ newline
     @ ''Max Simultaneous Transfers=100'' @ newline"

text \<open>What the system answers while an instance is started.\<close>

record start_answers =
  probe_opened :: bool
  probe_bound :: bool
  probe_named :: "u16 option"
  launch :: launch_answers
  start_looks :: "(bool \<times> bool) list"

definition server_directory :: "wine_machine \<Rightarrow> string" where
  "server_directory m = path_append (temporary_directory m)
     (''tftpd64_cfg_'' @ int_to_string (harness_pid m) @ ''_'' @ to_string (unat (instance_counter m)))"

definition server_start ::
  "start_answers \<Rightarrow> string \<Rightarrow> server_adapter \<times> wine_machine \<Rightarrow>
   (string + string \<times> u16) \<times> server_adapter \<times> wine_machine" where
  "server_start w served am =
     (let (a, m) = server_stop am
      in case pick_free_udp_port (probe_opened w) (probe_bound w) (probe_named w) of
           Inl e \<Rightarrow> (Inl e, a, m)
         | Inr port \<Rightarrow>
             let m = m\<lparr>instance_counter := instance_counter m + 1\<rparr>;
                 directory = server_directory m;
                 m = create_directories directory m;
                 marker = to_windows_path m directory;
                 a = a\<lparr>server_port := port, instance_directory := directory, ini_directory_marker := marker\<rparr>;
                 m = write_text (path_append directory ''Tftpd32.ini'')
                       (server_ini (server_config a) (to_windows_path m served) port) m;
                 (child, m) = launch_tftpd64 (launch w) (config_wine (server_config a)) marker m
             in if child < 0 then (Inl ''tftpd64 adapter: fork() failed'', a, m)
                else
                  let a = a\<lparr>launcher_pid := child\<rparr>
                  in if \<not> wait_until (start_looks w)
                     then (Inl (''tftpd64 adapter: server did not bind UDP port '' @ to_string (unat port)
                             @ '' (is Wine working?)''), server_stop (a, m))
                     else (Inr (''127.0.0.1'', port), a, m))"

section \<open>The client adapter\<close>

definition block_size_argument :: "requested_options \<Rightarrow> string" where
  "block_size_argument wanted =
     (case wanted_block_size wanted of None \<Rightarrow> ''Default'' | Some n \<Rightarrow> to_string (unat n))"

fun find_text :: "string \<Rightarrow> string \<Rightarrow> nat option" where
  "find_text pat [] = (if pat = [] then Some 0 else None)"
| "find_text pat (c # cs) =
     (if take (length pat) (c # cs) = pat then Some 0 else map_option Suc (find_text pat cs))"

text \<open>The digits after the marker; \<open>std::stoi\<close> throws on a number beyond \<open>int\<close>.\<close>

definition parse_error_code :: "string \<Rightarrow> exn + u16 option" where
  "parse_error_code output =
     (let marker = ''tftp-error-code=''
      in case find_text marker output of
           None \<Rightarrow> Inr None
         | Some position \<Rightarrow>
             let digits = takeWhile is_digit_char (drop (position + length marker) output)
             in if digits = [] then Inr None
                else case stoi digits of
                       Inl e \<Rightarrow> Inl e
                     | Inr code \<Rightarrow> Inr (Some (word_of_int code)))"

definition driver_timeout_seconds :: "env_vars \<Rightarrow> int" where
  "driver_timeout_seconds env =
     (case env ''TFTPD64_DRIVER_TIMEOUT'' of
        Some seconds \<Rightarrow> if atoi seconds > 0 then atoi seconds else 25
      | None \<Rightarrow> 25)"

definition driver_success :: int where "driver_success = 0"
definition driver_failure :: int where "driver_failure = 1"
definition driver_unsupported :: int where "driver_unsupported = 3"

record gui_config =
  gui_wine :: wine_environment
  gui_python :: string
  gui_driver :: string
  gui_timeout :: int
  gui_retransmit :: int

definition gui_from_environment :: "env_vars \<Rightarrow> string + gui_config" where
  "gui_from_environment env =
     (case wine_from_environment env of
        Inl e \<Rightarrow> Inl e
      | Inr wine \<Rightarrow>
          (case require_environment ''tftpd64 client adapter'' env ''TFTPD64_PYTHON'' of
             Inl e \<Rightarrow> Inl e
           | Inr python \<Rightarrow>
               (case require_environment ''tftpd64 client adapter'' env ''TFTPD64_DRIVER'' of
                  Inl e \<Rightarrow> Inl e
                | Inr driver \<Rightarrow>
                    let c = \<lparr>gui_wine = wine, gui_python = python, gui_driver = driver,
                               gui_timeout = 1, gui_retransmit = 6\<rparr>;
                        c = (case env ''TFTPD64_TIMEOUT'' of Some t \<Rightarrow> c\<lparr>gui_timeout := atoi t\<rparr> | None \<Rightarrow> c);
                        c = (case env ''TFTPD64_MAXRETRANSMIT'' of Some r \<Rightarrow> c\<lparr>gui_retransmit := atoi r\<rparr> | None \<Rightarrow> c)
                    in Inr c)))"

definition gui_client_name :: string where "gui_client_name = ''Tftpd64 GUI client (Wine)''"
definition gui_client_version :: string where "gui_client_version = ''4.74''"

definition gui_supports :: "string \<Rightarrow> bool" where
  "gui_supports capability \<longleftrightarrow> capability = rrq \<or> capability = wrq \<or> capability = opt \<or>
     capability = blk \<or> capability = tsz"

record gui_adapter =
  gui_adapter_config :: gui_config
  gui_directory :: string
  gui_marker :: string
  gui_launcher :: int
  idle_port :: u16

definition idle_gui :: "gui_config \<Rightarrow> gui_adapter" where
  "idle_gui c = \<lparr>gui_adapter_config = c, gui_directory = [], gui_marker = [], gui_launcher = -1, idle_port = 0\<rparr>"

definition gui_shutdown :: "gui_adapter \<times> wine_machine \<Rightarrow> gui_adapter \<times> wine_machine" where
  "gui_shutdown am =
     (let (a, m) = am
      in if gui_launcher a < 0 \<and> gui_marker a = [] then (a, m)
         else
           let m = kill_tftpd64 (gui_launcher a) (gui_marker a) m;
               a = a\<lparr>gui_launcher := -1\<rparr>;
               (a, m) = (if gui_directory a \<noteq> []
                         then (a\<lparr>gui_directory := []\<rparr>, remove_all (gui_directory a) m)
                         else (a, m))
           in (a\<lparr>gui_marker := [], idle_port := 0\<rparr>, m))"

definition gui_ini :: "gui_config \<Rightarrow> string \<Rightarrow> u16 \<Rightarrow> string" where
  "gui_ini c base port =
     ''[TFTPD32]'' @ newline
     @ ''BaseDirectory='' @ base @ newline
     @ ''TftpPort='' @ to_string (unat port) @ newline
     @ ''LocalIP=127.0.0.1'' @ newline
     @ ''Services=1'' @ newline
     @ ''Negociate=1'' @ newline
     @ ''Hide=0'' @ newline
     @ ''Keep transfer Gui=0'' @ newline
     @ ''Beep=0'' @ newline
     @ ''MD5=0'' @ newline
     @ ''Enable IPv6=0'' @ newline
     @ ''Timeout='' @ int_to_string (gui_timeout c) @ newline
     @ ''MaxRetransmit='' @ int_to_string (gui_retransmit c) @ newline"

definition gui_directory_of :: "wine_machine \<Rightarrow> string" where
  "gui_directory_of m = path_append (temporary_directory m) (''tftpd64_client_'' @ int_to_string (harness_pid m))"

definition ensure_running ::
  "start_answers \<Rightarrow> gui_adapter \<times> wine_machine \<Rightarrow> string option \<times> gui_adapter \<times> wine_machine" where
  "ensure_running w am =
     (let (a, m) = am
      in if gui_launcher a > 0 then (None, a, m)
         else case pick_free_udp_port (probe_opened w) (probe_bound w) (probe_named w) of
           Inl e \<Rightarrow> (Some e, a, m)
         | Inr port \<Rightarrow>
             let directory = gui_directory_of m;
                 m = create_directories directory m;
                 marker = to_windows_path m directory;
                 a = a\<lparr>idle_port := port, gui_directory := directory, gui_marker := marker\<rparr>;
                 m = write_text (path_append directory ''Tftpd32.ini'')
                       (gui_ini (gui_adapter_config a) marker port) m;
                 (child, m) = launch_tftpd64 (launch w) (gui_wine (gui_adapter_config a)) marker m;
                 a = a\<lparr>gui_launcher := child\<rparr>
             in if child < 0 then (Some ''tftpd64 client adapter: fork() failed'', a, m)
                else if \<not> wait_until (start_looks w)
                then (Some ''tftpd64 client adapter: Tftpd64 did not start (is Wine working?)'', gui_shutdown (a, m))
                else (None, a, m))"

definition driver_arguments ::
  "gui_config \<Rightarrow> wine_machine \<Rightarrow> env_vars \<Rightarrow> string \<Rightarrow> string \<Rightarrow> u16 \<Rightarrow> string \<Rightarrow> string \<Rightarrow> requested_options \<Rightarrow> string list" where
  "driver_arguments c m env operation host port local_path remote wanted =
     [wine_binary (gui_wine c), gui_python c, to_windows_path m (gui_driver c),
      ''--op'', operation, ''--host'', host, ''--port'', to_string (unat port),
      ''--local'', to_windows_path m local_path, ''--remote'', remote,
      ''--blksize'', block_size_argument wanted,
      ''--timeout'', int_to_string (driver_timeout_seconds env)]"

definition driver_result :: "subprocess_result \<Rightarrow> exn + transfer_result" where
  "driver_result run =
     (case parse_error_code (captured_output run) of
        Inl e \<Rightarrow> Inl e
      | Inr code \<Rightarrow>
          let r = empty_transfer_result\<lparr>process_exit_code := Some (exit_code run),
                wall_clock_duration := run_duration run,
                reported_error_message := captured_output run, reported_error_code := code\<rparr>
          in if launch_failed run then Inr (r\<lparr>reported_error_message := ''failed to launch the Tftpd64 driver''\<rparr>)
             else if hit_timeout run then Inr (r\<lparr>reported_error_message := ''the Tftpd64 driver timed out''\<rparr>)
             else if exit_code run = driver_unsupported then Inr (r\<lparr>unsupported_configuration := True\<rparr>)
             else
               let r = r\<lparr>reported_complete := (exit_code run = driver_success)\<rparr>
               in if reported_complete r then Inr (r\<lparr>reported_error_message := []\<rparr>)
                  else if exit_code run \<noteq> driver_failure
                  then Inr (r\<lparr>reported_error_message := ''Tftpd64 driver error: '' @ captured_output run\<rparr>)
                  else Inr r)"

text \<open>A transfer: none if the driver's run does not return, an exception if its error code is no \<open>int\<close>.\<close>

definition gui_drive ::
  "host_system \<Rightarrow> start_answers \<Rightarrow> env_vars \<Rightarrow> string \<Rightarrow> string \<Rightarrow> u16 \<Rightarrow> string \<Rightarrow> string \<Rightarrow> requested_options \<Rightarrow>
   gui_adapter \<times> wine_machine \<Rightarrow> ((exn + transfer_result) \<times> gui_adapter \<times> wine_machine) option" where
  "gui_drive os w env operation host port local_path remote wanted am =
     (let (raised, a, m) = ensure_running w am
      in case raised of
           Some what \<Rightarrow> Some (Inr (empty_transfer_result\<lparr>reported_error_message := what\<rparr>), a, m)
         | None \<Rightarrow>
             (case run_subprocess os
                 (driver_arguments (gui_adapter_config a) m env operation host port local_path remote wanted)
                 [] ((driver_timeout_seconds env + 3) * 1000) of
                None \<Rightarrow> None
              | Some run \<Rightarrow>
                  let m = (if hit_timeout run
                           then fold kill_process (find_processes_with_cmdline ''driver.py'' m) m else m)
                  in Some (driver_result run, a, m)))"

definition gui_read ::
  "host_system \<Rightarrow> start_answers \<Rightarrow> env_vars \<Rightarrow> string \<Rightarrow> u16 \<Rightarrow> string \<Rightarrow> string \<Rightarrow> requested_options \<Rightarrow>
   gui_adapter \<times> wine_machine \<Rightarrow> ((exn + transfer_result) \<times> gui_adapter \<times> wine_machine) option" where
  "gui_read os w env host port remote destination wanted am =
     gui_drive os w env ''get'' host port destination remote wanted am"

definition gui_write ::
  "host_system \<Rightarrow> start_answers \<Rightarrow> env_vars \<Rightarrow> string \<Rightarrow> u16 \<Rightarrow> string \<Rightarrow> string \<Rightarrow> requested_options \<Rightarrow>
   gui_adapter \<times> wine_machine \<Rightarrow> ((exn + transfer_result) \<times> gui_adapter \<times> wine_machine) option" where
  "gui_write os w env host port source remote wanted am =
     gui_drive os w env ''put'' host port source remote wanted am"

section \<open>Nothing is left behind\<close>

lemma server_stop_idle: "server_stop (idle_server c, m) = (idle_server c, m)"
  by (simp add: server_stop_def idle_server_def)

lemma set_up_same [simp]:
  "os_processes (instance_set_up directory ini m) = os_processes m"
  "to_windows_path (instance_set_up directory ini m) = to_windows_path m"
  "launched w wine marker (instance_set_up directory ini m) = launched w wine marker m"
  by (simp_all add: fun_eq_iff instance_set_up_def write_text_def create_directories_def to_windows_path_def
      launched_def launcher_process_def Let_def)

lemma counted_same [simp]:
  "os_processes (m\<lparr>instance_counter := n\<rparr>) = os_processes m"
  "to_windows_path (m\<lparr>instance_counter := n\<rparr>) = to_windows_path m"
  "launched w wine marker (m\<lparr>instance_counter := n\<rparr>) = launched w wine marker m"
  by (simp_all add: fun_eq_iff to_windows_path_def launched_def launcher_process_def Let_def)

lemma create_same [simp]: "to_windows_path (create_directories directory m) = to_windows_path m"
  by (simp add: fun_eq_iff create_directories_def to_windows_path_def)

definition launched_machine :: "launch_answers \<Rightarrow> wine_environment \<Rightarrow> string \<Rightarrow> string \<Rightarrow> wine_machine \<Rightarrow> wine_machine" where
  "launched_machine w wine directory ini m =
     snd (launch_tftpd64 w wine (to_windows_path m directory) (instance_set_up directory ini m))"

text \<open>Killing what a launch started and removing the directory restores the machine.\<close>

lemma launched_machine_torn_down:
  assumes "fresh_directory m directory" "proc_readable m" "distinct (map process_pid (os_processes m))"
    "orderly_launch w wine (to_windows_path m directory) m"
  shows "remove_all directory (kill_tftpd64 (fst (launch_tftpd64 w wine (to_windows_path m directory) m))
     (to_windows_path m directory) (launched_machine w wine directory ini m)) = m"
proof (cases "fork_pid w < 0")
  case True
  have "remove_all directory (kill_tftpd64 (-1) (to_windows_path m directory)
      ((instance_set_up directory ini m)\<lparr>os_processes := os_processes m @ []\<rparr>)) = m"
    by (rule instance_torn_down) (use assms in auto)
  moreover have "(instance_set_up directory ini m)\<lparr>os_processes := os_processes m\<rparr> = instance_set_up directory ini m"
    by (simp add: instance_set_up_def write_text_def create_directories_def)
  ultimately show ?thesis using True by (simp add: launched_machine_def launch_tftpd64_def)
next
  case False
  then have pos: "0 < fork_pid w" using assms(4) by (auto simp: orderly_launch_def Let_def)
  have "remove_all directory (kill_tftpd64 (fork_pid w) (to_windows_path m directory)
      ((instance_set_up directory ini m)\<lparr>os_processes := os_processes m @ launched w wine (to_windows_path m directory) m\<rparr>)) = m"
    using assms launched_pids [OF assms(4) pos] launched_killed [OF assms(4) pos] pos
    by (intro instance_torn_down) auto
  then show ?thesis using pos by (simp add: launched_machine_def launch_tftpd64_def)
qed

lemma server_stop_running:
  assumes "directory \<noteq> []" "marker \<noteq> []"
  shows "server_stop (\<lparr>server_config = c, instance_directory = directory, ini_directory_marker = marker,
      launcher_pid = l, server_port = port\<rparr>, m) = (idle_server c, remove_all directory (kill_tftpd64 l marker m))"
  using assms by (simp add: server_stop_def idle_server_def Let_def)

lemma server_start_cases:
  assumes "m1 = m\<lparr>instance_counter := instance_counter m + 1\<rparr>"
    "am = server_start w served (idle_server c, m)"
  obtains (no_port) e where "pick_free_udp_port (probe_opened w) (probe_bound w) (probe_named w) = Inl e"
      "am = (Inl e, idle_server c, m)"
  | (launched) port answer l where "pick_free_udp_port (probe_opened w) (probe_bound w) (probe_named w) = Inr port"
      "fst (launch_tftpd64 (launch w) (config_wine c) (to_windows_path m1 (server_directory m1)) m1) = l"
      "am = (answer, \<lparr>server_config = c, instance_directory = server_directory m1,
          ini_directory_marker = to_windows_path m1 (server_directory m1),
          launcher_pid = l, server_port = port\<rparr>,
        launched_machine (launch w) (config_wine c) (server_directory m1)
          (server_ini c (to_windows_path m1 served) port) m1)"
      "answer = (if l < 0 then Inl ''tftpd64 adapter: fork() failed'' else Inr (''127.0.0.1'', port))"
      "l < 0 \<or> wait_until (start_looks w)"
  | (unbound) port what l where "pick_free_udp_port (probe_opened w) (probe_bound w) (probe_named w) = Inr port"
      "fst (launch_tftpd64 (launch w) (config_wine c) (to_windows_path m1 (server_directory m1)) m1) = l"
      "am = (Inl what, server_stop (\<lparr>server_config = c, instance_directory = server_directory m1,
          ini_directory_marker = to_windows_path m1 (server_directory m1),
          launcher_pid = l, server_port = port\<rparr>,
        launched_machine (launch w) (config_wine c) (server_directory m1)
          (server_ini c (to_windows_path m1 served) port) m1))"
      "\<not> wait_until (start_looks w)"
proof (cases "pick_free_udp_port (probe_opened w) (probe_bound w) (probe_named w)")
  case (Inl e)
  then show ?thesis using no_port assms by (simp add: server_start_def server_stop_idle)
next
  case (Inr port)
  define l where "l = fst (launch_tftpd64 (launch w) (config_wine c) (to_windows_path m1 (server_directory m1)) m1)"
  have started: "server_start w served (idle_server c, m) =
      (let a = \<lparr>server_config = c, instance_directory = server_directory m1,
             ini_directory_marker = to_windows_path m1 (server_directory m1),
             launcher_pid = l, server_port = port\<rparr>;
           m2 = launched_machine (launch w) (config_wine c) (server_directory m1)
             (server_ini c (to_windows_path m1 served) port) m1
       in if l < 0 then (Inl ''tftpd64 adapter: fork() failed'', a, m2)
          else if \<not> wait_until (start_looks w)
          then (Inl (''tftpd64 adapter: server did not bind UDP port '' @ to_string (unat port)
                  @ '' (is Wine working?)''), server_stop (a, m2))
          else (Inr (''127.0.0.1'', port), a, m2))"
    using Inr assms(1)
    unfolding server_start_def server_stop_idle Let_def Inr sum.case split_conv assms(1) [symmetric]
    by (simp add: idle_server_def l_def launched_machine_def instance_set_up_def launch_tftpd64_def)
  show ?thesis
  proof (cases "l < 0 \<or> wait_until (start_looks w)")
    case True
    then show ?thesis using launched [OF Inr l_def [symmetric] _ refl] started assms(2)
      by (auto simp: Let_def)
  next
    case False
    then show ?thesis using unbound [OF Inr l_def [symmetric]] started assms(2) by (auto simp: Let_def)
  qed
qed


text \<open>A machine with one process, on which the launch works.\<close>

definition sample_machine :: wine_machine where
  "sample_machine = \<lparr>os_processes = [\<lparr>process_pid = 7, process_environ = Some ''HOME=/root'', process_cmdline = None\<rparr>],
     proc_readable = True, has_directory = (\<lambda>d. d = ''/tmp''), text_at = (\<lambda>_. None), instance_counter = 0,
     harness_pid = 7, harness_environ = [], working_directory = ''/root'', temporary_directory = ''/tmp''\<rparr>"

definition sample_wine :: wine_environment where
  "sample_wine = \<lparr>wine_binary = ''wine'', wine_executable = ''tftpd64.exe'', wine_prefix = ''/wine''\<rparr>"

definition sample_start :: start_answers where
  "sample_start = \<lparr>probe_opened = True, probe_bound = True, probe_named = Some 40000,
     launch = \<lparr>fork_pid = 8, exec_works = True, wine_starts = (\<lambda>p. [p\<lparr>process_pid := 9\<rparr>])\<rparr>,
     start_looks = [(True, False), (True, True)]\<rparr>"

lemma sample_server_directory:
  "server_directory (sample_machine\<lparr>instance_counter := 1\<rparr>) = ''/tmp/tftpd64_cfg_7_1''"
  by code_simp

lemma sample_fresh: "fresh_directory (sample_machine\<lparr>instance_counter := 1\<rparr>) ''/tmp/tftpd64_cfg_7_1''"
  by (auto simp: fresh_directory_def below_def sample_machine_def marked_def to_windows_path_def path_append_def)

lemma sample_orderly: "orderly_launch (launch sample_start) sample_wine
    (to_windows_path (sample_machine\<lparr>instance_counter := 1\<rparr>) directory) (sample_machine\<lparr>instance_counter := 1\<rparr>)"
  by (simp add: orderly_launch_def sample_start_def sample_machine_def launcher_process_def marked_def launcher_marked)


section \<open>The client adapter's process and verdicts\<close>

lemma gui_shutdown_idle: "gui_shutdown (idle_gui c, m) = (idle_gui c, m)"
  by (simp add: gui_shutdown_def idle_gui_def)

lemma gui_shutdown_running:
  assumes "directory \<noteq> []" "marker \<noteq> []"
  shows "gui_shutdown (\<lparr>gui_adapter_config = c, gui_directory = directory, gui_marker = marker,
      gui_launcher = l, idle_port = port\<rparr>, m) = (idle_gui c, remove_all directory (kill_tftpd64 l marker m))"
  using assms by (simp add: gui_shutdown_def idle_gui_def Let_def)

text \<open>The same for the client's process, except that it stays up: a second call changes nothing.\<close>

lemma gui_leaves_nothing:
  assumes "proc_readable m" "distinct (map process_pid (os_processes m))"
    "fresh_directory m (gui_directory_of m)"
    "orderly_launch (launch w) (gui_wine c) (to_windows_path m (gui_directory_of m)) m"
  shows "\<exists>raised a m'. ensure_running w (idle_gui c, m) = (raised, a, m') \<and>
    gui_shutdown (a, m') = (idle_gui c, m) \<and>
    (raised = None \<longrightarrow> ensure_running w' (a, m') = (None, a, m'))"
proof (cases "pick_free_udp_port (probe_opened w) (probe_bound w) (probe_named w)")
  case (Inl e)
  then show ?thesis by (simp add: ensure_running_def idle_gui_def gui_shutdown_def)
next
  case (Inr port)
  define l where "l = fst (launch_tftpd64 (launch w) (gui_wine c) (to_windows_path m (gui_directory_of m)) m)"
  define a where "a = \<lparr>gui_adapter_config = c, gui_directory = gui_directory_of m,
     gui_marker = to_windows_path m (gui_directory_of m), gui_launcher = l, idle_port = port\<rparr>"
  define m2 where "m2 = launched_machine (launch w) (gui_wine c) (gui_directory_of m)
     (gui_ini c (to_windows_path m (gui_directory_of m)) port) m"
  have started: "ensure_running w (idle_gui c, m) =
      (if l < 0 then (Some ''tftpd64 client adapter: fork() failed'', a, m2)
       else if \<not> wait_until (start_looks w)
       then (Some ''tftpd64 client adapter: Tftpd64 did not start (is Wine working?)'', gui_shutdown (a, m2))
       else (None, a, m2))"
    using Inr by (simp add: ensure_running_def idle_gui_def l_def a_def m2_def launched_machine_def
        instance_set_up_def launch_tftpd64_def Let_def)
  have down: "gui_shutdown (a, m2) = (idle_gui c, m)"
    using gui_shutdown_running launched_machine_torn_down [OF assms(3,1,2,4)] assms(3)
    by (simp add: a_def m2_def l_def fresh_directory_def)
  have "l = -1 \<or> 0 < l" using assms(4) by (auto simp: l_def launch_tftpd64_def orderly_launch_def Let_def)
  then have "ensure_running w' (a, m2) = (None, a, m2)" if "\<not> l < 0"
    using that by (simp add: ensure_running_def a_def)
  then show ?thesis using started down by (auto simp: gui_shutdown_idle)
qed

text \<open>
  The verdict on a driver run: complete exactly if it ended in time with 0, unsupported exactly if it
  ended in time with 3, never both; a complete transfer reports no message.
\<close>

lemma driver_verdict:
  assumes "driver_result run = Inr r"
  shows "reported_complete r \<longleftrightarrow> \<not> launch_failed run \<and> \<not> hit_timeout run \<and> exit_code run = 0"
    "unsupported_configuration r \<longleftrightarrow> \<not> launch_failed run \<and> \<not> hit_timeout run \<and> exit_code run = 3"
    "reported_complete r \<Longrightarrow> reported_error_message r = []"
    "process_exit_code r = Some (exit_code run)"
proof -
  obtain code where code: "parse_error_code (captured_output run) = Inr code"
    using assms by (cases "parse_error_code (captured_output run)") (simp_all add: driver_result_def)
  note r = assms [unfolded driver_result_def code sum.case Let_def driver_success_def driver_failure_def
      driver_unsupported_def] and empty = empty_transfer_result_def
  consider "launch_failed run" | "\<not> launch_failed run" "hit_timeout run"
    | "\<not> launch_failed run" "\<not> hit_timeout run" "exit_code run = 3"
    | "\<not> launch_failed run" "\<not> hit_timeout run" "exit_code run = 0"
    | "\<not> launch_failed run" "\<not> hit_timeout run" "exit_code run \<noteq> 0" "exit_code run \<noteq> 3"
    by blast
  note cases = this
  show "reported_complete r \<longleftrightarrow> \<not> launch_failed run \<and> \<not> hit_timeout run \<and> exit_code run = 0"
    using cases r by cases (auto simp: empty split: if_splits)
  show "unsupported_configuration r \<longleftrightarrow> \<not> launch_failed run \<and> \<not> hit_timeout run \<and> exit_code run = 3"
    using cases r by cases (auto simp: empty split: if_splits)
  show "reported_complete r \<Longrightarrow> reported_error_message r = []"
    using cases r by cases (auto simp: empty split: if_splits)
  show "process_exit_code r = Some (exit_code run)"
    using cases r by cases (auto simp: empty split: if_splits)
qed

text \<open>
  The error code is the decimal number after the driver's marker, cut to 16 bits; a number beyond \<open>int\<close>
  makes the adapter throw, in the thread of the transfer.
\<close>

lemma parse_error_code_at:
  assumes "find_text ''tftp-error-code='' output = Some n" "drop (n + 16) output = digits @ rest"
    "digits \<noteq> []" "list_all is_digit_char digits" "rest = [] \<or> \<not> is_digit_char (hd rest)"
  shows "parse_error_code output =
    (if digits_value 0 digits < 2 ^ 31 then Inr (Some (word_of_nat (digits_value 0 digits))) else Inl OutOfRange)"
proof -
  have "length ''tftp-error-code='' = 16" by simp
  then have digits: "takeWhile is_digit_char (drop (n + length ''tftp-error-code='') output) = digits"
    unfolding \<open>length ''tftp-error-code='' = 16\<close> assms(2) using assms(4,5) by (cases rest) (auto simp: takeWhile_append list_all_iff takeWhile_eq_all_conv)
  obtain d ds where d: "digits = d # ds" using assms(3) by (cases digits) auto
  have head: "is_digit_char d" "takeWhile is_digit_char ds = ds"
    using assms(4) by (auto simp: d list_all_iff takeWhile_eq_all_conv)
  have "signed_text digits = Some (int (digits_value 0 digits))"
    using digit_char_not_special [OF head(1)] head(1) by (simp add: signed_text_def d Let_def head(2))
  then show ?thesis using assms(1,3)
    unfolding parse_error_code_def Let_def assms(1) option.case digits
    by (auto simp: stoi_def)
qed

end
