(* ===== verification/Report_Model.thy ===== *)
theory Report_Model
  imports Metrics_Store
begin

text \<open>
  \<open>src/src/report/report_model.{hpp,cpp}\<close>: the scorecard computed from a loaded metrics store. The
  loops of \<open>analyze\<close> are folds over the records; a \<open>std::map\<close> keyed by strings is the list of its
  entries in key order. Doubles are those of \<open>Doubles\<close>; \<open>int\<close> counters are unbounded (a store of
  \<open>2 ^ 31\<close> records is out of reach). Points of one intensity keep their order, which is one of the
  orders \<open>std::sort\<close> may leave them in.
\<close>

section \<open>Data\<close>

record section_score =
  section_letter :: string
  score_passed :: nat
  score_failed :: nat
  score_skipped :: nat
  weighted_score :: double

record resilience_point =
  point_intensity :: double
  point_success :: double
  point_label :: string

record resilience_curve =
  impairment_id :: string
  curve_title :: string
  curve_points :: "resilience_point list"
  curve_area :: double

record integrity_entry =
  entry_test_id :: string
  entry_intensity_label :: string
  entry_narrative :: string
  entry_seed :: u64

record scorecard =
  card_implementation :: string
  conformance_score :: double
  card_sections :: "section_score list"
  must_failure_ids :: "string list"
  total_passed :: nat
  total_failed :: nat
  total_skipped :: nat
  resilience_index :: double
  card_curves :: "resilience_curve list"
  integrity_violations :: "integrity_entry list"
  clean_failures :: nat
  ungraceful_failures :: nat
  graceful_degradation_rate :: double
  total_retransmissions :: double
  total_data_packets :: double
  average_throughput :: double
  capability_supported :: "(string \<times> bool) list"
  card_records :: "metric_record list"

fun severity_weight :: "severity \<Rightarrow> double" where
  "severity_weight Critical = 9"
| "severity_weight Major = 3"
| "severity_weight Minor = 1"
| "severity_weight Info = 0"

definition section_of :: "string \<Rightarrow> string" where
  "section_of test = (if test = [] then ''?'' else take 1 test)"

definition capability_labels :: "(string \<times> string) list" where
  "capability_labels =
    [(''rfc1350_netascii'', ''RFC 1350 netascii''), (''rfc1350_rrq'', ''RFC 1350 read (RRQ)''),
     (''rfc1350_wrq'', ''RFC 1350 write (WRQ)''),
     (''rfc2347_option_negotiation'', ''RFC 2347 option negotiation''),
     (''rfc2348_blksize'', ''RFC 2348 blksize''), (''rfc2349_timeout'', ''RFC 2349 timeout''),
     (''rfc2349_tsize'', ''RFC 2349 tsize''), (''rfc7440_windowsize'', ''RFC 7440 windowsize'')]"

section \<open>Accumulation\<close>

text \<open>\<open>f(m[key])\<close> on an ordered map, the entry created with its default if it is missing.\<close>

fun at_key :: "'v \<Rightarrow> ('v \<Rightarrow> 'v) \<Rightarrow> string \<Rightarrow> (string \<times> 'v) list \<Rightarrow> (string \<times> 'v) list" where
  "at_key d f key [] = [(key, f d)]"
| "at_key d f key ((k, v) # ms) =
     (if k = key then (k, f v) # ms
      else if key < k then (key, f d) # (k, v) # ms
      else (k, v) # at_key d f key ms)"

record accum =
  accum_passed :: nat
  accum_failed :: nat
  accum_skipped :: nat
  weight_passed :: double
  weight_total :: double

definition empty_accum :: accum where
  "empty_accum = \<lparr>accum_passed = 0, accum_failed = 0, accum_skipped = 0, weight_passed = 0, weight_total = 0\<rparr>"

definition accumulate :: "metric_record \<Rightarrow> accum \<Rightarrow> accum" where
  "accumulate r a =
     (let a = (case record_outcome r of
                 Pass \<Rightarrow> a\<lparr>accum_passed := accum_passed a + 1\<rparr>
               | Fail \<Rightarrow> a\<lparr>accum_failed := accum_failed a + 1\<rparr>
               | Skipped \<Rightarrow> a\<lparr>accum_skipped := accum_skipped a + 1\<rparr>)
      in if record_outcome r \<noteq> Skipped then
           let a = a\<lparr>weight_total := dbl_add (weight_total a) (severity_weight (record_severity r))\<rparr>
           in if record_outcome r = Pass
              then a\<lparr>weight_passed := dbl_add (weight_passed a) (severity_weight (record_severity r))\<rparr>
              else a
         else a)"

definition counter_or_zero :: "metric_record \<Rightarrow> string \<Rightarrow> double" where
  "counter_or_zero r name = (case map_of (counters r) name of Some v \<Rightarrow> v | None \<Rightarrow> 0)"

definition count_outcome :: "metric_record \<Rightarrow> scorecard \<Rightarrow> scorecard" where
  "count_outcome r sc =
     (case record_outcome r of
        Pass \<Rightarrow> sc\<lparr>total_passed := total_passed sc + 1\<rparr>
      | Fail \<Rightarrow> sc\<lparr>total_failed := total_failed sc + 1\<rparr>
      | Skipped \<Rightarrow> sc\<lparr>total_skipped := total_skipped sc + 1\<rparr>)"

definition must_failure_id :: "metric_record \<Rightarrow> string" where
  "must_failure_id r =
     (if intensity_label r = [] then test_id r else test_id r @ '' ('' @ intensity_label r @ '')'')"

definition note_must_failure :: "metric_record \<Rightarrow> scorecard \<Rightarrow> scorecard" where
  "note_must_failure r sc =
     (if record_outcome r = Fail \<and> record_severity r = Critical
      then sc\<lparr>must_failure_ids := must_failure_ids sc @ [must_failure_id r]\<rparr> else sc)"

definition note_integrity :: "metric_record \<Rightarrow> scorecard \<Rightarrow> scorecard" where
  "note_integrity r sc =
     (if integrity_violation r
      then sc\<lparr>integrity_violations := integrity_violations sc @
             [\<lparr>entry_test_id = test_id r, entry_intensity_label = intensity_label r,
               entry_narrative = record_narrative r, entry_seed = record_seed r\<rparr>]\<rparr>
      else sc)"

definition note_failure_kind :: "metric_record \<Rightarrow> scorecard \<Rightarrow> scorecard" where
  "note_failure_kind r sc =
     (if record_outcome r = Fail then
        (if ungraceful_failure r then sc\<lparr>ungraceful_failures := ungraceful_failures sc + 1\<rparr>
         else sc\<lparr>clean_failures := clean_failures sc + 1\<rparr>)
      else sc)"

definition note_efficiency :: "metric_record \<Rightarrow> scorecard \<Rightarrow> scorecard" where
  "note_efficiency r sc =
     sc\<lparr>total_retransmissions :=
            dbl_add (total_retransmissions sc) (counter_or_zero r ''retransmissions''),
          total_data_packets :=
            dbl_add (total_data_packets sc) (counter_or_zero r ''data_packets_sent'')\<rparr>"

definition empty_curve :: resilience_curve where
  "empty_curve = \<lparr>impairment_id = [], curve_title = [], curve_points = [], curve_area = 0\<rparr>"

definition curve_point :: "metric_record \<Rightarrow> double \<Rightarrow> resilience_point" where
  "curve_point r v =
     \<lparr>point_intensity = v,
      point_success = (case map_of (counters r) ''success'' of
                         None \<Rightarrow> (if record_outcome r = Pass then 1 else 0)
                       | Some s \<Rightarrow> s),
      point_label = intensity_label r\<rparr>"

definition add_point ::
  "metric_record \<Rightarrow> (string \<times> resilience_curve) list \<Rightarrow> (string \<times> resilience_curve) list" where
  "add_point r curves =
     (case intensity r of
        Some v \<Rightarrow>
          if section_of (test_id r) = ''F'' then
            at_key empty_curve (\<lambda>c. c\<lparr>impairment_id := test_id r, curve_title := title r,
              curve_points := curve_points c @ [curve_point r v]\<rparr>) (test_id r) curves
          else curves
      | None \<Rightarrow> curves)"

record analysis =
  the_card :: scorecard
  by_section :: "(string \<times> accum) list"
  curve_map :: "(string \<times> resilience_curve) list"

definition analyze_record :: "metric_record \<Rightarrow> analysis \<Rightarrow> analysis" where
  "analyze_record r s =
     s\<lparr>by_section := at_key empty_accum (accumulate r) (section_of (test_id r)) (by_section s),
       the_card := note_efficiency r (note_failure_kind r (note_integrity r (note_must_failure r
                     (count_outcome r (the_card s))))),
       curve_map := add_point r (curve_map s)\<rparr>"

section \<open>Scores\<close>

definition score_ratio :: "double \<Rightarrow> double \<Rightarrow> double" where
  "score_ratio passed weight =
     (if weight > 0 then dbl_div (dbl_mul 100 passed) weight else 0)"

definition section_score_of :: "string \<times> accum \<Rightarrow> section_score" where
  "section_score_of entry =
     (let (s, a) = entry
      in \<lparr>section_letter = s, score_passed = accum_passed a, score_failed = accum_failed a,
          score_skipped = accum_skipped a, weighted_score = score_ratio (weight_passed a) (weight_total a)\<rparr>)"

definition conformance_section :: "string \<Rightarrow> bool" where
  "conformance_section s \<longleftrightarrow>
     s = ''A'' \<or> s = ''B'' \<or> s = ''C'' \<or> s = ''D'' \<or> s = ''E'' \<or> s = ''G''"

definition conformance_weights :: "(string \<times> accum) list \<Rightarrow> double \<times> double" where
  "conformance_weights sections =
     fold (\<lambda>(s, a) (p, t). if conformance_section s
             then (dbl_add p (weight_passed a), dbl_add t (weight_total a)) else (p, t))
       sections (0, 0)"

fun integrate :: "double \<Rightarrow> resilience_point list \<Rightarrow> double" where
  "integrate acc (p # q # ps) =
     (let width = dbl_sub (point_intensity q) (point_intensity p);
          mean_height = dbl_mul (1 / 2) (dbl_add (point_success q) (point_success p))
      in integrate (dbl_add acc (dbl_mul width mean_height)) (q # ps))"
| "integrate acc ps = acc"

definition area_under :: "resilience_point list \<Rightarrow> double" where
  "area_under ps =
     (case ps of
        [] \<Rightarrow> 0
      | [p] \<Rightarrow> point_success p
      | p # _ \<Rightarrow>
          let span = dbl_sub (point_intensity (List.last ps)) (point_intensity p)
          in if span > 0 then dbl_div (integrate 0 ps) span else 0)"

definition finish_curve :: "resilience_curve \<Rightarrow> resilience_curve" where
  "finish_curve c =
     (let ps = sort_key point_intensity (curve_points c)
      in c\<lparr>curve_points := ps, curve_area := area_under ps\<rparr>)"

definition mean_area :: "resilience_curve list \<Rightarrow> double" where
  "mean_area curves =
     (if curves = [] then 0
      else dbl_div (fold (\<lambda>c acc. dbl_add acc (curve_area c)) curves 0) (dbl_of_int (int (length curves))))"

definition graceful_rate :: "nat \<Rightarrow> nat \<Rightarrow> double" where
  "graceful_rate clean ungraceful =
     (if clean + ungraceful > 0 then dbl_div (dbl_of_int (int clean)) (dbl_of_int (int (clean + ungraceful)))
      else 1)"

definition throughput_of :: "metric_record \<Rightarrow> double option" where
  "throughput_of r =
     (case map_of (counters r) ''throughput_bytes_per_second'' of
        None \<Rightarrow> None
      | Some v \<Rightarrow> if v > 0 \<and> record_outcome r = Pass then Some v else None)"

definition mean_throughput :: "metric_record list \<Rightarrow> double" where
  "mean_throughput rs =
     (let vs = List.map_filter throughput_of rs
      in if vs = [] then 0
         else dbl_div (fold (\<lambda>v acc. dbl_add acc v) vs 0) (dbl_of_int (int (length vs))))"

definition capability_matrix :: "metric_record list \<Rightarrow> (string \<times> bool) list" where
  "capability_matrix rs =
     fold (\<lambda>r m.
         if record_outcome r = Skipped then
           map (\<lambda>(name, supported).
                  (name, if contains_text name (record_narrative r) then False else supported)) m
         else m)
       rs (map (\<lambda>(name, label). (name, True)) capability_labels)"

definition empty_card :: "metrics_store \<Rightarrow> scorecard" where
  "empty_card store =
     \<lparr>card_implementation = store_implementation store, conformance_score = 0, card_sections = [],
      must_failure_ids = [], total_passed = 0, total_failed = 0, total_skipped = 0,
      resilience_index = 0, card_curves = [], integrity_violations = [], clean_failures = 0,
      ungraceful_failures = 0, graceful_degradation_rate = 1, total_retransmissions = 0,
      total_data_packets = 0, average_throughput = 0, capability_supported = [],
      card_records = store_records store\<rparr>"

definition analyze :: "metrics_store \<Rightarrow> scorecard" where
  "analyze store =
     (let rs = store_records store;
          s = fold analyze_record rs \<lparr>the_card = empty_card store, by_section = [], curve_map = []\<rparr>;
          sc = the_card s;
          (passed, weight) = conformance_weights (by_section s);
          curves = map (\<lambda>(k, c). finish_curve c) (curve_map s)
      in sc\<lparr>card_sections := map section_score_of (by_section s),
              conformance_score := score_ratio passed weight,
              card_curves := curves,
              resilience_index := mean_area curves,
              graceful_degradation_rate := graceful_rate (clean_failures sc) (ungraceful_failures sc),
              average_throughput := mean_throughput rs,
              capability_supported := capability_matrix rs\<rparr>)"

section \<open>Counting\<close>

abbreviation walk_records :: "metrics_store \<Rightarrow> metric_record list \<Rightarrow> analysis" where
  "walk_records store rs \<equiv>
     fold analyze_record rs \<lparr>the_card = empty_card store, by_section = [], curve_map = []\<rparr>"

lemmas card_steps = analyze_record_def note_efficiency_def note_failure_kind_def note_integrity_def
  note_must_failure_def count_outcome_def

lemma walk_counts:
  "total_passed (the_card (walk_records store rs)) = length (filter (\<lambda>r. record_outcome r = Pass) rs)"
  "total_failed (the_card (walk_records store rs)) = length (filter (\<lambda>r. record_outcome r = Fail) rs)"
  "total_skipped (the_card (walk_records store rs)) = length (filter (\<lambda>r. record_outcome r = Skipped) rs)"
  by (induction rs rule: rev_induct) (simp_all add: card_steps empty_card_def split: outcome.splits)

lemma walk_ledgers:
  "must_failure_ids (the_card (walk_records store rs)) =
     map must_failure_id (filter (\<lambda>r. record_outcome r = Fail \<and> record_severity r = Critical) rs)"
  "map entry_test_id (integrity_violations (the_card (walk_records store rs))) =
     map test_id (filter integrity_violation rs)"
  "clean_failures (the_card (walk_records store rs)) =
     length (filter (\<lambda>r. record_outcome r = Fail \<and> \<not> ungraceful_failure r) rs)"
  "ungraceful_failures (the_card (walk_records store rs)) =
     length (filter (\<lambda>r. record_outcome r = Fail \<and> ungraceful_failure r) rs)"
  by (induction rs rule: rev_induct) (simp_all add: card_steps empty_card_def split: outcome.splits)

lemma analyze_counts:
  "total_passed (analyze store) = length (filter (\<lambda>r. record_outcome r = Pass) (store_records store))"
  "total_failed (analyze store) = length (filter (\<lambda>r. record_outcome r = Fail) (store_records store))"
  "total_skipped (analyze store) = length (filter (\<lambda>r. record_outcome r = Skipped) (store_records store))"
  "clean_failures (analyze store) =
     length (filter (\<lambda>r. record_outcome r = Fail \<and> \<not> ungraceful_failure r) (store_records store))"
  "ungraceful_failures (analyze store) =
     length (filter (\<lambda>r. record_outcome r = Fail \<and> ungraceful_failure r) (store_records store))"
  "map entry_test_id (integrity_violations (analyze store)) = map test_id (filter integrity_violation (store_records store))"
  "must_failure_ids (analyze store) =
     map must_failure_id (filter (\<lambda>r. record_outcome r = Fail \<and> record_severity r = Critical) (store_records store))"
  by (simp_all add: analyze_def Let_def case_prod_beta walk_counts walk_ledgers)

section \<open>Weights\<close>

fun weight_of :: "severity \<Rightarrow> int" where
  "weight_of Critical = 9" | "weight_of Major = 3" | "weight_of Minor = 1" | "weight_of Info = 0"

lemma severity_weight_int: "severity_weight s = of_int (weight_of s)" "0 \<le> weight_of s" "weight_of s \<le> 9"
  by (cases s; simp)+

definition counted :: "metric_record \<Rightarrow> bool" where
  "counted r \<longleftrightarrow> record_outcome r \<noteq> Skipped"

definition conforms :: "metric_record \<Rightarrow> bool" where
  "conforms r \<longleftrightarrow> conformance_section (section_of (test_id r))"

definition weigh :: "(metric_record \<Rightarrow> bool) \<Rightarrow> metric_record list \<Rightarrow> int" where
  "weigh P rs = sum_list (map (\<lambda>r. weight_of (record_severity r)) (filter P rs))"

lemma weigh_simps [simp]:
  "weigh P [] = 0"
  "weigh P (rs @ [r]) = weigh P rs + (if P r then weight_of (record_severity r) else 0)"
  by (simp_all add: weigh_def)

lemma weigh_bounds: "0 \<le> weigh P rs \<and> weigh P rs \<le> 9 * int (length rs)"
proof (induction rs rule: rev_induct)
  case (snoc r rs)
  then show ?case using severity_weight_int(2,3) [of "record_severity r"] by simp
qed simp

lemma weigh_mono: "(\<And>r. P r \<Longrightarrow> Q r) \<Longrightarrow> weigh P rs \<le> weigh Q rs"
proof (induction rs rule: rev_induct)
  case (snoc r rs)
  then show ?case using severity_weight_int(2) [of "record_severity r"] by auto
qed simp

lemma dbl_add_int:
  "0 \<le> m \<Longrightarrow> 0 \<le> n \<Longrightarrow> m + n \<le> 2 ^ 53 \<Longrightarrow> dbl_add (of_int m) (of_int n) = of_int (m + n)"
  using rnd_of_int [of "m + n"] by (simp add: dbl_add_def)

text \<open>
  What the sections hold while the records are walked: keys in order, and integral weights whose sums
  over the conformance sections, and over all sections, are those of the records.
\<close>

definition weights_ok :: "(string \<times> accum) list \<Rightarrow> bool" where
  "weights_ok ms \<longleftrightarrow>
     (\<forall>a \<in> snd ` set ms. \<exists>p t. weight_passed a = of_int p \<and> weight_total a = of_int t \<and> 0 \<le> p \<and> p \<le> t)"

definition sum_weights :: "(accum \<Rightarrow> double) \<Rightarrow> (string \<Rightarrow> bool) \<Rightarrow> (string \<times> accum) list \<Rightarrow> double" where
  "sum_weights f S ms = sum_list (map (\<lambda>(s, a). if S s then f a else 0) ms)"

lemma sum_weights_simps [simp]:
  "sum_weights f S [] = 0"
  "sum_weights f S ((s, a) # ms) = (if S s then f a else 0) + sum_weights f S ms"
  by (simp_all add: sum_weights_def)

lemma weights_ok_sum_nonneg:
  "weights_ok ms \<Longrightarrow> 0 \<le> sum_weights weight_total S ms \<and> 0 \<le> sum_weights weight_passed S ms"
  by (induction ms) (auto simp: weights_ok_def intro!: add_nonneg_nonneg)

lemma accumulate_weights:
  assumes "weight_passed a = of_int p" "weight_total a = of_int t" "0 \<le> p" "p \<le> t" "t + 9 \<le> 2 ^ 53"
  shows "weight_passed (accumulate r a) =
      of_int (p + (if record_outcome r = Pass then weight_of (record_severity r) else 0))"
    and "weight_total (accumulate r a) =
      of_int (t + (if counted r then weight_of (record_severity r) else 0))"
proof -
  let ?w = "weight_of (record_severity r)"
  have w: "0 \<le> ?w" "?w \<le> 9" using severity_weight_int by auto
  have "dbl_add (of_int p) (of_int ?w) = of_int (p + ?w)" "dbl_add (of_int t) (of_int ?w) = of_int (t + ?w)"
    using w assms by (intro dbl_add_int; linarith)+
  then show "weight_passed (accumulate r a) =
      of_int (p + (if record_outcome r = Pass then weight_of (record_severity r) else 0))"
    and "weight_total (accumulate r a) =
      of_int (t + (if counted r then weight_of (record_severity r) else 0))"
    using assms(1,2) by (simp_all add: accumulate_def Let_def counted_def severity_weight_int(1) split: outcome.splits)
qed

definition integral_weights :: "accum \<Rightarrow> bool" where
  "integral_weights a \<longleftrightarrow> (\<exists>p t. weight_passed a = of_int p \<and> weight_total a = of_int t \<and> 0 \<le> p \<and> p \<le> t)"

lemma weights_ok_simps [simp]:
  "weights_ok []" "weights_ok ((s, a) # ms) \<longleftrightarrow> integral_weights a \<and> weights_ok ms"
  by (auto simp: weights_ok_def integral_weights_def)

lemma integral_weights_nonneg: "integral_weights a \<Longrightarrow> 0 \<le> weight_total a \<and> 0 \<le> weight_passed a"
  by (auto simp: integral_weights_def)

text \<open>One record added to one section, as the walk adds it.\<close>

lemma accumulate_integral:
  assumes "integral_weights a" and "weight_total a + 9 \<le> 2 ^ 53"
  shows "integral_weights (accumulate r a)"
    and "weight_total (accumulate r a) =
      weight_total a + (if counted r then of_int (weight_of (record_severity r)) else 0)"
    and "weight_passed (accumulate r a) =
      weight_passed a + (if record_outcome r = Pass then of_int (weight_of (record_severity r)) else 0)"
proof -
  let ?w = "weight_of (record_severity r)"
  obtain p t where a: "weight_passed a = of_int p" "weight_total a = of_int t" "0 \<le> p" "p \<le> t"
    using assms(1) by (auto simp: integral_weights_def)
  have "of_int (t + 9) \<le> (of_int (2 ^ 53) :: rat)" using assms(2) a(2) by simp
  then have t: "t + 9 \<le> 2 ^ 53" by (simp only: of_int_le_iff)
  note w = accumulate_weights [OF a t, of r]
  let ?p = "p + (if record_outcome r = Pass then ?w else 0)" and ?t = "t + (if counted r then ?w else 0)"
  have "0 \<le> ?p \<and> ?p \<le> ?t" using a severity_weight_int(2) [of "record_severity r"] by (auto simp: counted_def)
  with w show "integral_weights (accumulate r a)" unfolding integral_weights_def by blast
  from w a show "weight_total (accumulate r a) = weight_total a + (if counted r then of_int ?w else 0)"
    and "weight_passed (accumulate r a) = weight_passed a + (if record_outcome r = Pass then of_int ?w else 0)"
    by simp_all
qed

lemma empty_accum_integral: "integral_weights empty_accum" "weight_total empty_accum = 0" "weight_passed empty_accum = 0"
proof -
  have "weight_passed empty_accum = of_int 0 \<and> weight_total empty_accum = of_int 0" by (simp add: empty_accum_def)
  then show "integral_weights empty_accum" unfolding integral_weights_def by blast
qed (simp_all add: empty_accum_def)

lemma at_key_weights:
  assumes "weights_ok ms" and "sum_weights weight_total (\<lambda>_. True) ms + 9 \<le> 2 ^ 53"
  shows "weights_ok (at_key empty_accum (accumulate r) k ms) \<and>
    sum_weights weight_total S (at_key empty_accum (accumulate r) k ms) =
      sum_weights weight_total S ms + (if S k \<and> counted r then of_int (weight_of (record_severity r)) else 0) \<and>
    sum_weights weight_passed S (at_key empty_accum (accumulate r) k ms) =
      sum_weights weight_passed S ms +
      (if S k \<and> record_outcome r = Pass then of_int (weight_of (record_severity r)) else 0)"
  using assms
proof (induction ms)
  case Nil
  then show ?case using accumulate_integral [OF empty_accum_integral(1), of r] empty_accum_integral by auto
next
  case (Cons m ms)
  obtain s a where m: "m = (s, a)" by (cases m)
  have ok: "weights_ok ms" and a: "integral_weights a" using Cons.prems(1) by (simp_all add: m)
  have nn: "0 \<le> sum_weights weight_total (\<lambda>_. True) ms" "0 \<le> weight_total a"
    using weights_ok_sum_nonneg [OF ok] integral_weights_nonneg [OF a] by blast+
  then have t: "weight_total a + 9 \<le> 2 ^ 53" and rest: "sum_weights weight_total (\<lambda>_. True) ms + 9 \<le> 2 ^ 53"
    using Cons.prems(2) by (simp_all add: m)
  show ?case
    using accumulate_integral [OF a t, of r] accumulate_integral [OF empty_accum_integral(1), of r]
      empty_accum_integral a ok Cons.IH [OF ok rest]
    by (auto simp: m)
qed

lemma analyze_record_sections:
  "by_section (analyze_record r s) = at_key empty_accum (accumulate r) (section_of (test_id r)) (by_section s)"
  by (simp add: analyze_record_def)

text \<open>The whole walk: the weights of the sections are the weights of the records, without rounding.\<close>

lemma walk_weights:
  assumes "length rs < 2 ^ 40"
  shows "weights_ok (by_section (walk_records store rs)) \<and>
    (\<forall>S. sum_weights weight_total S (by_section (walk_records store rs)) =
          of_int (weigh (\<lambda>r. S (section_of (test_id r)) \<and> counted r) rs) \<and>
        sum_weights weight_passed S (by_section (walk_records store rs)) =
          of_int (weigh (\<lambda>r. S (section_of (test_id r)) \<and> record_outcome r = Pass) rs))"
  using assms
proof (induction rs rule: rev_induct)
  case (snoc r rs)
  let ?ms = "by_section (walk_records store rs)"
  have ok: "weights_ok ?ms" and sums:
    "\<And>S. sum_weights weight_total S ?ms = of_int (weigh (\<lambda>r. S (section_of (test_id r)) \<and> counted r) rs)"
    "\<And>S. sum_weights weight_passed S ?ms =
       of_int (weigh (\<lambda>r. S (section_of (test_id r)) \<and> record_outcome r = Pass) rs)"
    using snoc by simp_all
  have "weigh (\<lambda>r. True \<and> counted r) rs \<le> 9 * int (length rs)" using weigh_bounds by blast
  then have "weigh (\<lambda>r. True \<and> counted r) rs + 9 \<le> 2 ^ 53" using snoc.prems by simp
  then have "of_int (weigh (\<lambda>r. True \<and> counted r) rs + 9) \<le> (of_int (2 ^ 53) :: rat)"
    by (simp only: of_int_le_iff)
  then have "sum_weights weight_total (\<lambda>_. True) ?ms + 9 \<le> 2 ^ 53" by (simp add: sums)
  from at_key_weights [OF ok this, of r "section_of (test_id r)"] show ?case
    by (simp add: analyze_record_sections sums)
qed simp

text \<open>The conformance totals are added up exactly too.\<close>

lemma conformance_weights_exact:
  assumes "weights_ok ms" and "sum_weights weight_total conformance_section ms + of_int t \<le> 2 ^ 53"
    and "0 \<le> p" "p \<le> t"
  shows "fold (\<lambda>(s, a) (p, t). if conformance_section s
             then (dbl_add p (weight_passed a), dbl_add t (weight_total a)) else (p, t))
       ms (of_int p, of_int t) =
     (of_int p + sum_weights weight_passed conformance_section ms,
      of_int t + sum_weights weight_total conformance_section ms)"
  using assms
proof (induction ms arbitrary: p t)
  case (Cons m ms)
  obtain s a where m: "m = (s, a)" by (cases m)
  obtain q u where a: "weight_passed a = of_int q" "weight_total a = of_int u" "0 \<le> q" "q \<le> u"
    using Cons.prems(1) by (auto simp: m integral_weights_def)
  have ok: "weights_ok ms" using Cons.prems(1) by (simp add: m)
  show ?case
  proof (cases "conformance_section s")
    case True
    have "0 \<le> sum_weights weight_total conformance_section ms" using weights_ok_sum_nonneg [OF ok] by blast
    then have "of_int (t + u) \<le> (of_int (2 ^ 53) :: rat)" using Cons.prems(2) True a by (simp add: m)
    then have le: "t + u \<le> 2 ^ 53" by (simp only: of_int_le_iff)
    have sums: "dbl_add (of_int p) (weight_passed a) = of_int (p + q)"
      "dbl_add (of_int t) (weight_total a) = of_int (t + u)"
      unfolding a(1,2) using le a(3,4) Cons.prems(3,4) by (intro dbl_add_int; linarith)+
    have "sum_weights weight_total conformance_section ms + of_int (t + u) \<le> 2 ^ 53"
      using Cons.prems(2) True a by (simp add: m)
    note rest = Cons.IH [OF ok this, of "p + q"]
    show ?thesis using rest True a(3,4) Cons.prems(3,4) unfolding m fold_simps prod.case o_apply
      by (simp add: sums del: of_int_add) (simp add: a(1,2))
  qed (use Cons in \<open>simp add: m\<close>)
qed simp

text \<open>A score is the exact percentage, rounded once.\<close>

lemma score_ratio_exact:
  assumes "0 \<le> p" and "p \<le> t" and "t \<le> 9 * 2 ^ 40"
  shows "score_ratio (of_int p) (of_int t) = (if 0 < t then rnd (of_int (100 * p) / of_int t) else 0)"
proof -
  have "rnd (of_int (100 * p)) = of_int (100 * p)" using assms by (intro rnd_of_int) simp
  then show ?thesis by (simp add: score_ratio_def dbl_div_def dbl_mul_def)
qed

lemma percentage_bounds:
  fixes p t :: int
  assumes "0 \<le> p" and "p \<le> t" and "t \<le> 9 * 2 ^ 40" and "0 < t"
  defines "x \<equiv> of_int (100 * p) / of_int t :: rat"
  shows "0 \<le> rnd x" and "rnd x \<le> 100" and "rnd x = 100 \<longleftrightarrow> p = t"
proof -
  have rnd100: "rnd 100 = 100" using rnd_of_int [of 100] by simp
  show "0 \<le> rnd x" using assms by (intro rnd_nonneg) (simp add: x_def)
  have "x \<le> 100" using assms by (simp add: x_def divide_le_eq)
  from rnd_mono [OF this] show "rnd x \<le> 100" by (simp add: rnd100)
  show "rnd x = 100 \<longleftrightarrow> p = t"
  proof
    assume r: "rnd x = 100"
    show "p = t"
    proof (rule ccontr)
      assume "p \<noteq> t"
      then have less: "p + 1 \<le> t" using assms(2) by simp
      let ?y = "of_int (100 * 2 ^ 40 - 1) * pow2 (- 40) :: rat"
      have y: "?y = 100 - 1 / 2 ^ 40" by (simp add: pow2_def field_simps)
      have "100 * p \<le> 100 * t - 100" using less by simp
      then have "of_int (100 * p) \<le> (of_int (100 * t - 100) :: rat)" by (simp only: of_int_le_iff)
      moreover have "of_int t \<le> (of_int (9 * 2 ^ 40) :: rat)" using assms(3) by (simp only: of_int_le_iff)
      ultimately have "of_int (100 * p) \<le> ?y * of_int t" unfolding y by (simp add: algebra_simps)
      then have "x \<le> ?y" using assms(4) by (simp add: x_def divide_le_eq)
      from rnd_mono [OF this] have "rnd x \<le> rnd (of_int (100 * 2 ^ 40 - 1)) * pow2 (- 40)"
        by (simp only: rnd_scale)
      also have "rnd (of_int (100 * 2 ^ 40 - 1)) = of_int (100 * 2 ^ 40 - 1)" by (intro rnd_of_int) simp
      also have "of_int (100 * 2 ^ 40 - 1) * pow2 (- 40) < (100 :: rat)" unfolding y by simp
      finally show False using r by simp
    qed
  next
    assume "p = t"
    then show "rnd x = 100" using assms(4) rnd100 by (simp add: x_def)
  qed
qed

lemma weight_le_sum:
  "weights_ok ms \<Longrightarrow> (k, a) \<in> set ms \<Longrightarrow>
     integral_weights a \<and> weight_total a \<le> sum_weights weight_total (\<lambda>_. True) ms"
proof (induction ms)
  case (Cons m ms)
  obtain s b where m: "m = (s, b)" by (cases m)
  show ?case
    using Cons weights_ok_sum_nonneg [of ms "\<lambda>_. True"] integral_weights_nonneg [of b] by (auto simp: m)
qed simp

lemma section_score_bounds:
  assumes "integral_weights a" and "weight_total a \<le> of_int (9 * 2 ^ 40)"
  shows "0 \<le> weighted_score (section_score_of (k, a)) \<and> weighted_score (section_score_of (k, a)) \<le> 100"
proof -
  obtain p t where a: "weight_passed a = of_int p" "weight_total a = of_int t" "0 \<le> p" "p \<le> t"
    using assms(1) by (auto simp: integral_weights_def)
  have t: "t \<le> 9 * 2 ^ 40" using assms(2) unfolding a(2) by (simp only: of_int_le_iff)
  show ?thesis
    using score_ratio_exact [OF a(3,4) t] percentage_bounds [OF a(3,4) t] a(1,2) by (simp add: section_score_of_def)
qed

lemma analyze_scores:
  assumes "length (store_records store) < 2 ^ 40"
  defines "passed \<equiv> weigh (\<lambda>r. conforms r \<and> record_outcome r = Pass) (store_records store)"
    and "weight \<equiv> weigh (\<lambda>r. conforms r \<and> counted r) (store_records store)"
  shows "conformance_score (analyze store) = score_ratio (of_int passed) (of_int weight)"
    and "0 \<le> passed" "passed \<le> weight" "weight \<le> 9 * 2 ^ 40"
    and "s \<in> set (card_sections (analyze store)) \<Longrightarrow> 0 \<le> weighted_score s \<and> weighted_score s \<le> 100"
proof -
  let ?rs = "store_records store" let ?ms = "by_section (walk_records store (store_records store))"
  note walk = walk_weights [OF assms(1), of store]
  then have ok: "weights_ok ?ms" by blast
  have w: "sum_weights weight_total conformance_section ?ms = of_int weight"
    "sum_weights weight_passed conformance_section ?ms = of_int passed"
    using walk by (auto simp: weight_def passed_def conforms_def)
  show "0 \<le> passed" "passed \<le> weight"
    unfolding passed_def weight_def
    by (rule weigh_bounds [THEN conjunct1], rule weigh_mono) (simp add: counted_def)
  have len: "9 * int (length ?rs) \<le> 9 * 2 ^ 40" using assms(1) by simp
  have small: "weigh P ?rs \<le> 9 * 2 ^ 40" for P using weigh_bounds [of P ?rs] len by linarith
  show le: "weight \<le> 9 * 2 ^ 40" unfolding weight_def by (rule small)
  have "of_int weight \<le> (of_int (2 ^ 53) :: rat)" unfolding of_int_le_iff using le by simp
  then have "conformance_weights ?ms = (of_int passed, of_int weight)"
    using conformance_weights_exact [OF ok, of 0 0] by (simp add: w conformance_weights_def)
  then show "conformance_score (analyze store) = score_ratio (of_int passed) (of_int weight)"
    by (simp add: analyze_def Let_def)
  assume "s \<in> set (card_sections (analyze store))"
  then obtain k a where ka: "(k, a) \<in> set ?ms" and s: "s = section_score_of (k, a)"
    by (auto simp: analyze_def Let_def split: prod.splits)
  have "sum_weights weight_total (\<lambda>_. True) ?ms \<le> of_int (9 * 2 ^ 40)"
    using walk small by (simp only: of_int_le_iff)
  then show "0 \<le> weighted_score s \<and> weighted_score s \<le> 100"
    unfolding s using weight_le_sum [OF ok ka] by (intro section_score_bounds) auto
qed

text \<open>
  C29. The scores. The conformance score of a store is the severity-weighted share of its
  counted records in sections A to E and G, as a percentage that is rounded once; it is 100 only when
  no weighted record of those sections failed, so no critical failure is averaged or rounded away; and
  it and every section's score lie between 0 and 100.
\<close>

theorem conformance_score_is_weighted_share:
  assumes "length (store_records store) < 2 ^ 40"
  defines "passed \<equiv> weigh (\<lambda>r. conforms r \<and> record_outcome r = Pass) (store_records store)"
    and "weight \<equiv> weigh (\<lambda>r. conforms r \<and> record_outcome r \<noteq> Skipped) (store_records store)"
  shows "conformance_score (analyze store) =
      (if 0 < weight then rnd (of_int (100 * passed) / of_int weight) else 0) \<and>
    0 \<le> conformance_score (analyze store) \<and> conformance_score (analyze store) \<le> 100 \<and>
    (conformance_score (analyze store) = 100 \<longleftrightarrow> 0 < weight \<and> passed = weight) \<and>
    (\<forall>s \<in> set (card_sections (analyze store)). 0 \<le> weighted_score s \<and> weighted_score s \<le> 100)"
proof -
  note scores = analyze_scores [OF assms(1), unfolded counted_def, folded passed_def weight_def]
  show ?thesis
    using scores(1,5) score_ratio_exact [OF scores(2,3,4)] percentage_bounds [OF scores(2,3,4)] by auto
qed

definition sample_store :: metrics_store where
  "sample_store = empty_store\<lparr>store_records :=
     [empty_metric_record\<lparr>test_id := ''A-01'', record_severity := Critical, record_outcome := Pass\<rparr>,
      empty_metric_record\<lparr>test_id := ''B-02'', record_severity := Minor, record_outcome := Fail\<rparr>,
      empty_metric_record\<lparr>test_id := ''F-01'', record_severity := Critical, record_outcome := Fail\<rparr>]\<rparr>"

lemma sample_store_records:
  "length (store_records sample_store) = 3"
  "weigh (\<lambda>r. conforms r \<and> record_outcome r = Pass) (store_records sample_store) = 9"
  "weigh (\<lambda>r. conforms r \<and> record_outcome r \<noteq> Skipped) (store_records sample_store) = 10"
  by (simp_all add: sample_store_def empty_store_def empty_metric_record_def weigh_def conforms_def
      conformance_section_def section_of_def)

theorem conformance_score_is_weighted_share_witness:
  "conformance_score (analyze sample_store) = 90 \<and> length (card_sections (analyze sample_store)) = 3"
proof -
  have "conformance_score (analyze sample_store) = rnd (of_int 90)"
    using conformance_score_is_weighted_share [of sample_store] by (simp add: sample_store_records)
  moreover have "length (card_sections (analyze sample_store)) = 3" by code_simp
  ultimately show ?thesis using rnd_of_int [of 90] by simp
qed

section \<open>Ledgers\<close>

lemma graceful_rate_bounds: "0 \<le> graceful_rate c u" "graceful_rate c u \<le> 1"
proof -
  let ?c = "dbl_of_int (int c)" and ?t = "dbl_of_int (int (c + u))"
  have le: "?c \<le> ?t" and nn: "0 \<le> ?c"
    unfolding dbl_of_int_def by (auto intro!: rnd_mono rnd_nonneg)
  then have "0 \<le> ?c / ?t" "?c / ?t \<le> 1" by (auto simp: divide_le_eq_1)
  from rnd_nonneg [OF this(1)] rnd_mono [OF this(2)]
  show "0 \<le> graceful_rate c u" "graceful_rate c u \<le> 1"
    using rnd_of_int [of 1] by (simp_all add: graceful_rate_def dbl_div_def)
qed

lemma capability_matrix_eq:
  "capability_matrix rs =
     map (\<lambda>(name, label). (name, \<not> list_ex (\<lambda>r. record_outcome r = Skipped \<and>
                                                contains_text name (record_narrative r)) rs))
       capability_labels"
  by (induction rs rule: rev_induct) (simp_all add: capability_matrix_def case_prod_beta)

text \<open>
  The ledgers. The totals account for every record; every failed critical record is
  listed, in order, as is every integrity violation; the clean and the ungraceful failures make up the
  failures, and the graceful rate lies in \<open>[0, 1]\<close>; a capability is unsupported exactly when the
  narrative of a skipped record names it.
\<close>

lemma scorecard_accounts_for_every_record:
  "total_passed (analyze store) + total_failed (analyze store) + total_skipped (analyze store) =
     length (store_records store) \<and>
   must_failure_ids (analyze store) =
     map must_failure_id
       (filter (\<lambda>r. record_outcome r = Fail \<and> record_severity r = Critical) (store_records store)) \<and>
   map entry_test_id (integrity_violations (analyze store)) =
     map test_id (filter integrity_violation (store_records store)) \<and>
   clean_failures (analyze store) + ungraceful_failures (analyze store) = total_failed (analyze store) \<and>
   0 \<le> graceful_degradation_rate (analyze store) \<and> graceful_degradation_rate (analyze store) \<le> 1 \<and>
   capability_supported (analyze store) =
     map (\<lambda>(name, label). (name, \<not> list_ex (\<lambda>r. record_outcome r = Skipped \<and>
                                                contains_text name (record_narrative r))
                                    (store_records store)))
       capability_labels"
proof -
  have split: "length (filter P rs) = length (filter (\<lambda>r. P r \<and> Q r) rs) + length (filter (\<lambda>r. P r \<and> \<not> Q r) rs)"
    for P Q and rs :: "metric_record list" by (induction rs) auto
  have outcomes: "length (filter (\<lambda>r. record_outcome r = Pass) rs) + length (filter (\<lambda>r. record_outcome r = Fail) rs)
      + length (filter (\<lambda>r. record_outcome r = Skipped) rs) = length rs" for rs
    by (induction rs) (auto split: outcome.splits, metis outcome.exhaust)
  show ?thesis
    using outcomes [of "store_records store"]
      split [of "\<lambda>r. record_outcome r = Fail" "store_records store" ungraceful_failure]
    by (simp add: analyze_def Let_def case_prod_beta walk_counts walk_ledgers graceful_rate_bounds
        capability_matrix_eq)
qed

text \<open>
  The area of a curve is normalised in double arithmetic: a client that succeeds at every point of the
  intensities 0.01, 0.05 and 0.25 gets an area above 1.
\<close>

lemma area_above_one:
  "area_under (map (\<lambda>v. \<lparr>point_intensity = rnd v, point_success = 1, point_label = []\<rparr>)
     [1 / 100, 5 / 100, 25 / 100]) > 1"
  by code_simp

end
