(* ===== verification/Html_Report.thy ===== *)
theory Html_Report
  imports Report_Model
begin

text \<open>
  \<open>src/src/report/html_report.{hpp,cpp}\<close>: the report of one implementation as a self-contained HTML
  page. The string streams of the code are concatenations; a double written to a stream has the form
  of \<open>%.6g\<close> (\<open>format_g6\<close>), one formatted with a number of decimals that of \<open>%.*f\<close> (\<open>format_double\<close>).
  Writing the page to its file is \<open>write_text_file\<close> on the files of \<open>Metrics_Store\<close>.
\<close>

section \<open>Text\<close>

fun html_escape_char :: "char \<Rightarrow> string" where
  "html_escape_char c =
     (if c = CHR ''&'' then ''&amp;''
      else if c = CHR ''<'' then ''&lt;''
      else if c = CHR ''>'' then ''&gt;''
      else if c = CHR 0x22 then ''&quot;''
      else if c = CHR 0x27 then ''&#39;''
      else [c])"

definition html_escape :: "string \<Rightarrow> string" where
  "html_escape raw = concat (map html_escape_char raw)"

text \<open>The conversion \<open>%.*f\<close>; the buffer of 64 characters is filled by no number below \<open>10 ^ 50\<close>.\<close>

definition fixed_digits :: "nat \<Rightarrow> nat \<Rightarrow> string" where
  "fixed_digits decimals scaled =
     (let p = 10 ^ decimals
      in if decimals = 0 then to_string scaled
         else to_string (scaled div p) @ ''.'' @ pad_left decimals (to_string (scaled mod p)))"

definition format_double :: "double \<Rightarrow> nat \<Rightarrow> string" where
  "format_double v decimals =
     take 63 ((if v < 0 then ''-'' else []) @
       fixed_digits decimals (nat (round_half_even (\<bar>v\<bar> * 10 ^ decimals))))"

definition format_bytes_per_second :: "double \<Rightarrow> string" where
  "format_bytes_per_second v =
     (if v \<ge> 1024 * 1024 then format_double (dbl_div v (1024 * 1024)) 2 @ '' MiB/s''
      else if v \<ge> 1024 then format_double (dbl_div v 1024) 1 @ '' KiB/s''
      else format_double v 0 @ '' B/s'')"

fun outcome_badge_class :: "outcome \<Rightarrow> string" where
  "outcome_badge_class Pass = ''badge pass''"
| "outcome_badge_class Fail = ''badge fail''"
| "outcome_badge_class Skipped = ''badge skip''"

definition counter_or_dash :: "metric_record \<Rightarrow> string \<Rightarrow> string" where
  "counter_or_dash r name =
     (case map_of (counters r) name of
        None \<Rightarrow> em_dash
      | Some v \<Rightarrow> if of_int \<lfloor>v\<rfloor> = v then int_to_string (dbl_to_llong v) else format_double v 1)"

definition css_lines :: "string list" where
  "css_lines =
    ['':root{'',
     ''  --surface:#f4f4f1; --card:#ffffff; --ink:#0b0b0b; --ink2:#52514e; --muted:#8a8a85;'',
     ''  --series:#2a78d6; --good:#008300; --warn:#b07400; --bad:#d13a39;'',
     ''  --border:#e0e0da; --grid:#ececE6; --axis:#b8b8b1;'',
     ''  --good-bg:#e7f3e7; --warn-bg:#faf1dd; --bad-bg:#fbe7e7;'',
     ''}'',
     ''@media (prefers-color-scheme: dark){'',
     ''  :root{'',
     ''    --surface:#141413; --card:#1f1f1d; --ink:#f4f4f0; --ink2:#c3c2b7; --muted:#8f8e86;'',
     ''    --series:#3987e5; --good:#4fae4f; --warn:#e0a52a; --bad:#e66767;'',
     ''    --border:#33332f; --grid:#2a2a27; --axis:#4a4a45;'',
     ''    --good-bg:#16241a; --warn-bg:#2a2416; --bad-bg:#2c1a1a;'',
     ''  }'',
     ''}'',
     '':root[data-theme=light]{'',
     ''  --surface:#f4f4f1; --card:#ffffff; --ink:#0b0b0b; --ink2:#52514e; --muted:#8a8a85;'',
     ''  --series:#2a78d6; --good:#008300; --warn:#b07400; --bad:#d13a39;'',
     ''  --border:#e0e0da; --grid:#ececE6; --axis:#b8b8b1;'',
     ''  --good-bg:#e7f3e7; --warn-bg:#faf1dd; --bad-bg:#fbe7e7;'',
     ''}'',
     '':root[data-theme=dark]{'',
     ''  --surface:#141413; --card:#1f1f1d; --ink:#f4f4f0; --ink2:#c3c2b7; --muted:#8f8e86;'',
     ''  --series:#3987e5; --good:#4fae4f; --warn:#e0a52a; --bad:#e66767;'',
     ''  --border:#33332f; --grid:#2a2a27; --axis:#4a4a45;'',
     ''  --good-bg:#16241a; --warn-bg:#2a2416; --bad-bg:#2c1a1a;'',
     ''}'',
     ''*{box-sizing:border-box;}'',
     ''body{margin:0;background:var(--surface);color:var(--ink);'',
     ''  font-family:-apple-system,BlinkMacSystemFont,\"Segoe UI\",Roboto,Helvetica,Arial,sans-serif;'',
     ''  line-height:1.5;}'',
     ''.wrap{max-width:1080px;margin:0 auto;padding:32px 20px 80px;}'',
     ''h1{font-size:26px;margin:0 0 4px;letter-spacing:-0.01em;}'',
     ''h2{font-size:19px;margin:40px 0 14px;padding-bottom:6px;border-bottom:1px solid var(--border);}'',
     ''h3{font-size:15px;margin:24px 0 8px;color:var(--ink2);}'',
     ''.sub{color:var(--ink2);font-size:14px;margin:0 0 4px;}'',
     ''.mono{font-family:ui-monospace,SFMono-Regular,Menlo,Consolas,monospace;}'',
     ''.tiles{display:grid;grid-template-columns:repeat(auto-fit,minmax(165px,1fr));gap:14px;margin-top:20px;}'',
     ''.tile{background:var(--card);border:1px solid var(--border);border-radius:12px;padding:16px 18px;}'',
     ''.tile .label{font-size:12px;text-transform:uppercase;letter-spacing:0.04em;color:var(--muted);}'',
     ''.tile .value{font-size:30px;font-weight:650;margin-top:6px;letter-spacing:-0.02em;}'',
     ''.tile .value.small{font-size:20px;}'',
     ''.tile .foot{font-size:12px;color:var(--ink2);margin-top:4px;}'',
     ''.value.good{color:var(--good);} .value.warn{color:var(--warn);} .value.bad{color:var(--bad);}'',
     ''table{width:100%;border-collapse:collapse;font-size:13.5px;margin-top:8px;}'',
     ''th,td{text-align:left;padding:8px 10px;border-bottom:1px solid var(--border);vertical-align:top;}'',
     ''th{color:var(--muted);font-weight:600;font-size:12px;text-transform:uppercase;letter-spacing:0.03em;}'',
     ''.tablewrap{overflow-x:auto;background:var(--card);border:1px solid var(--border);border-radius:12px;}'',
     ''.badge{display:inline-block;padding:2px 9px;border-radius:999px;font-size:12px;font-weight:600;}'',
     ''.badge.pass{background:var(--good-bg);color:var(--good);}'',
     ''.badge.fail{background:var(--bad-bg);color:var(--bad);}'',
     ''.badge.skip{background:var(--grid);color:var(--muted);}'',
     ''.callout{border-radius:12px;padding:14px 18px;margin-top:16px;font-size:14px;}'',
     ''.callout.bad{background:var(--bad-bg);border:1px solid var(--bad);}'',
     ''.callout.good{background:var(--good-bg);border:1px solid var(--good);}'',
     ''.callout ul{margin:8px 0 0;padding-left:20px;}'',
     ''.charts{display:grid;grid-template-columns:repeat(auto-fit,minmax(300px,1fr));gap:16px;margin-top:16px;}'',
     ''.chartcard{background:var(--card);border:1px solid var(--border);border-radius:12px;padding:14px 16px 8px;}'',
     ''.chartcard .ct{font-size:14px;font-weight:600;margin-bottom:2px;}'',
     ''.chartcard .cs{font-size:12px;color:var(--muted);margin-bottom:6px;}'',
     ''svg{max-width:100%;height:auto;display:block;}'',
     ''.svg-grid{stroke:var(--grid);stroke-width:1;}'',
     ''.svg-axis{stroke:var(--axis);stroke-width:1;}'',
     ''.svg-line{stroke:var(--series);stroke-width:2;fill:none;stroke-linejoin:round;stroke-linecap:round;}'',
     ''.svg-dot{fill:var(--series);}'',
     ''.svg-text{fill:var(--ink2);font-size:10px;font-family:inherit;}'',
     ''.svg-area{fill:var(--series);opacity:0.10;}'',
     ''.caprow{display:flex;align-items:center;gap:8px;}'',
     ''.dot{width:9px;height:9px;border-radius:50%;display:inline-block;}'',
     ''.dot.yes{background:var(--good);} .dot.no{background:var(--muted);}'',
     ''.narrative{color:var(--ink2);}'',
     ''.foot-note{margin-top:40px;color:var(--muted);font-size:12px;}'',
     ''code{background:var(--grid);padding:1px 5px;border-radius:5px;font-size:12.5px;}'']"

definition shared_report_css :: string where
  "shared_report_css = [CHR 0x0A] @ concat (map (\<lambda>l. l @ [CHR 0x0A]) css_lines)"

section \<open>Charts\<close>

text \<open>The plot area: width 320, height 190, margins 38, 12, 12 and 30; so it is 270 by 148.\<close>

definition plot_x :: "double \<Rightarrow> double \<Rightarrow> double \<Rightarrow> string" where
  "plot_x min_x max_x x =
     format_g6 (dbl_add 38 (dbl_div (dbl_mul 270 (dbl_sub x min_x)) (dbl_sub max_x min_x)))"

definition plot_y :: "double \<Rightarrow> double" where
  "plot_y y = dbl_add 12 (dbl_mul 148 (dbl_sub 1 y))"

definition x_range :: "resilience_point list \<Rightarrow> double \<times> double" where
  "x_range points =
     (if points = [] then (0, 1)
      else let lo = point_intensity (hd points); hi = point_intensity (List.last points)
           in (lo, if hi \<le> lo then dbl_add lo 1 else hi))"

definition svg_gridline :: "double \<Rightarrow> string" where
  "svg_gridline gy =
     ''<line class=\"svg-grid\" x1=\"38\" y1=\"'' @ format_g6 (plot_y gy) @
     ''\" x2=\"308\" y2=\"'' @ format_g6 (plot_y gy) @ ''\"/>'' @
     ''<text class=\"svg-text\" x=\"32\" y=\"'' @ format_g6 (dbl_add (plot_y gy) 3) @
     ''\" text-anchor=\"end\">'' @ format_double (dbl_mul gy 100) 0 @ ''%</text>''"

definition svg_axes :: string where
  "svg_axes =
     ''<line class=\"svg-axis\" x1=\"38\" y1=\"'' @ format_g6 (plot_y 0) @
     ''\" x2=\"308\" y2=\"'' @ format_g6 (plot_y 0) @ ''\"/>'' @
     ''<line class=\"svg-axis\" x1=\"38\" y1=\"12\" x2=\"38\" y2=\"'' @ format_g6 (plot_y 0) @ ''\"/>''"

definition svg_point :: "(double \<Rightarrow> string) \<Rightarrow> resilience_point \<Rightarrow> string" where
  "svg_point sx p = sx (point_intensity p) @ '','' @ format_g6 (plot_y (point_success p))"

definition svg_area :: "(double \<Rightarrow> string) \<Rightarrow> resilience_point list \<Rightarrow> string" where
  "svg_area sx points =
     ''M'' @ sx (point_intensity (hd points)) @ '','' @ format_g6 (plot_y 0) @
     concat (map (\<lambda>p. '' L'' @ svg_point sx p) points) @
     '' L'' @ sx (point_intensity (List.last points)) @ '','' @ format_g6 (plot_y 0) @ '' Z''"

definition svg_line :: "(double \<Rightarrow> string) \<Rightarrow> resilience_point list \<Rightarrow> string" where
  "svg_line sx points =
     concat (map (\<lambda>(i, p). (if i = 0 then ''M'' else '' L'') @ svg_point sx p) (List.enumerate 0 points))"

definition svg_dot :: "(double \<Rightarrow> string) \<Rightarrow> resilience_point \<Rightarrow> string" where
  "svg_dot sx p =
     ''<circle class=\"svg-dot\" cx=\"'' @ sx (point_intensity p) @
     ''\" cy=\"'' @ format_g6 (plot_y (point_success p)) @ ''\" r=\"3\"/>'' @
     ''<text class=\"svg-text\" x=\"'' @ sx (point_intensity p) @
     ''\" y=\"174\" text-anchor=\"middle\">'' @ format_double (point_intensity p) 2 @ ''</text>''"

definition render_resilience_svg :: "resilience_curve \<Rightarrow> string" where
  "render_resilience_svg curve =
     (let points = curve_points curve;
          (min_x, max_x) = x_range points;
          sx = plot_x min_x max_x
      in ''<svg viewBox=\"0 0 320 190\" role=\"img\" aria-label=\"'' @ html_escape (curve_title curve) @
         '' success rate versus intensity\">'' @
         concat (map svg_gridline [0, 1 / 2, 1]) @ svg_axes @
         (if points = [] then []
          else ''<path class=\"svg-area\" d=\"'' @ svg_area sx points @ ''\"/>'' @
               ''<path class=\"svg-line\" d=\"'' @ svg_line sx points @ ''\"/>'' @
               concat (map (svg_dot sx) points)) @
         ''<text class=\"svg-text\" x=\"173\" y=\"187\" text-anchor=\"middle\">impairment intensity'' @
         ''</text>'' @ ''</svg>'')"

section \<open>Sections of the page\<close>

definition tile :: "string \<Rightarrow> string \<Rightarrow> string \<Rightarrow> string \<Rightarrow> string" where
  "tile label_text value_class value_text foot =
     ''<div class=\"tile\"><div class=\"label\">'' @ label_text @ ''</div>'' @
     ''<div class=\"value'' @ value_class @ ''\">'' @ value_text @ ''</div>'' @
     ''<div class=\"foot\">'' @ foot @ ''</div></div>''"

definition render_tiles :: "scorecard \<Rightarrow> string" where
  "render_tiles sc =
     ''<div class=\"tiles\">'' @
     tile ''Conformance score''
       ('' '' @ (if conformance_score sc \<ge> 90 then ''good''
                else if conformance_score sc \<ge> 70 then ''warn'' else ''bad''))
       (format_double (conformance_score sc) 1)
       ''weighted over A-E, G (CRITICAL &gt; MAJOR &gt; MINOR)'' @
     tile ''Resilience index'' [] (format_double (resilience_index sc) 3)
       ''mean area under F success curves (0-1)'' @
     tile ''Integrity violations'' ('' '' @ (if integrity_violations sc = [] then ''good'' else ''bad''))
       (to_string (length (integrity_violations sc)))
       ''reported success but delivered wrong bytes'' @
     tile ''Graceful degradation'' []
       (format_double (dbl_mul (graceful_degradation_rate sc) 100) 0 @ ''%'')
       ''of failures ended in a clean error, not a hang'' @
     tile ''Avg throughput'' '' small'' (format_bytes_per_second (average_throughput sc))
       (''across passing transfers; '' @ format_double (total_retransmissions sc) 0 @
        '' retransmissions total'') @
     tile ''Results'' '' small''
       (''<span class=\"badge pass\">'' @ to_string (total_passed sc) @
        '' pass</span> <span class=\"badge fail\">'' @ to_string (total_failed sc) @ '' fail</span>'')
       (to_string (total_skipped sc) @ '' skipped (unsupported)'') @
     ''</div>''"

definition table_open :: string where
  "table_open = ''<div class=\"tablewrap\"><table><thead><tr>''"

definition table_close :: string where
  "table_close = ''</tbody></table></div>''"

definition render_section_row :: "section_score \<Rightarrow> string" where
  "render_section_row s =
     ''<tr><td class=\"mono\">'' @ html_escape (section_letter s) @ ''</td><td>'' @
     to_string (score_passed s) @ ''</td><td>'' @ to_string (score_failed s) @ ''</td><td>'' @
     to_string (score_skipped s) @ ''</td><td>'' @ format_double (weighted_score s) 1 @ ''</td></tr>''"

definition render_section_table :: "scorecard \<Rightarrow> string" where
  "render_section_table sc =
     table_open @ ''<th>Section</th><th>Pass</th><th>Fail</th><th>Skipped</th>'' @
     ''<th>Weighted score</th></tr></thead><tbody>'' @
     concat (map render_section_row (card_sections sc)) @ table_close"

definition render_must_failures :: "scorecard \<Rightarrow> string" where
  "render_must_failures sc =
     (if must_failure_ids sc = [] then
        ''<div class=\"callout good\"><strong>No MUST-level (CRITICAL) failures.</strong> '' @
        ''Every CRITICAL conformance check passed.</div>''
      else
        ''<div class=\"callout bad\"><strong>'' @ to_string (length (must_failure_ids sc)) @
        '' MUST-level (CRITICAL) failure(s)</strong> '' @ em_dash @
        '' shown separately, never averaged into the score:<ul>'' @
        concat (map (\<lambda>i. ''<li class=\"mono\">'' @ html_escape i @ ''</li>'') (must_failure_ids sc)) @
        ''</ul></div>'')"

definition render_capability_row :: "string \<times> bool \<Rightarrow> string" where
  "render_capability_row entry =
     ''<tr><td class=\"mono\">'' @ html_escape (fst entry) @
     ''</td><td><span class=\"caprow\"><span class=\"dot '' @
     (if snd entry then ''yes'' else ''no'') @ ''\"></span>'' @
     (if snd entry then ''yes'' else ''no (tests SKIPPED)'') @ ''</span></td></tr>''"

definition render_capability_matrix :: "scorecard \<Rightarrow> string" where
  "render_capability_matrix sc =
     table_open @ ''<th>Capability</th><th>Supported</th></tr></thead><tbody>'' @
     concat (map render_capability_row (capability_supported sc)) @ table_close"

definition render_curve :: "resilience_curve \<Rightarrow> string" where
  "render_curve curve =
     ''<div class=\"chartcard\"><div class=\"ct mono\">'' @ html_escape (impairment_id curve) @
     ''</div><div class=\"cs\">'' @ html_escape (curve_title curve) @ '' '' @ em_dash @ '' area '' @
     format_double (curve_area curve) 3 @ ''</div>'' @ render_resilience_svg curve @ ''</div>''"

definition render_curves :: "scorecard \<Rightarrow> string" where
  "render_curves sc =
     (if card_curves sc = [] then ''<p class=\"sub\">No resilience sweeps in this run.</p>''
      else ''<div class=\"charts\">'' @ concat (map render_curve (card_curves sc)) @ ''</div>'')"

definition render_integrity_row :: "integrity_entry \<Rightarrow> string" where
  "render_integrity_row e =
     ''<tr><td class=\"mono\">'' @ html_escape (entry_test_id e) @ ''</td><td>'' @
     html_escape (entry_intensity_label e) @ ''</td><td>'' @ html_escape (entry_narrative e) @
     ''</td><td class=\"mono\">'' @ to_string (unat (entry_seed e)) @ ''</td></tr>''"

definition render_integrity_ledger :: "scorecard \<Rightarrow> string" where
  "render_integrity_ledger sc =
     (if integrity_violations sc = [] then
        ''<div class=\"callout good\"><strong>Integrity ledger is clean.</strong> '' @
        ''No transfer reported success while delivering non-matching bytes.</div>''
      else
        ''<div class=\"callout bad\"><strong>'' @ to_string (length (integrity_violations sc)) @
        '' silent data-integrity failure(s).</strong> A transfer reported success but delivered '' @
        ''corrupted bytes '' @ em_dash @ '' the most severe outcome in the matrix.</div>'' @
        table_open @ ''<th>Test</th><th>Condition</th><th>Detail</th><th>Seed</th></tr></thead><tbody>'' @
        concat (map render_integrity_row (integrity_violations sc)) @ table_close)"

definition render_appendix_row :: "metric_record \<Rightarrow> string" where
  "render_appendix_row r =
     ''<tr><td class=\"mono\">'' @ html_escape (test_id r) @
     (if intensity_label r = [] then []
      else ''<br><span class=\"sub mono\">'' @ html_escape (intensity_label r) @ ''</span>'') @
     ''</td><td>'' @ html_escape (title r) @ ''</td><td><span class=\"'' @
     outcome_badge_class (record_outcome r) @ ''\">'' @ outcome_name (record_outcome r) @ ''</span>'' @
     (if record_severity r = Critical \<and> record_outcome r = Fail
      then '' <span class=\"badge fail\">CRITICAL</span>'' else []) @
     ''</td><td class=\"sub\">'' @ html_escape (rfc_clause r) @ ''</td><td>'' @
     counter_or_dash r ''retransmissions'' @ ''</td><td>'' @ counter_or_dash r ''datagrams_dropped'' @
     ''</td><td class=\"narrative\">'' @ html_escape (record_narrative r) @
     ''</td><td class=\"mono\">'' @ to_string (unat (record_seed r)) @ ''</td></tr>''"

definition render_appendix :: "scorecard \<Rightarrow> string" where
  "render_appendix sc =
     table_open @ ''<th>ID</th><th>Behavior</th><th>Outcome</th><th>RFC</th><th>Retx</th>'' @
     ''<th>Drop</th><th>Narrative</th><th>Seed</th></tr></thead><tbody>'' @
     concat (map render_appendix_row (card_records sc)) @ table_close"

section \<open>The page\<close>

definition page_open :: "string \<Rightarrow> string" where
  "page_open page_title =
     ''<!doctype html><html lang=\"en\"><head><meta charset=\"utf-8\">'' @
     ''<meta name=\"viewport\" content=\"width=device-width,initial-scale=1\">'' @
     ''<title>'' @ page_title @ ''</title><style>'' @ shared_report_css @
     ''</style></head><body><div class=\"wrap\">''"

definition render_single_report :: "scorecard \<Rightarrow> string" where
  "render_single_report sc =
     page_open (''TFTP conformance report '' @ em_dash @ '' '' @ html_escape (card_implementation sc)) @
     ''<h1>TFTP Conformance &amp; Robustness Report</h1>'' @
     ''<p class=\"sub\">Implementation under test: <strong>'' @
     html_escape (card_implementation sc) @ ''</strong></p>'' @
     ''<p class=\"sub\">Every result traces to a stable test ID and the RFC clause it derives from. '' @
     ''MUST-level failures are listed separately and are never averaged into the conformance score.</p>'' @
     ''<h2>Executive scorecard</h2>'' @ render_tiles sc @
     ''<h2>MUST-level conformance</h2>'' @ render_must_failures sc @
     ''<h2>Per-section conformance</h2>'' @ render_section_table sc @
     ''<h2>Capability matrix</h2>'' @
     ''<p class=\"sub\">Unsupported capabilities cause their tests to be recorded SKIPPED, never FAILED.</p>'' @
     render_capability_matrix sc @
     ''<h2>Resilience curves (F-series)</h2>'' @
     ''<p class=\"sub\">Byte-exact success rate as each impairment intensifies. '' @
     ''The normalized area under a curve is the resilience index contribution.</p>'' @
     render_curves sc @
     ''<h2>Integrity ledger</h2>'' @ render_integrity_ledger sc @
     ''<h2>Appendix '' @ em_dash @ '' every result</h2>'' @ render_appendix sc @
     ''<p class=\"foot-note\">Generated by the TFTP conformance &amp; robustness test harness. '' @
     ''Impairments applied by a local loopback UDP proxy; each result records the PRNG seed for exact '' @
     ''reproduction.</p>'' @ ''</div></body></html>''"

definition write_text_file :: "text_files \<Rightarrow> string \<Rightarrow> string \<Rightarrow> text_files \<times> bool" where
  "write_text_file files path text_contents =
     (if can_write files path then (files\<lparr>text_of := (text_of files)(path \<mapsto> text_contents)\<rparr>, True)
      else (files, False))"

section \<open>Escaping\<close>

fun html_unescape :: "string \<Rightarrow> string" where
  "html_unescape [] = []"
| "html_unescape (c # cs) =
     (if take 4 cs = ''amp;'' \<and> c = CHR ''&'' then CHR ''&'' # html_unescape (drop 4 cs)
      else if take 3 cs = ''lt;'' \<and> c = CHR ''&'' then CHR ''<'' # html_unescape (drop 3 cs)
      else if take 3 cs = ''gt;'' \<and> c = CHR ''&'' then CHR ''>'' # html_unescape (drop 3 cs)
      else if take 5 cs = ''quot;'' \<and> c = CHR ''&'' then CHR 0x22 # html_unescape (drop 5 cs)
      else if take 4 cs = ''#39;'' \<and> c = CHR ''&'' then CHR 0x27 # html_unescape (drop 4 cs)
      else c # html_unescape cs)"

lemma html_escape_simps [simp]:
  "html_escape [] = []" "html_escape (c # cs) = html_escape_char c @ html_escape cs"
  by (simp_all add: html_escape_def)

lemma html_unescape_escape: "html_unescape (html_escape s) = s"
  by (induction s) simp_all

text \<open>The characters that open, close or delimit markup.\<close>

definition markup :: "string \<Rightarrow> string" where
  "markup s = filter (\<lambda>c. c \<in> {CHR ''<'', CHR ''>'', CHR 0x22, CHR 0x27}) s"

lemma markup_append [simp]: "markup (a @ b) = markup a @ markup b"
  by (simp add: markup_def)

lemma markup_Nil [simp]: "markup [] = []"
  by (simp add: markup_def)

lemma markup_escape [simp]: "markup (html_escape s) = []"
  by (induction s) (simp_all add: markup_def)

lemma markup_rows:
  "(\<And>x. markup (g (h x)) = markup (g x)) \<Longrightarrow>
     markup (concat (map g (map h xs))) = markup (concat (map g xs))"
  by (induction xs) simp_all

section \<open>Text cannot become markup\<close>

text \<open>The report of a run in which every text was another one.\<close>

definition relabel_record :: "(string \<Rightarrow> string) \<Rightarrow> metric_record \<Rightarrow> metric_record" where
  "relabel_record f r = r\<lparr>test_id := f (test_id r), title := f (title r), rfc_clause := f (rfc_clause r),
     intensity_label := f (intensity_label r), record_narrative := f (record_narrative r)\<rparr>"

definition relabel_entry :: "(string \<Rightarrow> string) \<Rightarrow> integrity_entry \<Rightarrow> integrity_entry" where
  "relabel_entry f e = e\<lparr>entry_test_id := f (entry_test_id e),
     entry_intensity_label := f (entry_intensity_label e), entry_narrative := f (entry_narrative e)\<rparr>"

definition relabel_curve :: "(string \<Rightarrow> string) \<Rightarrow> resilience_curve \<Rightarrow> resilience_curve" where
  "relabel_curve f c = c\<lparr>impairment_id := f (impairment_id c), curve_title := f (curve_title c)\<rparr>"

definition relabel_section :: "(string \<Rightarrow> string) \<Rightarrow> section_score \<Rightarrow> section_score" where
  "relabel_section f s = s\<lparr>section_letter := f (section_letter s)\<rparr>"

definition relabel_card :: "(string \<Rightarrow> string) \<Rightarrow> scorecard \<Rightarrow> scorecard" where
  "relabel_card f sc = sc\<lparr>card_implementation := f (card_implementation sc),
     card_sections := map (relabel_section f) (card_sections sc),
     must_failure_ids := map f (must_failure_ids sc),
     card_curves := map (relabel_curve f) (card_curves sc),
     integrity_violations := map (relabel_entry f) (integrity_violations sc),
     capability_supported := map (\<lambda>(name, yes). (f name, yes)) (capability_supported sc),
     card_records := map (relabel_record f) (card_records sc)\<rparr>"

lemma svg_markup: "markup (render_resilience_svg (relabel_curve f c)) = markup (render_resilience_svg c)"
  by (simp only: render_resilience_svg_def relabel_curve_def resilience_curve.simps Let_def case_prod_beta
      markup_append markup_escape) simp

lemma row_markup:
  "markup (render_section_row (relabel_section f s)) = markup (render_section_row s)"
  "markup (render_curve (relabel_curve f c)) = markup (render_curve c)"
  "markup (render_integrity_row (relabel_entry f e)) = markup (render_integrity_row e)"
  "markup (render_capability_row ((\<lambda>(name, yes). (f name, yes)) k)) = markup (render_capability_row k)"
  by (simp_all only: render_section_row_def render_curve_def render_integrity_row_def render_capability_row_def
      svg_markup markup_append markup_escape)
    (simp_all add: relabel_section_def relabel_curve_def relabel_entry_def split_beta)

lemma relabel_record_fields:
  "record_outcome (relabel_record f r) = record_outcome r" "record_severity (relabel_record f r) = record_severity r"
  "record_seed (relabel_record f r) = record_seed r" "counter_or_dash (relabel_record f r) name = counter_or_dash r name"
  "intensity_label (relabel_record f r) = f (intensity_label r)"
  by (simp_all add: relabel_record_def counter_or_dash_def)

lemma appendix_row_markup:
  "(f (intensity_label r) = [] \<longleftrightarrow> intensity_label r = []) \<Longrightarrow>
     markup (render_appendix_row (relabel_record f r)) = markup (render_appendix_row r)"
  by (simp only: render_appendix_row_def markup_append markup_escape relabel_record_fields if_distrib [of markup]
      markup_Nil)

lemma relabel_card_fields:
  "card_sections (relabel_card f sc) = map (relabel_section f) (card_sections sc)"
  "must_failure_ids (relabel_card f sc) = map f (must_failure_ids sc)"
  "card_curves (relabel_card f sc) = map (relabel_curve f) (card_curves sc)"
  "integrity_violations (relabel_card f sc) = map (relabel_entry f) (integrity_violations sc)"
  "capability_supported (relabel_card f sc) = map (\<lambda>(name, yes). (f name, yes)) (capability_supported sc)"
  "card_records (relabel_card f sc) = map (relabel_record f) (card_records sc)"
  by (simp_all add: relabel_card_def)

lemma failure_rows_markup:
  "markup (concat (map (\<lambda>i. ''<li class=\"mono\">'' @ html_escape i @ ''</li>'') (map f is))) =
     markup (concat (map (\<lambda>i. ''<li class=\"mono\">'' @ html_escape i @ ''</li>'') is))"
  by (rule markup_rows) (simp only: markup_append markup_escape)

lemma part_markup:
  "render_tiles (relabel_card f sc) = render_tiles sc"
  "markup (render_must_failures (relabel_card f sc)) = markup (render_must_failures sc)"
  "markup (render_section_table (relabel_card f sc)) = markup (render_section_table sc)"
  "markup (render_capability_matrix (relabel_card f sc)) = markup (render_capability_matrix sc)"
  "markup (render_curves (relabel_card f sc)) = markup (render_curves sc)"
  "markup (render_integrity_ledger (relabel_card f sc)) = markup (render_integrity_ledger sc)"
proof -
  note rows = markup_rows [of render_section_row "relabel_section f", OF row_markup(1)]
    markup_rows [of render_curve "relabel_curve f", OF row_markup(2)]
    markup_rows [of render_integrity_row "relabel_entry f", OF row_markup(3)]
    markup_rows [of render_capability_row "\<lambda>(name, yes). (f name, yes)", OF row_markup(4)]
    failure_rows_markup [of f]
  show "render_tiles (relabel_card f sc) = render_tiles sc"
    by (simp add: render_tiles_def relabel_card_def)
  show "markup (render_must_failures (relabel_card f sc)) = markup (render_must_failures sc)"
    "markup (render_section_table (relabel_card f sc)) = markup (render_section_table sc)"
    "markup (render_capability_matrix (relabel_card f sc)) = markup (render_capability_matrix sc)"
    "markup (render_curves (relabel_card f sc)) = markup (render_curves sc)"
    "markup (render_integrity_ledger (relabel_card f sc)) = markup (render_integrity_ledger sc)"
    by (simp_all only: render_must_failures_def render_section_table_def render_capability_matrix_def
        render_curves_def render_integrity_ledger_def relabel_card_fields rows markup_append length_map
        map_is_Nil_conv if_distrib [of markup])
qed

text \<open>
  C39. No text can change the structure of a report. Names, titles, narratives (which quote the error
  messages the implementations under test received or made up) and labels appear in the page only
  escaped: whatever they are, the characters that make markup are the same in the same order, so no
  text opens a tag, closes one or ends an attribute; and the escaping loses nothing.
\<close>
theorem report_text_is_inert:
  assumes "\<And>s. f s = [] \<longleftrightarrow> s = []"
  shows "markup (render_single_report (relabel_card f sc)) = markup (render_single_report sc) \<and>
    markup (html_escape s) = [] \<and> html_unescape (html_escape s) = s"
proof -
  have "markup (render_appendix (relabel_card f sc)) = markup (render_appendix sc)"
    unfolding render_appendix_def relabel_card_fields markup_append
    using markup_rows [of render_appendix_row "relabel_record f"] appendix_row_markup assms by blast
  then have "markup (render_single_report (relabel_card f sc)) = markup (render_single_report sc)"
    by (simp only: render_single_report_def page_open_def markup_append markup_escape part_markup)
  then show ?thesis by (simp add: html_unescape_escape)
qed

theorem report_text_is_inert_witness:
  "markup (render_single_report (relabel_card (\<lambda>s. if s = [] then [] else ''\"><script>'') (analyze sample_store))) =
     markup (render_single_report (analyze sample_store))"
  using report_text_is_inert [of "\<lambda>s. if s = [] then [] else ''\"><script>''" "analyze sample_store"]
  by simp

end
