(* ===== verification/Comparison_Report.thy ===== *)
theory Comparison_Report
  imports Html_Report
begin

text \<open>
  \<open>src/src/report/comparison_report.{hpp,cpp}\<close>: two scorecards side by side. The maps from record keys
  to records are lists in key order, where a later record of the same key replaces an earlier one.
  \<open>std::sort\<close> by test id is a stable sort here, which is one of the orders it may leave equal ids in.
\<close>

section \<open>Axes\<close>

definition record_key :: "metric_record \<Rightarrow> string" where
  "record_key r = test_id r @ ''|'' @ intensity_label r"

datatype advantage = AdvantageA | AdvantageB | Tie

record axis_row =
  axis_name :: string
  axis_value_a :: string
  axis_value_b :: string
  axis_winner :: advantage
  axis_note :: string

definition winner_of :: "double \<Rightarrow> double \<Rightarrow> bool \<Rightarrow> advantage" where
  "winner_of a b higher_better =
     (if \<bar>dbl_sub a b\<bar> < rnd (1 / 1000000000) then Tie
      else if (if higher_better then a > b else a < b) then AdvantageA else AdvantageB)"

definition count_winner :: "nat \<Rightarrow> nat \<Rightarrow> advantage" where
  "count_winner a b = winner_of (dbl_of_int (int a)) (dbl_of_int (int b)) False"

definition axis_rows :: "scorecard \<Rightarrow> scorecard \<Rightarrow> axis_row list" where
  "axis_rows a b =
     (let row = (\<lambda>name va vb winner note. \<lparr>axis_name = name, axis_value_a = va, axis_value_b = vb,
            axis_winner = winner, axis_note = note\<rparr>);
          musts = (\<lambda>s. length (must_failure_ids s));
          violations = (\<lambda>s. length (integrity_violations s));
          rate = (\<lambda>s. format_double (dbl_mul (graceful_degradation_rate s) 100) 0 @ ''%'')
      in [row ''Conformance score'' (format_double (conformance_score a) 1) (format_double (conformance_score b) 1)
            (winner_of (conformance_score a) (conformance_score b) True) ''weighted over A-E, G'',
          row ''MUST-level (CRITICAL) failures'' (to_string (musts a)) (to_string (musts b))
            (count_winner (musts a) (musts b)) ''fewer is better'',
          row ''Resilience index'' (format_double (resilience_index a) 3) (format_double (resilience_index b) 3)
            (winner_of (resilience_index a) (resilience_index b) True) ''mean area under F curves'',
          row ''Integrity violations'' (to_string (violations a)) (to_string (violations b))
            (count_winner (violations a) (violations b)) ''silent corruption; fewer is better'',
          row ''Graceful degradation'' (rate a) (rate b)
            (winner_of (graceful_degradation_rate a) (graceful_degradation_rate b) True)
            ''clean failures vs hangs'',
          row ''Avg throughput (B/s)'' (format_double (average_throughput a) 0) (format_double (average_throughput b) 0)
            (winner_of (average_throughput a) (average_throughput b) True) ''passing transfers''])"

definition render_axis_row :: "axis_row \<Rightarrow> string" where
  "render_axis_row row =
     (let (badge, label) = (case axis_winner row of AdvantageA \<Rightarrow> (''pass'', ''A'')
            | AdvantageB \<Rightarrow> (''pass'', ''B'') | Tie \<Rightarrow> (''skip'', ''tie''))
      in ''<tr><td>'' @ html_escape (axis_name row) @ ''</td><td>'' @ html_escape (axis_value_a row) @
         ''</td><td>'' @ html_escape (axis_value_b row) @ ''</td><td><span class=\"badge '' @ badge @
         ''\">'' @ html_escape label @ ''</span></td><td class=\"sub\">'' @ html_escape (axis_note row) @
         ''</td></tr>'')"

definition render_axis_table :: "scorecard \<Rightarrow> scorecard \<Rightarrow> string" where
  "render_axis_table a b =
     table_open @ ''<th>Axis</th><th>A</th><th>B</th><th>Advantage</th><th>Note</th></tr></thead><tbody>'' @
     concat (map render_axis_row (axis_rows a b)) @ table_close"

section \<open>Divergences\<close>

fun put_record :: "string \<Rightarrow> metric_record \<Rightarrow> (string \<times> metric_record) list \<Rightarrow> (string \<times> metric_record) list" where
  "put_record key r [] = [(key, r)]"
| "put_record key r ((k, s) # ms) =
     (if k = key then (k, r) # ms
      else if key < k then (key, r) # (k, s) # ms
      else (k, s) # put_record key r ms)"

definition records_by_key :: "metric_record list \<Rightarrow> (string \<times> metric_record) list" where
  "records_by_key rs = fold (\<lambda>r m. put_record (record_key r) r m) rs []"

record divergence =
  divergence_test :: string
  divergence_intensity :: string
  divergence_rfc :: string
  outcome_of_a :: outcome
  outcome_of_b :: outcome
  divergence_detail :: string

definition diverge :: "metric_record \<Rightarrow> metric_record \<Rightarrow> bool" where
  "diverge ra rb \<longleftrightarrow>
     record_outcome ra \<noteq> record_outcome rb \<or> integrity_violation ra \<noteq> integrity_violation rb"

definition divergence_of :: "metric_record \<Rightarrow> metric_record \<Rightarrow> divergence" where
  "divergence_of ra rb =
     \<lparr>divergence_test = test_id ra, divergence_intensity = intensity_label ra, divergence_rfc = rfc_clause ra,
      outcome_of_a = record_outcome ra, outcome_of_b = record_outcome rb,
      divergence_detail = (if record_outcome ra = Fail then record_narrative ra else record_narrative rb)\<rparr>"

definition divergences :: "metric_record list \<Rightarrow> metric_record list \<Rightarrow> divergence list" where
  "divergences as bs =
     sort_key divergence_test
       (concat (map (\<lambda>(key, ra). case map_of (records_by_key bs) key of
                        None \<Rightarrow> []
                      | Some rb \<Rightarrow> if diverge ra rb then [divergence_of ra rb] else [])
          (records_by_key as)))"

fun outcome_badge :: "outcome \<Rightarrow> string" where
  "outcome_badge Pass = ''pass''"
| "outcome_badge Fail = ''fail''"
| "outcome_badge Skipped = ''skip''"

definition render_divergence :: "divergence \<Rightarrow> string" where
  "render_divergence d =
     ''<tr><td class=\"mono\">'' @ html_escape (divergence_test d) @ ''</td><td>'' @
     html_escape (divergence_intensity d) @ ''</td><td><span class=\"badge '' @
     outcome_badge (outcome_of_a d) @ ''\">'' @ outcome_name (outcome_of_a d) @
     ''</span></td><td><span class=\"badge '' @ outcome_badge (outcome_of_b d) @ ''\">'' @
     outcome_name (outcome_of_b d) @ ''</span></td><td class=\"sub\">'' @ html_escape (divergence_rfc d) @
     ''</td><td class=\"narrative\">'' @ html_escape (divergence_detail d) @ ''</td></tr>''"

definition render_divergences :: "scorecard \<Rightarrow> scorecard \<Rightarrow> string" where
  "render_divergences a b =
     (let ds = divergences (card_records a) (card_records b)
      in if ds = [] then
           ''<div class=\"callout good\">The two implementations produced identical outcomes on every '' @
           ''shared test. No divergences to attribute.</div>''
         else
           ''<p class=\"sub\">'' @ to_string (length ds) @
           '' test(s) where the two implementations diverged, each traced to its RFC clause.</p>'' @
           table_open @ ''<th>Test</th><th>Condition</th><th>A</th><th>B</th><th>RFC</th>'' @
           ''<th>Explanation</th></tr></thead><tbody>'' @
           concat (map render_divergence ds) @ table_close)"

section \<open>The verdict and the page\<close>

definition overall_verdict :: "scorecard \<Rightarrow> scorecard \<Rightarrow> string" where
  "overall_verdict a b =
     (let name = (\<lambda>s. html_escape (card_implementation s));
          violations = (\<lambda>s. length (integrity_violations s));
          musts = (\<lambda>s. length (must_failure_ids s))
      in if violations a \<noteq> violations b then
           ''On the most damning axis '' @ em_dash @ '' data integrity '' @ em_dash @ '' '' @
           name (if violations a < violations b then a else b) @
           '' is superior (fewer transfers reported success while delivering corrupted bytes).''
         else if musts a \<noteq> musts b then
           name (if musts a < musts b then a else b) @
           '' has fewer MUST-level (CRITICAL) conformance failures.''
         else if \<bar>dbl_sub (conformance_score a) (conformance_score b)\<bar> > rnd (5 / 100) then
           name (if conformance_score a > conformance_score b then a else b) @
           '' has the higher weighted conformance score.''
         else if \<bar>dbl_sub (resilience_index a) (resilience_index b)\<bar> > rnd (1 / 1000) then
           name (if resilience_index a > resilience_index b then a else b) @
           '' is more resilient to adversarial network conditions.''
         else ''The two implementations are evenly matched across the scored axes.'')"

definition render_comparison_report :: "scorecard \<Rightarrow> scorecard \<Rightarrow> string" where
  "render_comparison_report a b =
     page_open (''TFTP comparison '' @ em_dash @ '' '' @ html_escape (card_implementation a) @ '' vs '' @
       html_escape (card_implementation b)) @
     ''<h1>TFTP Implementation Comparison</h1>'' @
     ''<p class=\"sub\"><strong>A:</strong> '' @ html_escape (card_implementation a) @
     ''<br><strong>B:</strong> '' @ html_escape (card_implementation b) @ ''</p>'' @
     ''<div class=\"callout good\"><strong>Verdict.</strong> '' @ overall_verdict a b @ ''</div>'' @
     ''<h2>Scoring axes</h2>'' @ render_axis_table a b @
     ''<h2>Divergences (per test ID and RFC clause)</h2>'' @ render_divergences a b @
     ''<p class=\"foot-note\">Both implementations were run independently through the identical suite. '' @
     ''Every divergence above is attributed to a stable test ID and the RFC clause it derives from.</p>'' @
     ''</div></body></html>''"

section \<open>Swapping the two sides\<close>

lemma rnd_uminus: "rnd (- x) = - rnd x"
  by (auto simp: rnd_def)

lemma dbl_sub_swap: "dbl_sub b a = - dbl_sub a b"
  using rnd_uminus [of "a - b"] by (simp add: dbl_sub_def)

fun other_side :: "advantage \<Rightarrow> advantage" where
  "other_side AdvantageA = AdvantageB"
| "other_side AdvantageB = AdvantageA"
| "other_side Tie = Tie"

lemma rnd_same: "\<not> \<bar>dbl_sub a b\<bar> < rnd (1 / 1000000000) \<Longrightarrow> a \<noteq> b"
proof -
  have "0 < rnd (1 / 1000000000)" by code_simp
  then show "\<not> \<bar>dbl_sub a b\<bar> < rnd (1 / 1000000000) \<Longrightarrow> a \<noteq> b" by (auto simp: dbl_sub_def)
qed

lemma winner_of_swap: "winner_of b a h = other_side (winner_of a b h)"
  using rnd_same [of a b] by (auto simp: winner_of_def dbl_sub_swap [of b a])

lemma verdict_swap: "overall_verdict b a = overall_verdict a b"
proof -
  have "0 < rnd (5 / 100)" "0 < rnd (1 / 1000)" by code_simp+
  then have "\<bar>dbl_sub x y\<bar> > rnd (5 / 100) \<or> \<bar>dbl_sub x y\<bar> > rnd (1 / 1000) \<Longrightarrow> x \<noteq> y" for x y
    by (auto simp: dbl_sub_def)
  then show ?thesis
    by (auto simp: overall_verdict_def Let_def dbl_sub_swap [of "conformance_score b"]
        dbl_sub_swap [of "resilience_index b"])
qed

lemma winners_swap: "map axis_winner (axis_rows b a) = map (other_side \<circ> axis_winner) (axis_rows a b)"
proof -
  have swap: "winner_of (f b) (f a) h = other_side (winner_of (f a) (f b) h)" for f :: "scorecard \<Rightarrow> double" and h
    by (rule winner_of_swap)
  show ?thesis
    using swap [of conformance_score] swap [of resilience_index] swap [of graceful_degradation_rate]
      swap [of average_throughput] swap [of "\<lambda>s. dbl_of_int (int (length (must_failure_ids s)))"]
      swap [of "\<lambda>s. dbl_of_int (int (length (integrity_violations s)))"]
    by (simp add: axis_rows_def count_winner_def Let_def)
qed

section \<open>The divergences\<close>

definition last_of :: "string \<Rightarrow> metric_record list \<Rightarrow> metric_record option" where
  "last_of key rs = List.find (\<lambda>r. record_key r = key) (rev rs)"

lemma map_of_put_record: "map_of (put_record key r m) k = (if k = key then Some r else map_of m k)"
  by (induction key r m rule: put_record.induct) auto

lemma put_record_keys: "fst ` set (put_record key r m) = insert key (fst ` set m)"
  by (induction key r m rule: put_record.induct) auto

lemma put_record_sorted: "sorted_wrt (<) (map fst m) \<Longrightarrow> sorted_wrt (<) (map fst (put_record key r m))"
proof (induction key r m rule: put_record.induct)
  case (2 key r k s ms)
  have "\<forall>x \<in> fst ` set (put_record key r ms). k < x" if "k \<noteq> key" "\<not> key < k"
    using 2(2) that unfolding put_record_keys by auto
  then show ?case using 2 by auto
qed simp

lemma records_by_key_snoc: "records_by_key (rs @ [r]) = put_record (record_key r) r (records_by_key rs)"
  by (simp add: records_by_key_def)

lemma records_by_key_map_of: "map_of (records_by_key rs) key = last_of key rs"
proof (induction rs rule: rev_induct)
  case (snoc r rs)
  then show ?case by (simp add: records_by_key_snoc map_of_put_record last_of_def)
qed (simp add: records_by_key_def last_of_def)

lemma records_by_key_distinct: "distinct (map fst (records_by_key rs))"
proof -
  have "sorted_wrt (<) (map fst (records_by_key rs))"
    by (induction rs rule: rev_induct)
      (simp_all add: records_by_key_snoc put_record_sorted, simp add: records_by_key_def)
  then show ?thesis by (simp add: strict_sorted_iff)
qed

lemma divergences_set:
  "set (divergences as bs) =
     {divergence_of ra rb | key ra rb. last_of key as = Some ra \<and> last_of key bs = Some rb \<and> diverge ra rb}"
proof (rule set_eqI)
  fix d
  have found: "(key, ra) \<in> set (records_by_key as) \<longleftrightarrow> last_of key as = Some ra" for key ra
    using map_of_eq_Some_iff [OF records_by_key_distinct] by (metis records_by_key_map_of)
  have listed: "d \<in> set (case last_of key bs of None \<Rightarrow> []
        | Some rb \<Rightarrow> if diverge ra rb then [divergence_of ra rb] else []) \<longleftrightarrow>
      (\<exists>rb. last_of key bs = Some rb \<and> diverge ra rb \<and> d = divergence_of ra rb)" for key ra
    by (cases "last_of key bs") auto
  have "d \<in> set (divergences as bs) \<longleftrightarrow>
      (\<exists>key ra. last_of key as = Some ra \<and>
         (\<exists>rb. last_of key bs = Some rb \<and> diverge ra rb \<and> d = divergence_of ra rb))"
    unfolding divergences_def set_sort set_concat set_map UN_simps records_by_key_map_of
    by (simp only: UN_iff Bex_def split_paired_Ex prod.case found listed)
  then show "d \<in> set (divergences as bs) \<longleftrightarrow> d \<in> {divergence_of ra rb | key ra rb.
      last_of key as = Some ra \<and> last_of key bs = Some rb \<and> diverge ra rb}" by blast
qed

text \<open>
  C40. A comparison is fair and complete. Swapping the two implementations gives the same verdict text,
  and on every scoring axis the advantage goes to the same implementation; the divergences listed are
  exactly the tests and conditions both stores hold whose last records differ in outcome or integrity,
  in the order of the test ids, so that an implementation never diverges from itself.
\<close>
theorem comparison_is_fair:
  "overall_verdict b a = overall_verdict a b \<and>
   map axis_winner (axis_rows b a) = map (other_side \<circ> axis_winner) (axis_rows a b) \<and>
   set (divergences as bs) =
     {divergence_of ra rb | key ra rb. last_of key as = Some ra \<and> last_of key bs = Some rb \<and> diverge ra rb} \<and>
   sorted (map divergence_test (divergences as bs)) \<and> divergences as as = []"
proof -
  have "set (divergences as as) = {}" unfolding divergences_set by (auto simp: diverge_def)
  then have "divergences as as = []" by simp
  moreover have "sorted (map divergence_test (divergences as bs))" by (simp add: divergences_def)
  ultimately show ?thesis using verdict_swap winners_swap divergences_set by simp
qed

text \<open>
  Only the last record of a key is compared: a test that makes several records under one id and label,
  as E-02 does for the window sizes 4, 16 and 64, hides a difference in any but the last of them.
\<close>

lemma earlier_record_hidden:
  "divergences [empty_metric_record\<lparr>test_id := ''E-02'', record_outcome := Fail, integrity_violation := True\<rparr>,
                empty_metric_record\<lparr>test_id := ''E-02'', record_outcome := Pass\<rparr>]
     [empty_metric_record\<lparr>test_id := ''E-02'', record_outcome := Pass\<rparr>,
      empty_metric_record\<lparr>test_id := ''E-02'', record_outcome := Pass\<rparr>] = []"
  by (simp add: divergences_def records_by_key_def record_key_def diverge_def empty_metric_record_def)

end
