(* ===== verification/Applications.thy ===== *)
theory Applications
  imports Reference_Adapters Tftpd64_Adapters Comparison_Report
begin

text \<open>
  The command-line programs: \<open>src/apps/runner_main.cpp\<close>, which runs the suite against a chosen
  implementation, \<open>report_main.cpp\<close> and \<open>compare_main.cpp\<close>, which turn stores into pages. A program is a
  function of its arguments (without its own name), the environment and the files; its result is what it
  writes to the two streams, how it ends and the files it leaves. An exception nobody catches ends it
  abnormally.
\<close>

section \<open>The runner's command line\<close>

datatype program_end = Exits int | Uncaught exn

record program_result =
  ends :: program_end
  out_text :: string
  err_text :: string
  files_left :: text_files

definition parse_personality :: "string \<Rightarrow> reference_personality" where
  "parse_personality name =
     (if name = ''buggy'' then BuggyPersonality
      else if name = ''base-only'' then OptionsUnsupported
      else CorrectPersonality)"

definition usage_text :: string where
  "usage_text =
     ''Usage: tftp_runner [--impl correct|buggy|base-only|tftpd64|'' @ newline
     @ ''                    tftpclient|tftpd64-client]'' @ newline
     @ ''                   [--out PATH] [--seed N] [--filter SUBSTR] [--huge]'' @ newline
     @ ''                   [--watchdog MS]'' @ newline
     @ newline
     @ ''  tftpd64 runs the real Win32 server under Wine and needs'' @ newline
     @ ''  TFTPD64_WINE, TFTPD64_EXE and TFTPD64_WINEPREFIX in the environment.'' @ newline
     @ ''  tftpclient runs an external CLI client and needs TFTPCLIENT_BIN.'' @ newline
     @ ''  tftpd64-client drives Tftpd64'' @ [CHR 0x27] @ ''s GUI client and additionally needs'' @ newline
     @ ''  TFTPD64_PYTHON and TFTPD64_DRIVER.'' @ newline"

text \<open>What parsing the arguments comes to: a run, or the end of the program with what it wrote.\<close>

datatype command =
    RunSuite string runner_options
  | Stop program_end string string

definition missing_value :: "string \<Rightarrow> command" where
  "missing_value name = Stop (Exits 2) [] (''missing value for '' @ name @ newline)"

fun parse_arguments :: "string list \<Rightarrow> string \<Rightarrow> runner_options \<Rightarrow> command" where
  "parse_arguments [] impl opts = RunSuite impl opts"
| "parse_arguments (arg # rest) impl opts =
     (if arg = ''--impl'' then
        (case rest of [] \<Rightarrow> missing_value arg | v # rest \<Rightarrow> parse_arguments rest v opts)
      else if arg = ''--out'' then
        (case rest of [] \<Rightarrow> missing_value arg
         | v # rest \<Rightarrow> parse_arguments rest impl (opts\<lparr>metrics_output_path := v\<rparr>))
      else if arg = ''--seed'' then
        (case rest of [] \<Rightarrow> missing_value arg
         | v # rest \<Rightarrow>
             (case stoul v of
                Inl e \<Rightarrow> Stop (Uncaught e) [] []
              | Inr seed \<Rightarrow> parse_arguments rest impl (opts\<lparr>run_base_seed := seed\<rparr>)))
      else if arg = ''--filter'' then
        (case rest of [] \<Rightarrow> missing_value arg
         | v # rest \<Rightarrow> parse_arguments rest impl (opts\<lparr>id_filter := v\<rparr>))
      else if arg = ''--watchdog'' then
        (case rest of [] \<Rightarrow> missing_value arg
         | v # rest \<Rightarrow>
             (case stoi v of
                Inl e \<Rightarrow> Stop (Uncaught e) [] []
              | Inr ms \<Rightarrow> parse_arguments rest impl (opts\<lparr>run_watchdog := ms\<rparr>)))
      else if arg = ''--huge'' then parse_arguments rest impl (opts\<lparr>include_huge_fixtures := True\<rparr>)
      else if arg = ''--help'' \<or> arg = ''-h'' then Stop (Exits 0) usage_text []
      else Stop (Exits 2) usage_text (''unknown argument: '' @ arg @ newline))"

section \<open>The implementation under test\<close>

text \<open>What \<open>run_suite\<close> sees of the two adapters: their names and their capabilities.\<close>

record adapter_pair =
  pair_client_name :: string
  pair_server_name :: string
  pair_client_supports :: "string \<Rightarrow> bool"
  pair_server_supports :: "string \<Rightarrow> bool"

definition reference_pair :: "reference_personality \<Rightarrow> adapter_pair" where
  "reference_pair p = \<lparr>pair_client_name = client_adapter_name p, pair_server_name = server_adapter_name p,
     pair_client_supports = client_adapter_supports p, pair_server_supports = server_adapter_supports p\<rparr>"

text \<open>One side is the implementation under test, the other the reference; a failed configuration throws.\<close>

definition choose_adapters :: "env_vars \<Rightarrow> string \<Rightarrow> string + adapter_pair" where
  "choose_adapters env impl =
     (let external_server = (impl = ''tftpd64'');
          external_client = (impl = ''tftpclient'' \<or> impl = ''tftpd64-client'');
          personality = (if external_server \<or> external_client then CorrectPersonality else parse_personality impl);
          reference = reference_pair personality
      in if external_server then
           (case config_from_environment env of
              Inl what \<Rightarrow> Inl what
            | Inr c \<Rightarrow> Inr (reference\<lparr>pair_server_name := tftpd64_server_name,
                         pair_server_supports := tftpd64_server_supports c\<rparr>))
         else if impl = ''tftpclient'' then
           (case tftpclient_from_environment env of
              Inl what \<Rightarrow> Inl what
            | Inr binary \<Rightarrow> Inr (reference\<lparr>pair_client_name := cli_name (tftpclient env binary),
                              pair_client_supports := cli_supports (tftpclient env binary)\<rparr>))
         else if impl = ''tftpd64-client'' then
           (case gui_from_environment env of
              Inl what \<Rightarrow> Inl what
            | Inr c \<Rightarrow> Inr (reference\<lparr>pair_client_name := gui_client_name, pair_client_supports := gui_supports\<rparr>))
         else Inr reference)"

definition pair_world :: "adapter_pair \<Rightarrow> suite_world \<Rightarrow> suite_world" where
  "pair_world p w = w\<lparr>client_name := pair_client_name p, server_name := pair_server_name p,
     client_supports := pair_client_supports p, server_supports := pair_server_supports p\<rparr>"

definition progress_line :: "string \<times> nat \<times> nat \<times> string \<Rightarrow> string" where
  "progress_line call =
     (case call of (test, index, count, worst) \<Rightarrow>
        ''['' @ to_string index @ ''/'' @ to_string count @ ''] '' @ test @ '' -> '' @ worst @ newline)"

definition summary_text :: "run_summary \<Rightarrow> string" where
  "summary_text m =
     newline @ ''=== Summary ==='' @ newline
     @ ''records:  '' @ to_string (summary_total m) @ newline
     @ ''passed:   '' @ to_string (summary_passed m) @ newline
     @ ''failed:   '' @ to_string (summary_failed m) @ newline
     @ ''skipped:  '' @ to_string (summary_skipped m) @ newline
     @ ''integrity violations: '' @ to_string (summary_integrity_violations m) @ newline
     @ ''ungraceful failures:  '' @ to_string (summary_ungraceful_failures m) @ newline"

definition runner_main :: "env_vars \<Rightarrow> suite_world \<Rightarrow> string list \<Rightarrow> program_result" where
  "runner_main env w args =
     (case parse_arguments args ''correct'' default_runner_options of
        Stop how out err \<Rightarrow> \<lparr>ends = how, out_text = out, err_text = err, files_left = store_files w\<rparr>
      | RunSuite impl opts \<Rightarrow>
          (case choose_adapters env impl of
             Inl what \<Rightarrow> \<lparr>ends = Exits 2, out_text = [], err_text = what @ newline, files_left = store_files w\<rparr>
           | Inr p \<Rightarrow>
               let s = run_suite (pair_world p w) opts
               in \<lparr>ends = Exits 0,
                   out_text = ''Running suite against: '' @ pair_client_name p @ '' / '' @ pair_server_name p @ newline
                     @ ''Metrics output: '' @ metrics_output_path opts @ newline @ newline
                     @ concat (map progress_line (progress_calls s)) @ summary_text (summary s),
                   err_text = [], files_left = run_files s\<rparr>))"

section \<open>The report programs\<close>

definition fails_with :: "text_files \<Rightarrow> int \<Rightarrow> string \<Rightarrow> program_result" where
  "fails_with files code message =
     \<lparr>ends = Exits code, out_text = [], err_text = message @ newline, files_left = files\<rparr>"

definition report_main :: "text_files \<Rightarrow> string list \<Rightarrow> program_result" where
  "report_main files args =
     (case args of
        [metrics, page] \<Rightarrow>
          (case store_load files metrics empty_store of
             (False, store) \<Rightarrow> fails_with files 1 (''could not read metrics store: '' @ metrics)
           | (True, store) \<Rightarrow>
               let sc = analyze store;
                   (files, written) = write_text_file files page (render_single_report sc)
               in if \<not> written then fails_with files 1 (''could not write report: '' @ page)
                  else \<lparr>ends = Exits 0,
                    out_text = ''Report written to '' @ page @ '' ('' @ to_string (length (store_records store))
                      @ '' records; conformance '' @ format_g6 (conformance_score sc)
                      @ '', resilience '' @ format_g6 (resilience_index sc)
                      @ '', integrity violations '' @ to_string (length (integrity_violations sc)) @ '')'' @ newline,
                    err_text = [], files_left = files\<rparr>)
      | _ \<Rightarrow> fails_with files 2 ''Usage: tftp_report <metrics.json> <report.html>'')"

definition side_line :: "string \<Rightarrow> scorecard \<Rightarrow> string" where
  "side_line side sc = ''  '' @ side @ '': '' @ card_implementation sc @ '' (conformance ''
     @ format_g6 (conformance_score sc) @ '', integrity '' @ to_string (length (integrity_violations sc)) @ '')'' @ newline"

definition compare_main :: "text_files \<Rightarrow> string list \<Rightarrow> program_result" where
  "compare_main files args =
     (case args of
        [path_a, path_b, page] \<Rightarrow>
          (case store_load files path_a empty_store of
             (False, store) \<Rightarrow> fails_with files 1 (''could not read metrics store A: '' @ path_a)
           | (True, store_a) \<Rightarrow>
               (case store_load files path_b empty_store of
                  (False, store) \<Rightarrow> fails_with files 1 (''could not read metrics store B: '' @ path_b)
                | (True, store_b) \<Rightarrow>
                    let a = analyze store_a; b = analyze store_b;
                        (files, written) = write_text_file files page (render_comparison_report a b)
                    in if \<not> written then fails_with files 1 (''could not write comparison: '' @ page)
                       else \<lparr>ends = Exits 0,
                         out_text = ''Comparison written to '' @ page @ newline @ side_line ''A'' a @ side_line ''B'' b,
                         err_text = [], files_left = files\<rparr>))
      | _ \<Rightarrow> fails_with files 2 ''Usage: tftp_compare <a.json> <b.json> <comparison.html>'')"

section \<open>Which tests an implementation is given\<close>

lemma capabilities_differ:
  "rrq \<noteq> wrq" "net_ascii \<noteq> rrq" "net_ascii \<noteq> wrq" "net_ascii \<noteq> opt" "net_ascii \<noteq> blk" "net_ascii \<noteq> tmo"
  "net_ascii \<noteq> tsz" "net_ascii \<noteq> win" "opt \<noteq> rrq" "opt \<noteq> wrq" "opt \<noteq> net_ascii"
  "win \<noteq> rrq" "win \<noteq> wrq" "win \<noteq> net_ascii" "win \<noteq> opt" "win \<noteq> blk" "win \<noteq> tmo" "win \<noteq> tsz"
  "tmo \<noteq> rrq" "tmo \<noteq> wrq" "tmo \<noteq> net_ascii" "tmo \<noteq> opt" "tmo \<noteq> blk" "tmo \<noteq> tsz" "tmo \<noteq> win"
  by (simp_all add: rrq_def wrq_def net_ascii_def opt_def blk_def tmo_def tsz_def win_def)

text \<open>The capability a test is skipped for, from the name of the implementation and the test's id.\<close>

definition skipped_for :: "string \<Rightarrow> string \<Rightarrow> string option" where
  "skipped_for impl test =
     (if impl = ''base-only'' then (if hd test \<in> set ''BCDE'' then Some opt else None)
      else if impl = ''tftpd64'' then (if hd test = CHR ''E'' then Some win else None)
      else if impl = ''tftpclient'' then (if test \<in> {''A-08'', ''A-09''} then Some net_ascii else None)
      else if impl = ''tftpd64-client'' then
        (if hd test = CHR ''E'' then Some win else if test = ''D-01'' then Some tmo
         else if test \<in> {''A-08'', ''A-09''} then Some net_ascii else None)
      else None)"

text \<open>What the two sides of a pair support together.\<close>

definition supported_by :: "string \<Rightarrow> string set" where
  "supported_by impl =
     (if impl = ''base-only'' then {rrq, wrq, net_ascii}
      else if impl = ''tftpd64'' then {rrq, wrq, net_ascii, opt, blk, tmo, tsz}
      else if impl = ''tftpclient'' then {rrq, wrq, opt, blk, tmo, tsz, win}
      else if impl = ''tftpd64-client'' then {rrq, wrq, opt, blk, tsz}
      else {rrq, wrq, net_ascii, opt, blk, tmo, tsz, win})"

lemma suite_skips_server:
  "list_all (\<lambda>(t, body). List.find (\<lambda>cap. cap \<notin> {rrq, wrq, net_ascii, opt, blk, tmo, tsz}) (required_capabilities t) =
     (if hd (info_id t) = CHR ''E'' then Some win else None)) build_test_registry"
  by (simp add: suite capabilities_differ)

lemma suite_skips_cli:
  "list_all (\<lambda>(t, body). List.find (\<lambda>cap. cap \<notin> {rrq, wrq, opt, blk, tmo, tsz, win}) (required_capabilities t) =
     (if info_id t \<in> {''A-08'', ''A-09''} then Some net_ascii else None)) build_test_registry"
  by (simp add: suite capabilities_differ)

lemma suite_skips_gui:
  "list_all (\<lambda>(t, body). List.find (\<lambda>cap. cap \<notin> {rrq, wrq, opt, blk, tsz}) (required_capabilities t) =
     (if hd (info_id t) = CHR ''E'' then Some win else if info_id t = ''D-01'' then Some tmo
      else if info_id t \<in> {''A-08'', ''A-09''} then Some net_ascii else None)) build_test_registry"
  by (simp add: suite capabilities_differ)

lemma suite_skips_base:
  "list_all (\<lambda>(t, body). List.find (\<lambda>cap. cap \<notin> {rrq, wrq, net_ascii}) (required_capabilities t) =
     (if hd (info_id t) \<in> set ''BCDE'' then Some opt else None)) build_test_registry"
  by (simp add: suite capabilities_differ)

lemma suite_skips_none:
  "list_all (\<lambda>(t, body). List.find (\<lambda>cap. cap \<notin> {rrq, wrq, net_ascii, opt, blk, tmo, tsz, win})
     (required_capabilities t) = None) build_test_registry"
  by (simp add: suite)

lemma supported_by_names:
  "supported_by ''base-only'' = {rrq, wrq, net_ascii}"
  "supported_by ''tftpd64'' = {rrq, wrq, net_ascii, opt, blk, tmo, tsz}"
  "supported_by ''tftpclient'' = {rrq, wrq, opt, blk, tmo, tsz, win}"
  "supported_by ''tftpd64-client'' = {rrq, wrq, opt, blk, tsz}"
  "impl \<notin> {''base-only'', ''tftpd64'', ''tftpclient'', ''tftpd64-client''} \<Longrightarrow>
     supported_by impl = {rrq, wrq, net_ascii, opt, blk, tmo, tsz, win}"
  by (simp_all add: supported_by_def)

lemma skipped_for_names:
  "skipped_for ''base-only'' test = (if hd test \<in> set ''BCDE'' then Some opt else None)"
  "skipped_for ''tftpd64'' test = (if hd test = CHR ''E'' then Some win else None)"
  "skipped_for ''tftpclient'' test = (if test \<in> {''A-08'', ''A-09''} then Some net_ascii else None)"
  "skipped_for ''tftpd64-client'' test =
     (if hd test = CHR ''E'' then Some win else if test = ''D-01'' then Some tmo
      else if test \<in> {''A-08'', ''A-09''} then Some net_ascii else None)"
  "impl \<notin> {''base-only'', ''tftpd64'', ''tftpclient'', ''tftpd64-client''} \<Longrightarrow> skipped_for impl test = None"
  by (simp_all add: skipped_for_def)

lemma suite_skips:
  assumes "(t, body) \<in> set build_test_registry"
  shows "List.find (\<lambda>cap. cap \<notin> supported_by impl) (required_capabilities t) = skipped_for impl (info_id t)"
proof -
  have each: "list_all (\<lambda>(t, body). Q t) build_test_registry \<Longrightarrow> Q t" for Q
    using assms by (auto simp: list_all_iff)
  consider "impl = ''base-only''" | "impl = ''tftpd64''" | "impl = ''tftpclient''" | "impl = ''tftpd64-client''"
    | "impl \<notin> {''base-only'', ''tftpd64'', ''tftpclient'', ''tftpd64-client''}" by blast
  then show ?thesis
  proof cases
    case 1
    then show ?thesis unfolding 1 supported_by_names skipped_for_names by (intro suite_skips_base [THEN each])
  next
    case 2
    then show ?thesis unfolding 2 supported_by_names skipped_for_names by (intro suite_skips_server [THEN each])
  next
    case 3
    then show ?thesis unfolding 3 supported_by_names skipped_for_names by (intro suite_skips_cli [THEN each])
  next
    case 4
    then show ?thesis unfolding 4 supported_by_names skipped_for_names by (intro suite_skips_gui [THEN each])
  next
    case 5
    show ?thesis unfolding supported_by_names(5) [OF 5] skipped_for_names(5) [OF 5]
      by (intro suite_skips_none [THEN each])
  qed
qed

text \<open>What a chosen pair supports, asked for one of the eight capabilities.\<close>

lemma correct_supports:
  "cap \<in> {rrq, wrq, net_ascii, opt, blk, tmo, tsz, win} \<Longrightarrow> config_supports (make_engine_config p) cap \<longleftrightarrow>
     p \<noteq> OptionsUnsupported \<or> cap \<in> {rrq, wrq, net_ascii}"
  using full_support [of p cap] base_support [of cap] by (cases "p = OptionsUnsupported") auto

lemma config_negotiates: "config_from_environment env = Inr c \<Longrightarrow> negotiate_options c"
  by (auto simp: config_from_environment_def default_tftpd64_config_def Let_def split: sum.splits option.splits)

lemma chosen_support:
  assumes "choose_adapters env impl = Inr p" "cap \<in> {rrq, wrq, net_ascii, opt, blk, tmo, tsz, win}"
  shows "both_support (pair_world p w) cap \<longleftrightarrow> cap \<in> supported_by impl"
proof -
  have correct: "config_supports (make_engine_config CorrectPersonality) cap"
    using correct_supports [OF assms(2), of CorrectPersonality] by simp
  consider "impl = ''tftpd64''" | "impl = ''tftpclient''" | "impl = ''tftpd64-client''"
    | "impl \<noteq> ''tftpd64''" "impl \<noteq> ''tftpclient''" "impl \<noteq> ''tftpd64-client''" by blast
  then show ?thesis
  proof cases
    case 1
    then show ?thesis
      using assms correct config_negotiates capabilities_differ
      by (auto simp: choose_adapters_def both_support_def pair_world_def reference_pair_def client_adapter_supports_def
          tftpd64_server_supports_def supported_by_def split: sum.splits)
  next
    case 2
    then show ?thesis
      using assms correct capabilities_differ
      by (auto simp: choose_adapters_def both_support_def pair_world_def reference_pair_def server_adapter_supports_def
          tftpclient_def tftpclient_supports_def supported_by_def split: sum.splits)
  next
    case 3
    then show ?thesis
      using assms correct capabilities_differ
      by (auto simp: choose_adapters_def both_support_def pair_world_def reference_pair_def server_adapter_supports_def
          gui_supports_def supported_by_def split: sum.splits)
  next
    case 4
    then have p: "p = reference_pair (parse_personality impl)" using assms(1) by (simp add: choose_adapters_def)
    have "parse_personality impl = OptionsUnsupported \<longleftrightarrow> impl = ''base-only''" by (simp add: parse_personality_def)
    then show ?thesis
      using 4 correct_supports [OF assms(2), of "parse_personality impl"] assms(2)
      by (auto simp: p both_support_def pair_world_def reference_pair_def client_adapter_supports_def
          server_adapter_supports_def supported_by_def)
  qed
qed

lemma chosen_skips:
  assumes "choose_adapters env impl = Inr p" and "(t, body) \<in> set build_test_registry"
  shows "missing_capability (pair_world p w) t =
    List.find (\<lambda>cap. cap \<notin> supported_by impl) (required_capabilities t)"
proof -
  have "set (required_capabilities t) \<subseteq> {rrq, wrq, net_ascii, opt, blk, tmo, tsz, win}"
    using suite_requirements assms(2) by (auto simp only: list_all_iff split_beta fst_conv snd_conv)
  then show ?thesis
    unfolding missing_capability_def
    by (intro find_cong [OF refl]) (use chosen_support [OF assms(1)] in blast)
qed

text \<open>
  Every implementation the runner can be pointed at is given the tests it is meant to be given:
  with the reference at the other end exactly these are skipped, each naming the capability that is
  missing: for the base-only reference the groups B to E, for the Tftpd64 server group E, for tftpClient
  the two netascii tests, for the Tftpd64 client group E, the timeout test and the netascii tests, for
  the correct and the buggy reference, and for any name the runner does not know, none.
\<close>
lemma implementations_and_the_suite:
  assumes "choose_adapters env impl = Inr p" and "(t, body) \<in> set build_test_registry"
  shows "missing_capability (pair_world p w) t = skipped_for impl (info_id t)"
  using chosen_skips [OF assms] suite_skips [OF assms(2)] by simp

text \<open>An environment that configures tftpClient.\<close>

definition sample_env :: env_vars where
  "sample_env = [''TFTPCLIENT_BIN'' \<mapsto> ''/opt/tftp'']"

definition sample_pair :: adapter_pair where
  "sample_pair = (reference_pair CorrectPersonality)\<lparr>pair_client_name := ''tftpClient'',
     pair_client_supports := tftpclient_supports\<rparr>"

lemma sample_chosen: "choose_adapters sample_env ''tftpclient'' = Inr sample_pair"
  by (simp add: choose_adapters_def tftpclient_from_environment_def sample_env_def sample_pair_def
      tftpclient_def Let_def)

lemma implementations_and_the_suite_witness:
  "\<exists>t body. (t, body) \<in> set build_test_registry \<and> info_id t = ''A-08'' \<and>
     missing_capability (pair_world sample_pair idle_world) t = Some net_ascii"
proof -
  have "''A-08'' \<in> set suite_ids" by (simp add: suite_ids_def)
  then obtain t body where t: "(t, body) \<in> set build_test_registry" "info_id t = ''A-08''"
    using registry_has by blast
  then show ?thesis
    using implementations_and_the_suite [OF sample_chosen t(1), of idle_world] by (auto simp: skipped_for_def)
qed

text \<open>
  A name the runner does not know is taken for the correct reference: a misspelt name is evaluated, and
  reported, as the reference.
\<close>

lemma unknown_implementation_is_correct:
  assumes "impl \<notin> {''buggy'', ''base-only'', ''tftpd64'', ''tftpclient'', ''tftpd64-client''}"
  shows "choose_adapters env impl = Inr (reference_pair CorrectPersonality)"
  using assms by (simp add: choose_adapters_def parse_personality_def)

text \<open>A seed or a watchdog that is no number ends the program by an exception nobody catches.\<close>

lemma seed_not_a_number:
  "stoul v = Inl e \<Longrightarrow> parse_arguments (''--seed'' # v # rest) impl opts = Stop (Uncaught e) [] []"
  "stoi v = Inl e \<Longrightarrow> parse_arguments (''--watchdog'' # v # rest) impl opts = Stop (Uncaught e) [] []"
  by simp_all

section \<open>A run and the report made from its file\<close>

text \<open>A scorecard agrees with the summary of a run.\<close>

definition tells_run :: "scorecard \<Rightarrow> run_summary \<Rightarrow> bool" where
  "tells_run sc m \<longleftrightarrow> total_passed sc = summary_passed m \<and> total_failed sc = summary_failed m \<and>
     total_skipped sc = summary_skipped m \<and>
     length (integrity_violations sc) = summary_integrity_violations m \<and>
     ungraceful_failures sc = summary_ungraceful_failures m \<and>
     clean_failures sc = summary_failed m - summary_ungraceful_failures m"

lemma tells_run_records:
  assumes "\<forall>r \<in> set rs. consistent_record r" and "store_records store = rs"
  shows "tells_run (analyze store) (fold count_record rs empty_summary)"
proof -
  have fails: "filter (\<lambda>r. record_outcome r = Fail \<and> ungraceful_failure r) rs = filter ungraceful_failure rs"
    using assms(1) by (intro filter_cong) (auto simp: consistent_record_def)
  have split: "length (filter (\<lambda>r. record_outcome r = Fail) xs) =
      length (filter (\<lambda>r. record_outcome r = Fail \<and> \<not> ungraceful_failure r) xs) +
      length (filter (\<lambda>r. record_outcome r = Fail \<and> ungraceful_failure r) xs)" for xs
    by (induction xs) auto
  have violations: "length (integrity_violations (analyze store)) = length (filter integrity_violation rs)"
    using arg_cong [OF analyze_counts(6), of length store] assms(2) by simp
  show ?thesis
    using split [of rs] by (simp add: tells_run_def analyze_counts(1-5) violations tally fails assms(2))
qed

lemma analyze_name: "card_implementation (analyze store) = store_implementation store"
proof -
  have "card_implementation (count_outcome r sc) = card_implementation sc"
    "card_implementation (note_must_failure r sc) = card_implementation sc"
    "card_implementation (note_integrity r sc) = card_implementation sc"
    "card_implementation (note_failure_kind r sc) = card_implementation sc"
    "card_implementation (note_efficiency r sc) = card_implementation sc" for r sc
    by (simp_all add: count_outcome_def note_must_failure_def note_integrity_def note_failure_kind_def
        note_efficiency_def Let_def split: outcome.split)
  then have step: "card_implementation (the_card (analyze_record r s)) = card_implementation (the_card s)" for r s
    by (simp add: analyze_record_def)
  have "card_implementation (the_card (fold analyze_record rs s)) = card_implementation (the_card s)" for rs s
    by (induction rs arbitrary: s) (simp_all add: step)
  then show ?thesis by (simp add: analyze_def Let_def case_prod_beta empty_card_def)
qed

lemma same_but_numbers_facts:
  assumes "same_but_numbers r r'"
  shows "record_outcome r' = record_outcome r" "integrity_violation r' = integrity_violation r"
    "ungraceful_failure r' = ungraceful_failure r" "test_id r' = test_id r"
    "record_severity r' = record_severity r" "title r' = title r" "rfc_clause r' = rfc_clause r"
    "record_narrative r' = record_narrative r" "intensity_label r' = intensity_label r"
proof -
  have "r' = r\<lparr>intensity := intensity r', record_seed := record_seed r', counters := counters r'\<rparr>"
    using assms by (simp add: same_but_numbers_def)
  then obtain i sd cs where "r' = r\<lparr>intensity := i, record_seed := sd, counters := cs\<rparr>" by blast
  then show "record_outcome r' = record_outcome r" "integrity_violation r' = integrity_violation r"
    "ungraceful_failure r' = ungraceful_failure r" "test_id r' = test_id r"
    "record_severity r' = record_severity r" "title r' = title r" "rfc_clause r' = rfc_clause r"
    "record_narrative r' = record_narrative r" "intensity_label r' = intensity_label r" by simp_all
qed

lemma reloaded_counted:
  assumes "\<forall>r \<in> set rs. storable_record r"
  shows "fold count_record (map reloaded rs) empty_summary = fold count_record rs empty_summary"
proof -
  have "count_record (reloaded r) m = count_record r m" if "r \<in> set rs" for r m
    using same_but_numbers_facts(1-3) [OF reloaded_same_but_numbers] assms that
    by (simp add: count_record_def)
  then show ?thesis unfolding fold_map by (intro fold_cong) auto
qed

text \<open>
  C37. The report tells the story of the run. When the runner has run the suite and written its store,
  the report program, started on that file, succeeds and writes the page of a scorecard that has the
  implementation's name, the passed, failed and skipped counts of the runner's own summary, as many
  integrity violations and ungraceful failures, and the run's MUST-level failures; whatever the
  adapters, the network and the machine did, if the measured numbers can be written as numbers.
\<close>
theorem report_tells_the_run:
  assumes "parse_arguments args ''correct'' default_runner_options = RunSuite impl opts"
    and "choose_adapters env impl = Inr p"
    and "can_write (store_files w) (metrics_output_path opts)" and "can_write (store_files w) page"
    and "rs = suite_records (pair_world p w) opts build_test_registry"
    and "\<forall>r \<in> set rs. storable_record r"
  shows "let ran = runner_main env w args;
             reported = report_main (files_left ran) [metrics_output_path opts, page];
             m = summary (run_suite (pair_world p w) opts)
         in ends ran = Exits 0 \<and> ends reported = Exits 0 \<and>
            (\<exists>sc. text_of (files_left reported) page = Some (render_single_report sc) \<and> tells_run sc m \<and>
               card_implementation sc = pair_client_name p @ '' / '' @ pair_server_name p \<and>
               must_failure_ids sc =
                 map must_failure_id (filter (\<lambda>r. record_outcome r = Fail \<and> record_severity r = Critical) rs))"
proof -
  let ?w = "pair_world p w"
  let ?s = "run_suite ?w opts"
  have ran: "ends (runner_main env w args) = Exits 0" "files_left (runner_main env w args) = run_files ?s"
    by (simp_all add: runner_main_def assms(1,2) Let_def)
  have files: "store_files ?w = store_files w" by (simp add: pair_world_def)
  have disk: "text_of (run_files ?s) (metrics_output_path opts) = Some (store_text (run_implementation ?w) rs)"
    "can_write (run_files ?s) page"
    using assms(3,4) by (simp_all add: run_suite_def run_tests_recorded files assms(5))
  define store where "store = empty_store\<lparr>store_path := metrics_output_path opts,
     store_implementation := run_implementation ?w, store_records := map reloaded rs\<rparr>"
  have loaded: "store_load (run_files ?s) (metrics_output_path opts) empty_store = (True, store)"
    unfolding store_def by (rule load_whole_store [OF assms(6) disk(1)])
  have reported: "ends (report_main (run_files ?s) [metrics_output_path opts, page]) = Exits 0"
    "text_of (files_left (report_main (run_files ?s) [metrics_output_path opts, page])) page =
       Some (render_single_report (analyze store))"
    by (simp_all add: report_main_def loaded write_text_file_def disk(2) Let_def)
  have same: "\<forall>r \<in> set rs. same_but_numbers r (reloaded r)" using assms(6) reloaded_same_but_numbers by blast
  have "\<forall>r \<in> set (map reloaded rs). consistent_record r"
    using same_but_numbers_facts(1-3) same suite_records_consistent [of _ ?w opts]
    by (auto simp: assms(5) consistent_record_def)
  then have "tells_run (analyze store) (fold count_record (map reloaded rs) empty_summary)"
    by (rule tells_run_records) (simp add: store_def)
  then have counts: "tells_run (analyze store) (summary ?s)"
    unfolding reloaded_counted [OF assms(6)] by (simp add: run_suite_def run_tests_recorded(2) assms(5))
  have name: "card_implementation (analyze store) = pair_client_name p @ '' / '' @ pair_server_name p"
    by (simp add: analyze_name store_def run_implementation_def pair_world_def)
  have musts: "must_failure_ids (analyze store) =
      map must_failure_id (filter (\<lambda>r. record_outcome r = Fail \<and> record_severity r = Critical) rs)"
  proof -
    have "filter (\<lambda>r. record_outcome (reloaded r) = Fail \<and> record_severity (reloaded r) = Critical) rs =
        filter (\<lambda>r. record_outcome r = Fail \<and> record_severity r = Critical) rs"
      using same by (intro filter_cong) (auto simp: same_but_numbers_facts)
    moreover have "must_failure_id (reloaded r) = must_failure_id r" if "r \<in> set rs" for r
      using same_but_numbers_facts(4,9) [of r "reloaded r"] same that by (simp add: must_failure_id_def)
    ultimately show ?thesis by (simp add: analyze_counts(7) store_def filter_map o_def)
  qed
  show ?thesis using ran reported counts name musts by (auto simp: Let_def)
qed

text \<open>A run of the one test A-08 with tftpClient, which is skipped.\<close>

definition sample_args :: "string list" where
  "sample_args = [''--impl'', ''tftpclient'', ''--filter'', ''A-08'']"

definition sample_options :: runner_options where
  "sample_options = default_runner_options\<lparr>id_filter := ''A-08''\<rparr>"

lemma sample_parsed: "parse_arguments sample_args ''correct'' default_runner_options = RunSuite ''tftpclient'' sample_options"
  by (simp add: sample_args_def sample_options_def)

lemma sample_ids: "list_all (\<lambda>s. contains_text ''A-08'' s \<longrightarrow> s = ''A-08'') suite_ids"
  by (simp add: suite_ids_def)

lemma sample_records_storable:
  "\<forall>r \<in> set (suite_records (pair_world sample_pair idle_world) sample_options build_test_registry). storable_record r"
proof
  fix r assume "r \<in> set (suite_records (pair_world sample_pair idle_world) sample_options build_test_registry)"
  then obtain t body where t: "(t, body) \<in> set build_test_registry" "selected sample_options t"
    "r \<in> set (test_records (pair_world sample_pair idle_world) (context_of (pair_world sample_pair idle_world) sample_options) (t, body))"
    by (auto simp: suite_records_def)
  have "info_id t \<in> set suite_ids" using t(1) by (force simp: set_suite_ids)
  moreover have "contains_text ''A-08'' (info_id t)" using t(2) by (simp add: selected_def sample_options_def)
  ultimately have "info_id t = ''A-08''" using sample_ids by (auto simp: list_all_iff)
  then have "missing_capability (pair_world sample_pair idle_world) t = Some net_ascii"
    using chosen_skips [OF sample_chosen t(1)] suite_skips [OF t(1), of "''tftpclient''"] by (simp add: skipped_for_def)
  then have "r = skipped_record (pair_world sample_pair idle_world) t net_ascii" using t(3) by (simp add: test_records_def)
  then show "storable_record r"
    by (simp add: storable_record_def skipped_record_def empty_metric_record_def sorted_counters_def)
qed

theorem report_tells_the_run_witness:
  "\<exists>sc. text_of (files_left (report_main (files_left (runner_main sample_env idle_world sample_args))
        [''results.tftp-metrics.json'', ''page.html''])) ''page.html'' = Some (render_single_report sc) \<and>
     card_implementation sc = ''tftpClient / reference-correct-server''"
proof -
  have out: "metrics_output_path sample_options = ''results.tftp-metrics.json''"
    by (simp add: sample_options_def default_runner_options_def)
  have "pair_client_name sample_pair @ '' / '' @ pair_server_name sample_pair = ''tftpClient / reference-correct-server''"
    by (simp add: sample_pair_def reference_pair_def server_adapter_name_def)
  then show ?thesis
    using report_tells_the_run [OF sample_parsed sample_chosen _ _ refl sample_records_storable, of "''page.html''"]
    by (auto simp: Let_def out idle_world_def)
qed

end
