(* ===== verification/Spec2Isabelle.thy ===== *)
theory Spec2Isabelle
  imports End_To_End Giving_Up Plain_Relay Applications
begin

text \<open>
  A harness that tests TFTP implementations (RFC 1350, 2347, 2348, 2349, 7440, 1123), and this
  development beside it. The C++ program has three layers. A reference engine
  (\<open>adapters/reference\<close>) is a TFTP client and server of its own. The harness proper (\<open>src/net\<close>,
  \<open>src/runner\<close>, \<open>src/fixtures\<close>, \<open>src/verify\<close>) puts a UDP proxy between a client and a server, one of
  them under test, which drops, delays, duplicates, corrupts and injects datagrams by a seeded generator
  and keeps a trace; after each transfer an observer counts what the trace shows, an oracle compares the
  files, and a test's judge makes a record. The reporting layer (\<open>src/metrics\<close>, \<open>src/report\<close>) streams the
  records into a store of JSON lines and turns stores into scorecards and HTML pages.

  \<^bold>\<open>Theories and code.\<close>
  \<^item> \<open>Prelude\<close>: machine words, bytes and characters, decimal text, \<open>std::stoul\<close>.
  \<^item> \<open>Netascii\<close>, \<open>Tftp_Packet\<close>, \<open>Prng\<close>: \<open>src/net/netascii.cpp\<close>, \<open>tftp_packet.cpp\<close>,
    \<open>deterministic_prng.hpp\<close>. A packet is the record of the code, a parse result a sum of the failure
    text and the packet.
  \<^item> \<open>Udp_Socket\<close>: \<open>endpoint.hpp\<close>, \<open>udp_socket.cpp\<close> and the engine's TID discipline. A socket is the script of what
    its receives return and the list of what it has sent.
  \<^item> \<open>Endpoint_Text\<close>, \<open>Native_Sockets\<close>: \<open>endpoint.cpp\<close>, \<open>socket_platform.cpp\<close> and \<open>udp_socket.cpp\<close> once more, with
    the text form of addresses and with socket objects that own handles of the system; its receives are
    those of the scripted socket (\<open>receive_native_is_scripted\<close>).
  \<^item> \<open>Engine_Types\<close>, \<open>Sender\<close>, \<open>Receiver\<close>, \<open>Negotiation\<close>, \<open>File_System\<close>, \<open>Reference_Client\<close>,
    \<open>Reference_Server\<close>: \<open>tftp_reference_engine.cpp\<close>, in the order of its functions: block arithmetic on 16-bit
    wire numbers and 32-bit indices, \<open>run_data_sender\<close>, \<open>run_data_receiver\<close>, options, files, the two roles.
  \<^item> \<open>Server_Threads\<close>: \<open>ReferenceServer::start\<close>, \<open>stop\<close>, its accept thread and its handler threads, as one step
    relation over the server object, the files and the handles, in every interleaving. \<open>Giving_Up\<close>: both
    roles come to an end when the peer is silent.
  \<^item> \<open>Lossy_Network\<close>, \<open>Lossless\<close>: sender and receiver joined by a network that loses, duplicates and
    reorders (an inductive step relation), and by one that does not. \<open>End_To_End\<close>: \<open>read_file\<close> and
    \<open>write_file\<close> against the server's handler, each given exactly what the other one sends.
  \<^item> \<open>Doubles\<close>, \<open>Impairments\<close>, \<open>Packet_Trace\<close>, \<open>Impairment_Proxy\<close>, \<open>Plain_Relay\<close>: IEEE doubles as
    rationals, the impairment pipeline, the trace, the relay loop, and the plain relay it refines when
    nothing is impaired.
  \<^item> \<open>Packet_Observer\<close>, \<open>Sha256\<close>, \<open>Content_Oracle\<close>: \<open>src/verify\<close>.
  \<^item> \<open>Fixtures\<close>, \<open>Transfer_Driver\<close>, \<open>Test_Cases\<close>, \<open>Test_Registry\<close>, \<open>Runner\<close>: the catalogue of files, one
    transfer end to end, the judges, the 54 tests of the suite, and \<open>run_suite\<close>.
  \<^item> \<open>Reference_Adapters\<close>: \<open>reference_adapters.cpp\<close>, the engine behind the plug-in interface.
  \<^item> \<open>Subprocess_Adapter\<close>: \<open>subprocess_client_adapter.cpp\<close> and the two clients run as child processes; the
    locale \<open>command_line\<close> is their common contract. \<open>Tftpd64_Process\<close>, \<open>Tftpd64_Adapters\<close>: \<open>adapters/tftpd64\<close>,
    a Windows server and client under Wine, over a record of the machine's processes and files.
  \<^item> \<open>Json\<close>, \<open>Json_Round_Trip\<close>, \<open>Json_Lines\<close>, \<open>Json_Numbers\<close>, \<open>Metrics_Store\<close>: \<open>src/metrics\<close>; \<open>Json_Numbers\<close>
    says which numbers survive six digits of text.
  \<^item> \<open>Report_Model\<close>, \<open>Html_Report\<close>, \<open>Comparison_Report\<close>: \<open>src/report\<close>.
  \<^item> \<open>Applications\<close>: \<open>src/apps\<close>, the three programs as functions of arguments, environment and files.

  Records and enumerations are records and datatypes with the source's fields and values, in the names
  of the source unless they clash; integers keep their width; errors are sums or options. Loops over
  sockets recurse on the script of events or on the fuel of the retransmission cap; the JSON parser has
  fuel, of which twice the length of the text is enough (\<open>parse_value_fuel\<close>); SHA-256 and the bounded
  draw are partial functions that are proved to return.

  \<^bold>\<open>What is shown.\<close> The engine: a receiver never stores anything but a prefix of what is sent, whatever
  the network does; success on either side means the whole file arrived; at most a window is in flight;
  duplicate ACKs cause no data (the Sorcerer's Apprentice); without loss a download and an upload complete,
  from the request to the stored file, for every mode and every set of options; both ends
  agree on the negotiated options; requests that must be refused are. Both roles give up on a silent peer.
  The server: files change only by accepted uploads, in every interleaving; a stopped server leaves no
  thread and no open socket, and \<open>stop\<close> comes to its end unless a client keeps a handler; socket objects
  never leak, share or close a handle twice. The proxy: it sends within its sessions, its trace accounts for
  every datagram, impairments do what their configuration says, and with none it is a plain relay. The
  judges: the observer's counts are the counts of the trace, the oracle's verdict is equality up to a SHA-256
  collision, a passing download means the file arrived, and a right transfer is judged right. The suite: its
  records are traceable and consistent (\<open>suite_records_traceable\<close>), its seeds differ, every implementation
  the runner can be pointed at is skipped on exactly the tests it cannot do
  (\<open>implementations_and_the_suite\<close>), the summary counts the store and the scorecard the summary. The other
  adapters: what \<open>run_subprocess\<close> reports is what the program did, within a bounded time, and a Tftpd64 server
  leaves nothing behind. The reports: the score is the weighted share it claims to be, the store survives
  truncation with every record as it was but for its numbers, which are those six digits give back, JSON is
  read back as written, the report program on the file of a run tells that run, no text becomes markup,
  comparison is symmetric.

  Lemmas also record where the code does not do what it says: seeds that the store cannot hold
  (\<open>stored_seed_ambiguous\<close>), transfers of more than 65536 blocks counted as retransmitting, sweeps that
  pass when nothing was set up (\<open>failed_setup_recorded_as_pass\<close>), a stale file judged as a new one
  (\<open>stale_download_judged_exact\<close>), capabilities reported as supported that are not
  (\<open>unsupported_capabilities_reported_supported\<close>), divergences hidden by a later record
  (\<open>earlier_record_hidden\<close>), a resilience area above one (\<open>area_above_one\<close>), an upload truncated by a
  lost OACK (\<open>lost_oack_truncates_upload\<close>), a sibling directory served (\<open>sibling_directory_served\<close>),
  overlapping uploads that overwrite although that is to be rejected (\<open>overlapping_uploads_overwrite\<close>), an
  open output that outlasts the time-out (\<open>open_output_blocks\<close>), processes of another instance killed
  (\<open>longer_marker_killed\<close>), numbers that end the program (\<open>parse_error_code_at\<close>, \<open>seed_not_a_number\<close>), and a
  misspelt implementation taken for the reference (\<open>unknown_implementation_is_correct\<close>).

  \<^bold>\<open>Not modelled.\<close> System calls (sockets, processes, clocks, directories, \<open>inet_pton\<close> and \<open>inet_ntop\<close>) are
  arguments: answers, scripts of events, environments and worlds. Threads are modelled for the server; the
  proxy's thread is the sequence of its passes and the driver's worker runs the client to its end. The
  Windows branches (Winsock, a \<open>run_subprocess\<close> that only fails) are left out. Doubles have no infinities, NaNs, subnormals or negative
  zero, which the code does not produce.
\<close>

section \<open>The transfer and its judge\<close>

text \<open>
  C33. The harness judges a right transfer as right. Let a server send a file (translated for netascii)
  over any network that loses, duplicates and reorders, let the receiver complete, and let the client
  store what it received and report success: then the content oracle, comparing the client's file with
  the server's on disk, returns \<open>Match\<close>. A mismatch is therefore always the fault of an end.
\<close>

theorem completed_download_judged_match:
  assumes "contents fs source_path = Some source" and "source_path \<noteq> dest"
    and "wire = (if mode_is_netascii md then encode_local_to_netascii source else source)"
    and "net_setup wire params engine horizon" and "net_reachable wire params engine horizon s"
    and "receiver_result s = Some (outcome, stored)" and "completed_successfully outcome"
    and "finish_download fs dest md params (outcome, stored) = (told, fs')"
    and "completed_successfully told"
  shows "\<exists>r. compare_files fs' source_path dest (mode_is_netascii md) = Some r \<and> verdict r = Match"
proof -
  have "take (block_total wire params * unat (block_size params)) wire = wire"
    using assms(4) by (intro all_blocks_payload) (auto simp: net_setup_def block_total_def unat_gt_0)
  then have got: "stored = wire"
    using net_reachable_inv [OF assms(4,5)] assms(6,7) unfolding net_inv_def by metis
  note effect = finish_download_effect [OF assms(8)]
  have files: "contents fs' source_path = Some source"
    "contents fs' dest = Some (oracle_reference source (mode_is_netascii md))"
    using effect assms(1,2,3,9) got by (auto simp: oracle_reference_def)
  obtain r where "compare_bytes source (oracle_reference source (mode_is_netascii md)) (mode_is_netascii md) = Some r"
    "verdict r = Match"
    using compare_bytes_verdict by blast
  then show ?thesis using files by (simp add: compare_files_def)
qed

theorem completed_download_judged_match_witness:
  "\<exists>told fs' r.
     finish_download (plain_file_system [''/srv/f'' \<mapsto> sample_payload]) ''/tmp/f'' ''octet'' sample_params
       (the (receiver_result sample_end)) = (told, fs') \<and>
     compare_files fs' ''/srv/f'' ''/tmp/f'' False = Some r \<and> verdict r = Match"
proof -
  let ?fs = "plain_file_system [''/srv/f'' \<mapsto> sample_payload]"
  obtain outcome stored where s: "receiver_result sample_end = Some (outcome, stored)"
    "completed_successfully outcome" using sample_end_reached(3) by blast
  obtain told fs' where f: "finish_download ?fs ''/tmp/f'' ''octet'' sample_params (outcome, stored) = (told, fs')"
    by fastforce
  have octet: "mode_is_netascii ''octet'' = False" by code_simp
  have ok: "completed_successfully told"
    using f s(2) by (auto simp: finish_download_def octet write_entire_file_def plain_file_system_def)
  have "contents ?fs ''/srv/f'' = Some sample_payload" by (simp add: plain_file_system_def)
  from completed_download_judged_match [OF this _ _ sample_setup sample_end_reached(1) s f ok]
  show ?thesis using f s(1) by (simp add: octet)
qed

section \<open>The scorecard of a run\<close>

text \<open>The scorecard of the store in memory agrees with the summary as well.\<close>

lemma scorecard_agrees_with_summary:
  "tells_run (analyze (run_store (run_suite w opts))) (summary (run_suite w opts))"
  unfolding run_suite_def run_tests_recorded(2)
  using suite_records_consistent by (intro tells_run_records) (auto simp: run_tests_recorded(1))

lemma first_capability:
  "list_all (\<lambda>(t, body). required_capabilities t \<noteq> [] \<and> hd (required_capabilities t) \<in> {rrq, wrq}) build_test_registry"
  by (simp add: suite)

lemma first_capabilities:
  "set (map (\<lambda>(t, body). hd (required_capabilities t)) build_test_registry) = {rrq, wrq}"
  by (simp add: suite insert_commute)

lemma nothing_supported_records:
  assumes "\<And>cap. \<not> both_support w cap" and "id_filter opts = []"
  shows "suite_records w opts build_test_registry =
    map (\<lambda>(t, body). skipped_record w t (hd (required_capabilities t))) build_test_registry"
proof -
  have "missing_capability w t = Some (hd (required_capabilities t))" if "required_capabilities t \<noteq> []" for t
    using that assms(1) by (cases "required_capabilities t") (simp_all add: missing_capability_def)
  then have "test_records w (context_of w opts) x = [(\<lambda>(t, body). skipped_record w t (hd (required_capabilities t))) x]"
    if "x \<in> set build_test_registry" for x
    using that first_capability by (auto simp: test_records_def list_all_iff)
  then have "concat (map (test_records w (context_of w opts)) build_test_registry) =
      concat (map (\<lambda>x. [(\<lambda>(t, body). skipped_record w t (hd (required_capabilities t))) x]) build_test_registry)"
    by (metis (no_types, lifting) map_eq_conv)
  then show ?thesis using assms(2) by (simp add: suite_records_def selected_def o_def)
qed

text \<open>
  The capability matrix of a report can be wrong: a skipped record names only the first capability
  that is missing, and the matrix calls every capability supported that no record names. For an
  implementation that supports nothing at all, the report of the full suite says it supports netascii,
  option negotiation and all four options.
\<close>
lemma unsupported_capabilities_reported_supported:
  assumes "\<And>cap. \<not> both_support w cap" and "id_filter opts = []"
  shows "capability_supported (analyze (run_store (run_suite w opts))) =
    [(''rfc1350_netascii'', True), (''rfc1350_rrq'', False), (''rfc1350_wrq'', False),
     (''rfc2347_option_negotiation'', True), (''rfc2348_blksize'', True), (''rfc2349_timeout'', True),
     (''rfc2349_tsize'', True), (''rfc7440_windowsize'', True)]"
proof -
  let ?rs = "suite_records w opts build_test_registry"
  let ?named = "\<lambda>name. list_ex (\<lambda>r. record_outcome r = Skipped \<and> contains_text name (record_narrative r)) ?rs"
  let ?caps = "map (\<lambda>(t, body). hd (required_capabilities t)) build_test_registry"
  have "?named name \<longleftrightarrow> list_ex (\<lambda>cap. contains_text name (skip_narrative cap)) ?caps" for name
    by (simp add: nothing_supported_records [OF assms] list_ex_iff skipped_record_def split_beta)
  then have "?named name \<longleftrightarrow> (\<exists>cap \<in> {rrq, wrq}. contains_text name (skip_narrative cap))" for name
    unfolding list_ex_iff first_capabilities .
  then have named: "?named name \<longleftrightarrow> contains_text name (skip_narrative rrq) \<or> contains_text name (skip_narrative wrq)"
    for name by simp
  have "capability_supported (analyze (run_store (run_suite w opts))) =
      map (\<lambda>(name, label). (name, \<not> ?named name)) capability_labels"
    by (simp add: analyze_def Let_def case_prod_beta capability_matrix_eq run_suite_def run_tests_recorded(1))
  then show ?thesis unfolding named by (simp add: capability_labels_def skip_narrative_def rrq_def wrq_def)
qed

lemma unsupported_capabilities_reported_supported_witness:
  "(''rfc2348_blksize'', True) \<in>
     set (capability_supported (analyze (run_store (run_suite idle_world default_runner_options))))"
  using unsupported_capabilities_reported_supported [of idle_world default_runner_options]
  by (simp add: both_support_def idle_world_def default_runner_options_def)

end
